(* ===== verification/Prelude.thy ===== *)
theory Prelude
  imports Main
begin

text \<open>
  Shared ground of the development: the collections of simplification rules that the
  component theories fill, the stream of values an external source (clock, identifier
  generator, remote service) delivers, and the list facts used by more than one component.
\<close>

named_theorems go_simps \<open>evaluation rules of the modelled Go standard library\<close>
named_theorems store_simps \<open>evaluation rules of statements on the store\<close>
named_theorems lease_simps \<open>evaluation rules of the lease statements\<close>

section \<open>Streams of external values\<close>

text \<open>A stream is read at its head; reading consumes the head.\<close>

type_synonym 'a stream = "nat \<Rightarrow> 'a"

definition advance :: "'a stream \<Rightarrow> 'a stream" where
  "advance f = (\<lambda>n. f (Suc n))"

lemma advance_apply [simp]: "advance f n = f (Suc n)"
  by (simp add: advance_def)

lemma advance_const [simp]: "advance (\<lambda>_. c) = (\<lambda>_. c)"
  by (simp add: advance_def)

section \<open>Lists\<close>

lemma filter_map_idle:
  assumes "\<And>x. x \<in> set xs \<Longrightarrow> P x \<Longrightarrow> f x = x"
    and "\<And>x. x \<in> set xs \<Longrightarrow> P (f x) = P x"
  shows "filter P (map f xs) = filter P xs"
  using assms by (induction xs) auto

text \<open>Updating every element that satisfies a condition: the shape of a SQL UPDATE.\<close>

definition update_where :: "('a \<Rightarrow> bool) \<Rightarrow> ('a \<Rightarrow> 'a) \<Rightarrow> 'a list \<Rightarrow> 'a list" where
  "update_where P f = map (\<lambda>x. if P x then f x else x)"

definition count_where :: "('a \<Rightarrow> bool) \<Rightarrow> 'a list \<Rightarrow> nat" where
  "count_where P xs = length (filter P xs)"

lemma update_where_Nil [simp]: "update_where P f [] = []"
  by (simp add: update_where_def)

lemma update_where_Cons [simp]:
  "update_where P f (x # xs) = (if P x then f x else x) # update_where P f xs"
  by (simp add: update_where_def)

lemma length_update_where [simp]: "length (update_where P f xs) = length xs"
  by (simp add: update_where_def)

lemma update_where_none: "\<forall>x \<in> set xs. \<not> P x \<Longrightarrow> update_where P f xs = xs"
  by (induction xs) auto

lemma set_update_where: "set (update_where P f xs) = (\<lambda>x. if P x then f x else x) ` set xs"
  by (simp add: update_where_def)

lemma map_update_where:
  "(\<And>x. P x \<Longrightarrow> g (f x) = g x) \<Longrightarrow> map g (update_where P f xs) = map g xs"
  by (induction xs) auto

lemma count_where_0 [simp]: "count_where P xs = 0 \<longleftrightarrow> (\<forall>x \<in> set xs. \<not> P x)"
  by (simp add: count_where_def filter_empty_conv)

lemma count_where_Cons [simp]:
  "count_where P (x # xs) = (if P x then Suc (count_where P xs) else count_where P xs)"
  by (simp add: count_where_def)

lemma count_where_Nil [simp]: "count_where P [] = 0"
  by (simp add: count_where_def)

text \<open>Rows of a table carry distinct keys: a key determines its row.\<close>

lemma distinct_key_unique:
  "distinct (map k xs) \<Longrightarrow> x \<in> set xs \<Longrightarrow> y \<in> set xs \<Longrightarrow> k x = k y \<Longrightarrow> x = y"
  by (auto simp: distinct_map dest: inj_onD)

lemma find_key:
  assumes "distinct (map k xs)" and "x \<in> set xs"
  shows "List.find (\<lambda>y. k y = k x) xs = Some x"
  using assms by (induction xs) (auto simp: rev_image_eqI)

lemma find_None_key: "List.find (\<lambda>y. k y = a) xs = None \<longleftrightarrow> a \<notin> k ` set xs"
  by (auto simp: find_None_iff)

lemma find_SomeD: "List.find P xs = Some x \<Longrightarrow> x \<in> set xs \<and> P x"
  by (auto simp: find_Some_iff)

lemma count_key_le_1: "distinct (map k xs) \<Longrightarrow> count_where (\<lambda>x. k x = a) xs \<le> 1"
  by (induction xs) (auto simp: rev_image_eqI split: if_splits)

end
