(* ===== verification/Go_Base.thy ===== *)
theory Go_Base
  imports Prelude "HOL-Library.Word" "HOL-Library.Char_ord"
begin

text \<open>
  The parts of Go and of its standard library that the program leans on: instants and
  durations, byte strings (\<open>strings\<close>, \<open>encoding/base64\<close>) and error chains
  (\<open>errors.Is\<close>, \<open>errors.As\<close>, \<open>fmt.Errorf\<close> with \<open>%w\<close>).
\<close>

section \<open>Instants and durations\<close>

text \<open>
  A \<open>time.Time\<close> is the number of nanoseconds since the Unix epoch; a \<open>time.Duration\<close> is
  an \<open>int64\<close> count of nanoseconds and wraps around, so it is a 64-bit word read with
  \<open>sint\<close>.
\<close>

type_synonym time = int
type_synonym duration = "64 word"

abbreviation second :: int where "second \<equiv> 1000000000"

text \<open>\<open>time.Time{}\<close>, year 1: the only instant for which \<open>IsZero\<close> holds.\<close>

definition zero_time :: time where
  "zero_time = - 62135596800 * second"

definition time_add :: "time \<Rightarrow> duration \<Rightarrow> time" where
  "time_add t d = t + sint d"

text \<open>\<open>Time.Sub\<close> saturates at the ends of the \<open>int64\<close> range.\<close>

definition time_sub :: "time \<Rightarrow> time \<Rightarrow> int" where
  "time_sub a b = max (- (2 ^ 63)) (min (2 ^ 63 - 1) (a - b))"

text \<open>\<open>Duration.Microseconds\<close> truncates towards zero.\<close>

definition microseconds :: "duration \<Rightarrow> int" where
  "microseconds d = sgn (sint d) * (\<bar>sint d\<bar> div 1000)"

text \<open>The SQL term \<open>($1::bigint || ' microseconds')::interval\<close> in nanoseconds.\<close>

definition sql_interval :: "duration \<Rightarrow> int" where
  "sql_interval d = 1000 * microseconds d"

lemma sql_interval_le: "0 \<le> sint d \<Longrightarrow> sql_interval d \<le> sint d"
  unfolding sql_interval_def microseconds_def
  by (cases "sint d = 0") (auto simp: sgn_if)

lemma sql_interval_nonneg: "0 \<le> sint d \<Longrightarrow> 0 \<le> sql_interval d"
  unfolding sql_interval_def microseconds_def by (auto simp: sgn_if)

section \<open>Byte strings\<close>

text \<open>
  A Go string is a sequence of bytes, as the type \<^typ>\<open>string\<close> is.
  \<open>unicode.IsSpace\<close> holds for the runes below, given by their UTF-8 encodings.
\<close>

definition space_runes :: "string list" where
  "space_runes =
     [[CHR 0x09], [CHR 0x0A], [CHR 0x0B], [CHR 0x0C], [CHR 0x0D], [CHR 0x20],
      [CHR 0xC2, CHR 0x85], [CHR 0xC2, CHR 0xA0], [CHR 0xE1, CHR 0x9A, CHR 0x80],
      [CHR 0xE2, CHR 0x80, CHR 0x80], [CHR 0xE2, CHR 0x80, CHR 0x81],
      [CHR 0xE2, CHR 0x80, CHR 0x82], [CHR 0xE2, CHR 0x80, CHR 0x83],
      [CHR 0xE2, CHR 0x80, CHR 0x84], [CHR 0xE2, CHR 0x80, CHR 0x85],
      [CHR 0xE2, CHR 0x80, CHR 0x86], [CHR 0xE2, CHR 0x80, CHR 0x87],
      [CHR 0xE2, CHR 0x80, CHR 0x88], [CHR 0xE2, CHR 0x80, CHR 0x89],
      [CHR 0xE2, CHR 0x80, CHR 0x8A], [CHR 0xE2, CHR 0x80, CHR 0xA8],
      [CHR 0xE2, CHR 0x80, CHR 0xA9], [CHR 0xE2, CHR 0x80, CHR 0xAF],
      [CHR 0xE2, CHR 0x81, CHR 0x9F], [CHR 0xE3, CHR 0x80, CHR 0x80]]"

fun strip_any :: "string list \<Rightarrow> string \<Rightarrow> string option" where
  "strip_any [] s = None"
| "strip_any (p # ps) s =
     (if p \<noteq> [] \<and> take (length p) s = p then Some (drop (length p) s) else strip_any ps s)"

lemma strip_any_shorter: "strip_any ps s = Some r \<Longrightarrow> length r < length s"
proof (induction ps)
  case (Cons p ps)
  show ?case
  proof (cases "p \<noteq> [] \<and> take (length p) s = p")
    case True
    then have "length p \<le> length s" by (metis length_take min.cobounded1)
    from True Cons.prems have "r = drop (length p) s" by simp
    then have "length r = length s - length p" by simp
    moreover from True have "0 < length p" by simp
    ultimately show ?thesis using \<open>length p \<le> length s\<close> by linarith
  next
    case False
    with Cons show ?thesis by auto
  qed
qed simp

lemma strip_any_suffix: "strip_any ps s = Some r \<Longrightarrow> \<exists>p. s = p @ r"
  by (induction ps) (auto split: if_splits, metis append_take_drop_id)

text \<open>\<open>strings.TrimSpace\<close>: strip space runes from both ends.\<close>

function trim_with :: "string list \<Rightarrow> string \<Rightarrow> string" where
  "trim_with ps s = (case strip_any ps s of None \<Rightarrow> s | Some r \<Rightarrow> trim_with ps r)"
  by pat_completeness auto
termination
  by (relation "measure (\<lambda>(ps, s). length s)") (auto dest: strip_any_shorter)

declare trim_with.simps [simp del]

definition trim_space :: "string \<Rightarrow> string" where
  "trim_space s =
     (let l = trim_with space_runes s
      in rev (trim_with (map rev space_runes) (rev l)))"

lemma trim_with_suffix: "\<exists>p. s = p @ trim_with ps s"
proof (induction ps s rule: trim_with.induct)
  case (1 ps s)
  show ?case
  proof (cases "strip_any ps s")
    case None
    then show ?thesis by (subst trim_with.simps) simp
  next
    case (Some r)
    with 1 obtain p where "r = p @ trim_with ps r" by blast
    moreover from Some obtain q where "s = q @ r" using strip_any_suffix by blast
    ultimately have "s = (q @ p) @ trim_with ps r" by simp
    with Some show ?thesis by (subst trim_with.simps) auto
  qed
qed

lemma length_trim_with: "length (trim_with ps s) \<le> length s"
  using trim_with_suffix [of s ps] by (metis length_append le_add2)

lemma length_trim_space: "length (trim_space s) \<le> length s"
  by (simp add: trim_space_def Let_def)
    (metis length_rev length_trim_with le_trans)

lemma trim_space_Nil [simp]: "trim_space [] = []"
  using length_trim_space [of "[]"] by simp

text \<open>\<open>strings.Fields\<close>: maximal runs of runes that are not space.\<close>

function fields_from :: "string \<Rightarrow> string \<Rightarrow> string list" where
  "fields_from cur s =
     (if s = [] then (if cur = [] then [] else [rev cur])
      else case strip_any space_runes s of
             Some r \<Rightarrow> (if cur = [] then fields_from [] r else rev cur # fields_from [] r)
           | None \<Rightarrow> fields_from (hd s # cur) (tl s))"
  by pat_completeness auto
termination
  by (relation "measure (\<lambda>(cur, s). length s)") (auto dest: strip_any_shorter)

declare fields_from.simps [simp del]

definition fields :: "string \<Rightarrow> string list" where
  "fields s = fields_from [] s"

text \<open>\<open>strings.Split\<close> at a one-byte separator and \<open>strings.Join\<close>.\<close>

fun split_at :: "char \<Rightarrow> string \<Rightarrow> string list" where
  "split_at c [] = [[]]"
| "split_at c (x # xs) =
     (if x = c then [] # split_at c xs
      else case split_at c xs of [] \<Rightarrow> [[x]] | p # ps \<Rightarrow> (x # p) # ps)"

fun join :: "string \<Rightarrow> string list \<Rightarrow> string" where
  "join sep [] = []"
| "join sep [x] = x"
| "join sep (x # y # ys) = x @ sep @ join sep (y # ys)"

lemma split_at_no_sep: "c \<notin> set s \<Longrightarrow> split_at c s = [s]"
  by (induction s) auto

lemma split_at_append: "c \<notin> set s \<Longrightarrow> split_at c (s @ c # t) = s # split_at c t"
  by (induction s) auto

text \<open>Decimal text: \<open>%d\<close>, \<open>strconv.Itoa\<close> and its inverse.\<close>

definition digit_char :: "nat \<Rightarrow> char" where
  "digit_char d = char_of (48 + d)"

fun nat_text :: "nat \<Rightarrow> string" where
  "nat_text n = (if n < 10 then [digit_char n] else nat_text (n div 10) @ [digit_char (n mod 10)])"

declare nat_text.simps [simp del]

definition itoa :: "int \<Rightarrow> string" where
  "itoa i = (if i < 0 then CHR ''-'' # nat_text (nat (- i)) else nat_text (nat i))"

definition is_digit :: "char \<Rightarrow> bool" where
  "is_digit c = (48 \<le> (of_char c :: nat) \<and> (of_char c :: nat) < 58)"

definition digit_value :: "char \<Rightarrow> nat" where
  "digit_value c = of_char c - 48"

definition text_nat :: "string \<Rightarrow> nat option" where
  "text_nat s =
     (if s \<noteq> [] \<and> list_all is_digit s
      then Some (foldl (\<lambda>a c. 10 * a + digit_value c) 0 s) else None)"

fun atoi :: "string \<Rightarrow> int option" where
  "atoi [] = None"
| "atoi (c # cs) =
     (if c = CHR ''-'' then map_option (\<lambda>n. - int n) (text_nat cs)
      else map_option int (text_nat (c # cs)))"

lemma of_char_digit_char: "d < 10 \<Longrightarrow> (of_char (digit_char d) :: nat) = 48 + d"
  by (simp add: digit_char_def)

lemma is_digit_digit_char: "d < 10 \<Longrightarrow> is_digit (digit_char d)"
  by (simp add: is_digit_def of_char_digit_char)

lemma digit_value_digit_char: "d < 10 \<Longrightarrow> digit_value (digit_char d) = d"
  by (simp add: digit_value_def of_char_digit_char)

lemma nat_text_digits: "nat_text n \<noteq> [] \<and> list_all is_digit (nat_text n)"
proof (induction n rule: nat_text.induct)
  case (1 n)
  then show ?case
    by (subst (1 2) nat_text.simps) (auto simp: is_digit_digit_char)
qed

lemma foldl_nat_text: "foldl (\<lambda>a c. 10 * a + digit_value c) 0 (nat_text n) = n"
proof (induction n rule: nat_text.induct)
  case (1 n)
  then show ?case
    by (subst nat_text.simps) (auto simp: digit_value_digit_char)
qed

lemma text_nat_nat_text [simp]: "text_nat (nat_text n) = Some n"
  using nat_text_digits by (simp add: text_nat_def foldl_nat_text)

lemma minus_not_digit: "\<not> is_digit (CHR ''-'')"
  by (simp add: is_digit_def)

lemma atoi_itoa [simp]: "atoi (itoa i) = Some i"
proof (cases "i < 0")
  case True
  then show ?thesis by (simp add: itoa_def)
next
  case False
  obtain c cs where c: "nat_text (nat i) = c # cs"
    using nat_text_digits by (cases "nat_text (nat i)") auto
  with nat_text_digits [of "nat i"] have "is_digit c" by simp
  with minus_not_digit have "c \<noteq> CHR ''-''" by metis
  with False c show ?thesis by (simp add: itoa_def) (metis c option.map(2) text_nat_nat_text nat_0_le not_less)
qed

text \<open>
  \<open>%q\<close> on a printable string: quotes and backslashes are escaped, control bytes are
  written in hexadecimal; bytes above 0x7F (parts of printable runes) stay as they are.
\<close>

definition hex_digit :: "nat \<Rightarrow> char" where
  "hex_digit d = (if d < 10 then char_of (48 + d) else char_of (87 + d))"

definition quote_char :: "char \<Rightarrow> string" where
  "quote_char c =
     (let n = (of_char c :: nat) in
      if c = CHR 0x22 \<or> c = CHR 0x5C then [CHR 0x5C, c]
      else if n = 7 then [CHR 0x5C, CHR ''a''] else if n = 8 then [CHR 0x5C, CHR ''b'']
      else if n = 9 then [CHR 0x5C, CHR ''t''] else if n = 10 then [CHR 0x5C, CHR ''n'']
      else if n = 11 then [CHR 0x5C, CHR ''v''] else if n = 12 then [CHR 0x5C, CHR ''f'']
      else if n = 13 then [CHR 0x5C, CHR ''r'']
      else if n < 32 \<or> n = 127 then [CHR 0x5C, CHR ''x'', hex_digit (n div 16), hex_digit (n mod 16)]
      else [c])"

definition quote :: "string \<Rightarrow> string" where
  "quote s = CHR 0x22 # concat (map quote_char s) @ [CHR 0x22]"

end
