(* ===== verification/Errors.thy ===== *)
theory Errors
  imports Go_Base
begin

text \<open>
  Go error values. A sentinel is a package-level \<open>errors.New\<close>; \<open>fmt.Errorf\<close> with one or
  two \<open>%w\<close> verbs is a node with the wrapped errors below it. \<open>errors.Is\<close> searches the tree
  for a sentinel, \<open>errors.As\<close> for a PostgreSQL error. The errors of the generated \<open>ent\<close>
  client and of the PostgreSQL driver are leaves.
\<close>

datatype sentinel =
    ErrSourceNotFound | ErrInvalidSourceType | ErrInvalidConfig | ErrTypeImmutable
  | ErrPostNotFound | ErrPostInvalidArgument | ErrPostSourceNotFound | ErrPostAlreadyExists
  | ErrSummaryNotFound | ErrSummaryEventNotFound | ErrSummaryAlreadyProcessing
  | ErrSummarizeSelfContainedSrc | ErrSummaryValidation | ErrLeaseLost | ErrNoEventAvailable
  | ErrNoSourceDue | ErrSummaryEventExpired | ErrSummarySourceNoPosts
  | ErrUnknownSummaryPromptMode
  | ErrInterestNotFound | ErrInterestValidation
  | ErrPostEmbeddingNotFound | ErrScoreValidation
  | ErrScoreEventNotFound | ErrNoScoreEventAvailable
  | ErrInvalidSignal | ErrInvalidThreshold | ErrTelegramNotAuthorized
  | ContextCanceled | ContextDeadlineExceeded | SqlErrNoRows | SqlErrTxDone

datatype error =
    Sentinel sentinel
  | Text string
  | Pq string string
  | EntNotFound string
  | EntNotSingular string
  | Wrap string error string
  | Wrap2 string error string error string

fun errors_is :: "error \<Rightarrow> sentinel \<Rightarrow> bool" where
  "errors_is (Sentinel s) t = (s = t)"
| "errors_is (Wrap _ e _) t = errors_is e t"
| "errors_is (Wrap2 _ e _ f _) t = (errors_is e t \<or> errors_is f t)"
| "errors_is (Text _) t = False"
| "errors_is (Pq _ _) t = False"
| "errors_is (EntNotFound _) t = False"
| "errors_is (EntNotSingular _) t = False"

text \<open>\<open>errors.As(err, &pqErr)\<close>: the code of the first driver error in the tree.\<close>

fun pq_code :: "error \<Rightarrow> string option" where
  "pq_code (Pq code _) = Some code"
| "pq_code (Wrap _ e _) = pq_code e"
| "pq_code (Wrap2 _ e _ f _) = (case pq_code e of Some c \<Rightarrow> Some c | None \<Rightarrow> pq_code f)"
| "pq_code (Sentinel _) = None"
| "pq_code (Text _) = None"
| "pq_code (EntNotFound _) = None"
| "pq_code (EntNotSingular _) = None"

text \<open>\<open>ent.IsNotFound\<close>.\<close>

fun ent_is_not_found :: "error \<Rightarrow> bool" where
  "ent_is_not_found (EntNotFound _) = True"
| "ent_is_not_found (Wrap _ e _) = ent_is_not_found e"
| "ent_is_not_found (Wrap2 _ e _ f _) = (ent_is_not_found e \<or> ent_is_not_found f)"
| "ent_is_not_found (Sentinel _) = False"
| "ent_is_not_found (Text _) = False"
| "ent_is_not_found (Pq _ _) = False"
| "ent_is_not_found (EntNotSingular _) = False"

fun sentinel_text :: "sentinel \<Rightarrow> string" where
  "sentinel_text ErrSourceNotFound = ''source not found''"
| "sentinel_text ErrInvalidSourceType = ''invalid source type''"
| "sentinel_text ErrInvalidConfig = ''invalid config''"
| "sentinel_text ErrTypeImmutable = ''source type cannot be changed''"
| "sentinel_text ErrPostNotFound = ''post not found''"
| "sentinel_text ErrPostInvalidArgument = ''post invalid argument''"
| "sentinel_text ErrPostSourceNotFound = ''post source not found''"
| "sentinel_text ErrPostAlreadyExists = ''post already exists''"
| "sentinel_text ErrSummaryNotFound = ''summary not found''"
| "sentinel_text ErrSummaryEventNotFound = ''summary event not found''"
| "sentinel_text ErrSummaryAlreadyProcessing = ''summary already processing''"
| "sentinel_text ErrSummarizeSelfContainedSrc = ''cannot summarize self-contained source''"
| "sentinel_text ErrSummaryValidation = ''summary validation failed''"
| "sentinel_text ErrLeaseLost = ''lease lost''"
| "sentinel_text ErrNoEventAvailable = ''no event available''"
| "sentinel_text ErrNoSourceDue = ''no source due''"
| "sentinel_text ErrSummaryEventExpired = ''summary event expired''"
| "sentinel_text ErrSummarySourceNoPosts = ''summary source has no new posts''"
| "sentinel_text ErrUnknownSummaryPromptMode = ''biz: unknown summary prompt mode''"
| "sentinel_text ErrInterestNotFound = ''interest not found''"
| "sentinel_text ErrInterestValidation = ''interest validation failed''"
| "sentinel_text ErrPostEmbeddingNotFound = ''post embedding not found''"
| "sentinel_text ErrScoreValidation = ''score validation failed''"
| "sentinel_text ErrScoreEventNotFound = ''score event not found''"
| "sentinel_text ErrNoScoreEventAvailable = ''no score event available''"
| "sentinel_text ErrInvalidSignal = ''invalid reaction signal''"
| "sentinel_text ErrInvalidThreshold = ''invalid score threshold''"
| "sentinel_text ErrTelegramNotAuthorized = ''telegram session not authorized''"
| "sentinel_text ContextCanceled = ''context canceled''"
| "sentinel_text ContextDeadlineExceeded = ''context deadline exceeded''"
| "sentinel_text SqlErrNoRows = ''sql: no rows in result set''"
| "sentinel_text SqlErrTxDone = ''sql: transaction has already been committed or rolled back''"

fun error_text :: "error \<Rightarrow> string" where
  "error_text (Sentinel s) = sentinel_text s"
| "error_text (Text t) = t"
| "error_text (Pq _ msg) = ''pq: '' @ msg"
| "error_text (EntNotFound label) = ''ent: '' @ label @ '' not found''"
| "error_text (EntNotSingular label) = ''ent: '' @ label @ '' not singular''"
| "error_text (Wrap a e b) = a @ error_text e @ b"
| "error_text (Wrap2 a e b f c) = a @ error_text e @ b @ error_text f @ c"

text \<open>The shapes of \<open>fmt.Errorf\<close> the code uses: \<open>"ctx: %w"\<close> and \<open>"%w: detail"\<close>.\<close>

definition errorf_ctx :: "string \<Rightarrow> error \<Rightarrow> error" where
  "errorf_ctx ctx e = Wrap (ctx @ '': '') e []"

definition errorf_detail :: "sentinel \<Rightarrow> string \<Rightarrow> error" where
  "errorf_detail s d = Wrap [] (Sentinel s) ('': '' @ d)"

lemma errors_is_errorf_ctx [simp]: "errors_is (errorf_ctx c e) s = errors_is e s"
  by (simp add: errorf_ctx_def)

lemma errors_is_errorf_detail [simp]: "errors_is (errorf_detail s d) t = (s = t)"
  by (simp add: errorf_detail_def)

lemma pq_code_errorf_ctx [simp]: "pq_code (errorf_ctx c e) = pq_code e"
  by (simp add: errorf_ctx_def)

lemma pq_code_errorf_detail [simp]: "pq_code (errorf_detail s d) = None"
  by (simp add: errorf_detail_def)

lemma ent_is_not_found_errorf_ctx [simp]: "ent_is_not_found (errorf_ctx c e) = ent_is_not_found e"
  by (simp add: errorf_ctx_def)

text \<open>A result in the style of Go's \<open>(value, error)\<close> pairs.\<close>

type_synonym 'a result = "error + 'a"

text \<open>A function that may panic as well as return.\<close>

datatype 'a outcome = Panics string | Returns 'a

end
