(* ===== verification/Domain.thy ===== *)
theory Domain
  imports Errors
begin

text \<open>
  The domain types of \<open>internal/biz\<close> and their validation. Names follow the Go source;
  a string-typed enumeration is a datatype with one constructor for any other string. The
  record \<open>ext\<close> collects the functions of other packages that the code calls
  (\<open>uuid.Parse\<close>, \<open>UUID.String\<close>, \<open>url.ParseRequestURI\<close>, \<open>time.Format\<close> and \<open>time.Parse\<close>
  with \<open>RFC3339Nano\<close>); \<open>ext_laws\<close> states what the code relies on.
\<close>

section \<open>Functions of other packages\<close>

type_synonym uuid = "128 word"

record ext =
  parse_uuid :: "string \<Rightarrow> uuid option"
  uuid_string :: "uuid \<Rightarrow> string"
  parse_request_uri :: "string \<Rightarrow> error option"
  format_time :: "time \<Rightarrow> string"
  parse_time :: "string \<Rightarrow> time option"

text \<open>
  Documented behaviour: a canonical UUID text parses back to its UUID, an instant written
  with \<open>RFC3339Nano\<close> parses back to the same instant, and neither text contains a bar.
\<close>

definition ext_laws :: "ext \<Rightarrow> bool" where
  "ext_laws E \<longleftrightarrow>
     (\<forall>u. parse_uuid E (uuid_string E u) = Some u) \<and>
     (\<forall>t. parse_time E (format_time E t) = Some t) \<and>
     (\<forall>u. CHR ''|'' \<notin> set (uuid_string E u) \<and> uuid_string E u \<noteq> []) \<and>
     (\<forall>t. CHR ''|'' \<notin> set (format_time E t))"

lemma ext_lawsD:
  assumes "ext_laws E"
  shows "parse_uuid E (uuid_string E u) = Some u"
    and "parse_time E (format_time E t) = Some t"
    and "CHR ''|'' \<notin> set (uuid_string E u)"
    and "uuid_string E u \<noteq> []"
    and "CHR ''|'' \<notin> set (format_time E t)"
  using assms by (auto simp: ext_laws_def)

lemma uuid_string_inject: "ext_laws E \<Longrightarrow> uuid_string E u = uuid_string E v \<longleftrightarrow> u = v"
  by (metis ext_lawsD(1) option.inject)

text \<open>\<open>uuid.Parse\<close> with the error wrapped as the repositories do, \<open>"<label>: %w"\<close>.\<close>

definition parse_id :: "ext \<Rightarrow> string \<Rightarrow> string \<Rightarrow> error + uuid" where
  "parse_id E label s =
     (case parse_uuid E s of
        None \<Rightarrow> Inl (errorf_ctx label (Text ''invalid UUID''))
      | Some u \<Rightarrow> Inr u)"

lemma parse_id_uuid_string [simp]: "ext_laws E \<Longrightarrow> parse_id E l (uuid_string E u) = Inr u"
  by (simp add: parse_id_def ext_lawsD)

text \<open>An instance: identifiers and instants written in decimal.\<close>

definition decimal_ext :: ext where
  "decimal_ext =
     \<lparr>parse_uuid = (\<lambda>s. map_option word_of_int (atoi s)), uuid_string = (\<lambda>u. itoa (uint u)),
      parse_request_uri = (\<lambda>_. None),
      format_time = itoa, parse_time = atoi\<rparr>"

lemma bar_not_in_itoa: "CHR ''|'' \<notin> set (itoa i)"
proof -
  have "CHR ''|'' \<notin> set (nat_text n)" for n
    using nat_text_digits [of n] by (auto simp: list_all_iff is_digit_def)
  then show ?thesis by (simp add: itoa_def)
qed

lemma itoa_nonempty: "itoa i \<noteq> []"
  using nat_text_digits by (simp add: itoa_def)

lemma decimal_ext_laws [simp]: "ext_laws decimal_ext"
  by (simp add: ext_laws_def decimal_ext_def bar_not_in_itoa itoa_nonempty)

section \<open>Sources\<close>

datatype SourceType =
    SourceTypeTelegramChannel | SourceTypeTelegramGroup | SourceTypeRSS | SourceTypeHTML
  | SourceTypeOther string

datatype ProcessingMode =
    ProcessingModeSelfContained | ProcessingModeCumulative | ProcessingModeOther string

fun source_type_text :: "SourceType \<Rightarrow> string" where
  "source_type_text SourceTypeTelegramChannel = ''telegram_channel''"
| "source_type_text SourceTypeTelegramGroup = ''telegram_group''"
| "source_type_text SourceTypeRSS = ''rss''"
| "source_type_text SourceTypeHTML = ''html''"
| "source_type_text (SourceTypeOther s) = s"

fun processing_mode_text :: "ProcessingMode \<Rightarrow> string" where
  "processing_mode_text ProcessingModeSelfContained = ''self_contained''"
| "processing_mode_text ProcessingModeCumulative = ''cumulative''"
| "processing_mode_text (ProcessingModeOther s) = s"

definition maxPageSize :: int where "maxPageSize = 500"
definition minPageSize :: int where "minPageSize = 1"

definition AllProcessingModes :: "ProcessingMode list" where
  "AllProcessingModes = [ProcessingModeSelfContained, ProcessingModeCumulative]"

text \<open>\<open>SourceConfig\<close> is a marker interface; a nil interface value is \<^const>\<open>None\<close>.\<close>

datatype SourceConfig =
    TelegramChannelConfig (TgID: "64 word") (Username: string)
  | TelegramGroupConfig (TgID: "64 word") (Username: string)
  | RSSConfig (FeedURL: string)
  | HTMLConfig (URL: string)

record Source =
  src_ID :: string
  src_Type :: SourceType
  src_ProcessingMode :: ProcessingMode
  src_Config :: "SourceConfig option"
  src_CreatedAt :: time
  src_UpdatedAt :: time

record ListSourcesFilter =
  lsf_Type :: SourceType
  lsf_PageSize :: int
  lsf_PageToken :: string
  lsf_ProcessingMode :: "ProcessingMode option"

record 'a page =
  Items :: "'a list"
  NextPageToken :: string

definition ValidateSourceType :: "SourceType \<Rightarrow> error option" where
  "ValidateSourceType t =
     (case t of
        SourceTypeTelegramChannel \<Rightarrow> None | SourceTypeTelegramGroup \<Rightarrow> None
      | SourceTypeRSS \<Rightarrow> None | SourceTypeHTML \<Rightarrow> None
      | SourceTypeOther _ \<Rightarrow> Some (Sentinel ErrInvalidSourceType))"

fun validateTelegramChannelConfig :: "SourceConfig \<Rightarrow> error option" where
  "validateTelegramChannelConfig (TelegramChannelConfig tg _) =
     (if tg = 0 then Some (errorf_detail ErrInvalidConfig ''tg_id cannot be 0'') else None)"
| "validateTelegramChannelConfig _ =
     Some (errorf_detail ErrInvalidConfig ''expected TelegramChannelConfig'')"

fun validateTelegramGroupConfig :: "SourceConfig \<Rightarrow> error option" where
  "validateTelegramGroupConfig (TelegramGroupConfig tg _) =
     (if tg = 0 then Some (errorf_detail ErrInvalidConfig ''tg_id cannot be 0'') else None)"
| "validateTelegramGroupConfig _ =
     Some (errorf_detail ErrInvalidConfig ''expected TelegramGroupConfig'')"

fun validateRSSConfig :: "ext \<Rightarrow> SourceConfig \<Rightarrow> error option" where
  "validateRSSConfig E (RSSConfig u) =
     (if u = [] then Some (errorf_detail ErrInvalidConfig ''feed_url is required'')
      else case parse_request_uri E u of
             Some e \<Rightarrow> Some (Wrap2 [] (Sentinel ErrInvalidConfig) '': feed_url is invalid URL: '' e [])
           | None \<Rightarrow> None)"
| "validateRSSConfig E _ = Some (errorf_detail ErrInvalidConfig ''expected RSSConfig'')"

fun validateHTMLConfig :: "ext \<Rightarrow> SourceConfig \<Rightarrow> error option" where
  "validateHTMLConfig E (HTMLConfig u) =
     (if u = [] then Some (errorf_detail ErrInvalidConfig ''url is required'')
      else case parse_request_uri E u of
             Some e \<Rightarrow> Some (Wrap2 [] (Sentinel ErrInvalidConfig) '': url is invalid URL: '' e [])
           | None \<Rightarrow> None)"
| "validateHTMLConfig E _ = Some (errorf_detail ErrInvalidConfig ''expected HTMLConfig'')"

definition ValidateSourceConfig :: "ext \<Rightarrow> SourceType \<Rightarrow> SourceConfig option \<Rightarrow> error option" where
  "ValidateSourceConfig E t cfg =
     (case cfg of
        None \<Rightarrow> Some (errorf_detail ErrInvalidConfig ''config is nil'')
      | Some c \<Rightarrow>
          (case t of
             SourceTypeTelegramChannel \<Rightarrow> validateTelegramChannelConfig c
           | SourceTypeTelegramGroup \<Rightarrow> validateTelegramGroupConfig c
           | SourceTypeRSS \<Rightarrow> validateRSSConfig E c
           | SourceTypeHTML \<Rightarrow> validateHTMLConfig E c
           | SourceTypeOther _ \<Rightarrow> Some (Sentinel ErrInvalidSourceType)))"

definition ProcessingModeForType :: "SourceType \<Rightarrow> ProcessingMode" where
  "ProcessingModeForType t =
     (case t of
        SourceTypeTelegramChannel \<Rightarrow> ProcessingModeSelfContained
      | SourceTypeRSS \<Rightarrow> ProcessingModeSelfContained
      | SourceTypeHTML \<Rightarrow> ProcessingModeSelfContained
      | SourceTypeTelegramGroup \<Rightarrow> ProcessingModeCumulative
      | SourceTypeOther _ \<Rightarrow> ProcessingModeSelfContained)"

text \<open>Which constructor each type calls for, and what a valid configuration looks like.\<close>

fun config_matches :: "SourceType \<Rightarrow> SourceConfig \<Rightarrow> bool" where
  "config_matches SourceTypeTelegramChannel (TelegramChannelConfig _ _) = True"
| "config_matches SourceTypeTelegramGroup (TelegramGroupConfig _ _) = True"
| "config_matches SourceTypeRSS (RSSConfig _) = True"
| "config_matches SourceTypeHTML (HTMLConfig _) = True"
| "config_matches _ _ = False"

lemma ValidateSourceType_None_iff:
  "ValidateSourceType t = None \<longleftrightarrow> (\<forall>s. t \<noteq> SourceTypeOther s)"
  by (cases t) (auto simp: ValidateSourceType_def)

lemma ValidateSourceConfig_matches:
  assumes "ValidateSourceConfig E t cfg = None"
  obtains c where "cfg = Some c" "config_matches t c"
proof (cases cfg)
  case (Some c)
  have "config_matches t c"
    using assms Some by (cases t; cases c) (auto simp: ValidateSourceConfig_def)
  with Some that show ?thesis by blast
qed (use assms in \<open>simp add: ValidateSourceConfig_def\<close>)

lemma ProcessingModeForType_cumulative [simp]:
  "ProcessingModeForType t = ProcessingModeCumulative \<longleftrightarrow> t = SourceTypeTelegramGroup"
  by (cases t) (auto simp: ProcessingModeForType_def)

lemma ProcessingModeForType_in_all: "ProcessingModeForType t \<in> set AllProcessingModes"
  by (cases t) (auto simp: ProcessingModeForType_def AllProcessingModes_def)

text \<open>Page sizes are clamped to \<open>[minPageSize, maxPageSize]\<close> by every \<open>List\<close> use case.\<close>

definition clamp_page_size :: "int \<Rightarrow> int" where
  "clamp_page_size n =
     (let n1 = (if n < minPageSize then minPageSize else n)
      in if n1 > maxPageSize then maxPageSize else n1)"

lemma clamp_page_size_bounds: "1 \<le> clamp_page_size n" "clamp_page_size n \<le> 500"
  by (auto simp: clamp_page_size_def minPageSize_def maxPageSize_def Let_def)

section \<open>Posts\<close>

record SourceInfo =
  si_ID :: string
  si_Type :: SourceType

type_synonym metadata = "(string \<times> string) list option"

record Post =
  post_ID :: string
  post_SourceID :: string
  post_Source :: SourceInfo
  post_ExternalID :: string
  post_PublishedAt :: time
  post_Author :: "string option"
  post_Text :: string
  post_Metadata :: metadata
  post_CreatedAt :: time
  post_UpdatedAt :: time

text \<open>\<open>SourceInfo{}\<close>, the zero value.\<close>

definition empty_source_info :: SourceInfo where
  "empty_source_info = \<lparr>si_ID = [], si_Type = SourceTypeOther []\<rparr>"

datatype SortField = SortByPublishedAt | SortByCreatedAt | SortFieldOther int
datatype SortDirection = SortDesc | SortAsc | SortDirectionOther int

record ListPostsFilter =
  lpf_SourceID :: string
  lpf_PageSize :: int
  lpf_PageToken :: string
  lpf_OrderBy :: SortField
  lpf_OrderDir :: SortDirection
  lpf_CreatedAfter :: "time option"
  lpf_CreatedBefore :: "time option"

definition ValidateCreatePost :: "ext \<Rightarrow> string \<Rightarrow> string \<Rightarrow> string \<Rightarrow> time \<Rightarrow> error option" where
  "ValidateCreatePost E sourceID externalID text publishedAt =
     (let invalid =
            (if parse_uuid E sourceID = None then [''source_id''] else []) @
            (if externalID = [] then [''external_id''] else []) @
            (if trim_space text = [] then [''text''] else []) @
            (if publishedAt = zero_time then [''published_at''] else [])
      in if invalid \<noteq> [] then Some (errorf_detail ErrPostInvalidArgument (join '', '' invalid)) else None)"

definition ValidateUpdatePost :: "string \<Rightarrow> string \<Rightarrow> time \<Rightarrow> error option" where
  "ValidateUpdatePost externalID text publishedAt =
     (let invalid =
            (if externalID = [] then [''external_id''] else []) @
            (if trim_space text = [] then [''text''] else []) @
            (if publishedAt = zero_time then [''published_at''] else [])
      in if invalid \<noteq> [] then Some (errorf_detail ErrPostInvalidArgument (join '', '' invalid)) else None)"

definition ValidateListPostsFilter :: "ext \<Rightarrow> ListPostsFilter \<Rightarrow> error option" where
  "ValidateListPostsFilter E f =
     (if lpf_OrderBy f \<noteq> SortByPublishedAt \<and> lpf_OrderBy f \<noteq> SortByCreatedAt
      then Some (errorf_detail ErrPostInvalidArgument ''invalid order_by'')
      else if lpf_OrderDir f \<noteq> SortDesc \<and> lpf_OrderDir f \<noteq> SortAsc
      then Some (errorf_detail ErrPostInvalidArgument ''invalid order_dir'')
      else if lpf_SourceID f \<noteq> [] \<and> parse_uuid E (lpf_SourceID f) = None
      then Some (errorf_detail ErrPostInvalidArgument ''invalid source_id'')
      else case (lpf_CreatedAfter f, lpf_CreatedBefore f) of
             (Some a, Some b) \<Rightarrow>
               (if a > b
                then Some (errorf_detail ErrPostInvalidArgument ''created_after must be before created_before'')
                else None)
           | _ \<Rightarrow> None)"

lemma ValidateCreatePost_None:
  "ValidateCreatePost E s x t p = None \<longleftrightarrow>
     parse_uuid E s \<noteq> None \<and> x \<noteq> [] \<and> trim_space t \<noteq> [] \<and> p \<noteq> zero_time"
  by (auto simp: ValidateCreatePost_def Let_def)

lemma ValidateUpdatePost_None:
  "ValidateUpdatePost x t p = None \<longleftrightarrow> x \<noteq> [] \<and> trim_space t \<noteq> [] \<and> p \<noteq> zero_time"
  by (auto simp: ValidateUpdatePost_def Let_def)

section \<open>Summaries and outbox events\<close>

datatype SummaryEventType = SummarizePost | SummarizeSource

text \<open>\<open>SummaryEventStatus\<close> and \<open>ScoreEventStatus\<close> have the same five values.\<close>

datatype EventStatus = Pending | Processing | Completed | Failed | Expired

definition active_status :: "EventStatus \<Rightarrow> bool" where
  "active_status s \<longleftrightarrow> s = Pending \<or> s = Processing"

definition terminal_status :: "EventStatus \<Rightarrow> bool" where
  "terminal_status s \<longleftrightarrow> s = Completed \<or> s = Failed \<or> s = Expired"

lemma terminal_not_active: "terminal_status s \<longleftrightarrow> \<not> active_status s"
  by (cases s) (auto simp: terminal_status_def active_status_def)

record Summary =
  sum_ID :: string
  sum_PostID :: "string option"
  sum_SourceID :: string
  sum_Text :: string
  sum_WordCount :: int
  sum_CreatedAt :: time

record SummaryEvent =
  se_ID :: string
  se_PostID :: "string option"
  se_SourceID :: string
  se_EventType :: SummaryEventType
  se_Status :: EventStatus
  se_SummaryID :: "string option"
  se_Error :: "string option"
  se_CreatedAt :: time
  se_ProcessedAt :: "time option"
  se_AttemptCount :: int

definition ValidateSummary :: "string \<Rightarrow> error option" where
  "ValidateSummary text =
     (if trim_space text = [] then Some (errorf_detail ErrSummaryValidation ''text is empty'') else None)"

record ScoreEvent =
  sc_ID :: string
  sc_PostID :: "string option"
  sc_SummaryID :: "string option"
  sc_Status :: EventStatus
  sc_Error :: "string option"
  sc_AttemptCount :: int
  sc_CreatedAt :: time
  sc_ProcessedAt :: "time option"

definition EntityID :: "ScoreEvent \<Rightarrow> string" where
  "EntityID e =
     (case sc_PostID e of Some p \<Rightarrow> p
      | None \<Rightarrow> (case sc_SummaryID e of Some s \<Rightarrow> s | None \<Rightarrow> []))"

section \<open>Interests, scores, feed\<close>

definition ValidateInterestTopic :: "string \<Rightarrow> error option" where
  "ValidateInterestTopic topic =
     (if trim_space topic = [] then Some (errorf_detail ErrInterestValidation ''topic is empty'') else None)"

text \<open>Exactly one of the two keys is set, by construction of the events.\<close>

record ScoreKey =
  sk_PostID :: "string option"
  sk_SummaryID :: "string option"

datatype FeedItemKind = FeedItemKindPost | FeedItemKindDigest

section \<open>Collected material\<close>

record CollectedItem =
  ci_ExternalID :: string
  ci_PublishedAt :: time
  ci_Author :: "string option"
  ci_Text :: string
  ci_Metadata :: metadata

text \<open>\<open>FilterTextItems\<close> appends the items with a non-blank text in order.\<close>

fun FilterTextItems :: "CollectedItem list \<Rightarrow> CollectedItem list" where
  "FilterTextItems [] = []"
| "FilterTextItems (i # is) =
     (if trim_space (ci_Text i) \<noteq> [] then i # FilterTextItems is else FilterTextItems is)"

lemma FilterTextItems_filter: "FilterTextItems is = filter (\<lambda>i. trim_space (ci_Text i) \<noteq> []) is"
  by (induction "is") auto

end
