(* ===== verification/Float64.thy ===== *)
theory Float64
  imports Prelude Complex_Main
begin

text \<open>
  Go's \<open>float64\<close>: IEEE 754 binary64 numbers as rationals with the three special values
  (both zeros are the rational 0: no code under consideration tells them apart). Every
  operation computes the exact result and rounds it to nearest, ties to even; the square
  root is rounded from an integer square root with a sticky bit.
\<close>

datatype float64 = Finite rat | PosInf | NegInf | NaN

section \<open>Rounding\<close>

fun bitlen :: "nat \<Rightarrow> nat" where
  "bitlen n = (if n = 0 then 0 else Suc (bitlen (n div 2)))"

declare bitlen.simps [simp del]

definition pow2 :: "int \<Rightarrow> rat" where
  "pow2 k = (if 0 \<le> k then 2 ^ nat k else 1 / 2 ^ nat (- k))"

lemma pow2_pos [simp]: "0 < pow2 k"
  by (simp add: pow2_def)

text \<open>\<open>floor (log2 a)\<close> of a positive rational.\<close>

definition floor_log2 :: "rat \<Rightarrow> int" where
  "floor_log2 a =
     (let (p, q) = quotient_of a;
          e = int (bitlen (nat p)) - int (bitlen (nat q))
      in if pow2 e \<le> a then e else e - 1)"

definition round_half_even :: "rat \<Rightarrow> int" where
  "round_half_even x =
     (let f = \<lfloor>x\<rfloor>; r = x - of_int f
      in if r < 1 / 2 then f else if r > 1 / 2 then f + 1
         else if even f then f else f + 1)"

definition rnd :: "rat \<Rightarrow> float64" where
  "rnd x =
     (if x = 0 then Finite 0
      else let a = \<bar>x\<bar>;
               k = max (floor_log2 a - 52) (- 1074);
               y = of_int (round_half_even (a / pow2 k)) * pow2 k
           in if y \<ge> pow2 1024 then (if x > 0 then PosInf else NegInf)
              else Finite (sgn x * y))"

section \<open>Arithmetic and comparison\<close>

fun fneg :: "float64 \<Rightarrow> float64" where
  "fneg (Finite x) = Finite (- x)"
| "fneg PosInf = NegInf"
| "fneg NegInf = PosInf"
| "fneg NaN = NaN"

fun fadd :: "float64 \<Rightarrow> float64 \<Rightarrow> float64" where
  "fadd (Finite x) (Finite y) = rnd (x + y)"
| "fadd NaN _ = NaN"
| "fadd _ NaN = NaN"
| "fadd PosInf NegInf = NaN"
| "fadd NegInf PosInf = NaN"
| "fadd PosInf _ = PosInf"
| "fadd _ PosInf = PosInf"
| "fadd NegInf _ = NegInf"
| "fadd _ NegInf = NegInf"

definition inf_of_sign :: "bool \<Rightarrow> float64" where
  "inf_of_sign pos = (if pos then PosInf else NegInf)"

fun fsign :: "float64 \<Rightarrow> int" where
  "fsign (Finite x) = (if x > 0 then 1 else if x < 0 then - 1 else 0)"
| "fsign PosInf = 1"
| "fsign NegInf = - 1"
| "fsign NaN = 0"

fun fmul :: "float64 \<Rightarrow> float64 \<Rightarrow> float64" where
  "fmul (Finite x) (Finite y) = rnd (x * y)"
| "fmul a b =
     (if a = NaN \<or> b = NaN \<or> fsign a = 0 \<or> fsign b = 0 then NaN
      else inf_of_sign (fsign a = fsign b))"

fun fdiv :: "float64 \<Rightarrow> float64 \<Rightarrow> float64" where
  "fdiv (Finite x) (Finite y) =
     (if y = 0 then (if x = 0 then NaN else inf_of_sign (x > 0)) else rnd (x / y))"
| "fdiv (Finite x) b = (if b = NaN then NaN else Finite 0)"
| "fdiv a (Finite y) = (if a = NaN then NaN else inf_of_sign ((fsign a = 1) = (y \<ge> 0)))"
| "fdiv _ _ = NaN"

text \<open>Go's \<open><\<close>: false as soon as an operand is NaN.\<close>

fun fless :: "float64 \<Rightarrow> float64 \<Rightarrow> bool" where
  "fless (Finite x) (Finite y) = (x < y)"
| "fless NaN _ = False"
| "fless _ NaN = False"
| "fless NegInf b = (b \<noteq> NegInf)"
| "fless _ NegInf = False"
| "fless a PosInf = (a \<noteq> PosInf)"
| "fless PosInf _ = False"

fun feq :: "float64 \<Rightarrow> float64 \<Rightarrow> bool" where
  "feq NaN _ = False"
| "feq a b = (a = b)"

section \<open>Square root\<close>

text \<open>Integer square root, one bit of the root per step.\<close>

fun isqrt :: "nat \<Rightarrow> nat" where
  "isqrt n =
     (if n = 0 then 0
      else let r = 2 * isqrt (n div 4) in if (r + 1) * (r + 1) \<le> n then r + 1 else r)"

declare isqrt.simps [simp del]

lemma isqrt_correct: "isqrt n * isqrt n \<le> n \<and> n < (isqrt n + 1) * (isqrt n + 1)"
proof (induction n rule: isqrt.induct)
  case (1 n)
  show ?case
  proof (cases "n = 0")
    case True
    then show ?thesis by (simp add: isqrt.simps)
  next
    case False
    define s where "s = isqrt (n div 4)"
    from 1 False have s: "s * s \<le> n div 4" "n div 4 < (s + 1) * (s + 1)"
      unfolding s_def by blast+
    have lo: "4 * (s * s) \<le> n" using s(1) by linarith
    have "n < 4 * (n div 4) + 4" by simp
    also have "\<dots> \<le> 4 * ((s + 1) * (s + 1))" using s(2) by linarith
    finally have hi: "n < (2 * s + 2) * (2 * s + 2)" by (simp add: algebra_simps)
    have "isqrt n = (if (2 * s + 1) * (2 * s + 1) \<le> n then 2 * s + 1 else 2 * s)"
      using False by (subst isqrt.simps) (simp add: s_def Let_def)
    with lo hi show ?thesis by (simp add: algebra_simps)
  qed
qed

text \<open>
  The root of \<open>x\<close>, scaled so that its integer part has at least 55 bits; one further bit
  records whether the root is inexact, which fixes the direction of rounding.
\<close>

fun fsqrt :: "float64 \<Rightarrow> float64" where
  "fsqrt (Finite x) =
     (if x < 0 then NaN
      else if x = 0 then Finite 0
      else let t = max 0 (60 - floor_log2 x);
               n = nat \<lfloor>x * pow2 (2 * t)\<rfloor>;
               r = isqrt n;
               sticky = (if r * r = n \<and> of_nat n = x * pow2 (2 * t) then 0 else 1 / 2)
           in rnd ((of_nat r + sticky) / pow2 t))"
| "fsqrt PosInf = PosInf"
| "fsqrt NegInf = NaN"
| "fsqrt NaN = NaN"

lemma fmul_commute: "fmul a b = fmul b a"
  by (cases a; cases b) (auto simp: mult.commute inf_of_sign_def)

lemma fless_irrefl [simp]: "\<not> fless a a"
  by (cases a) auto

lemma fless_trans: "fless a b \<Longrightarrow> fless b c \<Longrightarrow> fless a c"
  by (cases a; cases b; cases c) auto

section \<open>Numbers that need no rounding\<close>

lemma bitlen_bounds: "0 < n \<Longrightarrow> 2 ^ (bitlen n - 1) \<le> n \<and> n < 2 ^ bitlen n \<and> 0 < bitlen n"
proof (induction n rule: bitlen.induct)
  case (1 n)
  show ?case
  proof (cases "n div 2 = 0")
    case True
    then have "n = 1" using 1(2) by linarith
    then show ?thesis by (simp add: bitlen.simps)
  next
    case False
    then have b: "2 ^ (bitlen (n div 2) - 1) \<le> n div 2" "n div 2 < 2 ^ bitlen (n div 2)" "0 < bitlen (n div 2)"
      using 1 by auto
    obtain k where k: "bitlen (n div 2) = Suc k" using b(3) gr0_implies_Suc by blast
    have l: "bitlen n = Suc (bitlen (n div 2))" using 1(2) by (subst bitlen.simps) simp
    show ?thesis using b unfolding l k by simp linarith
  qed
qed

lemma bitlen_eq:
  assumes "2 ^ k \<le> n" and "n < 2 ^ Suc k"
  shows "bitlen n = Suc k"
proof -
  have "0 < n" using assms(1) by (metis le_zero_eq not_gr_zero power_not_zero zero_neq_numeral)
  from bitlen_bounds [OF this]
  have b: "2 ^ (bitlen n - 1) \<le> n" "n < 2 ^ bitlen n" "0 < bitlen n" by auto
  have "(2::nat) ^ k < 2 ^ bitlen n" "(2::nat) ^ (bitlen n - 1) < 2 ^ Suc k"
    using le_less_trans [OF assms(1) b(2)] le_less_trans [OF b(1) assms(2)] .
  then have "k < bitlen n" "bitlen n - 1 < Suc k"
    by (simp_all only: power_strict_increasing_iff one_less_numeral_iff semiring_norm)
  then show ?thesis by simp
qed

lemma floor_log2_of_nat:
  assumes "0 < n"
  shows "floor_log2 (of_nat n) = int (bitlen n) - 1"
proof -
  have q: "quotient_of (of_nat n) = (int n, 1)"
    using quotient_of_int [of "int n"] by simp
  have one: "bitlen (Suc 0) = 1" by (simp add: bitlen.simps)
  have b: "2 ^ (bitlen n - 1) \<le> n" "0 < bitlen n" using bitlen_bounds [OF assms] by auto
  then have "pow2 (int (bitlen n) - 1) \<le> (of_nat n :: rat)"
    by (simp add: pow2_def nat_diff_distrib)
  then show ?thesis by (simp add: floor_log2_def q one Let_def)
qed

lemma round_half_even_of_int [simp]: "round_half_even (of_int m) = m"
  by (simp add: round_half_even_def Let_def)

lemma rnd_exact:
  assumes "x \<noteq> 0" and "\<bar>x\<bar> / pow2 (max (floor_log2 \<bar>x\<bar> - 52) (- 1074)) = of_int m"
    and "\<bar>x\<bar> < pow2 1024"
  shows "rnd x = Finite x"
proof -
  define p where "p = pow2 (max (floor_log2 \<bar>x\<bar> - 52) (- 1074))"
  have p: "0 < p" by (simp add: p_def)
  have "of_int m * p = \<bar>x\<bar>" using assms(2) p by (simp add: p_def [symmetric] field_simps)
  then have y: "of_int (round_half_even (\<bar>x\<bar> / p)) * p = \<bar>x\<bar>"
    using assms(2) by (simp add: p_def [symmetric])
  show ?thesis
    using assms(1,3) unfolding rnd_def Let_def p_def [symmetric] y
    by (simp add: sgn_mult_abs)
qed

text \<open>The integers up to \<open>2 ^ 53\<close> are numbers of the format.\<close>

lemma rnd_of_int: "\<bar>i\<bar> \<le> 2 ^ 53 \<Longrightarrow> rnd (of_int i) = Finite (of_int i)"
proof (cases "i = 0")
  case False
  assume i: "\<bar>i\<bar> \<le> 2 ^ 53"
  define n where "n = nat \<bar>i\<bar>"
  have n: "0 < n" "n \<le> 2 ^ 53" "(\<bar>of_int i\<bar> :: rat) = of_nat n"
    using False i by (auto simp: n_def nat_le_iff)
  define b where "b = bitlen n"
  have b: "2 ^ (b - 1) \<le> n" "0 < b" using bitlen_bounds [OF n(1)] by (auto simp: b_def)
  have "(2::nat) ^ (b - 1) \<le> 2 ^ 53" using b(1) n(2) by (rule le_trans)
  then have "b - 1 \<le> 53" by (rule power_le_imp_le_exp [rotated]) simp
  then have b54: "b \<le> 54" by simp
  have k: "max (floor_log2 \<bar>of_int i\<bar> - 52) (- 1074) = int b - 53"
    using b(2) unfolding n(3) floor_log2_of_nat [OF n(1)] b_def [symmetric] by simp
  have "\<exists>m. (of_nat n :: rat) / pow2 (int b - 53) = of_int m"
  proof (cases "b = 54")
    case True
    then have "n = 2 ^ 53" using b(1) n(2) by simp
    then have "(of_nat n :: rat) / pow2 (int b - 53) = of_int (2 ^ 52)" using True by (simp add: pow2_def)
    then show ?thesis ..
  next
    case False
    with b54 have "b \<le> 53" by simp
    then have "(of_nat n :: rat) / pow2 (int b - 53) = of_int (int n * 2 ^ nat (53 - int b))"
      by (cases "b = 53") (simp_all add: pow2_def)
    then show ?thesis ..
  qed
  moreover have "(of_nat n :: rat) < pow2 1024"
  proof -
    have "(of_nat n :: rat) \<le> of_nat (2 ^ 53)" using n(2) of_nat_le_iff by blast
    also have "\<dots> < pow2 1024" by (simp add: pow2_def)
    finally show ?thesis .
  qed
  ultimately obtain m where "(of_nat n :: rat) / pow2 (int b - 53) = of_int m" "(of_nat n :: rat) < pow2 1024"
    by blast
  then show ?thesis using False k n(3) by (intro rnd_exact [where m = m]) simp_all
qed (simp add: rnd_def)

end
