(* ===== verification/Store.thy ===== *)
theory Store
  imports Domain Float64
begin

text \<open>
  The database the repositories of \<open>internal/data\<close> work on (the tables of \<open>migrations/\<close>,
  with their keys, references and checks), the world in which a request runs (committed
  state, open transaction, and the streams of clock readings, identifiers, faults and
  replies of remote services), the execution of one SQL statement, and \<open>txManager.InTx\<close>.
\<close>

section \<open>Rows and tables\<close>

datatype json = JNum int | JStr string

type_synonym json_object = "(string \<times> json) list"

record source_row =
  s_id :: uuid
  s_type :: SourceType
  s_config :: json_object
  s_created_at :: time
  s_updated_at :: time
  s_next_summary_at :: "time option"

record post_row =
  p_id :: uuid
  p_source_id :: uuid
  p_external_id :: string
  p_published_at :: time
  p_author :: "string option"
  p_text :: string
  p_metadata :: "(string \<times> string) list"
  p_created_at :: time
  p_updated_at :: time

record summary_row =
  m_id :: uuid
  m_post_id :: "uuid option"
  m_source_id :: uuid
  m_text :: string
  m_word_count :: int
  m_created_at :: time

text \<open>The columns both outbox tables share: the lease of a queued event.\<close>

record lease_row =
  l_id :: uuid
  l_status :: EventStatus
  l_error :: "string option"
  l_attempt_count :: int
  l_locked_by :: "string option"
  l_locked_until :: "time option"
  l_next_attempt_at :: "time option"
  l_created_at :: time
  l_processed_at :: "time option"

record summary_event_row = lease_row +
  e_post_id :: "uuid option"
  e_source_id :: uuid
  e_event_type :: SummaryEventType
  e_summary_id :: "uuid option"

record score_event_row = lease_row +
  c_post_id :: "uuid option"
  c_summary_id :: "uuid option"

record interest_row =
  i_id :: uuid
  i_topic :: string
  i_embedding :: "float64 list"
  i_model :: string
  i_created_at :: time
  i_updated_at :: time

record score_row =
  r_id :: uuid
  r_post_id :: "uuid option"
  r_summary_id :: "uuid option"
  r_value :: float64
  r_model :: string
  r_created_at :: time
  r_updated_at :: time

record embedding_row =
  v_id :: uuid
  v_post_id :: "uuid option"
  v_summary_id :: "uuid option"
  v_vector :: "float64 list"
  v_model :: string
  v_input_hash :: string
  v_created_at :: time
  v_updated_at :: time

record reaction_row =
  x_id :: uuid
  x_post_id :: uuid
  x_signal :: string
  x_created_at :: time
  x_updated_at :: time

record database =
  sources :: "source_row list"
  posts :: "post_row list"
  summaries :: "summary_row list"
  summary_events :: "summary_event_row list"
  interests :: "interest_row list"
  scores :: "score_row list"
  score_events :: "score_event_row list"
  post_embeddings :: "embedding_row list"
  post_reactions :: "reaction_row list"

definition empty_db :: database where
  "empty_db = \<lparr>sources = [], posts = [], summaries = [], summary_events = [], interests = [],
     scores = [], score_events = [], post_embeddings = [], post_reactions = []\<rparr>"

definition unique_violation :: error where
  "unique_violation = Pq ''23505'' ''duplicate key value violates unique constraint''"

definition foreign_key_violation :: error where
  "foreign_key_violation = Pq ''23503'' ''insert or update or delete violates foreign key constraint''"

definition check_violation :: error where
  "check_violation = Pq ''23514'' ''new row violates check constraint''"

definition source_ids :: "database \<Rightarrow> uuid set" where
  "source_ids d = s_id ` set (sources d)"

definition post_ids :: "database \<Rightarrow> uuid set" where
  "post_ids d = p_id ` set (posts d)"

definition summary_ids :: "database \<Rightarrow> uuid set" where
  "summary_ids d = m_id ` set (summaries d)"

section \<open>The world of a request\<close>

text \<open>
  A statement sees the value of \<open>now()\<close> and the tables; it fails without effect or returns
  a value and the new tables. A failing statement leaves no table behind to change.
\<close>

type_synonym 'a stmt = "time \<Rightarrow> database \<Rightarrow> error + ('a \<times> database)"

text \<open>
  What may befall one statement (or BEGIN, COMMIT, ROLLBACK): nothing, an error before it
  takes effect, or an error after it took effect (the answer is lost).
\<close>

datatype fault = Healthy | Refused error | Lost error

record transaction =
  tx_started :: time
  tx_working :: database
  tx_aborted :: bool

record world =
  committed :: database
  open_tx :: "transaction option"
  faults :: "fault stream"
  clock :: "time stream"
  fresh_ids :: "uuid stream"
  llm_replies :: "string result stream"
  llm_calls :: "(string \<times> string) list"
  embed_replies :: "float64 list result stream"
  embed_calls :: "string list"
  ctx_done :: "error option stream"
  row_locks :: "uuid list stream"

text \<open>\<open>time.Now()\<close> and \<open>uuid.NewV7()\<close>.\<close>

definition time_now :: "world \<Rightarrow> time \<times> world" where
  "time_now w = (clock w 0, w\<lparr>clock := advance (clock w)\<rparr>)"

definition new_uuid :: "world \<Rightarrow> uuid \<times> world" where
  "new_uuid w = (fresh_ids w 0, w\<lparr>fresh_ids := advance (fresh_ids w)\<rparr>)"

text \<open>
  The rows other sessions hold locked when a \<open>FOR UPDATE SKIP LOCKED\<close> statement runs.
\<close>

definition take_locks :: "world \<Rightarrow> uuid list \<times> world" where
  "take_locks w = (row_locks w 0, w\<lparr>row_locks := advance (row_locks w)\<rparr>)"

definition take_fault :: "world \<Rightarrow> fault \<times> world" where
  "take_fault w = (faults w 0, w\<lparr>faults := advance (faults w)\<rparr>)"

section \<open>Executing a statement\<close>

definition aborted_error :: error where
  "aborted_error = Pq ''25P02'' ''current transaction is aborted, commands ignored until end of transaction block''"

text \<open>On a pooled connection: a transaction of its own.\<close>

definition autocommit :: "fault \<Rightarrow> 'a stmt \<Rightarrow> world \<Rightarrow> 'a result \<times> world" where
  "autocommit f s w =
     (case f of
        Refused e \<Rightarrow> (Inl e, w)
      | _ \<Rightarrow>
        (let (t, w1) = time_now w in
         case s t (committed w1) of
           Inl e \<Rightarrow> (Inl e, w1)
         | Inr (x, d) \<Rightarrow>
             ((case f of Lost e \<Rightarrow> Inl e | _ \<Rightarrow> Inr x), w1\<lparr>committed := d\<rparr>)))"

text \<open>
  On the connection of the open transaction: \<open>now()\<close> is its start, a failed statement
  aborts it, and an aborted transaction refuses every further statement.
\<close>

definition in_transaction :: "fault \<Rightarrow> 'a stmt \<Rightarrow> transaction \<Rightarrow> 'a result \<times> transaction" where
  "in_transaction f s t =
     (if tx_aborted t then (Inl aborted_error, t)
      else case f of
        Healthy \<Rightarrow>
          (case s (tx_started t) (tx_working t) of
             Inl e \<Rightarrow> (Inl e, t\<lparr>tx_aborted := True\<rparr>)
           | Inr (x, d) \<Rightarrow> (Inr x, t\<lparr>tx_working := d\<rparr>))
      | Refused e \<Rightarrow> (Inl e, t\<lparr>tx_aborted := True\<rparr>)
      | Lost e \<Rightarrow> (Inl e, t\<lparr>tx_aborted := True\<rparr>))"

text \<open>
  \<open>exec_tx\<close> runs on the transaction of the context when there is one
  (\<open>sqlExecerFromContext\<close>, \<open>clientFromContext\<close>); \<open>exec_direct\<close> always runs on the pool
  (\<open>r.data.Ent\<close>, \<open>r.data.DB\<close>), and an open transaction sees its committed effect.
\<close>

definition exec_tx :: "'a stmt \<Rightarrow> world \<Rightarrow> 'a result \<times> world" where
  "exec_tx s w =
     (let (f, w1) = take_fault w in
      case open_tx w1 of
        None \<Rightarrow> autocommit f s w1
      | Some t \<Rightarrow> (let (r, t1) = in_transaction f s t in (r, w1\<lparr>open_tx := Some t1\<rparr>)))"

definition exec_direct :: "'a stmt \<Rightarrow> world \<Rightarrow> 'a result \<times> world" where
  "exec_direct s w =
     (let (f, w1) = take_fault w;
          (r, w2) = autocommit f s w1;
          seen = (\<lambda>d. case s (fst (time_now w1)) d of Inl _ \<Rightarrow> d | Inr (_, d1) \<Rightarrow> d1)
      in case (open_tx w1, f) of
           (None, _) \<Rightarrow> (r, w2)
         | (Some _, Refused _) \<Rightarrow> (r, w2)
         | (Some t, _) \<Rightarrow> (r, w2\<lparr>open_tx := Some (t\<lparr>tx_working := seen (tx_working t)\<rparr>)\<rparr>))"

text \<open>
  Rows to values: \<open>QueryRow.Scan\<close> reports an empty result as \<open>sql.ErrNoRows\<close>; \<open>ent\<close>'s
  \<open>Only\<close> reports an empty and a multiple result.
\<close>

definition query_row :: "'a option result \<Rightarrow> 'a result" where
  "query_row r =
     (case r of Inl e \<Rightarrow> Inl e | Inr None \<Rightarrow> Inl (Sentinel SqlErrNoRows) | Inr (Some x) \<Rightarrow> Inr x)"

definition ent_only :: "string \<Rightarrow> 'a list \<Rightarrow> error + 'a" where
  "ent_only label rows =
     (case rows of [] \<Rightarrow> Inl (EntNotFound label) | [r] \<Rightarrow> Inr r | _ \<Rightarrow> Inl (EntNotSingular label))"

definition ent_first :: "string \<Rightarrow> 'a list \<Rightarrow> error + 'a" where
  "ent_first label rows = (case rows of [] \<Rightarrow> Inl (EntNotFound label) | r # _ \<Rightarrow> Inr r)"

text \<open>A read returns rows and changes nothing.\<close>

definition select :: "(time \<Rightarrow> database \<Rightarrow> 'a) \<Rightarrow> 'a stmt" where
  "select q now d = Inr (q now d, d)"

text \<open>A write without a result.\<close>

definition write_stmt :: "(database \<Rightarrow> error + database) \<Rightarrow> unit stmt" where
  "write_stmt f now d = (case f d of Inl e \<Rightarrow> Inl e | Inr d' \<Rightarrow> Inr ((), d'))"

text \<open>The constraint errors of the generated client wrap the driver error.\<close>

definition ent_constraint :: "error \<Rightarrow> error" where
  "ent_constraint e = (if pq_code e = None then e else Wrap ''ent: constraint failed: '' e [])"

lemma pq_code_ent_constraint [simp]: "pq_code (ent_constraint e) = pq_code e"
  by (simp add: ent_constraint_def)

section \<open>Transactions\<close>

definition failed_commit_error :: error where
  "failed_commit_error = Text ''pq: Could not complete operation in a failed transaction''"

text \<open>\<open>BeginTx\<close>, \<open>Commit\<close> and \<open>Rollback\<close> of the SQL driver.\<close>

definition begin_tx :: "world \<Rightarrow> unit result \<times> world" where
  "begin_tx w =
     (let (f, w1) = take_fault w in
      case f of
        Healthy \<Rightarrow>
          (let (t, w2) = time_now w1
           in (Inr (), w2\<lparr>open_tx := Some \<lparr>tx_started = t, tx_working = committed w2, tx_aborted = False\<rparr>\<rparr>))
      | Refused e \<Rightarrow> (Inl e, w1)
      | Lost e \<Rightarrow> (Inl e, w1))"

definition commit_tx :: "world \<Rightarrow> unit result \<times> world" where
  "commit_tx w =
     (let (f, w1) = take_fault w in
      case open_tx w1 of
        None \<Rightarrow> (Inl (Sentinel SqlErrTxDone), w1)
      | Some t \<Rightarrow>
          (let w2 = w1\<lparr>open_tx := None\<rparr> in
           if tx_aborted t then (Inl failed_commit_error, w2)
           else case f of
                  Healthy \<Rightarrow> (Inr (), w2\<lparr>committed := tx_working t\<rparr>)
                | Refused e \<Rightarrow> (Inl e, w2)
                | Lost e \<Rightarrow> (Inl e, w2\<lparr>committed := tx_working t\<rparr>)))"

definition rollback_tx :: "world \<Rightarrow> unit result \<times> world" where
  "rollback_tx w =
     (let (f, w1) = take_fault w; w2 = w1\<lparr>open_tx := None\<rparr> in
      case f of Healthy \<Rightarrow> (Inr (), w2) | Refused e \<Rightarrow> (Inl e, w2) | Lost e \<Rightarrow> (Inl e, w2))"

definition InTx :: "(world \<Rightarrow> 'a result \<times> world) \<Rightarrow> world \<Rightarrow> 'a result \<times> world" where
  "InTx fn w =
     (case begin_tx w of
        (Inl e, w1) \<Rightarrow> (Inl (errorf_ctx ''begin tx'' e), w1)
      | (Inr _, w1) \<Rightarrow>
          (case fn w1 of
             (Inl fnErr, w2) \<Rightarrow>
               (case rollback_tx w2 of
                  (Inl rbErr, w3) \<Rightarrow>
                    (if \<not> errors_is rbErr SqlErrTxDone
                     then (Inl (Wrap2 ''fn error: '' fnErr '', rollback error: '' rbErr []), w3)
                     else (Inl fnErr, w3))
                | (Inr _, w3) \<Rightarrow> (Inl fnErr, w3))
           | (Inr x, w2) \<Rightarrow>
               (case commit_tx w2 of
                  (Inl commitErr, w3) \<Rightarrow> (Inl (errorf_ctx ''commit tx'' commitErr), w3)
                | (Inr _, w3) \<Rightarrow> (Inr x, w3))))"

section \<open>What a transaction can do to the committed state\<close>

lemma committed_stream_updates [simp]:
  "committed (snd (time_now w)) = committed w" "open_tx (snd (time_now w)) = open_tx w"
  "committed (snd (new_uuid w)) = committed w" "open_tx (snd (new_uuid w)) = open_tx w"
  "committed (snd (take_fault w)) = committed w" "open_tx (snd (take_fault w)) = open_tx w"
  "committed (snd (take_locks w)) = committed w" "open_tx (snd (take_locks w)) = open_tx w"
  by (simp_all add: time_now_def new_uuid_def take_fault_def take_locks_def)

text \<open>
  Inside a transaction a body is confined when it leaves the committed state alone and
  keeps the transaction open. Statements through \<^const>\<open>exec_tx\<close> are; sequences of
  confined steps are.
\<close>

definition confined :: "(world \<Rightarrow> 'a \<times> world) \<Rightarrow> bool" where
  "confined f \<longleftrightarrow>
     (\<forall>w. open_tx w \<noteq> None \<longrightarrow>
        committed (snd (f w)) = committed w \<and> open_tx (snd (f w)) \<noteq> None)"

lemma confinedI:
  "(\<And>w t. open_tx w = Some t \<Longrightarrow>
      committed (snd (f w)) = committed w \<and> open_tx (snd (f w)) \<noteq> None) \<Longrightarrow> confined f"
  by (auto simp: confined_def)

lemma confined_exec_tx [intro, simp]: "confined (exec_tx s)"
  by (rule confinedI)
    (simp add: exec_tx_def take_fault_def in_transaction_def split: fault.splits sum.splits)

lemma confined_time_now [intro, simp]: "confined time_now"
  by (rule confinedI) simp

lemma confined_new_uuid [intro, simp]: "confined new_uuid"
  by (rule confinedI) simp

lemma confined_take_locks [intro, simp]: "confined take_locks"
  by (rule confinedI) simp

lemma confined_return [intro, simp]: "confined (\<lambda>w. (x, w))"
  by (rule confinedI) simp

lemma confined_bind:
  assumes "confined f" and "\<And>x. confined (g x)"
  shows "confined (\<lambda>w. case f w of (x, w1) \<Rightarrow> g x w1)"
proof (rule confinedI)
  fix w :: world and t assume t: "open_tx w = Some t"
  obtain x w1 where f: "f w = (x, w1)" by (cases "f w")
  with assms(1) t have "committed w1 = committed w" "open_tx w1 \<noteq> None"
    unfolding confined_def by (metis option.distinct(1) snd_conv)+
  with assms(2) [of x] show "committed (snd (case f w of (x, w1) \<Rightarrow> g x w1)) = committed w \<and>
      open_tx (snd (case f w of (x, w1) \<Rightarrow> g x w1)) \<noteq> None"
    by (auto simp: confined_def f)
qed

text \<open>
  The effect of \<^const>\<open>InTx\<close> on a confined body: the committed state stays as it was or
  becomes the working copy the body ends with. The second needs a body that succeeded, and
  a reported success means it happened.
\<close>

definition tx_body_result :: "(world \<Rightarrow> 'a result \<times> world) \<Rightarrow> world \<Rightarrow> ('a result \<times> transaction) option" where
  "tx_body_result fn w =
     (case begin_tx w of
        (Inr _, w1) \<Rightarrow> (case fn w1 of (r, w2) \<Rightarrow> map_option (Pair r) (open_tx w2))
      | (Inl _, _) \<Rightarrow> None)"

lemma InTx_effect:
  assumes "confined fn"
  shows "committed (snd (InTx fn w)) = committed w \<or>
         (\<exists>x t. tx_body_result fn w = Some (Inr x, t) \<and> \<not> tx_aborted t \<and>
              committed (snd (InTx fn w)) = tx_working t)"
    and "fst (InTx fn w) = Inr x \<Longrightarrow>
         \<exists>t. tx_body_result fn w = Some (Inr x, t) \<and> \<not> tx_aborted t \<and>
              committed (snd (InTx fn w)) = tx_working t"
proof -
  obtain r w1 where b: "begin_tx w = (r, w1)" by (cases "begin_tx w")
  have c1: "committed w1 = committed w"
    using b by (auto simp: begin_tx_def take_fault_def time_now_def Let_def split: fault.splits)
  have main: "(committed (snd (InTx fn w)) = committed w \<and> (\<forall>x. fst (InTx fn w) \<noteq> Inr x)) \<or>
     (\<exists>y t. tx_body_result fn w = Some (Inr y, t) \<and> \<not> tx_aborted t \<and>
              committed (snd (InTx fn w)) = tx_working t \<and> (\<forall>x. fst (InTx fn w) = Inr x \<longrightarrow> x = y))"
  proof (cases r)
    case (Inl e)
    then show ?thesis using b c1 by (simp add: InTx_def)
  next
    case (Inr u)
    then have o1: "open_tx w1 \<noteq> None"
      using b by (auto simp: begin_tx_def take_fault_def time_now_def Let_def split: fault.splits)
    obtain r2 w2 where f: "fn w1 = (r2, w2)" by (cases "fn w1")
    with assms o1 c1 have c2: "committed w2 = committed w" "open_tx w2 \<noteq> None"
      unfolding confined_def by (metis snd_conv)+
    then obtain t where t: "open_tx w2 = Some t" by auto
    show ?thesis
    proof (cases r2)
      case (Inl e)
      then have "committed (snd (InTx fn w)) = committed w \<and> (\<forall>x. fst (InTx fn w) \<noteq> Inr x)"
        using b \<open>r = Inr u\<close> f c2
        by (simp add: InTx_def rollback_tx_def take_fault_def Let_def split: fault.splits)
      then show ?thesis ..
    next
      case (Inr y)
      then show ?thesis
        using b \<open>r = Inr u\<close> f c2 t
        by (auto simp: InTx_def tx_body_result_def commit_tx_def take_fault_def Let_def
            split: fault.splits)
    qed
  qed
  from main show "committed (snd (InTx fn w)) = committed w \<or>
         (\<exists>x t. tx_body_result fn w = Some (Inr x, t) \<and> \<not> tx_aborted t \<and>
              committed (snd (InTx fn w)) = tx_working t)" by blast
  from main show "fst (InTx fn w) = Inr x \<Longrightarrow>
         \<exists>t. tx_body_result fn w = Some (Inr x, t) \<and> \<not> tx_aborted t \<and>
              committed (snd (InTx fn w)) = tx_working t" by blast
qed

end
