(* ===== verification/Effects.thy ===== *)
theory Effects
  imports Store
begin

text \<open>
  Reasoning about statements in the world: what one statement outside a transaction can do
  to the committed state, and invariants of the database that every statement, every
  autonomous write and every transaction keeps.
\<close>

section \<open>One statement outside a transaction\<close>

lemma exec_tx_outside:
  assumes "open_tx w = None" and "exec_tx s w = (r, w')"
  shows "open_tx w' = None"
    and "committed w' = committed w \<or>
         (\<exists>x. s (clock w 0) (committed w) = Inr (x, committed w'))"
    and "r = Inr x \<Longrightarrow> s (clock w 0) (committed w) = Inr (x, committed w')"
    and "clock w' = clock w \<or> clock w' = advance (clock w)"
  using assms
  by (auto simp: exec_tx_def autocommit_def take_fault_def time_now_def Let_def
      split: fault.splits sum.splits)

lemma exec_tx_outside_fault_free:
  assumes "open_tx w = None" and "faults w 0 = Healthy"
  shows "exec_tx s w =
    (case s (clock w 0) (committed w) of
       Inl e \<Rightarrow> (Inl e, w\<lparr>faults := advance (faults w), clock := advance (clock w)\<rparr>)
     | Inr (x, d) \<Rightarrow> (Inr x, w\<lparr>faults := advance (faults w), clock := advance (clock w), committed := d\<rparr>))"
  using assms
  by (auto simp: exec_tx_def autocommit_def take_fault_def time_now_def Let_def
      split: sum.splits)

lemma exec_tx_select_outside:
  assumes "open_tx w = None" and "exec_tx (select q) w = (r, w')"
  shows "committed w' = committed w" and "r = Inr x \<Longrightarrow> x = q (clock w 0) (committed w)"
  using assms
  by (auto simp: exec_tx_def autocommit_def take_fault_def time_now_def select_def Let_def
      split: fault.splits)

section \<open>Invariants of the database\<close>

definition world_inv :: "(database \<Rightarrow> bool) \<Rightarrow> world \<Rightarrow> bool" where
  "world_inv P w \<longleftrightarrow>
     P (committed w) \<and> (case open_tx w of None \<Rightarrow> True | Some t \<Rightarrow> P (tx_working t))"

definition stmt_keeps :: "(database \<Rightarrow> bool) \<Rightarrow> 'a stmt \<Rightarrow> bool" where
  "stmt_keeps P s \<longleftrightarrow> (\<forall>now d x d'. P d \<longrightarrow> s now d = Inr (x, d') \<longrightarrow> P d')"

definition keeps :: "(database \<Rightarrow> bool) \<Rightarrow> (world \<Rightarrow> 'a \<times> world) \<Rightarrow> bool" where
  "keeps P f \<longleftrightarrow> (\<forall>w. world_inv P w \<longrightarrow> world_inv P (snd (f w)))"

lemma keepsI: "(\<And>w r w'. world_inv P w \<Longrightarrow> f w = (r, w') \<Longrightarrow> world_inv P w') \<Longrightarrow> keeps P f"
  by (metis keeps_def prod.collapse)

lemma keepsD: "keeps P f \<Longrightarrow> f w = (r, w') \<Longrightarrow> world_inv P w \<Longrightarrow> world_inv P w'"
  by (metis keeps_def snd_conv)

lemma stmt_keeps_select [simp, intro]: "stmt_keeps P (select q)"
  by (simp add: stmt_keeps_def select_def)

lemma stmt_keeps_write [intro]:
  "(\<And>d d'. P d \<Longrightarrow> f d = Inr d' \<Longrightarrow> P d') \<Longrightarrow> stmt_keeps P (write_stmt f)"
  by (auto simp: stmt_keeps_def write_stmt_def split: sum.splits)

lemma autocommit_keeps:
  assumes "stmt_keeps P s" and "world_inv P w" and "autocommit f s w = (r, w')"
  shows "world_inv P w' \<and> open_tx w' = open_tx w"
  using assms
  by (auto simp: autocommit_def time_now_def world_inv_def stmt_keeps_def Let_def
      split: fault.splits sum.splits option.splits)

lemma keeps_exec_tx:
  assumes "stmt_keeps P s" shows "keeps P (exec_tx s)"
proof (rule keepsI)
  fix w r w' assume w: "world_inv P w" and x: "exec_tx s w = (r, w')"
  define w1 where "w1 = w\<lparr>faults := advance (faults w)\<rparr>"
  have w1: "world_inv P w1" using w by (simp add: w1_def world_inv_def)
  show "world_inv P w'"
  proof (cases "open_tx w")
    case None
    then have "autocommit (faults w 0) s w1 = (r, w')"
      using x by (simp add: exec_tx_def take_fault_def w1_def)
    then show ?thesis using autocommit_keeps assms w1 by blast
  next
    case (Some t)
    have "P (tx_working t)" using w Some by (simp add: world_inv_def)
    moreover have "P (committed w)" using w by (simp add: world_inv_def)
    ultimately show ?thesis
      using x Some assms
      by (auto simp: exec_tx_def take_fault_def in_transaction_def world_inv_def stmt_keeps_def
          split: if_splits fault.splits sum.splits prod.splits)
  qed
qed

lemma world_inv_exec_tx:
  "stmt_keeps P s \<Longrightarrow> world_inv P w \<Longrightarrow> world_inv P (snd (exec_tx s w))"
  using keeps_exec_tx [of P s] by (simp add: keeps_def)

text \<open>A statement that fails on every database of the invariant fails in the world.\<close>

lemma exec_tx_must_fail:
  assumes "world_inv P w" and "\<And>now d. P d \<Longrightarrow> \<exists>e. s now d = Inl e"
  shows "\<exists>e. fst (exec_tx s w) = Inl e"
proof (cases "open_tx w")
  case None
  then have "\<exists>e. s (clock w 0) (committed w) = Inl e" using assms by (simp add: world_inv_def)
  with None show ?thesis
    by (auto simp: exec_tx_def autocommit_def take_fault_def time_now_def split: fault.splits)
next
  case (Some t)
  then have "\<exists>e. s (tx_started t) (tx_working t) = Inl e" using assms by (simp add: world_inv_def)
  with Some show ?thesis
    by (auto simp: exec_tx_def in_transaction_def take_fault_def split: fault.splits)
qed

text \<open>What a read returns was read from a database of the invariant.\<close>

lemma exec_tx_select_inv:
  assumes "world_inv P w" and "exec_tx (select q) w = (Inr x, w')"
  shows "\<exists>now d. P d \<and> x = q now d"
  using assms
  by (auto simp: exec_tx_def autocommit_def in_transaction_def take_fault_def time_now_def
      select_def world_inv_def Let_def split: option.splits fault.splits if_splits)

lemma keeps_exec_direct:
  assumes "stmt_keeps P s" shows "keeps P (exec_direct s)"
proof (rule keepsI)
  fix w r w' assume w: "world_inv P w" and x: "exec_direct s w = (r, w')"
  define w1 where "w1 = w\<lparr>faults := advance (faults w)\<rparr>"
  have w1: "world_inv P w1" using w by (simp add: w1_def world_inv_def)
  obtain r2 w2 where a: "autocommit (faults w 0) s w1 = (r2, w2)"
    by (cases "autocommit (faults w 0) s w1")
  then have w2: "world_inv P w2" "open_tx w2 = open_tx w"
    using autocommit_keeps [OF assms w1] by (auto simp: w1_def)
  have "w' = w2 \<or> (\<exists>t d. open_tx w = Some t \<and> P d \<and> w' = w2\<lparr>open_tx := Some (t\<lparr>tx_working := d\<rparr>)\<rparr>)"
  proof (cases "open_tx w")
    case (Some t)
    define d where "d = (case s (fst (time_now w1)) (tx_working t) of Inl _ \<Rightarrow> tx_working t | Inr (_, d1) \<Rightarrow> d1)"
    have "P (tx_working t)" using w Some by (simp add: world_inv_def)
    then have "P d" using assms by (auto simp: d_def stmt_keeps_def split: sum.splits prod.splits)
    with x a Some show ?thesis
      by (cases "faults w 0") (auto simp: exec_direct_def take_fault_def w1_def d_def Let_def)
  qed (use x a in \<open>auto simp: exec_direct_def take_fault_def w1_def Let_def\<close>)
  with w2 show "world_inv P w'" by (auto simp: world_inv_def)
qed

lemma keeps_time_now [simp, intro]: "keeps P time_now"
  by (simp add: keeps_def world_inv_def)

lemma keeps_new_uuid [simp, intro]: "keeps P new_uuid"
  by (simp add: keeps_def world_inv_def)

lemma keeps_take_locks [simp, intro]: "keeps P take_locks"
  by (simp add: keeps_def world_inv_def)

lemma keeps_begin_tx: "keeps P begin_tx"
  by (rule keepsI)
    (auto simp: begin_tx_def take_fault_def time_now_def world_inv_def Let_def split: fault.splits)

lemma keeps_commit_tx: "keeps P commit_tx"
  by (rule keepsI)
    (auto simp: commit_tx_def take_fault_def world_inv_def Let_def
      split: fault.splits option.splits if_splits)

lemma keeps_rollback_tx: "keeps P rollback_tx"
  by (rule keepsI)
    (auto simp: rollback_tx_def take_fault_def world_inv_def Let_def split: fault.splits)

lemma keeps_InTx:
  assumes "keeps P fn" shows "keeps P (InTx fn)"
proof (rule keepsI)
  fix w r w' assume w: "world_inv P w" and x: "InTx fn w = (r, w')"
  obtain b w1 where b: "begin_tx w = (b, w1)" by (cases "begin_tx w")
  have w1: "world_inv P w1" using keepsD [OF keeps_begin_tx b w] .
  obtain f w2 where f: "fn w1 = (f, w2)" by (cases "fn w1")
  have w2: "world_inv P w2" using keepsD [OF assms f w1] .
  obtain c w3 where c: "commit_tx w2 = (c, w3)" by (cases "commit_tx w2")
  obtain k w4 where k: "rollback_tx w2 = (k, w4)" by (cases "rollback_tx w2")
  have "world_inv P w3" "world_inv P w4"
    using keepsD [OF keeps_commit_tx c w2] keepsD [OF keeps_rollback_tx k w2] by auto
  then show "world_inv P w'"
    using x b f c k w1 by (auto simp: InTx_def split: sum.splits if_splits)
qed

text \<open>The control structures of the code: two-way results, tests, sequencing.\<close>

lemma keeps_case [intro]:
  "keeps P f \<Longrightarrow> (\<And>e. keeps P (g e)) \<Longrightarrow> (\<And>x. keeps P (h x)) \<Longrightarrow>
   keeps P (\<lambda>w. case f w of (Inl e, w1) \<Rightarrow> g e w1 | (Inr x, w1) \<Rightarrow> h x w1)"
  unfolding keeps_def by (auto split: sum.split prod.split)

lemma keeps_let [intro]:
  "keeps P f \<Longrightarrow> (\<And>x. keeps P (g x)) \<Longrightarrow> keeps P (\<lambda>w. let (x, w1) = f w in g x w1)"
  unfolding keeps_def by (auto split: prod.split)

lemma keeps_return [simp, intro]: "keeps P (\<lambda>w. (x, w))"
  by (simp add: keeps_def)

lemma keeps_if [intro]: "keeps P f \<Longrightarrow> keeps P g \<Longrightarrow> keeps P (\<lambda>w. if c then f w else g w)"
  by (simp add: keeps_def)

lemma keeps_case_sum [intro]:
  "(\<And>e. keeps P (g e)) \<Longrightarrow> (\<And>x. keeps P (h x)) \<Longrightarrow>
   keeps P (\<lambda>w. case s of Inl e \<Rightarrow> g e w | Inr x \<Rightarrow> h x w)"
  by (cases s) auto

lemma keeps_case_option [intro]:
  "keeps P g \<Longrightarrow> (\<And>x. keeps P (h x)) \<Longrightarrow>
   keeps P (\<lambda>w. case s of None \<Rightarrow> g w | Some x \<Rightarrow> h x w)"
  by (cases s) auto

section \<open>A quiet world\<close>

text \<open>
  No transaction, no faults, a clock that ticks once per reading, identifiers in order, no
  locked rows: the world in which examples are evaluated.
\<close>

definition quiet_world :: "database \<Rightarrow> world" where
  "quiet_world d =
     \<lparr>committed = d, open_tx = None, faults = (\<lambda>_. Healthy), clock = int, fresh_ids = of_nat,
      llm_replies = (\<lambda>_. Inr ''summary''), llm_calls = [],
      embed_replies = (\<lambda>_. Inr []), embed_calls = [], ctx_done = (\<lambda>_. None), row_locks = (\<lambda>_. [])\<rparr>"

lemma quiet_world_simps [simp]:
  "committed (quiet_world d) = d" "open_tx (quiet_world d) = None"
  "faults (quiet_world d) = (\<lambda>_. Healthy)" "clock (quiet_world d) = int"
  "fresh_ids (quiet_world d) = of_nat" "row_locks (quiet_world d) = (\<lambda>_. [])"
  by (simp_all add: quiet_world_def)

lemma world_inv_quiet [simp]: "world_inv P (quiet_world d) = P d"
  by (simp add: world_inv_def)

end
