(* ===== verification/Lease.thy ===== *)
theory Lease
  imports Effects
begin

text \<open>
  The lease protocol of the two outbox tables (\<open>summary_outbox_repo.go\<close> and
  \<open>score_outbox_repo.go\<close> run the same SQL on \<open>summary_events\<close> and \<open>score_events\<close>): the row
  changes, the WHERE clauses and the statements, for any row type that extends
  \<^typ>\<open>lease_row\<close>; the well-formedness of a lease and its preservation; the choice of a
  claim. Comparisons with a NULL column are not true, as in SQL.
\<close>

section \<open>Row changes and conditions\<close>

definition claimable :: "time \<Rightarrow> 'r lease_row_scheme \<Rightarrow> bool" where
  "claimable now r \<longleftrightarrow>
     (l_status r = Pending \<and> (case l_next_attempt_at r of None \<Rightarrow> True | Some t \<Rightarrow> t \<le> now)) \<or>
     (l_status r = Processing \<and> (case l_locked_until r of None \<Rightarrow> False | Some u \<Rightarrow> u < now))"

definition claim_key :: "'r lease_row_scheme \<Rightarrow> time" where
  "claim_key r = (case l_next_attempt_at r of Some t \<Rightarrow> t | None \<Rightarrow> l_created_at r)"

definition claim_row :: "string \<Rightarrow> duration \<Rightarrow> time \<Rightarrow> 'r lease_row_scheme \<Rightarrow> 'r lease_row_scheme" where
  "claim_row workerID leaseTTL now r =
     r\<lparr>l_status := Processing, l_locked_until := Some (now + sql_interval leaseTTL),
       l_locked_by := Some workerID, l_attempt_count := l_attempt_count r + 1\<rparr>"

definition owns_lease :: "uuid \<Rightarrow> string \<Rightarrow> time \<Rightarrow> 'r lease_row_scheme \<Rightarrow> bool" where
  "owns_lease eid workerID now r \<longleftrightarrow>
     l_id r = eid \<and> l_locked_by r = Some workerID \<and> l_status r = Processing \<and>
     (case l_locked_until r of None \<Rightarrow> False | Some u \<Rightarrow> u > now)"

definition extend_row :: "duration \<Rightarrow> time \<Rightarrow> 'r lease_row_scheme \<Rightarrow> 'r lease_row_scheme" where
  "extend_row leaseTTL now r = r\<lparr>l_locked_until := Some (now + sql_interval leaseTTL)\<rparr>"

definition finalize_row ::
  "EventStatus \<Rightarrow> string option \<Rightarrow> time \<Rightarrow> 'r lease_row_scheme \<Rightarrow> 'r lease_row_scheme" where
  "finalize_row status errText now r =
     r\<lparr>l_status := status,
       l_error := (case errText of Some e \<Rightarrow> Some e | None \<Rightarrow> l_error r),
       l_processed_at := Some now, l_locked_until := None, l_locked_by := None\<rparr>"

definition retry_row :: "time \<Rightarrow> string \<Rightarrow> 'r lease_row_scheme \<Rightarrow> 'r lease_row_scheme" where
  "retry_row retryAt errText r =
     r\<lparr>l_status := Pending, l_next_attempt_at := Some retryAt, l_error := Some errText,
       l_locked_until := None, l_locked_by := None\<rparr>"

definition stuck :: "duration \<Rightarrow> time \<Rightarrow> 'r lease_row_scheme \<Rightarrow> bool" where
  "stuck grace now r \<longleftrightarrow>
     l_status r = Processing \<and>
     (case l_locked_until r of None \<Rightarrow> False | Some u \<Rightarrow> u < now - sql_interval grace)"

definition fail_row :: "string \<Rightarrow> time \<Rightarrow> 'r lease_row_scheme \<Rightarrow> 'r lease_row_scheme" where
  "fail_row errText now r =
     r\<lparr>l_status := Failed, l_error := Some errText, l_processed_at := Some now,
       l_locked_until := None, l_locked_by := None\<rparr>"

section \<open>Statements on a table of leases\<close>

text \<open>\<open>ORDER BY key ASC LIMIT 1\<close>: the first row with the least key.\<close>

fun first_min :: "('a \<Rightarrow> 'k::linorder) \<Rightarrow> 'a list \<Rightarrow> 'a option" where
  "first_min k [] = None"
| "first_min k (x # xs) =
     (case first_min k xs of
        None \<Rightarrow> Some x
      | Some y \<Rightarrow> if k x \<le> k y then Some x else Some y)"

definition claim_rows ::
  "uuid list \<Rightarrow> string \<Rightarrow> duration \<Rightarrow> time \<Rightarrow> 'r lease_row_scheme list \<Rightarrow>
     ('r lease_row_scheme \<times> 'r lease_row_scheme list) option" where
  "claim_rows locks workerID leaseTTL now rows =
     (case first_min claim_key (filter (\<lambda>r. claimable now r \<and> l_id r \<notin> set locks) rows) of
        None \<Rightarrow> None
      | Some r \<Rightarrow>
          Some (claim_row workerID leaseTTL now r,
                update_where (\<lambda>q. l_id q = l_id r) (claim_row workerID leaseTTL now) rows))"

definition guarded_update ::
  "('r \<Rightarrow> bool) \<Rightarrow> ('r \<Rightarrow> 'r) \<Rightarrow> 'r list \<Rightarrow> nat \<times> 'r list" where
  "guarded_update P f rows = (count_where P rows, update_where P f rows)"

definition fail_guard :: "uuid \<Rightarrow> int \<Rightarrow> duration \<Rightarrow> time \<Rightarrow> 'r lease_row_scheme \<Rightarrow> bool" where
  "fail_guard eid maxAttempts grace now r \<longleftrightarrow>
     l_id r = eid \<and> l_attempt_count r \<ge> maxAttempts \<and> stuck grace now r"

definition lease_expired_rows ::
  "duration \<Rightarrow> nat \<Rightarrow> time \<Rightarrow> 'r lease_row_scheme list \<Rightarrow> 'r lease_row_scheme list" where
  "lease_expired_rows grace limit now rows =
     take limit (sort_key (\<lambda>r. case l_locked_until r of Some u \<Rightarrow> u | None \<Rightarrow> 0)
                  (filter (stuck grace now) rows))"

section \<open>Choice of the claimed row\<close>

lemma count_where_pos [simp]: "0 < count_where P xs \<longleftrightarrow> (\<exists>x \<in> set xs. P x)"
  by (induction xs) auto

lemma first_min_None [simp]: "first_min k xs = None \<longleftrightarrow> xs = []"
  by (cases xs) (auto split: option.splits)

lemma first_min_in: "first_min k xs = Some x \<Longrightarrow> x \<in> set xs"
  by (induction xs arbitrary: x) (auto split: option.splits if_splits)

lemma first_min_le: "first_min k xs = Some x \<Longrightarrow> y \<in> set xs \<Longrightarrow> k x \<le> k y"
proof (induction xs arbitrary: x)
  case (Cons z zs)
  show ?case
  proof (cases "first_min k zs")
    case None
    then show ?thesis using Cons.prems by auto
  next
    case (Some u)
    with Cons.IH [OF this] Cons.prems show ?thesis by (auto split: if_splits)
  qed
qed simp

lemma claim_rows_None:
  "claim_rows locks w ttl now rows = None \<longleftrightarrow>
     (\<forall>r \<in> set rows. claimable now r \<longrightarrow> l_id r \<in> set locks)"
  by (auto simp: claim_rows_def filter_empty_conv dest!: first_min_in split: option.splits)

lemma claim_rows_Some:
  assumes "claim_rows locks w ttl now rows = Some (r', rows')"
  obtains r where "r \<in> set rows" "claimable now r" "l_id r \<notin> set locks"
    "\<forall>q \<in> set rows. claimable now q \<longrightarrow> l_id q \<notin> set locks \<longrightarrow> claim_key r \<le> claim_key q"
    "r' = claim_row w ttl now r"
    "rows' = update_where (\<lambda>q. l_id q = l_id r) (claim_row w ttl now) rows"
proof -
  from assms obtain r where r:
    "first_min claim_key (filter (\<lambda>r. claimable now r \<and> l_id r \<notin> set locks) rows) = Some r"
    "r' = claim_row w ttl now r"
    "rows' = update_where (\<lambda>q. l_id q = l_id r) (claim_row w ttl now) rows"
    by (auto simp: claim_rows_def split: option.splits)
  from first_min_in [OF r(1)] have "r \<in> set rows" "claimable now r" "l_id r \<notin> set locks" by auto
  moreover from first_min_le [OF r(1)]
  have "\<forall>q \<in> set rows. claimable now q \<longrightarrow> l_id q \<notin> set locks \<longrightarrow> claim_key r \<le> claim_key q"
    by auto
  ultimately show ?thesis using that r by blast
qed

section \<open>Well-formed leases\<close>

text \<open>
  A lease names a worker and an end exactly while the event is being processed; a terminal
  row records when it was processed; attempts are counted from zero.
\<close>

definition lease_ok :: "'r lease_row_scheme \<Rightarrow> bool" where
  "lease_ok r \<longleftrightarrow>
     (l_status r = Processing \<longleftrightarrow> l_locked_by r \<noteq> None) \<and>
     (l_status r = Processing \<longleftrightarrow> l_locked_until r \<noteq> None) \<and>
     (terminal_status (l_status r) \<longrightarrow> l_processed_at r \<noteq> None) \<and>
     0 \<le> l_attempt_count r \<and>
     (l_status r = Processing \<longrightarrow> 1 \<le> l_attempt_count r)"

lemma claim_row_id [simp]: "l_id (claim_row w ttl now r) = l_id r"
  by (simp add: claim_row_def)

lemma extend_row_id [simp]: "l_id (extend_row ttl now r) = l_id r"
  by (simp add: extend_row_def)

lemma finalize_row_id [simp]: "l_id (finalize_row st e now r) = l_id r"
  by (simp add: finalize_row_def)

lemma retry_row_id [simp]: "l_id (retry_row t e r) = l_id r"
  by (simp add: retry_row_def)

lemma fail_row_id [simp]: "l_id (fail_row e now r) = l_id r"
  by (simp add: fail_row_def)

lemma lease_ok_claim_row: "lease_ok r \<Longrightarrow> lease_ok (claim_row w ttl now r)"
  by (simp add: lease_ok_def claim_row_def terminal_status_def)

lemma lease_ok_extend_row:
  "lease_ok r \<Longrightarrow> l_status r = Processing \<Longrightarrow> lease_ok (extend_row ttl now r)"
  by (simp add: lease_ok_def extend_row_def)

lemma lease_ok_finalize_row:
  "lease_ok r \<Longrightarrow> terminal_status st \<Longrightarrow> lease_ok (finalize_row st e now r)"
  by (auto simp: lease_ok_def finalize_row_def terminal_status_def)

lemma lease_ok_retry_row: "lease_ok r \<Longrightarrow> lease_ok (retry_row t e r)"
  by (auto simp: lease_ok_def retry_row_def terminal_status_def)

lemma lease_ok_fail_row: "lease_ok r \<Longrightarrow> lease_ok (fail_row e now r)"
  by (auto simp: lease_ok_def fail_row_def terminal_status_def)

lemma owns_lease_processing: "owns_lease eid w now r \<Longrightarrow> l_status r = Processing"
  by (simp add: owns_lease_def)

lemma stuck_processing: "stuck g now r \<Longrightarrow> l_status r = Processing"
  by (simp add: stuck_def)

text \<open>A live lease is never claimable: claims and lease owners exclude each other.\<close>

lemma owns_lease_not_claimable: "owns_lease eid w now r \<Longrightarrow> \<not> claimable now r"
  by (auto simp: owns_lease_def claimable_def split: option.splits)

text \<open>After a claim the row belongs to the claimant alone until the lease ends.\<close>

lemma owns_lease_claim_row:
  "owns_lease eid v t (claim_row w ttl now r) \<longleftrightarrow>
     eid = l_id r \<and> v = w \<and> t < now + sql_interval ttl"
  by (auto simp: owns_lease_def claim_row_def)

lemma all_update_where:
  "(\<forall>x \<in> set xs. Q x) \<Longrightarrow> (\<And>x. x \<in> set xs \<Longrightarrow> P x \<Longrightarrow> Q x \<Longrightarrow> Q (f x)) \<Longrightarrow>
   \<forall>x \<in> set (update_where P f xs). Q x"
  by (auto simp: set_update_where)

section \<open>The effect of an operation on a table of leases\<close>

text \<open>
  What an operation may do, as its callers see it: claim for a worker, write on behalf of
  the worker that holds the lease of an event, fail a stuck event, add pending events.
  \<^term>\<open>lease_effect\<close> says what each does to the rows at an instant.
\<close>

datatype lease_action =
    ActClaim string duration
  | ActHold uuid string
  | ActFail uuid int duration string
  | ActAdd

text \<open>What the holder of a lease may write on its row.\<close>

definition holder_write :: "('r lease_row_scheme \<Rightarrow> 'r lease_row_scheme) \<Rightarrow> bool" where
  "holder_write f \<longleftrightarrow>
     (\<forall>r. l_id (f r) = l_id r \<and> l_attempt_count (f r) = l_attempt_count r \<and>
        (lease_ok r \<longrightarrow> l_status r = Processing \<longrightarrow> lease_ok (f r)))"

fun lease_effect ::
  "lease_action \<Rightarrow> time \<Rightarrow> 'r lease_row_scheme list \<Rightarrow> 'r lease_row_scheme list \<Rightarrow> bool" where
  "lease_effect (ActClaim w ttl) now rs rs' =
     (\<exists>locks r. claim_rows locks w ttl now rs = Some (r, rs'))"
| "lease_effect (ActHold eid w) now rs rs' =
     (\<exists>f. holder_write f \<and> rs' = update_where (owns_lease eid w now) f rs)"
| "lease_effect (ActFail eid n grace x) now rs rs' =
     (rs' = update_where (fail_guard eid n grace now) (fail_row x now) rs)"
| "lease_effect ActAdd now rs rs' =
     (\<exists>new. rs' = rs @ new \<and> distinct (map l_id rs') \<and>
        (\<forall>r \<in> set new. lease_ok r \<and> l_status r = Pending))"

lemma holder_write_rows [simp]:
  "holder_write (extend_row ttl now)"
  "terminal_status st \<Longrightarrow> holder_write (finalize_row st e now)"
  "holder_write (retry_row t x)"
  by (auto simp: holder_write_def lease_ok_extend_row lease_ok_finalize_row lease_ok_retry_row)
    (simp_all add: extend_row_def finalize_row_def retry_row_def)

lemma lease_effect_distinct:
  assumes "lease_effect a now rs rs'" and "distinct (map l_id rs)"
  shows "distinct (map l_id rs')"
proof (cases a)
  case (ActClaim w ttl)
  with assms(1) obtain locks r where "claim_rows locks w ttl now rs = Some (r, rs')" by auto
  then obtain q where "q \<in> set rs"
    "rs' = update_where (\<lambda>x. l_id x = l_id q) (claim_row w ttl now) rs"
    by (elim claim_rows_Some) blast
  then have "map l_id rs' = map l_id rs" by (simp add: map_update_where)
  with assms(2) show ?thesis by simp
next
  case (ActHold eid w)
  with assms(1) obtain f where "holder_write f" "rs' = update_where (owns_lease eid w now) f rs"
    by auto
  then have "map l_id rs' = map l_id rs"
    by (simp add: holder_write_def map_update_where)
  with assms(2) show ?thesis by simp
qed (use assms in \<open>auto simp: map_update_where\<close>)

lemma lease_effect_ok:
  assumes "lease_effect a now rs rs'" and ok: "\<forall>r \<in> set rs. lease_ok r"
  shows "\<forall>r \<in> set rs'. lease_ok r"
proof (cases a)
  case (ActClaim w ttl)
  with assms(1) obtain locks r where "claim_rows locks w ttl now rs = Some (r, rs')" by auto
  then obtain q where "q \<in> set rs"
    "rs' = update_where (\<lambda>x. l_id x = l_id q) (claim_row w ttl now) rs"
    by (elim claim_rows_Some) blast
  then show ?thesis using ok by (auto simp: set_update_where lease_ok_claim_row)
next
  case (ActHold eid w)
  with assms(1) obtain f where "holder_write f" "rs' = update_where (owns_lease eid w now) f rs"
    by auto
  then show ?thesis
    using ok by (auto simp: set_update_where holder_write_def dest: owns_lease_processing)
next
  case (ActFail eid n grace x)
  then show ?thesis using assms by (auto simp: set_update_where lease_ok_fail_row)
qed (use assms in auto)

lemma kept_by_update_where:
  "r \<in> set rs \<Longrightarrow> \<not> P r \<Longrightarrow> r \<in> set (update_where P f rs)"
  by (auto simp: set_update_where image_iff)

text \<open>Rows that no claim, holder or reaper can touch stay as they are.\<close>

lemma lease_effect_keeps:
  assumes "lease_effect a now rs rs'" and "distinct (map l_id rs)" and "r \<in> set rs"
    and "\<not> claimable now r"
    and "\<And>eid w. a = ActHold eid w \<Longrightarrow> \<not> owns_lease eid w now r"
    and "\<And>eid n g x. a = ActFail eid n g x \<Longrightarrow> \<not> fail_guard eid n g now r"
  shows "r \<in> set rs'"
proof (cases a)
  case (ActClaim w ttl)
  with assms(1) obtain locks r0 where "claim_rows locks w ttl now rs = Some (r0, rs')" by auto
  then obtain q where q: "q \<in> set rs" "claimable now q"
    "rs' = update_where (\<lambda>x. l_id x = l_id q) (claim_row w ttl now) rs"
    by (rule claim_rows_Some)
  have "l_id r \<noteq> l_id q"
    using distinct_key_unique [OF assms(2,3) q(1)] q(2) assms(4) by auto
  with q(3) assms(3) show ?thesis by (simp add: kept_by_update_where)
qed (use assms in \<open>auto simp: kept_by_update_where\<close>)

lemma terminal_not_claimable: "terminal_status (l_status r) \<Longrightarrow> \<not> claimable now r"
  by (auto simp: claimable_def terminal_status_def)

lemma terminal_kept:
  assumes "lease_effect a now rs rs'" and "distinct (map l_id rs)" and "r \<in> set rs"
    and "terminal_status (l_status r)"
  shows "r \<in> set rs'"
  using assms(1-3)
proof (rule lease_effect_keeps)
  show "\<not> claimable now r" using assms(4) by (rule terminal_not_claimable)
qed (use assms(4) in \<open>auto simp: owns_lease_def fail_guard_def stuck_def terminal_status_def\<close>)

text \<open>The lease of a worker that is still running at this instant.\<close>

definition live_lease :: "string \<Rightarrow> time \<Rightarrow> 'r lease_row_scheme \<Rightarrow> bool" where
  "live_lease w u r \<longleftrightarrow>
     l_status r = Processing \<and> l_locked_by r = Some w \<and> l_locked_until r = Some u"

fun foreign_action :: "uuid \<Rightarrow> string \<Rightarrow> lease_action \<Rightarrow> bool" where
  "foreign_action eid w (ActHold e v) = (e \<noteq> eid \<or> v \<noteq> w)"
| "foreign_action eid w (ActFail e n g x) = (0 \<le> sint g)"
| "foreign_action eid w _ = True"

lemma live_lease_kept:
  assumes "lease_effect a now rs rs'" and "distinct (map l_id rs)" and "r \<in> set rs"
    and "live_lease w u r" and "now \<le> u" and "foreign_action (l_id r) w a"
  shows "r \<in> set rs'"
  using assms(1-3)
proof (rule lease_effect_keeps)
  show "\<not> claimable now r"
    using assms(4,5) by (auto simp: claimable_def live_lease_def)
  show "\<not> owns_lease eid v now r" if "a = ActHold eid v" for eid v
    using that assms(4,6) by (auto simp: owns_lease_def live_lease_def)
  show "\<not> fail_guard eid n g now r" if "a = ActFail eid n g x" for eid n g x
    using that assms(4-6) sql_interval_nonneg [of g]
    by (auto simp: fail_guard_def stuck_def live_lease_def)
qed

section \<open>The contract of an outbox\<close>

text \<open>
  What the clients of an outbox rely on: outside a transaction an operation leaves the
  table as it was or has the effect of its action at a reading of the clock, and it only
  moves the clock forward. The lemmas hold for any sequence of operations, with any faults.
\<close>

definition clock_suffix :: "world \<Rightarrow> world \<Rightarrow> bool" where
  "clock_suffix w w' \<longleftrightarrow> (\<exists>k. clock w' = (\<lambda>n. clock w (n + k)))"

lemma clock_suffix_refl [simp]: "clock_suffix w w"
  by (auto simp: clock_suffix_def intro: exI [of _ 0])

lemma clock_suffix_trans: "clock_suffix w1 w2 \<Longrightarrow> clock_suffix w2 w3 \<Longrightarrow> clock_suffix w1 w3"
  unfolding clock_suffix_def by (metis (no_types, lifting) add.assoc)

lemma clock_suffix_bound: "clock_suffix w w' \<Longrightarrow> \<forall>n. clock w n \<le> u \<Longrightarrow> \<forall>n. clock w' n \<le> u"
  by (auto simp: clock_suffix_def)

lemma exec_tx_clock_suffix:
  assumes "open_tx w = None" and "exec_tx s w = (r, w')"
  shows "clock_suffix w w'"
  using exec_tx_outside(4) [OF assms]
  by (auto simp: clock_suffix_def advance_def intro: exI [of _ 0] exI [of _ 1])

definition lease_step ::
  "(database \<Rightarrow> 'r lease_row_scheme list) \<Rightarrow> lease_action \<Rightarrow> world \<Rightarrow> world \<Rightarrow> bool" where
  "lease_step rows a w w' \<longleftrightarrow>
     open_tx w' = None \<and> clock_suffix w w' \<and>
     (rows (committed w') = rows (committed w) \<or>
      (\<exists>n. lease_effect a (clock w n) (rows (committed w)) (rows (committed w'))))"

lemma lease_step_idle [simp, intro]: "open_tx w = None \<Longrightarrow> lease_step rows a w w"
  by (simp add: lease_step_def)

lemma lease_step_statement:
  assumes "open_tx w = None"
    and "\<And>now x d'. s now (committed w) = Inr (x, d') \<Longrightarrow>
      rows d' = rows (committed w) \<or> lease_effect a now (rows (committed w)) (rows d')"
  shows "lease_step rows a w (snd (exec_tx s w))"
proof -
  obtain r w' where x: "exec_tx s w = (r, w')" by (cases "exec_tx s w")
  show ?thesis
    using exec_tx_outside(1,2) [OF assms(1) x] assms(2) exec_tx_clock_suffix [OF assms(1) x]
    unfolding lease_step_def x snd_conv by metis
qed

lemma lease_step_select:
  "open_tx w = None \<Longrightarrow> lease_step rows a w (snd (exec_tx (select q) w))"
  by (rule lease_step_statement) (auto simp: select_def)

text \<open>Branching on the outcome of a statement does not change the world any more.\<close>

lemma snd_case_result:
  assumes "\<And>e w. snd (f e w) = w" and "\<And>x w. snd (g x w) = w"
  shows "snd (case r of (Inl e, w) \<Rightarrow> f e w | (Inr x, w) \<Rightarrow> g x w) = snd r"
  using assms by (auto split: prod.split sum.split)

lemma snd_case_sum: "snd (case s of Inl e \<Rightarrow> (f e, w) | Inr x \<Rightarrow> (g x, w)) = w"
  by (simp split: sum.split)

lemma snd_if_same: "snd (if c then (a, w) else (b, w)) = w"
  by simp

lemma snd_case_sum_if: "snd (case s of Inl e \<Rightarrow> (if c e then (f e, w) else (h e, w)) | Inr x \<Rightarrow> (g x, w)) = w"
  by (simp split: sum.split)

lemmas world_simps = snd_case_result snd_case_sum snd_if_same snd_case_sum_if

locale lease_outbox =
  fixes rows :: "database \<Rightarrow> 'r lease_row_scheme list"
    and valid :: "'op \<Rightarrow> bool"
    and action :: "'op \<Rightarrow> lease_action"
    and do_op :: "'op \<Rightarrow> world \<Rightarrow> world"
  assumes effect: "valid op \<Longrightarrow> open_tx w = None \<Longrightarrow> distinct (map l_id (rows (committed w))) \<Longrightarrow>
      lease_step rows (action op) w (do_op op w)"
begin

lemma step_distinct:
  "valid op \<Longrightarrow> open_tx w = None \<Longrightarrow> distinct (map l_id (rows (committed w))) \<Longrightarrow>
   distinct (map l_id (rows (committed (do_op op w))))"
  using effect [of op w] lease_effect_distinct unfolding lease_step_def by metis

lemma run_leases_ok:
  assumes "open_tx w = None" and "distinct (map l_id (rows (committed w)))"
    and "\<forall>r \<in> set (rows (committed w)). lease_ok r" and "\<forall>op \<in> set ops. valid op"
  shows "(\<forall>r \<in> set (rows (committed (fold do_op ops w))). lease_ok r) \<and>
         distinct (map l_id (rows (committed (fold do_op ops w))))"
  using assms
proof (induction ops arbitrary: w)
  case (Cons op ops)
  then have v: "valid op" by simp
  have "\<forall>r \<in> set (rows (committed (do_op op w))). lease_ok r"
    using effect [OF v Cons.prems(1,2)] lease_effect_ok Cons.prems(3)
    unfolding lease_step_def by metis
  moreover have "distinct (map l_id (rows (committed (do_op op w))))"
    using step_distinct v Cons.prems(1,2) by blast
  ultimately show ?case
    using Cons.IH [of "do_op op w"] effect [OF v Cons.prems(1,2)] Cons.prems(4)
    by (simp add: lease_step_def)
qed simp

lemma run_terminal_absorbing:
  assumes "open_tx w = None" and "distinct (map l_id (rows (committed w)))"
    and "\<forall>op \<in> set ops. valid op"
    and "r \<in> set (rows (committed w))" and "terminal_status (l_status r)"
  shows "r \<in> set (rows (committed (fold do_op ops w)))"
  using assms
proof (induction ops arbitrary: w)
  case (Cons op ops)
  then have v: "valid op" by simp
  have "r \<in> set (rows (committed (do_op op w)))"
    using effect [OF v Cons.prems(1,2)] terminal_kept Cons.prems(2,4,5)
    unfolding lease_step_def by metis
  moreover have "distinct (map l_id (rows (committed (do_op op w))))"
    using step_distinct v Cons.prems(1,2) by blast
  ultimately show ?case
    using Cons.IH effect [OF v Cons.prems(1,2)] Cons.prems(3,5) by (simp add: lease_step_def)
qed simp

lemma run_lease_protected:
  assumes "open_tx w = None" and "distinct (map l_id (rows (committed w)))"
    and "\<forall>op \<in> set ops. valid op \<and> foreign_action (l_id r) v (action op)"
    and "r \<in> set (rows (committed w))" and "live_lease v u r" and "\<forall>n. clock w n \<le> u"
  shows "r \<in> set (rows (committed (fold do_op ops w)))"
  using assms
proof (induction ops arbitrary: w)
  case (Cons op ops)
  then have v: "valid op" and f: "foreign_action (l_id r) v (action op)" by simp_all
  have "r \<in> set (rows (committed (do_op op w)))"
    using effect [OF v Cons.prems(1,2)] live_lease_kept [OF _ Cons.prems(2,4,5) _ f] Cons.prems(4,6)
    unfolding lease_step_def by metis
  moreover have "distinct (map l_id (rows (committed (do_op op w))))"
    using step_distinct v Cons.prems(1,2) by blast
  moreover have "\<forall>n. clock (do_op op w) n \<le> u"
    using effect [OF v Cons.prems(1,2)] Cons.prems(6)
    unfolding lease_step_def by (meson clock_suffix_bound)
  ultimately show ?case
    using Cons.IH effect [OF v Cons.prems(1,2)] Cons.prems(3,5) by (simp add: lease_step_def)
qed simp

end

end
