(* ===== verification/Tables.thy ===== *)
theory Tables
  imports Lease
begin

text \<open>
  The writes that the constraints of \<open>migrations/\<close> guard: inserts with their primary keys,
  unique and partial unique indexes, references and checks; deletes with their cascades.
  The theory \<open>Schema\<close> states the constraints of a whole database and shows that every guarded
  write keeps them.
\<close>

section \<open>The constraints\<close>

definition conflicts_active_post :: "summary_event_row \<Rightarrow> summary_event_row \<Rightarrow> bool" where
  "conflicts_active_post a b \<longleftrightarrow>
     active_status (l_status a) \<and> active_status (l_status b) \<and>
     e_event_type a = e_event_type b \<and> e_post_id a \<noteq> None \<and> e_post_id a = e_post_id b"

definition conflicts_active_source :: "summary_event_row \<Rightarrow> summary_event_row \<Rightarrow> bool" where
  "conflicts_active_source a b \<longleftrightarrow>
     active_status (l_status a) \<and> active_status (l_status b) \<and>
     e_event_type a = SummarizeSource \<and> e_event_type b = SummarizeSource \<and>
     e_source_id a = e_source_id b"

definition summary_event_conflict :: "summary_event_row \<Rightarrow> summary_event_row \<Rightarrow> bool" where
  "summary_event_conflict a b \<longleftrightarrow> conflicts_active_post a b \<or> conflicts_active_source a b"

definition score_event_conflict :: "score_event_row \<Rightarrow> score_event_row \<Rightarrow> bool" where
  "score_event_conflict a b \<longleftrightarrow>
     active_status (l_status a) \<and> active_status (l_status b) \<and>
     ((c_post_id a \<noteq> None \<and> c_post_id a = c_post_id b) \<or>
      (c_summary_id a \<noteq> None \<and> c_summary_id a = c_summary_id b))"

text \<open>\<open>CHECK (num_nonnulls(post_id, summary_id) = 1)\<close>.\<close>

definition one_key :: "'a option \<Rightarrow> 'b option \<Rightarrow> bool" where
  "one_key p s \<longleftrightarrow> (p = None) \<noteq> (s = None)"

definition opt_in :: "'a option \<Rightarrow> 'a set \<Rightarrow> bool" where
  "opt_in x A \<longleftrightarrow> (case x of None \<Rightarrow> True | Some a \<Rightarrow> a \<in> A)"

definition summary_events_unique :: "database \<Rightarrow> bool" where
  "summary_events_unique d \<longleftrightarrow>
     distinct (map l_id (summary_events d)) \<and>
     sorted_wrt (\<lambda>a b. \<not> summary_event_conflict a b) (summary_events d)"

definition score_events_unique :: "database \<Rightarrow> bool" where
  "score_events_unique d \<longleftrightarrow>
     distinct (map l_id (score_events d)) \<and>
     sorted_wrt (\<lambda>a b. \<not> score_event_conflict a b) (score_events d) \<and>
     (\<forall>a \<in> set (score_events d). one_key (c_post_id a) (c_summary_id a))"

section \<open>Inserts\<close>

definition insert_source :: "source_row \<Rightarrow> database \<Rightarrow> error + database" where
  "insert_source r d =
     (if s_id r \<in> source_ids d then Inl unique_violation
      else Inr (d\<lparr>sources := sources d @ [r]\<rparr>))"

text \<open>\<open>ON CONFLICT (source_id, external_id) DO NOTHING\<close>: whether a row was inserted.\<close>

definition insert_post :: "post_row \<Rightarrow> database \<Rightarrow> error + bool \<times> database" where
  "insert_post r d =
     (if \<exists>q \<in> set (posts d). p_source_id q = p_source_id r \<and> p_external_id q = p_external_id r
      then Inr (False, d)
      else if p_id r \<in> post_ids d then Inl unique_violation
      else if p_source_id r \<notin> source_ids d then Inl foreign_key_violation
      else Inr (True, d\<lparr>posts := posts d @ [r]\<rparr>))"

definition insert_summary :: "summary_row \<Rightarrow> database \<Rightarrow> error + database" where
  "insert_summary r d =
     (if m_id r \<in> summary_ids d then Inl unique_violation
      else if m_source_id r \<notin> source_ids d \<or> \<not> opt_in (m_post_id r) (post_ids d)
      then Inl foreign_key_violation
      else Inr (d\<lparr>summaries := summaries d @ [r]\<rparr>))"

definition insert_summary_event :: "summary_event_row \<Rightarrow> database \<Rightarrow> error + database" where
  "insert_summary_event r d =
     (if l_id r \<in> l_id ` set (summary_events d) \<or>
         (\<exists>q \<in> set (summary_events d). summary_event_conflict r q)
      then Inl unique_violation
      else if e_source_id r \<notin> source_ids d \<or> \<not> opt_in (e_summary_id r) (summary_ids d)
      then Inl foreign_key_violation
      else Inr (d\<lparr>summary_events := summary_events d @ [r]\<rparr>))"

definition insert_interest :: "interest_row \<Rightarrow> database \<Rightarrow> error + database" where
  "insert_interest r d =
     (if i_id r \<in> i_id ` set (interests d) then Inl unique_violation
      else Inr (d\<lparr>interests := interests d @ [r]\<rparr>))"

text \<open>
  \<open>ON CONFLICT (post_id) WHERE ... DO NOTHING\<close> and its summary partner: the check and the
  arbiter index come before the primary key and the references.
\<close>

definition insert_score_event :: "score_event_row \<Rightarrow> database \<Rightarrow> error + bool \<times> database" where
  "insert_score_event r d =
     (if \<not> one_key (c_post_id r) (c_summary_id r) then Inl check_violation
      else if \<exists>q \<in> set (score_events d). score_event_conflict r q then Inr (False, d)
      else if l_id r \<in> l_id ` set (score_events d) then Inl unique_violation
      else if \<not> opt_in (c_post_id r) (post_ids d) \<or> \<not> opt_in (c_summary_id r) (summary_ids d)
      then Inl foreign_key_violation
      else Inr (True, d\<lparr>score_events := score_events d @ [r]\<rparr>))"

section \<open>Deletes\<close>

text \<open>
  Removing summaries takes their scores, scoring events and embeddings along; a summary
  event that still refers to one of them afterwards makes the statement fail.
\<close>

definition drop_summaries :: "(summary_row \<Rightarrow> bool) \<Rightarrow> database \<Rightarrow> error + database" where
  "drop_summaries P d =
     (let gone = m_id ` set (filter P (summaries d));
          kept = (\<lambda>k. case k of None \<Rightarrow> True | Some m \<Rightarrow> m \<notin> gone)
      in if \<exists>e \<in> set (summary_events d). \<not> kept (e_summary_id e)
         then Inl foreign_key_violation
         else Inr (d\<lparr>summaries := filter (\<lambda>m. \<not> P m) (summaries d),
                     scores := filter (\<lambda>r. kept (r_summary_id r)) (scores d),
                     score_events := filter (\<lambda>r. kept (c_summary_id r)) (score_events d),
                     post_embeddings := filter (\<lambda>r. kept (v_summary_id r)) (post_embeddings d)\<rparr>))"

definition delete_source :: "uuid \<Rightarrow> database \<Rightarrow> error + database" where
  "delete_source sid d =
     (if \<exists>p \<in> set (posts d). p_source_id p = sid then Inl foreign_key_violation
      else drop_summaries (\<lambda>m. m_source_id m = sid)
             (d\<lparr>sources := filter (\<lambda>s. s_id s \<noteq> sid) (sources d),
                summary_events := filter (\<lambda>e. e_source_id e \<noteq> sid) (summary_events d)\<rparr>))"

definition delete_post :: "uuid \<Rightarrow> database \<Rightarrow> error + database" where
  "delete_post pid d =
     drop_summaries (\<lambda>m. m_post_id m = Some pid)
       (d\<lparr>posts := filter (\<lambda>p. p_id p \<noteq> pid) (posts d),
          scores := filter (\<lambda>r. r_post_id r \<noteq> Some pid) (scores d),
          score_events := filter (\<lambda>r. c_post_id r \<noteq> Some pid) (score_events d),
          post_embeddings := filter (\<lambda>r. v_post_id r \<noteq> Some pid) (post_embeddings d),
          post_reactions := filter (\<lambda>r. x_post_id r \<noteq> pid) (post_reactions d)\<rparr>)"

section \<open>Uniqueness of active events is kept\<close>

lemma summary_event_conflict_sym: "summary_event_conflict a b = summary_event_conflict b a"
  unfolding summary_event_conflict_def conflicts_active_post_def conflicts_active_source_def
  by metis

lemma score_event_conflict_sym: "score_event_conflict a b = score_event_conflict b a"
  unfolding score_event_conflict_def by metis

lemma insert_summary_event_unique:
  assumes "summary_events_unique d" and "insert_summary_event r d = Inr d'"
  shows "summary_events_unique d'"
  using assms summary_event_conflict_sym [of r]
  by (auto simp: insert_summary_event_def summary_events_unique_def sorted_wrt_append
      split: if_splits)

lemma insert_score_event_unique:
  assumes "score_events_unique d" and "insert_score_event r d = Inr (b, d')"
  shows "score_events_unique d'"
  using assms score_event_conflict_sym [of r]
  by (auto simp: insert_score_event_def score_events_unique_def sorted_wrt_append
      split: if_splits)

text \<open>
  Rewriting rows without changing their keys, and without making an inactive event active,
  keeps the uniqueness.
\<close>

lemma sorted_wrt_update_where:
  assumes "sorted_wrt (\<lambda>a b. \<not> c a b) xs"
    and "\<And>a b. c (if P a then f a else a) (if P b then f b else b) \<Longrightarrow> c a b"
  shows "sorted_wrt (\<lambda>a b. \<not> c a b) (update_where P f xs)"
  using assms(1) unfolding update_where_def sorted_wrt_map
  by (rule sorted_wrt_mono_rel [rotated]) (use assms(2) in blast)

definition keeps_summary_key :: "(summary_event_row \<Rightarrow> summary_event_row) \<Rightarrow> bool" where
  "keeps_summary_key f \<longleftrightarrow>
     (\<forall>r. l_id (f r) = l_id r \<and> e_post_id (f r) = e_post_id r \<and>
        e_source_id (f r) = e_source_id r \<and> e_event_type (f r) = e_event_type r)"

definition keeps_score_key :: "(score_event_row \<Rightarrow> score_event_row) \<Rightarrow> bool" where
  "keeps_score_key f \<longleftrightarrow>
     (\<forall>r. l_id (f r) = l_id r \<and> c_post_id (f r) = c_post_id r \<and> c_summary_id (f r) = c_summary_id r)"

lemma summary_events_unique_update:
  assumes "summary_events_unique d" and "keeps_summary_key f"
    and "\<And>r. P r \<Longrightarrow> active_status (l_status r)"
  shows "summary_events_unique (d\<lparr>summary_events := update_where P f (summary_events d)\<rparr>)"
proof -
  have "sorted_wrt (\<lambda>a b. \<not> summary_event_conflict a b) (update_where P f (summary_events d))"
  proof (rule sorted_wrt_update_where)
    fix a b
    assume "summary_event_conflict (if P a then f a else a) (if P b then f b else b)"
    then show "summary_event_conflict a b"
      using assms(2) assms(3) [of a] assms(3) [of b]
      by (simp add: summary_event_conflict_def conflicts_active_post_def
          conflicts_active_source_def keeps_summary_key_def split: if_splits) blast+
  qed (use assms(1) in \<open>simp add: summary_events_unique_def\<close>)
  moreover have "map l_id (update_where P f (summary_events d)) = map l_id (summary_events d)"
    using assms(2) by (intro map_update_where) (simp add: keeps_summary_key_def)
  ultimately show ?thesis
    using assms(1) by (simp add: summary_events_unique_def)
qed

lemma score_events_unique_update:
  assumes "score_events_unique d" and "keeps_score_key f"
    and "\<And>r. P r \<Longrightarrow> active_status (l_status r)"
  shows "score_events_unique (d\<lparr>score_events := update_where P f (score_events d)\<rparr>)"
proof -
  have "sorted_wrt (\<lambda>a b. \<not> score_event_conflict a b) (update_where P f (score_events d))"
  proof (rule sorted_wrt_update_where)
    fix a b
    assume "score_event_conflict (if P a then f a else a) (if P b then f b else b)"
    then show "score_event_conflict a b"
      using assms(2) assms(3) [of a] assms(3) [of b]
      by (simp add: score_event_conflict_def keeps_score_key_def split: if_splits)
  qed (use assms(1) in \<open>simp add: score_events_unique_def\<close>)
  moreover have "map l_id (update_where P f (score_events d)) = map l_id (score_events d)"
    using assms(2) by (intro map_update_where) (simp add: keeps_score_key_def)
  moreover have "\<forall>a \<in> set (update_where P f (score_events d)). one_key (c_post_id a) (c_summary_id a)"
    using assms(1,2)
    by (intro all_update_where) (auto simp: score_events_unique_def keeps_score_key_def)
  ultimately show ?thesis
    using assms(1) by (simp add: score_events_unique_def)
qed

lemma keeps_summary_key_rows [simp]:
  "keeps_summary_key (claim_row w ttl now)" "keeps_summary_key (extend_row ttl now)"
  "keeps_summary_key (finalize_row st e now)" "keeps_summary_key (retry_row t x)"
  "keeps_summary_key (fail_row x now)"
  by (simp_all add: keeps_summary_key_def claim_row_def extend_row_def finalize_row_def
      retry_row_def fail_row_def)

lemma keeps_score_key_rows [simp]:
  "keeps_score_key (claim_row w ttl now)" "keeps_score_key (extend_row ttl now)"
  "keeps_score_key (finalize_row st e now)" "keeps_score_key (retry_row t x)"
  "keeps_score_key (fail_row x now)"
  by (simp_all add: keeps_score_key_def claim_row_def extend_row_def finalize_row_def
      retry_row_def fail_row_def)

section \<open>Shapes shared by the repositories\<close>

definition parse_opt_id :: "ext \<Rightarrow> string \<Rightarrow> string option \<Rightarrow> error + uuid option" where
  "parse_opt_id E label s =
     (case s of None \<Rightarrow> Inr None
      | Some x \<Rightarrow> (case parse_id E label x of Inl e \<Rightarrow> Inl e | Inr u \<Rightarrow> Inr (Some u)))"

text \<open>The tail of every guarded update: an error, no row affected, or success.\<close>

definition affected_or_lost :: "string \<Rightarrow> nat result \<times> world \<Rightarrow> unit result \<times> world" where
  "affected_or_lost ctx r =
     (case r of
        (Inl e, w) \<Rightarrow> (Inl (errorf_ctx ctx e), w)
      | (Inr n, w) \<Rightarrow> (if n = 0 then (Inl (Sentinel ErrLeaseLost), w) else (Inr (), w)))"

text \<open>The identifier an operation names, for reasoning about operations as steps.\<close>

definition event_key :: "ext \<Rightarrow> string \<Rightarrow> uuid" where
  "event_key E s = (case parse_uuid E s of Some u \<Rightarrow> u | None \<Rightarrow> 0)"

lemma parse_id_key: "parse_id E l s = Inr u \<Longrightarrow> u = event_key E s"
  by (auto simp: parse_id_def event_key_def split: option.splits)

lemma affected_or_lost_world: "snd (affected_or_lost c r) = snd r"
  by (auto simp: affected_or_lost_def split: prod.splits sum.splits)

lemma world_inv_take_locks: "world_inv P w \<Longrightarrow> world_inv P (snd (take_locks w))"
  using keeps_take_locks [of P] by (simp add: keeps_def)

lemma fold_world_inv:
  "(\<And>op w. world_inv P w \<Longrightarrow> world_inv P (f op w)) \<Longrightarrow> world_inv P w \<Longrightarrow> world_inv P (fold f ops w)"
  by (induction ops arbitrary: w) auto

end
