(* ===== verification/Score_Outbox.thy ===== *)
theory Score_Outbox
  imports Tables
begin

text \<open>
  \<open>internal/data/score_outbox_repo.go\<close>: the outbox of scoring events for posts and digests.
  The lease operations run the statements of theory \<open>Lease\<close> on \<open>score_events\<close>; the enqueue
  operations select candidates and insert one pending event each, skipping entities that
  already have an active event.
\<close>

section \<open>Rows to events\<close>

definition scanScoreEvent :: "ext \<Rightarrow> score_event_row \<Rightarrow> ScoreEvent" where
  "scanScoreEvent E r =
     (let ev = \<lparr>sc_ID = uuid_string E (l_id r), sc_PostID = None, sc_SummaryID = None,
                sc_Status = l_status r, sc_Error = None, sc_AttemptCount = l_attempt_count r,
                sc_CreatedAt = l_created_at r, sc_ProcessedAt = None\<rparr>;
          ev = (case c_post_id r of Some p \<Rightarrow> ev\<lparr>sc_PostID := Some (uuid_string E p)\<rparr> | None \<Rightarrow> ev);
          ev = (case c_summary_id r of Some m \<Rightarrow> ev\<lparr>sc_SummaryID := Some (uuid_string E m)\<rparr> | None \<Rightarrow> ev);
          ev = (case l_error r of Some x \<Rightarrow> ev\<lparr>sc_Error := Some x\<rparr> | None \<Rightarrow> ev)
      in (case l_processed_at r of Some t \<Rightarrow> ev\<lparr>sc_ProcessedAt := Some t\<rparr> | None \<Rightarrow> ev))"

definition enqueueScanLimit :: nat where "enqueueScanLimit = 500"

section \<open>Enqueueing\<close>

definition active_for_post :: "database \<Rightarrow> uuid \<Rightarrow> bool" where
  "active_for_post d p \<longleftrightarrow>
     (\<exists>e \<in> set (score_events d). c_post_id e = Some p \<and> active_status (l_status e))"

definition active_for_summary :: "database \<Rightarrow> uuid \<Rightarrow> bool" where
  "active_for_summary d m \<longleftrightarrow>
     (\<exists>e \<in> set (score_events d). c_summary_id e = Some m \<and> active_status (l_status e))"

text \<open>The row the insert statements write, with \<open>now()\<close> as its creation time.\<close>

definition fresh_score_row :: "uuid option \<Rightarrow> uuid option \<Rightarrow> uuid \<Rightarrow> time \<Rightarrow> score_event_row" where
  "fresh_score_row p m i now =
     \<lparr>l_id = i, l_status = Pending, l_error = None, l_attempt_count = 0, l_locked_by = None,
      l_locked_until = None, l_next_attempt_at = None, l_created_at = now, l_processed_at = None,
      c_post_id = p, c_summary_id = m\<rparr>"

lemma fresh_score_row_keys [simp]:
  "l_id (fresh_score_row p m i now) = i" "c_post_id (fresh_score_row p m i now) = p"
  "c_summary_id (fresh_score_row p m i now) = m" "l_status (fresh_score_row p m i now) = Pending"
  by (simp_all add: fresh_score_row_def)

definition scoreEventInsertQuery :: "uuid \<Rightarrow> uuid \<Rightarrow> bool stmt" where
  "scoreEventInsertQuery i p now d = insert_score_event (fresh_score_row (Some p) None i now) d"

definition digestEventInsertQuery :: "uuid \<Rightarrow> uuid \<Rightarrow> bool stmt" where
  "digestEventInsertQuery i m now d = insert_score_event (fresh_score_row None (Some m) i now) d"

text \<open>A NULL \<open>post_id\<close> scans into the nil UUID.\<close>

definition scan_uuid :: "uuid option \<Rightarrow> uuid" where
  "scan_uuid x = (case x of Some u \<Rightarrow> u | None \<Rightarrow> 0)"

text \<open>The loop of the enqueue operations: one identifier and one insert per candidate.\<close>

fun insert_loop ::
  "string \<Rightarrow> (uuid \<Rightarrow> uuid \<Rightarrow> bool stmt) \<Rightarrow> uuid list \<Rightarrow> int \<Rightarrow> world \<Rightarrow> int result \<times> world" where
  "insert_loop ctx q [] enqueued w = (Inr enqueued, w)"
| "insert_loop ctx q (k # ks) enqueued w =
     (let (i, w) = new_uuid w in
      case exec_tx (q i k) w of
        (Inl e, w) \<Rightarrow> (Inl (errorf_ctx ctx e), w)
      | (Inr inserted, w) \<Rightarrow> insert_loop ctx q ks (enqueued + (if inserted then 1 else 0)) w)"

text \<open>\<open>SELECT DISTINCT su.post_id\<close>: summarized posts without a score or an active event.\<close>

definition due_posts :: "database \<Rightarrow> uuid list" where
  "due_posts d = remdups (map (\<lambda>m. the (m_post_id m))
     (filter (\<lambda>m. m_post_id m \<noteq> None \<and> (\<forall>r \<in> set (scores d). r_post_id r \<noteq> m_post_id m) \<and>
                  \<not> active_for_post d (the (m_post_id m))) (summaries d)))"

definition dueCandidatePostIDs :: "world \<Rightarrow> uuid list result \<times> world" where
  "dueCandidatePostIDs w =
     (case exec_tx (select (\<lambda>_ d. take enqueueScanLimit (due_posts d))) w of
        (Inl e, w) \<Rightarrow> (Inl (errorf_ctx ''query due posts'' e), w)
      | (Inr ids, w) \<Rightarrow> (Inr ids, w))"

text \<open>
  \<open>SELECT sc.post_id\<close>: \<open>NOT EXISTS (... se.post_id = sc.post_id ...)\<close> holds of a NULL
  \<open>sc.post_id\<close>, since nothing is equal to NULL.
\<close>

definition scored_posts :: "database \<Rightarrow> uuid option list" where
  "scored_posts d =
     filter (\<lambda>p. case p of None \<Rightarrow> True | Some u \<Rightarrow> \<not> active_for_post d u) (map r_post_id (scores d))"

definition scoredCandidatePostIDs :: "world \<Rightarrow> uuid list result \<times> world" where
  "scoredCandidatePostIDs w =
     (case exec_tx (select (\<lambda>_ d. map scan_uuid (take enqueueScanLimit (scored_posts d)))) w of
        (Inl e, w) \<Rightarrow> (Inl (errorf_ctx ''query scored posts'' e), w)
      | (Inr ids, w) \<Rightarrow> (Inr ids, w))"

definition dueCandidateSummaryIDs :: "world \<Rightarrow> uuid list result \<times> world" where
  "dueCandidateSummaryIDs w =
     (case exec_tx (select (\<lambda>_ d. take enqueueScanLimit (map m_id
          (filter (\<lambda>m. m_post_id m = None \<and>
                       (\<forall>r \<in> set (scores d). r_summary_id r \<noteq> Some (m_id m)) \<and>
                       \<not> active_for_summary d (m_id m)) (summaries d))))) w of
        (Inl e, w) \<Rightarrow> (Inl (errorf_ctx ''query due digests'' e), w)
      | (Inr ids, w) \<Rightarrow> (Inr ids, w))"

definition scoredCandidateSummaryIDs :: "world \<Rightarrow> uuid list result \<times> world" where
  "scoredCandidateSummaryIDs w =
     (case exec_tx (select (\<lambda>_ d. take enqueueScanLimit
          (filter (\<lambda>m. \<not> active_for_summary d m)
             (map (\<lambda>r. the (r_summary_id r)) (filter (\<lambda>r. r_summary_id r \<noteq> None) (scores d)))))) w of
        (Inl e, w) \<Rightarrow> (Inl (errorf_ctx ''query scored digests'' e), w)
      | (Inr ids, w) \<Rightarrow> (Inr ids, w))"

definition insertDigestEvents :: "uuid list \<Rightarrow> world \<Rightarrow> int result \<times> world" where
  "insertDigestEvents summaryIDs w =
     insert_loop ''insert digest score event'' digestEventInsertQuery summaryIDs 0 w"

definition EnqueueDuePosts :: "world \<Rightarrow> int result \<times> world" where
  "EnqueueDuePosts w =
     (case dueCandidatePostIDs w of
        (Inl e, w) \<Rightarrow> (Inl e, w)
      | (Inr ids, w) \<Rightarrow> insert_loop ''insert score event'' scoreEventInsertQuery ids 0 w)"

definition EnqueueScoredPosts :: "world \<Rightarrow> int result \<times> world" where
  "EnqueueScoredPosts w =
     (case scoredCandidatePostIDs w of
        (Inl e, w) \<Rightarrow> (Inl e, w)
      | (Inr ids, w) \<Rightarrow> insert_loop ''insert rescore event'' scoreEventInsertQuery ids 0 w)"

definition EnqueueDueDigests :: "world \<Rightarrow> int result \<times> world" where
  "EnqueueDueDigests w =
     (case dueCandidateSummaryIDs w of
        (Inl e, w) \<Rightarrow> (Inl e, w)
      | (Inr ids, w) \<Rightarrow> insertDigestEvents ids w)"

definition EnqueueScoredDigests :: "world \<Rightarrow> int result \<times> world" where
  "EnqueueScoredDigests w =
     (case scoredCandidateSummaryIDs w of
        (Inl e, w) \<Rightarrow> (Inl e, w)
      | (Inr ids, w) \<Rightarrow> insertDigestEvents ids w)"

section \<open>The lease operations\<close>

definition claim_score_stmt :: "uuid list \<Rightarrow> string \<Rightarrow> duration \<Rightarrow> score_event_row option stmt" where
  "claim_score_stmt locks workerID leaseTTL now d =
     (case claim_rows locks workerID leaseTTL now (score_events d) of
        None \<Rightarrow> Inr (None, d)
      | Some (r, rows) \<Rightarrow> Inr (Some r, d\<lparr>score_events := rows\<rparr>))"

definition score_outbox_ClaimOne ::
  "ext \<Rightarrow> string \<Rightarrow> duration \<Rightarrow> world \<Rightarrow> ScoreEvent result \<times> world" where
  "score_outbox_ClaimOne E workerID leaseTTL w =
     (let (locks, w) = take_locks w;
          (r, w) = exec_tx (claim_score_stmt locks workerID leaseTTL) w
      in case query_row r of
           Inl err \<Rightarrow>
             (if errors_is err SqlErrNoRows then (Inl (Sentinel ErrNoScoreEventAvailable), w)
              else (Inl (errorf_ctx ''claim score event'' err), w))
         | Inr row \<Rightarrow> (Inr (scanScoreEvent E row), w))"

definition update_score_events ::
  "(time \<Rightarrow> score_event_row \<Rightarrow> bool) \<Rightarrow> (time \<Rightarrow> score_event_row \<Rightarrow> score_event_row) \<Rightarrow> nat stmt" where
  "update_score_events P f now d =
     (let (n, rows) = guarded_update (P now) (f now) (score_events d)
      in Inr (n, d\<lparr>score_events := rows\<rparr>))"

definition score_outbox_ExtendLease ::
  "ext \<Rightarrow> string \<Rightarrow> string \<Rightarrow> duration \<Rightarrow> world \<Rightarrow> unit result \<times> world" where
  "score_outbox_ExtendLease E eventID workerID leaseTTL w =
     (case parse_id E ''invalid event id'' eventID of
        Inl e \<Rightarrow> (Inl e, w)
      | Inr eid \<Rightarrow>
          affected_or_lost ''extend lease''
            (exec_tx (update_score_events (owns_lease eid workerID) (extend_row leaseTTL)) w))"

definition score_outbox_FinalizeWithLease ::
  "ext \<Rightarrow> string \<Rightarrow> string \<Rightarrow> EventStatus \<Rightarrow> string option \<Rightarrow> world \<Rightarrow> unit result \<times> world" where
  "score_outbox_FinalizeWithLease E eventID workerID status errText w =
     (case parse_id E ''invalid event id'' eventID of
        Inl e \<Rightarrow> (Inl e, w)
      | Inr eid \<Rightarrow>
          affected_or_lost ''finalize with lease''
            (exec_tx (update_score_events (owns_lease eid workerID) (finalize_row status errText)) w))"

definition score_outbox_MarkForRetry ::
  "ext \<Rightarrow> string \<Rightarrow> string \<Rightarrow> time \<Rightarrow> string \<Rightarrow> world \<Rightarrow> unit result \<times> world" where
  "score_outbox_MarkForRetry E eventID workerID retryAt errText w =
     (case parse_id E ''invalid event id'' eventID of
        Inl e \<Rightarrow> (Inl e, w)
      | Inr eid \<Rightarrow>
          affected_or_lost ''mark for retry''
            (exec_tx (update_score_events (owns_lease eid workerID) (\<lambda>_. retry_row retryAt errText)) w))"

definition score_outbox_FailExpired ::
  "ext \<Rightarrow> string \<Rightarrow> int \<Rightarrow> duration \<Rightarrow> string \<Rightarrow> world \<Rightarrow> bool result \<times> world" where
  "score_outbox_FailExpired E eventID maxAttempts grace errText w =
     (case parse_id E ''invalid event id'' eventID of
        Inl e \<Rightarrow> (Inl e, w)
      | Inr eid \<Rightarrow>
          (case exec_tx (update_score_events (fail_guard eid maxAttempts grace) (fail_row errText)) w of
             (Inl e, w) \<Rightarrow> (Inl (errorf_ctx ''fail expired'' e), w)
           | (Inr n, w) \<Rightarrow> (Inr (n > 0), w)))"

definition score_outbox_ListLeaseExpired ::
  "ext \<Rightarrow> duration \<Rightarrow> nat \<Rightarrow> world \<Rightarrow> ScoreEvent list result \<times> world" where
  "score_outbox_ListLeaseExpired E grace limit w =
     (case exec_tx (select (\<lambda>now d. lease_expired_rows grace limit now (score_events d))) w of
        (Inl e, w) \<Rightarrow> (Inl (errorf_ctx ''list lease expired'' e), w)
      | (Inr rows, w) \<Rightarrow> (Inr (map (scanScoreEvent E) rows), w))"

end
