(* ===== verification/Score_Outbox_Lease.thy ===== *)
theory Score_Outbox_Lease
  imports Score_Outbox
begin

text \<open>
  The correctness of the scoring outbox: the lease contract (a second instance of
  \<open>lease_outbox\<close>), the uniqueness of active events and what the enqueue operations enqueue.
\<close>

section \<open>Operations as steps\<close>

datatype score_outbox_op =
    EnqueueDue_Posts | EnqueueDue_Digests | EnqueueScored_Posts | EnqueueScored_Digests
  | ScoreClaimOne string duration
  | ScoreExtendLease string string duration
  | ScoreFinalizeWithLease string string EventStatus "string option"
  | ScoreMarkForRetry string string time string
  | ScoreFailExpired string int duration string
  | ScoreListLeaseExpired duration nat

fun score_outbox_step :: "ext \<Rightarrow> score_outbox_op \<Rightarrow> world \<Rightarrow> world" where
  "score_outbox_step E EnqueueDue_Posts w = snd (EnqueueDuePosts w)"
| "score_outbox_step E EnqueueDue_Digests w = snd (EnqueueDueDigests w)"
| "score_outbox_step E EnqueueScored_Posts w = snd (EnqueueScoredPosts w)"
| "score_outbox_step E EnqueueScored_Digests w = snd (EnqueueScoredDigests w)"
| "score_outbox_step E (ScoreClaimOne v ttl) w = snd (score_outbox_ClaimOne E v ttl w)"
| "score_outbox_step E (ScoreExtendLease i v ttl) w = snd (score_outbox_ExtendLease E i v ttl w)"
| "score_outbox_step E (ScoreFinalizeWithLease i v st x) w =
     snd (score_outbox_FinalizeWithLease E i v st x w)"
| "score_outbox_step E (ScoreMarkForRetry i v t x) w = snd (score_outbox_MarkForRetry E i v t x w)"
| "score_outbox_step E (ScoreFailExpired i n g x) w = snd (score_outbox_FailExpired E i n g x w)"
| "score_outbox_step E (ScoreListLeaseExpired g k) w = snd (score_outbox_ListLeaseExpired E g k w)"

fun score_op_valid :: "score_outbox_op \<Rightarrow> bool" where
  "score_op_valid (ScoreFinalizeWithLease i v st x) = terminal_status st"
| "score_op_valid _ = True"

fun score_op_action :: "ext \<Rightarrow> score_outbox_op \<Rightarrow> lease_action" where
  "score_op_action E (ScoreClaimOne v ttl) = ActClaim v ttl"
| "score_op_action E (ScoreExtendLease i v ttl) = ActHold (event_key E i) v"
| "score_op_action E (ScoreFinalizeWithLease i v st x) = ActHold (event_key E i) v"
| "score_op_action E (ScoreMarkForRetry i v t x) = ActHold (event_key E i) v"
| "score_op_action E (ScoreFailExpired i n g x) = ActFail (event_key E i) n g x"
| "score_op_action E _ = ActAdd"

section \<open>The lease contract\<close>

lemma update_score_events_Inr:
  "update_score_events P f now d = Inr (n, d') \<longleftrightarrow>
     n = count_where (P now) (score_events d) \<and>
     d' = d\<lparr>score_events := update_where (P now) (f now) (score_events d)\<rparr>"
  by (auto simp: update_score_events_def guarded_update_def)

lemma score_step_hold:
  assumes "open_tx w = None" and "\<And>now. holder_write (f now)"
  shows "lease_step score_events (ActHold eid v) w
           (snd (exec_tx (update_score_events (owns_lease eid v) f) w))"
  using assms(1)
  by (rule lease_step_statement) (auto simp: update_score_events_Inr intro: assms(2))

lemma score_step_fail:
  assumes "open_tx w = None"
  shows "lease_step score_events (ActFail eid n g x) w
           (snd (exec_tx (update_score_events (fail_guard eid n g) (fail_row x)) w))"
  using assms by (rule lease_step_statement) (auto simp: update_score_events_Inr)

lemma score_step_claim:
  assumes "open_tx w = None"
  shows "lease_step score_events (ActClaim v ttl) w (snd (score_outbox_ClaimOne E v ttl w))"
proof -
  obtain locks w1 where l: "take_locks w = (locks, w1)" by (cases "take_locks w")
  then have w1: "open_tx w1 = None" "committed w1 = committed w" "clock w1 = clock w"
    using assms by (auto simp: take_locks_def)
  have "lease_step score_events (ActClaim v ttl) w1
      (snd (exec_tx (claim_score_stmt locks v ttl) w1))"
    using w1(1)
    by (rule lease_step_statement) (auto simp: claim_score_stmt_def split: option.splits)
  then have "lease_step score_events (ActClaim v ttl) w
      (snd (exec_tx (claim_score_stmt locks v ttl) w1))"
    by (simp add: lease_step_def w1 clock_suffix_def)
  moreover have "snd (score_outbox_ClaimOne E v ttl w) =
      snd (exec_tx (claim_score_stmt locks v ttl) w1)"
    using l by (auto simp: score_outbox_ClaimOne_def split: sum.splits prod.splits)
  ultimately show ?thesis by simp
qed

text \<open>Adding rows in several statements adds rows.\<close>

lemma lease_step_add_trans:
  assumes "lease_step rows ActAdd w w1" and "lease_step rows ActAdd w1 w2"
  shows "lease_step rows ActAdd w w2"
proof -
  have "rows (committed w2) = rows (committed w) \<or>
      lease_effect ActAdd n (rows (committed w)) (rows (committed w2))" for n
    using assms unfolding lease_step_def by (auto simp: ball_Un)
  then show ?thesis
    using assms clock_suffix_trans unfolding lease_step_def by blast
qed

lemma lease_step_new_uuid:
  "open_tx w = None \<Longrightarrow> lease_step rows a w (snd (new_uuid w))"
  by (auto simp: lease_step_def new_uuid_def clock_suffix_def intro: exI [of _ 0])

lemma insert_score_event_rows:
  assumes "insert_score_event r d = Inr (b, d')"
  shows "score_events d' = (if b then score_events d @ [r] else score_events d)"
    and "b \<longrightarrow> l_id r \<notin> l_id ` set (score_events d)"
  using assms by (auto simp: insert_score_event_def split: if_splits)

lemma fresh_score_row_ok [simp]:
  "lease_ok (fresh_score_row p m i now)"
  by (simp add: fresh_score_row_def lease_ok_def terminal_status_def)

text \<open>The two insert statements, and what makes a statement one of them.\<close>

definition adds_score_event :: "bool stmt \<Rightarrow> bool" where
  "adds_score_event s \<longleftrightarrow> (\<exists>p m i. \<forall>now d. s now d = insert_score_event (fresh_score_row p m i now) d)"

lemma adds_score_event_queries [simp]:
  "adds_score_event (scoreEventInsertQuery i p)" "adds_score_event (digestEventInsertQuery i p)"
  by (auto simp: adds_score_event_def scoreEventInsertQuery_def digestEventInsertQuery_def)

lemma score_step_insert:
  assumes "open_tx w = None" and "adds_score_event s"
    and "distinct (map l_id (score_events (committed w)))"
  shows "lease_step score_events ActAdd w (snd (exec_tx s w))"
  using assms(1)
proof (rule lease_step_statement)
  fix now x d'
  assume "s now (committed w) = Inr (x, d')"
  moreover obtain p m i where "s now (committed w) =
      insert_score_event (fresh_score_row p m i now) (committed w)"
    using assms(2) by (auto simp: adds_score_event_def)
  ultimately have "insert_score_event (fresh_score_row p m i now) (committed w) = Inr (x, d')"
    by simp
  note i = insert_score_event_rows [OF this]
  show "score_events d' = score_events (committed w) \<or>
    lease_effect ActAdd now (score_events (committed w)) (score_events d')"
    using i assms(3) by (cases x) auto
qed

lemma lease_step_distinct:
  "lease_step rows a w w' \<Longrightarrow> distinct (map l_id (rows (committed w))) \<Longrightarrow>
   distinct (map l_id (rows (committed w')))"
  unfolding lease_step_def using lease_effect_distinct by metis

lemma score_step_insert_loop:
  assumes "open_tx w = None" and "\<And>i k. adds_score_event (q i k)"
    and "distinct (map l_id (score_events (committed w)))"
  shows "lease_step score_events ActAdd w (snd (insert_loop ctx q ks n w))"
  using assms(1,3)
proof (induction ks arbitrary: n w)
  case (Cons k ks)
  obtain i w1 where u: "new_uuid w = (i, w1)" by (cases "new_uuid w")
  have s1: "lease_step score_events ActAdd w w1"
    using lease_step_new_uuid [OF Cons.prems(1), of score_events ActAdd] u by simp
  obtain r w2 where x: "exec_tx (q i k) w1 = (r, w2)" by (cases "exec_tx (q i k) w1")
  have o1: "open_tx w1 = None" using s1 by (simp add: lease_step_def)
  have d1: "distinct (map l_id (score_events (committed w1)))"
    using lease_step_distinct [OF s1 Cons.prems(2)] .
  have s2: "lease_step score_events ActAdd w1 w2"
    using score_step_insert [OF o1 assms(2) d1, of i k] x by simp
  have o2: "open_tx w2 = None" using s2 by (simp add: lease_step_def)
  have s12: "lease_step score_events ActAdd w w2" using s1 s2 by (rule lease_step_add_trans)
  show ?case
  proof (cases r)
    case (Inl e)
    then show ?thesis using u x s12 by simp
  next
    case (Inr b)
    have "lease_step score_events ActAdd w2 (snd (insert_loop ctx q ks (n + (if b then 1 else 0)) w2))"
      using o2 lease_step_distinct [OF s2 d1] by (rule Cons.IH)
    with s12 have "lease_step score_events ActAdd w
        (snd (insert_loop ctx q ks (n + (if b then 1 else 0)) w2))"
      by (rule lease_step_add_trans)
    with u x Inr show ?thesis by simp
  qed
qed simp

text \<open>Candidates are read, then inserted.\<close>

lemma score_step_enqueue:
  assumes "open_tx w = None" and "\<And>i k. adds_score_event (q i k)"
    and "distinct (map l_id (score_events (committed w)))"
    and "snd f = snd (exec_tx (select c) w)"
  shows "lease_step score_events ActAdd w
    (snd (case f of (Inl e, w) \<Rightarrow> (Inl e, w) | (Inr ids, w) \<Rightarrow> insert_loop ctx q ids n w))"
proof -
  obtain r w1 where f: "f = (r, w1)" by (cases f)
  have s: "lease_step score_events ActAdd w w1"
    using lease_step_select [OF assms(1), of score_events ActAdd c] assms(4) f by simp
  then have "open_tx w1 = None" by (simp add: lease_step_def)
  from score_step_insert_loop [OF this assms(2) lease_step_distinct [OF s assms(3)]]
  have "lease_step score_events ActAdd w1 (snd (insert_loop ctx q ids n w1))" for ids .
  with s f lease_step_add_trans [OF s] show ?thesis by (auto split: sum.split)
qed

lemma insertDigestEvents_loop:
  "insertDigestEvents = (\<lambda>ids w. insert_loop ''insert digest score event'' digestEventInsertQuery ids 0 w)"
  by (simp add: fun_eq_iff insertDigestEvents_def)

lemma score_outbox_effect:
  assumes "score_op_valid op" and "open_tx w = None"
    and "distinct (map l_id (score_events (committed w)))"
  shows "lease_step score_events (score_op_action E op) w (score_outbox_step E op w)"
proof (cases op)
  case EnqueueDue_Posts
  then show ?thesis
    by (auto simp: EnqueueDuePosts_def dueCandidatePostIDs_def world_simps
        intro!: score_step_enqueue assms)
next
  case EnqueueDue_Digests
  have "lease_step score_events ActAdd w (snd (EnqueueDueDigests w))"
    unfolding EnqueueDueDigests_def insertDigestEvents_loop dueCandidateSummaryIDs_def
    by (rule score_step_enqueue [OF assms(2) _ assms(3)]) (simp_all add: world_simps)
  with EnqueueDue_Digests show ?thesis by simp
next
  case EnqueueScored_Posts
  then show ?thesis
    by (auto simp: EnqueueScoredPosts_def scoredCandidatePostIDs_def world_simps
        intro!: score_step_enqueue assms)
next
  case EnqueueScored_Digests
  have "lease_step score_events ActAdd w (snd (EnqueueScoredDigests w))"
    unfolding EnqueueScoredDigests_def insertDigestEvents_loop scoredCandidateSummaryIDs_def
    by (rule score_step_enqueue [OF assms(2) _ assms(3)]) (simp_all add: world_simps)
  with EnqueueScored_Digests show ?thesis by simp
next
  case (ScoreClaimOne v ttl)
  then show ?thesis using assms by (simp add: score_step_claim)
next
  case (ScoreExtendLease i v ttl)
  then show ?thesis using assms(2)
    by (auto simp: score_outbox_ExtendLease_def affected_or_lost_world
        dest!: parse_id_key split: sum.split intro: score_step_hold)
next
  case (ScoreFinalizeWithLease i v st x)
  then show ?thesis using assms(1,2)
    by (auto simp: score_outbox_FinalizeWithLease_def affected_or_lost_world
        dest!: parse_id_key split: sum.split intro: score_step_hold)
next
  case (ScoreMarkForRetry i v t x)
  then show ?thesis using assms(2)
    by (auto simp: score_outbox_MarkForRetry_def affected_or_lost_world
        dest!: parse_id_key split: sum.split intro: score_step_hold)
next
  case (ScoreFailExpired i n g x)
  then show ?thesis using assms(2)
    by (auto simp: score_outbox_FailExpired_def world_simps
        dest!: parse_id_key split: sum.split intro: score_step_fail)
next
  case (ScoreListLeaseExpired g k)
  then show ?thesis using assms(2)
    by (auto simp: score_outbox_ListLeaseExpired_def world_simps intro: lease_step_select)
qed

interpretation score_lease:
  lease_outbox score_events score_op_valid "score_op_action E" "score_outbox_step E" for E
  by unfold_locales (rule score_outbox_effect)

section \<open>Runs of the scoring outbox\<close>

text \<open>
  C14. The scoring outbox obeys the lease protocol: for any sequence of its operations
  (enqueues, claims, lease writes, reaping), any faults and any clock, leases stay well
  formed, terminal events never change, and the row of a running lease is changed by no
  operation but its owner's.
\<close>

theorem score_outbox_lease_protocol:
  assumes "open_tx w = None" and "distinct (map l_id (score_events (committed w)))"
    and "\<forall>r \<in> set (score_events (committed w)). lease_ok r"
    and "\<forall>op \<in> set ops. score_op_valid op"
  shows "let rows' = score_events (committed (fold (score_outbox_step E) ops w))
         in (\<forall>r \<in> set rows'. lease_ok r) \<and>
            (\<forall>r \<in> set (score_events (committed w)). terminal_status (l_status r) \<longrightarrow> r \<in> set rows') \<and>
            (\<forall>r \<in> set (score_events (committed w)). \<forall>v u.
               live_lease v u r \<and> (\<forall>n. clock w n \<le> u) \<and>
               (\<forall>op \<in> set ops. foreign_action (l_id r) v (score_op_action E op)) \<longrightarrow> r \<in> set rows')"
  using score_lease.run_leases_ok [OF assms(1-4), of E]
    score_lease.run_terminal_absorbing [OF assms(1,2,4), of _ E]
    score_lease.run_lease_protected [OF assms(1,2), of ops _ _ E] assms(4)
  by (auto simp: Let_def)

definition sample_score_row :: "EventStatus \<Rightarrow> string option \<Rightarrow> time option \<Rightarrow> score_event_row" where
  "sample_score_row st owner till =
     \<lparr>l_id = 7, l_status = st, l_error = None, l_attempt_count = 1, l_locked_by = owner,
      l_locked_until = till, l_next_attempt_at = None, l_created_at = 0,
      l_processed_at = (if terminal_status st then Some 3 else None),
      c_post_id = Some 1, c_summary_id = None\<rparr>"

theorem score_outbox_lease_protocol_witness:
  "sample_score_row Failed None None \<in> set (score_events (committed
     (fold (score_outbox_step decimal_ext) [EnqueueScored_Posts, ScoreClaimOne ''w1'' 1000]
        (quiet_world (empty_db\<lparr>score_events := [sample_score_row Failed None None]\<rparr>)))))"
  using score_outbox_lease_protocol
    [of "quiet_world (empty_db\<lparr>score_events := [sample_score_row Failed None None]\<rparr>)"
      "[EnqueueScored_Posts, ScoreClaimOne ''w1'' 1000]" decimal_ext]
  by (auto simp: Let_def sample_score_row_def lease_ok_def terminal_status_def empty_db_def)

section \<open>What is enqueued\<close>

lemma score_event_conflict_post:
  "score_event_conflict (fresh_score_row (Some p) None i now) q \<longleftrightarrow>
     active_status (l_status q) \<and> c_post_id q = Some p"
  by (auto simp: score_event_conflict_def fresh_score_row_def active_status_def)

lemma score_event_conflict_digest:
  "score_event_conflict (fresh_score_row None (Some m) i now) q \<longleftrightarrow>
     active_status (l_status q) \<and> c_summary_id q = Some m"
  by (auto simp: score_event_conflict_def fresh_score_row_def active_status_def)

text \<open>Every insert keeps the uniqueness of active events, inside and outside transactions.\<close>

lemma score_insert_keeps:
  assumes "adds_score_event s" shows "stmt_keeps score_events_unique s"
  using assms insert_score_event_unique by (fastforce simp: stmt_keeps_def adds_score_event_def)

lemma insert_loop_unique:
  assumes "\<And>i k. adds_score_event (q i k)"
  shows "world_inv score_events_unique w \<Longrightarrow>
    world_inv score_events_unique (snd (insert_loop ctx q ks n w))"
proof (induction ks arbitrary: n w)
  case (Cons k ks)
  obtain i w1 where u: "new_uuid w = (i, w1)" by (cases "new_uuid w")
  obtain r w2 where x: "exec_tx (q i k) w1 = (r, w2)" by (cases "exec_tx (q i k) w1")
  have "world_inv score_events_unique w1"
    using keepsD [OF keeps_new_uuid u] Cons.prems by blast
  then have "world_inv score_events_unique w2"
    using keepsD [OF keeps_exec_tx [OF score_insert_keeps [OF assms]] x] by blast
  with Cons.IH u x show ?case by (cases r) auto
qed simp

section \<open>Enqueueing is complete and idempotent\<close>

definition fault_free :: "world \<Rightarrow> bool" where
  "fault_free w \<longleftrightarrow> open_tx w = None \<and> (\<forall>n. faults w n = Healthy)"

text \<open>The next \<open>n\<close> identifiers differ from one another and from those in use.\<close>

definition ids_fresh :: "world \<Rightarrow> nat \<Rightarrow> uuid set \<Rightarrow> bool" where
  "ids_fresh w n U \<longleftrightarrow> inj_on (fresh_ids w) {..<n} \<and> (\<forall>i < n. fresh_ids w i \<notin> U)"

lemma ids_fresh_mono: "ids_fresh w n U \<Longrightarrow> m \<le> n \<Longrightarrow> ids_fresh w m U"
  by (auto simp: ids_fresh_def intro: inj_on_subset)

lemma fault_free_exec_tx:
  assumes "fault_free w" and "s (clock w 0) (committed w) = Inr (x, d)"
  shows "\<exists>w'. exec_tx s w = (Inr x, w') \<and> committed w' = d \<and> fault_free w' \<and>
    fresh_ids w' = fresh_ids w"
  using assms
  by (auto simp: exec_tx_outside_fault_free fault_free_def)

lemma fault_free_new_uuid:
  assumes "fault_free w" and "ids_fresh w (Suc n) U"
  shows "\<exists>w'. new_uuid w = (fresh_ids w 0, w') \<and> committed w' = committed w \<and> fault_free w' \<and>
    ids_fresh w' n (insert (fresh_ids w 0) U) \<and> fresh_ids w 0 \<notin> U"
proof -
  have "fresh_ids w (Suc i) \<noteq> fresh_ids w 0" if "i < n" for i
    using assms(2) that by (auto simp: ids_fresh_def dest: inj_onD)
  moreover have "inj_on (\<lambda>i. fresh_ids w (Suc i)) {..<n}"
    using assms(2) by (auto simp: ids_fresh_def inj_on_def)
  moreover have "\<forall>i < n. fresh_ids w (Suc i) \<notin> U" "fresh_ids w 0 \<notin> U"
    using assms(2) by (auto simp: ids_fresh_def)
  ultimately show ?thesis
    using assms(1)
    by (auto simp: new_uuid_def fault_free_def ids_fresh_def advance_def)
qed

text \<open>One insert for every candidate, in order.\<close>

lemma insert_loop_posts:
  assumes "fault_free w" and "ids_fresh w (length ks) (l_id ` set (score_events (committed w)))"
    and "distinct ks" and "set ks \<subseteq> post_ids (committed w)"
    and "\<forall>k \<in> set ks. \<not> active_for_post (committed w) k"
  shows "\<exists>new w'. insert_loop ctx scoreEventInsertQuery ks n w = (Inr (n + int (length ks)), w') \<and>
    committed w' = (committed w)\<lparr>score_events := score_events (committed w) @ new\<rparr> \<and>
    map c_post_id new = map Some ks \<and> (\<forall>r \<in> set new. l_status r = Pending) \<and> fault_free w'"
  using assms
proof (induction ks arbitrary: n w)
  case Nil
  then show ?case by (auto intro!: exI [of _ "[]"])
next
  case (Cons k ks)
  define d where "d = committed w"
  obtain w1 where w1: "new_uuid w = (fresh_ids w 0, w1)" "committed w1 = d" "fault_free w1"
    "ids_fresh w1 (length ks) (insert (fresh_ids w 0) (l_id ` set (score_events d)))"
    "fresh_ids w 0 \<notin> l_id ` set (score_events d)"
    using fault_free_new_uuid [OF Cons.prems(1), of "length ks"] Cons.prems(2) by (auto simp: d_def)
  define row where "row = fresh_score_row (Some k) None (fresh_ids w 0) (clock w1 0)"
  define d2 where "d2 = d\<lparr>score_events := score_events d @ [row]\<rparr>"
  have ins: "scoreEventInsertQuery (fresh_ids w 0) k (clock w1 0) (committed w1) = Inr (True, d2)"
  proof -
    have "\<not> score_event_conflict row q" if "q \<in> set (score_events d)" for q
      using that Cons.prems(5)
      by (auto simp: row_def score_event_conflict_post active_for_post_def d_def)
    moreover have "one_key (c_post_id row) (c_summary_id row)" "l_id row = fresh_ids w 0"
      "c_post_id row = Some k" "c_summary_id row = None"
      by (simp_all add: row_def fresh_score_row_def one_key_def)
    moreover have "k \<in> post_ids d" using Cons.prems(4) by (simp add: d_def)
    ultimately show ?thesis
      using w1(5) by (auto simp: scoreEventInsertQuery_def insert_score_event_def w1(2) d2_def
          row_def [symmetric] opt_in_def)
  qed
  from fault_free_exec_tx [where s = "scoreEventInsertQuery (fresh_ids w 0) k", OF w1(3) ins]
  obtain w2 where w2: "exec_tx (scoreEventInsertQuery (fresh_ids w 0) k) w1 = (Inr True, w2)"
    "committed w2 = d2" "fault_free w2" "fresh_ids w2 = fresh_ids w1"
    by blast
  have f1: "ids_fresh w2 (length ks) (l_id ` set (score_events (committed w2)))"
    using w1(4) w2(2,4) by (simp add: d2_def row_def fresh_score_row_def ids_fresh_def)
  have f2: "\<forall>j \<in> set ks. \<not> active_for_post (committed w2) j"
    using Cons.prems(3,5)
    by (auto simp: w2(2) d2_def active_for_post_def d_def row_def fresh_score_row_def)
  have f3: "set ks \<subseteq> post_ids (committed w2)"
    using Cons.prems(4) by (auto simp: w2(2) d2_def d_def post_ids_def)
  have f4: "distinct ks" using Cons.prems(3) by simp
  obtain new w3 where w3:
    "insert_loop ctx scoreEventInsertQuery ks (n + 1) w2 = (Inr (n + 1 + int (length ks)), w3)"
    "committed w3 = (committed w2)\<lparr>score_events := score_events (committed w2) @ new\<rparr>"
    "map c_post_id new = map Some ks" "\<forall>r \<in> set new. l_status r = Pending" "fault_free w3"
    using Cons.IH [OF w2(3) f1 f4 f3 f2, of "n + 1"] by blast
  show ?case
    using w1(1) w2(1) w3
    by (intro exI [of _ "row # new"] exI [of _ w3])
      (simp add: w2(2) d2_def d_def, simp add: row_def fresh_score_row_def)
qed

text \<open>Once every due post has a pending event, none is due.\<close>

lemma due_posts_queued:
  assumes "d' = d\<lparr>score_events := score_events d @ new\<rparr>" and "map c_post_id new = map Some (due_posts d)"
    and "\<forall>r \<in> set new. l_status r = Pending"
  shows "due_posts d' = []"
proof -
  have act: "active_for_post d' p"
    if m: "m \<in> set (summaries d)" "m_post_id m = Some p" "\<forall>r \<in> set (scores d). r_post_id r \<noteq> Some p" for m p
  proof (cases "active_for_post d p")
    case True
    then show ?thesis by (auto simp: active_for_post_def assms(1))
  next
    case False
    then have "p \<in> set (due_posts d)" using m by (force simp: due_posts_def)
    then have "Some p \<in> set (map c_post_id new)" by (simp add: assms(2))
    then show ?thesis using assms(3) by (auto simp: active_for_post_def assms(1) active_status_def)
  qed
  have "summaries d' = summaries d" "scores d' = scores d" by (simp_all add: assms(1))
  then show ?thesis using act by (auto simp: due_posts_def filter_empty_conv) blast
qed


definition sample_post :: "uuid \<Rightarrow> post_row" where
  "sample_post i =
     \<lparr>p_id = i, p_source_id = 1, p_external_id = itoa (uint i), p_published_at = 1, p_author = None,
      p_text = ''text'', p_metadata = [], p_created_at = uint i, p_updated_at = 1\<rparr>"

definition sample_summary :: "uuid \<Rightarrow> uuid option \<Rightarrow> summary_row" where
  "sample_summary i p =
     \<lparr>m_id = i, m_post_id = p, m_source_id = 1, m_text = ''short'', m_word_count = 1, m_created_at = 2\<rparr>"

lemma quiet_world_fault_free [simp]: "fault_free (quiet_world d)"
  by (simp add: fault_free_def)

lemma quiet_world_ids_fresh:
  assumes "n \<le> 1000" shows "ids_fresh (quiet_world d) n {}"
proof -
  have "(of_nat i :: uuid) = of_nat j \<Longrightarrow> i < n \<Longrightarrow> j < n \<Longrightarrow> i = j" for i j
    using assms by (simp add: word_of_nat_eq_iff take_bit_eq_mod)
  then show ?thesis by (auto simp: ids_fresh_def inj_on_def)
qed


text \<open>
  Score rows without an active event for their post, among the first 500 of which one
  belongs to a digest: its \<open>post_id\<close> is NULL.
\<close>

definition digest_blocks :: "database \<Rightarrow> bool" where
  "digest_blocks d \<longleftrightarrow> None \<in> set (take enqueueScanLimit (scored_posts d))"

definition no_nil_post :: "database \<Rightarrow> bool" where
  "no_nil_post d \<longleftrightarrow> 0 \<notin> post_ids d \<and> \<not> active_for_post d 0"

lemma scoreEventInsertQuery_Inr:
  assumes "scoreEventInsertQuery i p now d = Inr (b, d')"
  shows "(d' = d \<and> active_for_post d p) \<or>
    (p \<in> post_ids d \<and> d' = d\<lparr>score_events := score_events d @ [fresh_score_row (Some p) None i now]\<rparr>)"
  using assms
  by (auto simp: scoreEventInsertQuery_def insert_score_event_def score_event_conflict_post
      active_for_post_def opt_in_def split: if_splits)

lemma no_nil_post_kept: "stmt_keeps no_nil_post (scoreEventInsertQuery i p)"
  unfolding stmt_keeps_def
  by (auto simp: no_nil_post_def active_for_post_def post_ids_def
      dest!: scoreEventInsertQuery_Inr)

lemma insert_nil_fails: "no_nil_post d \<Longrightarrow> \<exists>e. scoreEventInsertQuery i 0 now d = Inl e"
  using scoreEventInsertQuery_Inr [of i 0 now d]
  by (cases "scoreEventInsertQuery i 0 now d") (auto simp: no_nil_post_def)

lemma insert_loop_nil_fails:
  assumes "0 \<in> set ks"
  shows "world_inv no_nil_post w \<Longrightarrow> \<exists>e. fst (insert_loop ctx scoreEventInsertQuery ks n w) = Inl e"
  using assms
proof (induction ks arbitrary: n w)
  case (Cons k ks)
  obtain i w1 where u: "new_uuid w = (i, w1)" by (cases "new_uuid w")
  obtain r w2 where x: "exec_tx (scoreEventInsertQuery i k) w1 = (r, w2)"
    by (cases "exec_tx (scoreEventInsertQuery i k) w1")
  have i1: "world_inv no_nil_post w1" using keepsD [OF keeps_new_uuid u] Cons.prems(1) by blast
  have i2: "world_inv no_nil_post w2"
    using keepsD [OF keeps_exec_tx [OF no_nil_post_kept] x i1] .
  show ?case
  proof (cases "k = 0")
    case True
    have "\<exists>e. r = Inl e"
      using exec_tx_must_fail [OF i1, of "scoreEventInsertQuery i k"] insert_nil_fails x True by auto
    then show ?thesis using u x by auto
  next
    case False
    then have "0 \<in> set ks" using Cons.prems(2) by simp
    with Cons.IH [OF i2] u x show ?thesis by (cases r) auto
  qed
qed simp

text \<open>
  A scored digest blocks re-scoring: as soon as one of the first 500 score rows without
  an active event belongs to a digest, \<open>EnqueueScoredPosts\<close> fails, inside or outside a
  transaction and whatever faults occur: the NULL \<open>post_id\<close> scans into the nil UUID, for
  which no post exists.
\<close>

lemma EnqueueScoredPosts_fails_on_digest:
  assumes "world_inv (\<lambda>d. no_nil_post d \<and> digest_blocks d) w"
  shows "\<exists>e. fst (EnqueueScoredPosts w) = Inl e"
proof -
  let ?q = "\<lambda>_ d. map scan_uuid (take enqueueScanLimit (scored_posts d))"
  obtain r w1 where x: "exec_tx (select ?q) w = (r, w1)" by (cases "exec_tx (select ?q) w")
  have "world_inv no_nil_post w" using assms by (auto simp: world_inv_def split: option.splits)
  with keepsD [OF keeps_exec_tx [OF stmt_keeps_select] x] have w1: "world_inv no_nil_post w1" by blast
  show ?thesis
  proof (cases r)
    case (Inl e)
    then show ?thesis using x by (simp add: EnqueueScoredPosts_def scoredCandidatePostIDs_def)
  next
    case (Inr ids)
    from exec_tx_select_inv [OF assms, of ?q ids w1] x Inr obtain d where
      "digest_blocks d" "ids = map scan_uuid (take enqueueScanLimit (scored_posts d))" by auto
    then have "0 \<in> set ids"
      by (force simp: digest_blocks_def scan_uuid_def intro!: rev_image_eqI)
    then show ?thesis
      using insert_loop_nil_fails [OF _ w1] x Inr
      by (simp add: EnqueueScoredPosts_def scoredCandidatePostIDs_def)
  qed
qed

end
