(* ===== verification/Summary_Outbox.thy ===== *)
theory Summary_Outbox
  imports Tables
begin

text \<open>
  \<open>internal/data/summary_outbox_repo.go\<close>: the outbox of summarization events. Each operation
  parses its identifiers, runs one statement and turns the outcome into a value or an error.
\<close>

section \<open>Rows to events\<close>

definition summary_event_to_domain :: "ext \<Rightarrow> summary_event_row \<Rightarrow> SummaryEvent" where
  "summary_event_to_domain E r =
     \<lparr>se_ID = uuid_string E (l_id r),
      se_PostID = map_option (uuid_string E) (e_post_id r),
      se_SourceID = uuid_string E (e_source_id r),
      se_EventType = e_event_type r,
      se_Status = l_status r,
      se_SummaryID = map_option (uuid_string E) (e_summary_id r),
      se_Error = l_error r,
      se_CreatedAt = l_created_at r,
      se_ProcessedAt = l_processed_at r,
      se_AttemptCount = l_attempt_count r\<rparr>"

definition scanSummaryEvent :: "ext \<Rightarrow> summary_event_row \<Rightarrow> SummaryEvent" where
  "scanSummaryEvent E r =
     (let ev = \<lparr>se_ID = uuid_string E (l_id r), se_PostID = None,
                se_SourceID = uuid_string E (e_source_id r), se_EventType = e_event_type r,
                se_Status = l_status r, se_SummaryID = None, se_Error = None,
                se_CreatedAt = l_created_at r, se_ProcessedAt = None, se_AttemptCount = 0\<rparr>;
          ev = (case e_post_id r of Some p \<Rightarrow> ev\<lparr>se_PostID := Some (uuid_string E p)\<rparr> | None \<Rightarrow> ev);
          ev = (case e_summary_id r of Some m \<Rightarrow> ev\<lparr>se_SummaryID := Some (uuid_string E m)\<rparr> | None \<Rightarrow> ev);
          ev = (case l_error r of Some x \<Rightarrow> ev\<lparr>se_Error := Some x\<rparr> | None \<Rightarrow> ev);
          ev = (case l_processed_at r of Some t \<Rightarrow> ev\<lparr>se_ProcessedAt := Some t\<rparr> | None \<Rightarrow> ev)
      in ev\<lparr>se_AttemptCount := l_attempt_count r\<rparr>)"

lemma scanSummaryEvent_eq: "scanSummaryEvent E r = summary_event_to_domain E r"
  by (simp add: scanSummaryEvent_def summary_event_to_domain_def Let_def split: option.splits)

section \<open>Enqueueing and reading\<close>

definition new_summary_event_row :: "uuid \<Rightarrow> uuid \<Rightarrow> uuid option \<Rightarrow> SummaryEvent \<Rightarrow> summary_event_row" where
  "new_summary_event_row i s p ev =
     \<lparr>l_id = i, l_status = se_Status ev, l_error = None, l_attempt_count = 0,
      l_locked_by = None, l_locked_until = None, l_next_attempt_at = None,
      l_created_at = se_CreatedAt ev, l_processed_at = None,
      e_post_id = p, e_source_id = s, e_event_type = se_EventType ev, e_summary_id = None\<rparr>"

definition summary_outbox_Save :: "ext \<Rightarrow> SummaryEvent \<Rightarrow> world \<Rightarrow> SummaryEvent result \<times> world" where
  "summary_outbox_Save E event w =
     (case parse_id E ''invalid event id'' (se_ID event) of
        Inl e \<Rightarrow> (Inl e, w)
      | Inr i \<Rightarrow>
     (case parse_id E ''invalid source id'' (se_SourceID event) of
        Inl e \<Rightarrow> (Inl e, w)
      | Inr s \<Rightarrow>
     (case parse_opt_id E ''invalid post id'' (se_PostID event) of
        Inl e \<Rightarrow> (Inl e, w)
      | Inr p \<Rightarrow>
     (let row = new_summary_event_row i s p event in
      case exec_tx (write_stmt (insert_summary_event row)) w of
        (Inl err, w) \<Rightarrow>
          (if pq_code (ent_constraint err) = Some ''23505''
           then (Inl (Sentinel ErrSummaryAlreadyProcessing), w)
           else (Inl (errorf_ctx ''save summary event'' (ent_constraint err)), w))
      | (Inr _, w) \<Rightarrow> (Inr (summary_event_to_domain E row), w)))))"

definition summary_outbox_Get :: "ext \<Rightarrow> string \<Rightarrow> world \<Rightarrow> SummaryEvent result \<times> world" where
  "summary_outbox_Get E ident w =
     (case parse_id E ''invalid event id'' ident of
        Inl e \<Rightarrow> (Inl e, w)
      | Inr uid \<Rightarrow>
          (case exec_tx (select (\<lambda>_ d. filter (\<lambda>r. l_id r = uid) (summary_events d))) w of
             (Inl e, w) \<Rightarrow> (Inl (errorf_ctx ''get summary event'' e), w)
           | (Inr rows, w) \<Rightarrow>
               (case ent_only ''summary_event'' rows of
                  Inl e \<Rightarrow> (if ent_is_not_found e then (Inl (Sentinel ErrSummaryEventNotFound), w)
                            else (Inl (errorf_ctx ''get summary event'' e), w))
                | Inr r \<Rightarrow> (Inr (summary_event_to_domain E r), w))))"

definition active_source_event :: "uuid \<Rightarrow> SummaryEventType \<Rightarrow> summary_event_row \<Rightarrow> bool" where
  "active_source_event uid ty r \<longleftrightarrow>
     e_source_id r = uid \<and> e_event_type r = ty \<and> (l_status r = Pending \<or> l_status r = Processing)"

definition summary_outbox_HasActiveEvent ::
  "ext \<Rightarrow> string \<Rightarrow> SummaryEventType \<Rightarrow> world \<Rightarrow> SummaryEvent option result \<times> world" where
  "summary_outbox_HasActiveEvent E sourceID eventType w =
     (case parse_id E ''invalid source id'' sourceID of
        Inl e \<Rightarrow> (Inl e, w)
      | Inr uid \<Rightarrow>
          (case exec_tx (select (\<lambda>_ d. filter (active_source_event uid eventType) (summary_events d))) w of
             (Inl e, w) \<Rightarrow> (Inl (errorf_ctx ''check active event'' e), w)
           | (Inr rows, w) \<Rightarrow>
               (case ent_only ''summary_event'' rows of
                  Inl e \<Rightarrow> (if ent_is_not_found e then (Inr None, w)
                            else (Inl (errorf_ctx ''check active event'' e), w))
                | Inr r \<Rightarrow> (Inr (Some (summary_event_to_domain E r)), w))))"

section \<open>The lease operations\<close>

definition claim_summary_stmt ::
  "uuid list \<Rightarrow> string \<Rightarrow> duration \<Rightarrow> summary_event_row option stmt" where
  "claim_summary_stmt locks workerID leaseTTL now d =
     (case claim_rows locks workerID leaseTTL now (summary_events d) of
        None \<Rightarrow> Inr (None, d)
      | Some (r, rows) \<Rightarrow> Inr (Some r, d\<lparr>summary_events := rows\<rparr>))"

definition summary_outbox_ClaimOne ::
  "ext \<Rightarrow> string \<Rightarrow> duration \<Rightarrow> world \<Rightarrow> SummaryEvent result \<times> world" where
  "summary_outbox_ClaimOne E workerID leaseTTL w =
     (let (locks, w) = take_locks w;
          (r, w) = exec_tx (claim_summary_stmt locks workerID leaseTTL) w
      in case query_row r of
           Inl err \<Rightarrow>
             (if errors_is err SqlErrNoRows then (Inl (Sentinel ErrNoEventAvailable), w)
              else (Inl (errorf_ctx ''claim event'' err), w))
         | Inr row \<Rightarrow> (Inr (scanSummaryEvent E row), w))"

definition update_summary_events ::
  "(time \<Rightarrow> summary_event_row \<Rightarrow> bool) \<Rightarrow> (time \<Rightarrow> summary_event_row \<Rightarrow> summary_event_row) \<Rightarrow> nat stmt" where
  "update_summary_events P f now d =
     (let (n, rows) = guarded_update (P now) (f now) (summary_events d)
      in Inr (n, d\<lparr>summary_events := rows\<rparr>))"

definition summary_outbox_ExtendLease ::
  "ext \<Rightarrow> string \<Rightarrow> string \<Rightarrow> duration \<Rightarrow> world \<Rightarrow> unit result \<times> world" where
  "summary_outbox_ExtendLease E eventID workerID leaseTTL w =
     (case parse_id E ''invalid event id'' eventID of
        Inl e \<Rightarrow> (Inl e, w)
      | Inr eid \<Rightarrow>
          affected_or_lost ''extend lease''
            (exec_tx (update_summary_events (owns_lease eid workerID) (extend_row leaseTTL)) w))"

definition finalize_summary_row ::
  "EventStatus \<Rightarrow> uuid option \<Rightarrow> string option \<Rightarrow> time \<Rightarrow> summary_event_row \<Rightarrow> summary_event_row" where
  "finalize_summary_row status summaryArg errorArg now r =
     (finalize_row status errorArg now r)
       \<lparr>e_summary_id := (case summaryArg of Some m \<Rightarrow> Some m | None \<Rightarrow> e_summary_id r)\<rparr>"

text \<open>The new \<open>summary_id\<close> must refer to a summary.\<close>

definition finalize_summary_stmt ::
  "uuid \<Rightarrow> string \<Rightarrow> EventStatus \<Rightarrow> uuid option \<Rightarrow> string option \<Rightarrow> nat stmt" where
  "finalize_summary_stmt eid workerID status summaryArg errorArg now d =
     (if (\<exists>r \<in> set (summary_events d). owns_lease eid workerID now r) \<and>
         \<not> opt_in summaryArg (summary_ids d)
      then Inl foreign_key_violation
      else update_summary_events (owns_lease eid workerID)
             (finalize_summary_row status summaryArg errorArg) now d)"

definition summary_outbox_FinalizeWithLease ::
  "ext \<Rightarrow> string \<Rightarrow> string \<Rightarrow> EventStatus \<Rightarrow> string option \<Rightarrow> string option \<Rightarrow> world \<Rightarrow>
     unit result \<times> world" where
  "summary_outbox_FinalizeWithLease E eventID workerID status summaryID errText w =
     (case parse_id E ''invalid event id'' eventID of
        Inl e \<Rightarrow> (Inl e, w)
      | Inr eid \<Rightarrow>
     (case parse_opt_id E ''invalid summary id'' summaryID of
        Inl e \<Rightarrow> (Inl e, w)
      | Inr summaryArg \<Rightarrow>
          affected_or_lost ''finalize with lease''
            (exec_tx (finalize_summary_stmt eid workerID status summaryArg errText) w)))"

definition summary_outbox_MarkForRetry ::
  "ext \<Rightarrow> string \<Rightarrow> string \<Rightarrow> time \<Rightarrow> string \<Rightarrow> world \<Rightarrow> unit result \<times> world" where
  "summary_outbox_MarkForRetry E eventID workerID retryAt errText w =
     (case parse_id E ''invalid event id'' eventID of
        Inl e \<Rightarrow> (Inl e, w)
      | Inr eid \<Rightarrow>
          affected_or_lost ''mark for retry''
            (exec_tx (update_summary_events (owns_lease eid workerID) (\<lambda>_. retry_row retryAt errText)) w))"

definition summary_outbox_FailExpired ::
  "ext \<Rightarrow> string \<Rightarrow> int \<Rightarrow> duration \<Rightarrow> string \<Rightarrow> world \<Rightarrow> bool result \<times> world" where
  "summary_outbox_FailExpired E eventID maxAttempts grace errText w =
     (case parse_id E ''invalid event id'' eventID of
        Inl e \<Rightarrow> (Inl e, w)
      | Inr eid \<Rightarrow>
          (case exec_tx (update_summary_events (fail_guard eid maxAttempts grace) (fail_row errText)) w of
             (Inl e, w) \<Rightarrow> (Inl (errorf_ctx ''fail expired'' e), w)
           | (Inr n, w) \<Rightarrow> (Inr (n > 0), w)))"

definition summary_outbox_ListLeaseExpired ::
  "ext \<Rightarrow> duration \<Rightarrow> nat \<Rightarrow> world \<Rightarrow> SummaryEvent list result \<times> world" where
  "summary_outbox_ListLeaseExpired E grace limit w =
     (case exec_tx (select (\<lambda>now d. lease_expired_rows grace limit now (summary_events d))) w of
        (Inl e, w) \<Rightarrow> (Inl (errorf_ctx ''list lease expired'' e), w)
      | (Inr rows, w) \<Rightarrow> (Inr (map (scanSummaryEvent E) rows), w))"

section \<open>Unguarded status update\<close>

definition update_status_row ::
  "EventStatus \<Rightarrow> uuid option \<Rightarrow> string option \<Rightarrow> time option \<Rightarrow> summary_event_row \<Rightarrow> summary_event_row" where
  "update_status_row status sid errText processed r =
     (let r = r\<lparr>l_status := status\<rparr>;
          r = (case sid of Some m \<Rightarrow> r\<lparr>e_summary_id := Some m\<rparr> | None \<Rightarrow> r);
          r = (case errText of Some x \<Rightarrow> r\<lparr>l_error := Some x\<rparr> | None \<Rightarrow> r)
      in case processed of
           Some t \<Rightarrow> r\<lparr>l_processed_at := Some t, l_locked_until := None, l_locked_by := None\<rparr>
         | None \<Rightarrow> r)"

definition update_status_stmt ::
  "uuid \<Rightarrow> EventStatus \<Rightarrow> uuid option \<Rightarrow> string option \<Rightarrow> time option \<Rightarrow> bool stmt" where
  "update_status_stmt uid status sid errText processed now d =
     (let f = update_status_row status sid errText processed;
          hit = (\<lambda>r. l_id r = uid)
      in case filter hit (summary_events d) of
           [] \<Rightarrow> Inr (False, d)
         | r # _ \<Rightarrow>
             (if \<exists>q \<in> set (summary_events d). l_id q \<noteq> uid \<and> summary_event_conflict (f r) q
              then Inl unique_violation
              else if \<not> opt_in sid (summary_ids d) then Inl foreign_key_violation
              else Inr (True, d\<lparr>summary_events := update_where hit f (summary_events d)\<rparr>)))"

definition summary_outbox_UpdateStatus ::
  "ext \<Rightarrow> string \<Rightarrow> EventStatus \<Rightarrow> string option \<Rightarrow> string option \<Rightarrow> world \<Rightarrow> unit result \<times> world" where
  "summary_outbox_UpdateStatus E ident status summaryID errText w =
     (case parse_id E ''invalid event id'' ident of
        Inl e \<Rightarrow> (Inl e, w)
      | Inr uid \<Rightarrow>
     (case parse_opt_id E ''invalid summary id'' summaryID of
        Inl e \<Rightarrow> (Inl e, w)
      | Inr sid \<Rightarrow>
     (let (processed, w) =
            (if status = Completed \<or> status = Failed \<or> status = Expired
             then (let (t, w) = time_now w in (Some t, w)) else (None, w))
      in case exec_tx (update_status_stmt uid status sid errText processed) w of
           (Inl e, w) \<Rightarrow>
             (if ent_is_not_found e then (Inl (Sentinel ErrSummaryEventNotFound), w)
              else (Inl (errorf_ctx ''update summary event status'' (ent_constraint e)), w))
         | (Inr found, w) \<Rightarrow>
             (if \<not> found then (Inl (Sentinel ErrSummaryEventNotFound), w) else (Inr (), w)))))"

end
