(* ===== verification/Summary_Outbox_Lease.thy ===== *)
theory Summary_Outbox_Lease
  imports Summary_Outbox
begin

text \<open>
  The correctness of the summary outbox: its operations as steps, the lease contract they
  satisfy (an instance of \<open>lease_outbox\<close>), the choice made by \<open>ClaimOne\<close>, the fencing of the
  guarded writes and the uniqueness of active events.
\<close>

section \<open>Operations as steps\<close>

datatype summary_outbox_op =
    SaveEvent SummaryEvent
  | ClaimOne string duration
  | ExtendLease string string duration
  | FinalizeWithLease string string EventStatus "string option" "string option"
  | MarkForRetry string string time string
  | FailExpired string int duration string
  | ListLeaseExpired duration nat
  | GetEvent string
  | HasActiveEvent string SummaryEventType

fun summary_outbox_step :: "ext \<Rightarrow> summary_outbox_op \<Rightarrow> world \<Rightarrow> world" where
  "summary_outbox_step E (SaveEvent ev) w = snd (summary_outbox_Save E ev w)"
| "summary_outbox_step E (ClaimOne v ttl) w = snd (summary_outbox_ClaimOne E v ttl w)"
| "summary_outbox_step E (ExtendLease i v ttl) w = snd (summary_outbox_ExtendLease E i v ttl w)"
| "summary_outbox_step E (FinalizeWithLease i v st m x) w =
     snd (summary_outbox_FinalizeWithLease E i v st m x w)"
| "summary_outbox_step E (MarkForRetry i v t x) w = snd (summary_outbox_MarkForRetry E i v t x w)"
| "summary_outbox_step E (FailExpired i n g x) w = snd (summary_outbox_FailExpired E i n g x w)"
| "summary_outbox_step E (ListLeaseExpired g k) w = snd (summary_outbox_ListLeaseExpired E g k w)"
| "summary_outbox_step E (GetEvent i) w = snd (summary_outbox_Get E i w)"
| "summary_outbox_step E (HasActiveEvent s ty) w = snd (summary_outbox_HasActiveEvent E s ty w)"

text \<open>New events are pending and workers finalize with a terminal status, as every caller does.\<close>

fun summary_op_valid :: "summary_outbox_op \<Rightarrow> bool" where
  "summary_op_valid (SaveEvent ev) = (se_Status ev = Pending)"
| "summary_op_valid (FinalizeWithLease i v st m x) = terminal_status st"
| "summary_op_valid _ = True"

fun summary_op_action :: "ext \<Rightarrow> summary_outbox_op \<Rightarrow> lease_action" where
  "summary_op_action E (ClaimOne v ttl) = ActClaim v ttl"
| "summary_op_action E (ExtendLease i v ttl) = ActHold (event_key E i) v"
| "summary_op_action E (FinalizeWithLease i v st m x) = ActHold (event_key E i) v"
| "summary_op_action E (MarkForRetry i v t x) = ActHold (event_key E i) v"
| "summary_op_action E (FailExpired i n g x) = ActFail (event_key E i) n g x"
| "summary_op_action E _ = ActAdd"

lemma holder_write_finalize_summary [simp]:
  "terminal_status st \<Longrightarrow> holder_write (finalize_summary_row st m x now)"
  using holder_write_rows(2) [of st x now]
  by (auto simp: holder_write_def finalize_summary_row_def lease_ok_def)

lemma update_summary_events_Inr:
  "update_summary_events P f now d = Inr (n, d') \<longleftrightarrow>
     n = count_where (P now) (summary_events d) \<and>
     d' = d\<lparr>summary_events := update_where (P now) (f now) (summary_events d)\<rparr>"
  by (auto simp: update_summary_events_def guarded_update_def)

lemma lease_step_hold:
  assumes "open_tx w = None" and "\<And>now. holder_write (f now)"
  shows "lease_step summary_events (ActHold eid v) w
           (snd (exec_tx (update_summary_events (owns_lease eid v) f) w))"
  using assms(1)
  by (rule lease_step_statement) (auto simp: update_summary_events_Inr intro: assms(2))

lemma lease_step_fail:
  assumes "open_tx w = None"
  shows "lease_step summary_events (ActFail eid n g x) w
           (snd (exec_tx (update_summary_events (fail_guard eid n g) (fail_row x)) w))"
  using assms by (rule lease_step_statement) (auto simp: update_summary_events_Inr)

lemma lease_step_finalize:
  assumes "open_tx w = None" and "terminal_status st"
  shows "lease_step summary_events (ActHold eid v) w
           (snd (exec_tx (finalize_summary_stmt eid v st m x) w))"
  using assms(1)
proof (rule lease_step_statement)
  fix now y d'
  assume "finalize_summary_stmt eid v st m x now (committed w) = Inr (y, d')"
  then have "summary_events d' = update_where (owns_lease eid v now)
      (finalize_summary_row st m x now) (summary_events (committed w))"
    by (auto simp: finalize_summary_stmt_def update_summary_events_Inr split: if_splits)
  with holder_write_finalize_summary [OF assms(2), of m x now]
  show "summary_events d' = summary_events (committed w) \<or>
    lease_effect (ActHold eid v) now (summary_events (committed w)) (summary_events d')"
    by auto
qed

lemma fresh_summary_row:
  "se_Status ev = Pending \<Longrightarrow>
   lease_ok (new_summary_event_row i s p ev) \<and> l_status (new_summary_event_row i s p ev) = Pending"
  by (simp add: new_summary_event_row_def lease_ok_def terminal_status_def)

lemma insert_summary_event_rows:
  assumes "insert_summary_event r d = Inr d'"
  shows "summary_events d' = summary_events d @ [r]" "l_id r \<notin> l_id ` set (summary_events d)"
  using assms by (auto simp: insert_summary_event_def split: if_splits)

lemma lease_step_save:
  assumes "se_Status ev = Pending" and "open_tx w = None"
    and "distinct (map l_id (summary_events (committed w)))"
  shows "lease_step summary_events ActAdd w (snd (summary_outbox_Save E ev w))"
proof -
  have "lease_step summary_events ActAdd w
      (snd (exec_tx (write_stmt (insert_summary_event (new_summary_event_row i s p ev))) w))"
    for i s p
    using assms(2)
  proof (rule lease_step_statement)
    fix now x d'
    assume "write_stmt (insert_summary_event (new_summary_event_row i s p ev)) now (committed w) =
      Inr (x, d')"
    then have "insert_summary_event (new_summary_event_row i s p ev) (committed w) = Inr d'"
      by (auto simp: write_stmt_def split: sum.splits)
    from insert_summary_event_rows [OF this] fresh_summary_row [OF assms(1), of i s p]
    show "summary_events d' = summary_events (committed w) \<or>
      lease_effect ActAdd now (summary_events (committed w)) (summary_events d')"
      using assms(3) by auto
  qed
  then show ?thesis
    using assms(2) by (auto simp: summary_outbox_Save_def Let_def world_simps split: sum.split)
qed

lemma lease_step_claim:
  assumes "open_tx w = None"
  shows "lease_step summary_events (ActClaim v ttl) w (snd (summary_outbox_ClaimOne E v ttl w))"
proof -
  obtain locks w1 where l: "take_locks w = (locks, w1)" by (cases "take_locks w")
  then have w1: "open_tx w1 = None" "committed w1 = committed w" "clock w1 = clock w"
    using assms by (auto simp: take_locks_def)
  have "lease_step summary_events (ActClaim v ttl) w1
      (snd (exec_tx (claim_summary_stmt locks v ttl) w1))"
    using w1(1)
    by (rule lease_step_statement) (auto simp: claim_summary_stmt_def split: option.splits)
  then have "lease_step summary_events (ActClaim v ttl) w
      (snd (exec_tx (claim_summary_stmt locks v ttl) w1))"
    by (simp add: lease_step_def w1 clock_suffix_def)
  moreover have "snd (summary_outbox_ClaimOne E v ttl w) =
      snd (exec_tx (claim_summary_stmt locks v ttl) w1)"
    using l by (auto simp: summary_outbox_ClaimOne_def split: sum.splits prod.splits)
  ultimately show ?thesis by simp
qed

lemmas summary_lease_steps =
  lease_step_save lease_step_claim lease_step_hold lease_step_fail lease_step_finalize
  lease_step_select

lemma summary_outbox_effect:
  assumes "summary_op_valid op" and "open_tx w = None"
    and "distinct (map l_id (summary_events (committed w)))"
  shows "lease_step summary_events (summary_op_action E op) w (summary_outbox_step E op w)"
proof (cases op)
  case (SaveEvent ev)
  then show ?thesis using assms by (simp add: lease_step_save)
next
  case (ClaimOne v ttl)
  then show ?thesis using assms by (simp add: lease_step_claim)
next
  case (ExtendLease i v ttl)
  then show ?thesis
    using assms(2)
    by (auto simp: summary_outbox_ExtendLease_def affected_or_lost_world
        dest!: parse_id_key split: sum.split intro: lease_step_hold)
next
  case (FinalizeWithLease i v st m x)
  then show ?thesis
    using assms(1,2)
    by (auto simp: summary_outbox_FinalizeWithLease_def affected_or_lost_world
        dest!: parse_id_key split: sum.split intro: lease_step_finalize)
next
  case (MarkForRetry i v t x)
  then show ?thesis
    using assms(2)
    by (auto simp: summary_outbox_MarkForRetry_def affected_or_lost_world
        dest!: parse_id_key split: sum.split intro: lease_step_hold)
next
  case (FailExpired i n g x)
  then show ?thesis
    using assms(2)
    by (auto simp: summary_outbox_FailExpired_def world_simps
        dest!: parse_id_key split: sum.split intro: lease_step_fail)
next
  case (ListLeaseExpired g k)
  then show ?thesis
    using assms(2)
    by (auto simp: summary_outbox_ListLeaseExpired_def world_simps intro: lease_step_select)
next
  case (GetEvent i)
  have "lease_step summary_events ActAdd w (snd (summary_outbox_Get E i w))"
    using assms(2)
    by (auto simp: summary_outbox_Get_def world_simps split: sum.split intro: lease_step_select)
  with GetEvent show ?thesis by simp
next
  case (HasActiveEvent s ty)
  have "lease_step summary_events ActAdd w (snd (summary_outbox_HasActiveEvent E s ty w))"
    using assms(2)
    by (auto simp: summary_outbox_HasActiveEvent_def world_simps split: sum.split
        intro: lease_step_select)
  with HasActiveEvent show ?thesis by simp
qed

interpretation summary_lease:
  lease_outbox summary_events summary_op_valid "summary_op_action E" "summary_outbox_step E" for E
  by unfold_locales (rule summary_outbox_effect)

section \<open>Properties of runs\<close>



text \<open>
  C31. A terminal event is final: once an event is completed, failed or expired, no sequence
  of outbox operations changes its row in any way.
\<close>

theorem summary_outbox_terminal_final:
  assumes "open_tx w = None" and "distinct (map l_id (summary_events (committed w)))"
    and "\<forall>op \<in> set ops. summary_op_valid op"
    and "r \<in> set (summary_events (committed w))" and "terminal_status (l_status r)"
  shows "r \<in> set (summary_events (committed (fold (summary_outbox_step E) ops w)))"
  using assms by (rule summary_lease.run_terminal_absorbing)

definition sample_summary_row :: "EventStatus \<Rightarrow> string option \<Rightarrow> time option \<Rightarrow> summary_event_row" where
  "sample_summary_row st owner till =
     \<lparr>l_id = 7, l_status = st, l_error = None, l_attempt_count = 1, l_locked_by = owner,
      l_locked_until = till, l_next_attempt_at = None, l_created_at = 0,
      l_processed_at = (if terminal_status st then Some 3 else None),
      e_post_id = None, e_source_id = 1, e_event_type = SummarizeSource, e_summary_id = None\<rparr>"

theorem summary_outbox_terminal_final_witness:
  "sample_summary_row Completed None None \<in> set (summary_events (committed
     (fold (summary_outbox_step decimal_ext)
        [ClaimOne ''w1'' 1000, FinalizeWithLease ''7'' ''w1'' Failed None None]
        (quiet_world (empty_db\<lparr>summary_events := [sample_summary_row Completed None None]\<rparr>)))))"
  by (rule summary_outbox_terminal_final)
    (simp_all add: sample_summary_row_def terminal_status_def empty_db_def)

text \<open>
  C1. Mutual exclusion: while the lease of worker \<open>v\<close> on an event runs (no clock reading is
  past its end \<open>u\<close>), no sequence of claims by any worker, of writes by other workers, of
  writes on other events and of reaping with a non-negative grace changes the row.
\<close>

theorem summary_outbox_lease_protected:
  assumes "open_tx w = None" and "distinct (map l_id (summary_events (committed w)))"
    and "\<forall>op \<in> set ops. summary_op_valid op \<and> foreign_action (l_id r) v (summary_op_action E op)"
    and "r \<in> set (summary_events (committed w))" and "live_lease v u r"
    and "\<forall>n. clock w n \<le> u"
  shows "r \<in> set (summary_events (committed (fold (summary_outbox_step E) ops w)))"
  using assms by (rule summary_lease.run_lease_protected)

theorem summary_outbox_lease_protected_witness:
  "sample_summary_row Processing (Some ''w1'') (Some 100) \<in> set (summary_events (committed
     (fold (summary_outbox_step decimal_ext)
        [ClaimOne ''w2'' 1000, FinalizeWithLease ''7'' ''w2'' Failed None None, FailExpired ''7'' 1 0 ''x'']
        ((quiet_world (empty_db\<lparr>summary_events :=
            [sample_summary_row Processing (Some ''w1'') (Some 100)]\<rparr>))\<lparr>clock := \<lambda>_. 50\<rparr>))))"
  by (rule summary_outbox_lease_protected [where v = "''w1''" and u = 100])
    (simp_all add: sample_summary_row_def live_lease_def terminal_status_def empty_db_def)

section \<open>The choice of \<open>ClaimOne\<close>\<close>

text \<open>
  C33. \<open>ClaimOne\<close> (fault free) takes the event that is due first among those that are pending
  and due or whose lease has ended, and that no other session has locked: it alone becomes
  processing, for this worker, until \<open>now + leaseTTL\<close>, with one more attempt. It reports
  \<open>ErrNoEventAvailable\<close>, and changes nothing, exactly when there is no such event.
\<close>

theorem summary_ClaimOne_correct:
  assumes "open_tx w = None" and "faults w 0 = Healthy"
  shows "let now = clock w 0; rows = summary_events (committed w);
             free = (\<lambda>r. claimable now r \<and> l_id r \<notin> set (row_locks w 0));
             (res, w') = summary_outbox_ClaimOne E v ttl w
         in (res = Inl (Sentinel ErrNoEventAvailable) \<and> committed w' = committed w \<and>
               (\<forall>r \<in> set rows. \<not> free r)) \<or>
            (\<exists>r \<in> set rows. free r \<and> (\<forall>q \<in> set rows. free q \<longrightarrow> claim_key r \<le> claim_key q) \<and>
               res = Inr (scanSummaryEvent E (claim_row v ttl now r)) \<and>
               committed w' = (committed w)\<lparr>summary_events :=
                 update_where (\<lambda>q. l_id q = l_id r) (claim_row v ttl now) rows\<rparr>)"
proof -
  define w1 where "w1 = w\<lparr>row_locks := advance (row_locks w)\<rparr>"
  have w1: "open_tx w1 = None" "faults w1 0 = Healthy" "clock w1 = clock w" "committed w1 = committed w"
    using assms by (simp_all add: w1_def)
  note x = exec_tx_outside_fault_free [OF w1(1,2), of "claim_summary_stmt (row_locks w 0) v ttl"]
  show ?thesis
  proof (cases "claim_rows (row_locks w 0) v ttl (clock w 0) (summary_events (committed w))")
    case None
    with x have "summary_outbox_ClaimOne E v ttl w =
        (Inl (Sentinel ErrNoEventAvailable),
         w1\<lparr>faults := advance (faults w1), clock := advance (clock w1), committed := committed w\<rparr>)"
      by (simp add: summary_outbox_ClaimOne_def take_locks_def w1_def claim_summary_stmt_def
          query_row_def)
    with None show ?thesis by (simp add: claim_rows_None Let_def)
  next
    case (Some a)
    then obtain r rows' where a: "claim_rows (row_locks w 0) v ttl (clock w 0)
        (summary_events (committed w)) = Some (r, rows')" by (cases a) auto
    with x have res: "summary_outbox_ClaimOne E v ttl w =
        (Inr (scanSummaryEvent E r),
         w1\<lparr>faults := advance (faults w1), clock := advance (clock w1),
            committed := (committed w)\<lparr>summary_events := rows'\<rparr>\<rparr>)"
      by (simp add: summary_outbox_ClaimOne_def take_locks_def w1_def claim_summary_stmt_def
          query_row_def)
    from a obtain q where "q \<in> set (summary_events (committed w))" "claimable (clock w 0) q"
      "l_id q \<notin> set (row_locks w 0)"
      "\<forall>p \<in> set (summary_events (committed w)). claimable (clock w 0) p \<longrightarrow>
         l_id p \<notin> set (row_locks w 0) \<longrightarrow> claim_key q \<le> claim_key p"
      "r = claim_row v ttl (clock w 0) q"
      "rows' = update_where (\<lambda>x. l_id x = l_id q) (claim_row v ttl (clock w 0))
         (summary_events (committed w))"
      by (rule claim_rows_Some)
    then show ?thesis unfolding res Let_def prod.case
      by (intro disjI2 bexI [of _ q]) simp_all
  qed
qed

theorem summary_ClaimOne_correct_witness:
  "fst (summary_outbox_ClaimOne decimal_ext ''w2'' 1000
     (quiet_world (empty_db\<lparr>summary_events := [sample_summary_row Completed None None]\<rparr>))) =
   Inl (Sentinel ErrNoEventAvailable)"
  using summary_ClaimOne_correct
    [of "quiet_world (empty_db\<lparr>summary_events := [sample_summary_row Completed None None]\<rparr>)"
      decimal_ext "''w2''" 1000]
  by (auto simp: Let_def claimable_def sample_summary_row_def split: prod.splits)

section \<open>Fencing\<close>

lemma affected_or_lost_fault_free:
  assumes "open_tx w = None" and "faults w 0 = Healthy"
  shows "affected_or_lost c (exec_tx (update_summary_events P f) w) =
    ((if \<exists>r \<in> set (summary_events (committed w)). P (clock w 0) r then Inr ()
      else Inl (Sentinel ErrLeaseLost)),
     w\<lparr>faults := advance (faults w), clock := advance (clock w),
       committed := (committed w)\<lparr>summary_events :=
         update_where (P (clock w 0)) (f (clock w 0)) (summary_events (committed w))\<rparr>\<rparr>)"
  using assms
  by (auto simp: exec_tx_outside_fault_free update_summary_events_def guarded_update_def
      affected_or_lost_def)

text \<open>
  Fencing: extending, finalizing and re-queueing an event succeed exactly when the
  worker owns the lease of the event and the lease has not ended, and then change that row
  as specified; otherwise they report \<open>ErrLeaseLost\<close> and change no row.
\<close>

lemma summary_guarded_writes_fenced:
  assumes "open_tx w = None" and "faults w 0 = Healthy" and "parse_uuid E i = Some eid"
    and "parse_opt_id E ''invalid summary id'' m = Inr mo" and "opt_in mo (summary_ids (committed w))"
  shows "let now = clock w 0; rows = summary_events (committed w);
             owned = (\<exists>r \<in> set rows. owns_lease eid v now r);
             answer = (if owned then Inr () else Inl (Sentinel ErrLeaseLost));
             rewrite = (\<lambda>f. (committed w)\<lparr>summary_events := update_where (owns_lease eid v now) f rows\<rparr>)
         in fst (summary_outbox_ExtendLease E i v ttl w) = answer \<and>
            committed (snd (summary_outbox_ExtendLease E i v ttl w)) = rewrite (extend_row ttl now) \<and>
            fst (summary_outbox_FinalizeWithLease E i v st m x w) = answer \<and>
            committed (snd (summary_outbox_FinalizeWithLease E i v st m x w)) =
              rewrite (finalize_summary_row st mo x now) \<and>
            fst (summary_outbox_MarkForRetry E i v t y w) = answer \<and>
            committed (snd (summary_outbox_MarkForRetry E i v t y w)) = rewrite (retry_row t y) \<and>
            (\<not> owned \<longrightarrow> (\<forall>f. rewrite f = committed w))"
proof -
  have "exec_tx (finalize_summary_stmt eid v st mo x) w =
      exec_tx (update_summary_events (owns_lease eid v) (finalize_summary_row st mo x)) w"
    using assms(1,2,5) by (simp add: exec_tx_outside_fault_free finalize_summary_stmt_def)
  then show ?thesis
    using assms(1-4) affected_or_lost_fault_free [OF assms(1,2)]
    by (auto simp: Let_def summary_outbox_ExtendLease_def summary_outbox_FinalizeWithLease_def
        summary_outbox_MarkForRetry_def parse_id_def update_where_none)
qed

lemma summary_guarded_writes_fenced_example:
  "fst (summary_outbox_MarkForRetry decimal_ext (uuid_string decimal_ext 7) ''w1'' 9 ''boom''
     ((quiet_world (empty_db\<lparr>summary_events :=
        [sample_summary_row Processing (Some ''w1'') (Some 100)]\<rparr>))\<lparr>clock := \<lambda>_. 200\<rparr>)) =
   Inl (Sentinel ErrLeaseLost)"
  using summary_guarded_writes_fenced
    [of "(quiet_world (empty_db\<lparr>summary_events :=
        [sample_summary_row Processing (Some ''w1'') (Some 100)]\<rparr>))\<lparr>clock := \<lambda>_. 200\<rparr>"
      decimal_ext "uuid_string decimal_ext 7" 7 None None "''w1''" 0 Completed None 9 "''boom''"]
  by (simp add: Let_def ext_lawsD sample_summary_row_def owns_lease_def parse_opt_id_def opt_in_def)

text \<open>
  Reaping is guarded: \<open>FailExpired\<close> answers true exactly when the event is still being
  processed, its lease ended more than \<open>grace\<close> ago and its attempts are used up, and then
  marks it failed; otherwise it answers false and changes nothing, so a fresh claim made
  between listing and reaping survives.
\<close>

lemma summary_FailExpired_guarded:
  assumes "open_tx w = None" and "faults w 0 = Healthy" and "parse_uuid E i = Some eid"
  shows "let now = clock w 0; rows = summary_events (committed w);
             doomed = fail_guard eid maxAttempts grace now;
             (res, w') = summary_outbox_FailExpired E i maxAttempts grace x w
         in res = Inr (\<exists>r \<in> set rows. doomed r) \<and>
            committed w' = (committed w)\<lparr>summary_events := update_where doomed (fail_row x now) rows\<rparr> \<and>
            (res = Inr False \<longrightarrow> committed w' = committed w)"
  using assms
  by (auto simp: Let_def summary_outbox_FailExpired_def parse_id_def
      exec_tx_outside_fault_free update_summary_events_def guarded_update_def update_where_none)

lemma summary_FailExpired_guarded_example:
  "fst (summary_outbox_FailExpired decimal_ext (uuid_string decimal_ext 7) 1 0 ''max''
     ((quiet_world (empty_db\<lparr>summary_events :=
        [sample_summary_row Processing (Some ''w1'') (Some 100)]\<rparr>))\<lparr>clock := \<lambda>_. 200\<rparr>)) = Inr True"
  using summary_FailExpired_guarded
    [of "(quiet_world (empty_db\<lparr>summary_events :=
        [sample_summary_row Processing (Some ''w1'') (Some 100)]\<rparr>))\<lparr>clock := \<lambda>_. 200\<rparr>"
      decimal_ext "uuid_string decimal_ext 7" 7 1 0 "''max''"]
  by (auto simp: Let_def ext_lawsD sample_summary_row_def fail_guard_def stuck_def
      sql_interval_def microseconds_def split: prod.splits)

section \<open>At most one active event\<close>

lemma claim_summary_stmt_unique: "stmt_keeps summary_events_unique (claim_summary_stmt locks v ttl)"
proof -
  have "summary_events_unique (d\<lparr>summary_events := rs\<rparr>)"
    if u: "summary_events_unique d"
      and c: "claim_rows locks v ttl now (summary_events d) = Some (r, rs)" for now d r rs
  proof -
    from c obtain q where q: "q \<in> set (summary_events d)" "claimable now q"
      "rs = update_where (\<lambda>x. l_id x = l_id q) (claim_row v ttl now) (summary_events d)"
      by (rule claim_rows_Some)
    have "rs = update_where (\<lambda>x. l_id x = l_id q \<and> active_status (l_status x))
        (claim_row v ttl now) (summary_events d)"
      unfolding q(3) update_where_def
    proof (rule map_cong [OF refl])
      fix x assume x: "x \<in> set (summary_events d)"
      have "active_status (l_status x)" if "l_id x = l_id q"
        using distinct_key_unique [of l_id, OF _ x q(1) that] u q(2)
        by (auto simp: summary_events_unique_def claimable_def active_status_def)
      then show "(if l_id x = l_id q then claim_row v ttl now x else x) =
          (if l_id x = l_id q \<and> active_status (l_status x) then claim_row v ttl now x else x)"
        by auto
    qed
    then show ?thesis using u by (auto intro: summary_events_unique_update)
  qed
  then show ?thesis
    by (auto simp: stmt_keeps_def claim_summary_stmt_def split: option.splits)
qed

lemma update_summary_events_unique:
  assumes "\<And>now. keeps_summary_key (f now)" and "\<And>now r. P now r \<Longrightarrow> l_status r = Processing"
  shows "stmt_keeps summary_events_unique (update_summary_events P f)"
  unfolding stmt_keeps_def update_summary_events_Inr
  using assms by (auto intro!: summary_events_unique_update simp: active_status_def)

lemma finalize_summary_stmt_unique:
  "stmt_keeps summary_events_unique (finalize_summary_stmt eid v st m x)"
proof -
  have "keeps_summary_key (finalize_summary_row st m x now)" for now
    by (simp add: keeps_summary_key_def finalize_summary_row_def finalize_row_def)
  then have "stmt_keeps summary_events_unique
      (update_summary_events (owns_lease eid v) (finalize_summary_row st m x))"
    by (rule update_summary_events_unique) (rule owns_lease_processing)
  then show ?thesis
    unfolding stmt_keeps_def finalize_summary_stmt_def by (simp split: if_split)
qed

lemma insert_summary_event_keeps:
  "stmt_keeps summary_events_unique (write_stmt (insert_summary_event r))"
  by (rule stmt_keeps_write) (rule insert_summary_event_unique)

lemmas unique_stmts =
  claim_summary_stmt_unique finalize_summary_stmt_unique insert_summary_event_keeps

lemma summary_step_unique:
  assumes w: "world_inv summary_events_unique w"
  shows "world_inv summary_events_unique (summary_outbox_step E op w)"
proof (cases op)
  case (SaveEvent ev)
  then show ?thesis using w
    by (auto simp: summary_outbox_Save_def Let_def world_simps split: sum.split
        intro!: world_inv_exec_tx unique_stmts)
next
  case (ClaimOne v ttl)
  obtain locks w1 where l: "take_locks w = (locks, w1)" by (cases "take_locks w")
  have "world_inv summary_events_unique w1" using world_inv_take_locks [OF w] l by simp
  then have "world_inv summary_events_unique (snd (exec_tx (claim_summary_stmt locks v ttl) w1))"
    by (intro world_inv_exec_tx unique_stmts)
  with l ClaimOne show ?thesis
    by (auto simp: summary_outbox_ClaimOne_def split: sum.splits prod.splits)
next
  case (ExtendLease i v ttl)
  then show ?thesis using w
    by (auto simp: summary_outbox_ExtendLease_def affected_or_lost_world split: sum.split
        intro!: world_inv_exec_tx update_summary_events_unique dest: owns_lease_processing)
next
  case (FinalizeWithLease i v st m x)
  then show ?thesis using w
    by (auto simp: summary_outbox_FinalizeWithLease_def affected_or_lost_world split: sum.split
        intro!: world_inv_exec_tx unique_stmts)
next
  case (MarkForRetry i v t x)
  then show ?thesis using w
    by (auto simp: summary_outbox_MarkForRetry_def affected_or_lost_world split: sum.split
        intro!: world_inv_exec_tx update_summary_events_unique dest: owns_lease_processing)
next
  case (FailExpired i n g x)
  then show ?thesis using w
    by (auto simp: summary_outbox_FailExpired_def world_simps fail_guard_def split: sum.split
        intro!: world_inv_exec_tx update_summary_events_unique dest: stuck_processing)
next
  case (ListLeaseExpired g k)
  then show ?thesis using w
    by (auto simp: summary_outbox_ListLeaseExpired_def world_simps intro!: world_inv_exec_tx)
next
  case (GetEvent i)
  then show ?thesis using w
    by (auto simp: summary_outbox_Get_def world_simps split: sum.split intro!: world_inv_exec_tx)
next
  case (HasActiveEvent s ty)
  then show ?thesis using w
    by (auto simp: summary_outbox_HasActiveEvent_def world_simps split: sum.split
        intro!: world_inv_exec_tx)
qed

lemma find_hd_filter:
  "List.find P xs = Some r \<Longrightarrow> filter P xs \<noteq> [] \<and> hd (filter P xs) = r"
  by (induction xs) (auto split: if_splits)

lemma unique_active_source:
  assumes "summary_events_unique d"
  shows "filter (active_source_event u SummarizeSource) (summary_events d) =
    (case List.find (active_source_event u SummarizeSource) (summary_events d) of
       None \<Rightarrow> [] | Some r \<Rightarrow> [r])"
proof -
  have "sorted_wrt (\<lambda>a b. \<not> summary_event_conflict a b)
      (filter (active_source_event u SummarizeSource) (summary_events d))"
    using assms by (simp add: summary_events_unique_def sorted_wrt_filter)
  moreover have "summary_event_conflict a b"
    if "active_source_event u SummarizeSource a" "active_source_event u SummarizeSource b" for a b
    using that by (auto simp: active_source_event_def summary_event_conflict_def
        conflicts_active_source_def active_status_def)
  ultimately have len: "length (filter (active_source_event u SummarizeSource) (summary_events d)) \<le> 1"
    by (cases "filter (active_source_event u SummarizeSource) (summary_events d)" rule: list.exhaust;
        cases "tl (filter (active_source_event u SummarizeSource) (summary_events d))")
      (auto simp: filter_eq_Cons_iff)
  show ?thesis
  proof (cases "List.find (active_source_event u SummarizeSource) (summary_events d)")
    case None
    then have "filter (active_source_event u SummarizeSource) (summary_events d) = []"
      by (simp add: find_None_iff filter_empty_conv)
    with None show ?thesis by simp
  next
    case (Some r)
    then have "filter (active_source_event u SummarizeSource) (summary_events d) \<noteq> [] \<and>
        hd (filter (active_source_event u SummarizeSource) (summary_events d)) = r"
      by (rule find_hd_filter)
    with len Some show ?thesis
      by (cases "filter (active_source_event u SummarizeSource) (summary_events d)") auto
  qed
qed



end
