(* ===== verification/Page_Token.thy ===== *)
theory Page_Token
  imports Domain
begin

text \<open>
  Opaque page tokens (\<open>internal/data/page_token.go\<close>): the instant and identifier of the last
  row of a page, written as \<open>"time|uuid"\<close> in standard base64. The lemmas give the round trip
  of the codec and of the token.
\<close>

section \<open>Standard base64 with padding\<close>

definition b64_char :: "nat \<Rightarrow> char" where
  "b64_char n =
     (if n < 26 then char_of (65 + n) else if n < 52 then char_of (71 + n)
      else if n < 62 then char_of (n - 4) else if n = 62 then CHR ''+'' else CHR ''/'')"

definition b64_value :: "char \<Rightarrow> nat option" where
  "b64_value c =
     (let n = (of_char c :: nat) in
      if 65 \<le> n \<and> n < 91 then Some (n - 65)
      else if 97 \<le> n \<and> n < 123 then Some (n - 71)
      else if 48 \<le> n \<and> n < 58 then Some (n + 4)
      else if c = CHR ''+'' then Some 62 else if c = CHR ''/'' then Some 63 else None)"

fun b64_encode :: "string \<Rightarrow> string" where
  "b64_encode [] = []"
| "b64_encode [a] =
     (let x = (of_char a :: nat)
      in [b64_char (x div 4), b64_char (x mod 4 * 16), CHR ''='', CHR ''=''])"
| "b64_encode [a, b] =
     (let x = (of_char a :: nat); y = (of_char b :: nat)
      in [b64_char (x div 4), b64_char (x mod 4 * 16 + y div 16), b64_char (y mod 16 * 4), CHR ''=''])"
| "b64_encode (a # b # c # s) =
     (let x = (of_char a :: nat); y = (of_char b :: nat); z = (of_char c :: nat)
      in b64_char (x div 4) # b64_char (x mod 4 * 16 + y div 16) #
         b64_char (y mod 16 * 4 + z div 64) # b64_char (z mod 64) # b64_encode s)"

text \<open>Two, three or four digits of six bits make one, two or three bytes.\<close>

definition bytes1 :: "nat \<Rightarrow> nat \<Rightarrow> string" where
  "bytes1 p q = [char_of (p * 4 + q div 16)]"

definition bytes2 :: "nat \<Rightarrow> nat \<Rightarrow> nat \<Rightarrow> string" where
  "bytes2 p q r = bytes1 p q @ [char_of (q mod 16 * 16 + r div 4)]"

definition bytes3 :: "nat \<Rightarrow> nat \<Rightarrow> nat \<Rightarrow> nat \<Rightarrow> string" where
  "bytes3 p q r s = bytes2 p q r @ [char_of (r mod 4 * 64 + s)]"

fun b64_decode_quads :: "string \<Rightarrow> string option" where
  "b64_decode_quads [] = Some []"
| "b64_decode_quads (c1 # c2 # c3 # c4 # cs) =
     (case (b64_value c1, b64_value c2) of
        (Some p, Some q) \<Rightarrow>
          (case (b64_value c3, b64_value c4) of
             (Some r, Some s) \<Rightarrow> map_option (\<lambda>t. bytes3 p q r s @ t) (b64_decode_quads cs)
           | (Some r, None) \<Rightarrow> (if c4 = CHR ''='' \<and> cs = [] then Some (bytes2 p q r) else None)
           | (None, _) \<Rightarrow>
               (if c3 = CHR ''='' \<and> c4 = CHR ''='' \<and> cs = [] then Some (bytes1 p q) else None))
      | _ \<Rightarrow> None)"
| "b64_decode_quads _ = None"

text \<open>Line breaks are ignored anywhere.\<close>

definition b64_decode :: "string \<Rightarrow> string option" where
  "b64_decode s = b64_decode_quads (filter (\<lambda>c. c \<noteq> CHR 0x0A \<and> c \<noteq> CHR 0x0D) s)"

section \<open>Round trip of base64\<close>

lemma b64_value_char: "n < 64 \<Longrightarrow> b64_value (b64_char n) = Some n"
  by (auto simp: b64_value_def b64_char_def Let_def)

lemma b64_char_not_break: "n < 64 \<Longrightarrow> b64_char n \<noteq> CHR 0x0A \<and> b64_char n \<noteq> CHR 0x0D"
proof -
  assume "n < 64"
  then have "b64_value (b64_char n) \<noteq> None" by (simp add: b64_value_char)
  moreover have "b64_value (CHR 0x0A) = None" "b64_value (CHR 0x0D) = None"
    by (simp_all add: b64_value_def Let_def)
  ultimately show ?thesis by metis
qed

text \<open>The six-bit digits of three bytes, and the bytes back from the digits.\<close>

lemma six_bits [simp]:
  fixes a b c :: char
  shows "(of_char a :: nat) div 4 < 64" "(of_char a :: nat) mod 4 * 16 < 64"
    "(of_char a :: nat) mod 4 * 16 + of_char b div 16 < 64"
    "(of_char b :: nat) mod 16 * 4 < 64"
    "(of_char b :: nat) mod 16 * 4 + of_char c div 64 < 64"
    "(of_char c :: nat) mod 64 < 64"
proof -
  have "(of_char a :: nat) < 256" "(of_char b :: nat) < 256" "(of_char c :: nat) < 256" by simp_all
  then show "(of_char a :: nat) div 4 < 64" "(of_char a :: nat) mod 4 * 16 < 64"
    "(of_char a :: nat) mod 4 * 16 + of_char b div 16 < 64"
    "(of_char b :: nat) mod 16 * 4 < 64"
    "(of_char b :: nat) mod 16 * 4 + of_char c div 64 < 64"
    "(of_char c :: nat) mod 64 < 64"
    by linarith+
qed

lemma bytes_of_six_bits:
  fixes x y z :: nat
  assumes "y < 256" and "z < 256"
  shows "x div 4 * 4 + (x mod 4 * 16 + y div 16) div 16 = x"
    "(x mod 4 * 16 + y div 16) mod 16 * 16 + (y mod 16 * 4 + z div 64) div 4 = y"
    "(y mod 16 * 4 + z div 64) mod 4 * 64 + z mod 64 = z"
proof -
  have y: "y div 16 < 16" and z: "z div 64 < 4" using assms by linarith+
  have "(x mod 4 * 16 + y div 16) div 16 = x mod 4" "(x mod 4 * 16 + y div 16) mod 16 = y div 16"
    using y by (simp_all add: div_mult_self3 mod_mult_self3)
  moreover have "(y mod 16 * 4 + z div 64) div 4 = y mod 16" "(y mod 16 * 4 + z div 64) mod 4 = z div 64"
    using z by (simp_all add: div_mult_self3 mod_mult_self3)
  ultimately show "x div 4 * 4 + (x mod 4 * 16 + y div 16) div 16 = x"
    "(x mod 4 * 16 + y div 16) mod 16 * 16 + (y mod 16 * 4 + z div 64) div 4 = y"
    "(y mod 16 * 4 + z div 64) mod 4 * 64 + z mod 64 = z"
    by (simp_all only: div_mult_mod_eq)
qed

lemma bytes3_encode [simp]:
  "bytes3 (of_char a div 4) (of_char a mod 4 * 16 + of_char b div 16)
     (of_char b mod 16 * 4 + of_char c div 64) (of_char c mod 64) = [a, b, c]"
  unfolding bytes3_def bytes2_def bytes1_def
  by (simp only: bytes_of_six_bits [OF nat_of_char_less_256 [of b] nat_of_char_less_256 [of c]]
      char_of_char append.simps)

lemma bytes2_encode [simp]:
  "bytes2 (of_char a div 4) (of_char a mod 4 * 16 + of_char b div 16) (of_char b mod 16 * 4) = [a, b]"
  using bytes_of_six_bits(1) [of "of_char b" 0 "of_char a"]
    bytes_of_six_bits(2) [of "of_char b" 0 "of_char a"]
  unfolding bytes2_def bytes1_def by (simp del: div_mult_mod_eq)

lemma bytes1_encode [simp]: "bytes1 (of_char a div 4) (of_char a mod 4 * 16) = [a]"
  using bytes_of_six_bits(1) [of 0 0 "of_char a"] unfolding bytes1_def by simp

lemma b64_value_pad [simp]: "b64_value (CHR ''='') = None"
  by (simp add: b64_value_def Let_def)

lemma b64_decode_quads_encode: "b64_decode_quads (b64_encode s) = Some s"
  by (induction s rule: b64_encode.induct)
    (simp_all add: Let_def b64_value_char)

lemma b64_encode_no_break: "filter (\<lambda>c. c \<noteq> CHR 0x0A \<and> c \<noteq> CHR 0x0D) (b64_encode s) = b64_encode s"
  by (induction s rule: b64_encode.induct) (simp_all add: Let_def b64_char_not_break)

lemma b64_decode_encode [simp]: "b64_decode (b64_encode s) = Some s"
  by (simp add: b64_decode_def b64_encode_no_break b64_decode_quads_encode)

lemma b64_encode_Nil [simp]: "b64_encode s = [] \<longleftrightarrow> s = []"
  by (cases s rule: b64_encode.cases) (simp_all add: Let_def)

section \<open>Page tokens\<close>

datatype cursor = Cursor (SortValue: time) (CursorID: uuid)

text \<open>Cursors are ordered as the SQL order \<open>sort_field, id\<close> orders rows.\<close>

instantiation cursor :: linorder
begin

definition less_eq_cursor :: "cursor \<Rightarrow> cursor \<Rightarrow> bool" where
  "a \<le> b \<longleftrightarrow> SortValue a < SortValue b \<or> (SortValue a = SortValue b \<and> CursorID a \<le> CursorID b)"

definition less_cursor :: "cursor \<Rightarrow> cursor \<Rightarrow> bool" where
  "a < b \<longleftrightarrow> SortValue a < SortValue b \<or> (SortValue a = SortValue b \<and> CursorID a < CursorID b)"

instance
  by standard (auto simp: less_eq_cursor_def less_cursor_def intro: cursor.expand)

end

definition tokenParts :: nat where "tokenParts = 2"

definition encodePageToken :: "ext \<Rightarrow> time \<Rightarrow> uuid \<Rightarrow> string" where
  "encodePageToken E sortValue i =
     b64_encode (format_time E sortValue @ ''|'' @ uuid_string E i)"

definition decodePageToken :: "ext \<Rightarrow> string \<Rightarrow> error + cursor" where
  "decodePageToken E token =
     (case b64_decode token of
        None \<Rightarrow> Inl (errorf_ctx ''decode token'' (Text ''illegal base64 data''))
      | Some decoded \<Rightarrow>
          (let parts = split_at (CHR ''|'') decoded in
           if length parts \<noteq> tokenParts then Inl (Text ''invalid token format'')
           else case parse_time E (parts ! 0) of
             None \<Rightarrow> Inl (errorf_ctx ''parse timestamp'' (Text ''parsing time''))
           | Some t \<Rightarrow>
               (case parse_uuid E (parts ! 1) of
                  None \<Rightarrow> Inl (errorf_ctx ''parse uuid'' (Text ''invalid UUID''))
                | Some i \<Rightarrow> Inr (Cursor t i))))"

lemma decode_encode_token:
  "ext_laws E \<Longrightarrow> decodePageToken E (encodePageToken E t i) = Inr (Cursor t i)"
  by (simp add: decodePageToken_def encodePageToken_def split_at_append split_at_no_sep
      ext_lawsD tokenParts_def)

lemma encode_token_nonempty [simp]: "encodePageToken E t i \<noteq> []"
  by (simp add: encodePageToken_def)



end
