(* ===== verification/Keyset.thy ===== *)
theory Keyset
  imports Page_Token
begin

text \<open>
  Keyset pagination, the scheme of every \<open>List\<close> of the repositories: order the rows by
  \<open>(sort value, id)\<close>, skip to the rows after the cursor, fetch one row more than the page
  size and hand out the cursor of the last row returned when there are more. The locale
  \<open>paged_listing\<close> is the contract a client that walks the pages relies on.
\<close>

section \<open>Rows after a cursor\<close>

definition after_cursor :: "bool \<Rightarrow> 'k::linorder option \<Rightarrow> 'k \<Rightarrow> bool" where
  "after_cursor descending token k =
     (case token of None \<Rightarrow> True | Some c \<Rightarrow> if descending then k < c else k > c)"

definition keyset_rows :: "bool \<Rightarrow> ('r \<Rightarrow> 'k::linorder) \<Rightarrow> 'k option \<Rightarrow> 'r list \<Rightarrow> 'r list" where
  "keyset_rows descending key token rows =
     (let ordered = sort_key key (filter (\<lambda>r. after_cursor descending token (key r)) rows)
      in if descending then rev ordered else ordered)"

lemma filter_after_nth:
  assumes "sorted_wrt (\<lambda>a b. R (key a) (key b)) xs" and "i < length xs"
    and asym: "\<And>x y. R x y \<Longrightarrow> \<not> R y x"
  shows "filter (\<lambda>r. R (key (xs ! i)) (key r)) xs = drop (Suc i) xs"
proof -
  have xs: "xs = take i xs @ xs ! i # drop (Suc i) xs"
    using assms(2) by (rule id_take_nth_drop)
  have "sorted_wrt (\<lambda>a b. R (key a) (key b)) (take i xs @ xs ! i # drop (Suc i) xs)"
    using assms(1) xs by simp
  then have "\<forall>a \<in> set (take i xs). R (key a) (key (xs ! i))"
    "\<forall>b \<in> set (drop (Suc i) xs). R (key (xs ! i)) (key b)"
    by (auto simp: sorted_wrt_append)
  moreover have "\<not> R (key (xs ! i)) (key (xs ! i))" using asym by blast
  ultimately have "filter (\<lambda>r. R (key (xs ! i)) (key r)) (take i xs @ xs ! i # drop (Suc i) xs) =
      drop (Suc i) xs"
    using asym by (auto simp: filter_empty_conv)
  then show ?thesis using xs by simp
qed

lemma sorted_key_strict:
  assumes "sorted (map key xs)" and "distinct (map key xs)"
  shows "sorted_wrt (\<lambda>a b. key a < key b) xs"
proof -
  have "sorted_wrt (<) (map key xs)" using assms by (simp add: strict_sorted_iff)
  then show ?thesis by (simp add: sorted_wrt_map)
qed

lemma distinct_map_sort_key: "distinct (map key (sort_key f xs)) = distinct (map key xs)"
  by (simp add: distinct_map)

text \<open>The rows after a cursor that names a row are the rest of the ordered listing.\<close>

lemma keyset_rows_after:
  assumes "distinct (map key rows)" and "i < length (keyset_rows desc key None rows)"
  shows "keyset_rows desc key (Some (key (keyset_rows desc key None rows ! i))) rows =
    drop (Suc i) (keyset_rows desc key None rows)"
proof -
  let ?all = "keyset_rows desc key None rows"
  have k: "sorted_wrt (\<lambda>a b. key a < key b) (sort_key key rows)"
    using assms(1) by (intro sorted_key_strict) (simp_all add: distinct_map_sort_key)
  show ?thesis
  proof (cases desc)
    case False
    then have all: "?all = sort_key key rows" by (simp add: keyset_rows_def after_cursor_def)
    have "filter (\<lambda>r. key (?all ! i) < key r) ?all = drop (Suc i) ?all"
      using filter_after_nth [where R = "(<)" and key = key and xs = ?all and i = i] k assms(2)
      unfolding all by (simp add: less_asym)
    then show ?thesis
      using False by (simp add: keyset_rows_def after_cursor_def filter_sort)
  next
    case True
    then have all: "?all = rev (sort_key key rows)" by (simp add: keyset_rows_def after_cursor_def)
    have "sorted_wrt (\<lambda>a b. key b < key a) ?all"
      using k unfolding all by (simp add: sorted_wrt_rev)
    then have "filter (\<lambda>r. key r < key (?all ! i)) ?all = drop (Suc i) ?all"
      using filter_after_nth [where R = "\<lambda>x y. y < x" and key = key and xs = ?all and i = i]
        assms(2) by (simp add: less_asym)
    then show ?thesis
      using True
      by (simp add: keyset_rows_def after_cursor_def filter_sort rev_filter [symmetric])
  qed
qed

lemma set_keyset_rows_None [simp]: "set (keyset_rows desc key None rows) = set rows"
  by (simp add: keyset_rows_def after_cursor_def Let_def)

lemma length_keyset_rows_None [simp]: "length (keyset_rows desc key None rows) = length rows"
  by (simp add: keyset_rows_def after_cursor_def Let_def)

lemma mset_keyset_rows_None: "distinct rows \<Longrightarrow> distinct (keyset_rows desc key None rows)"
  by (simp add: keyset_rows_def after_cursor_def Let_def)

section \<open>One page\<close>

text \<open>
  A page of a listing that starts at position \<open>i\<close>: the next \<open>n\<close> entries and the token of the
  last of them, when more follow.
\<close>

definition page_from :: "'a list \<Rightarrow> ('a \<Rightarrow> string) \<Rightarrow> nat \<Rightarrow> nat \<Rightarrow> 'a list \<times> string" where
  "page_from all tok n i =
     (take n (drop i all), if i + n < length all then tok (all ! (i + n - 1)) else [])"

text \<open>Fetching \<open>n + 1\<close> rows decides whether more follow.\<close>

lemma fetch_one_more:
  assumes "0 < n" and "rest = drop i all"
  shows "(take n (take (n + 1) rest),
          if length (take (n + 1) rest) > n
          then tok (take (n + 1) rest ! (min (length (take (n + 1) rest)) n - 1)) else []) =
         page_from all tok n i"
proof (cases "i + n < length all")
  case True
  then have "length (take (n + 1) rest) = n + 1" using assms(2) by simp
  moreover have "take (n + 1) rest ! (n - 1) = all ! (i + n - 1)"
    using assms True by (simp add: nth_append add.commute)
  ultimately show ?thesis using assms True by (simp add: page_from_def min_def)
next
  case False
  then have "length (take (n + 1) rest) \<le> n" using assms(2) by simp
  then show ?thesis using assms(2) False by (simp add: page_from_def)
qed

section \<open>Walking the pages\<close>

text \<open>A client reads pages until one carries no token.\<close>

fun walk_pages :: "(string \<Rightarrow> 'a list \<times> string) \<Rightarrow> nat \<Rightarrow> string \<Rightarrow> 'a list" where
  "walk_pages page 0 token = []"
| "walk_pages page (Suc fuel) token =
     (case page token of (items, next) \<Rightarrow>
        if next = [] then items else items @ walk_pages page fuel next)"

locale paged_listing =
  fixes ok :: "'q \<Rightarrow> bool"
    and all :: "'q \<Rightarrow> 'a list"
    and tok :: "'q \<Rightarrow> 'a \<Rightarrow> string"
    and size :: "'q \<Rightarrow> nat"
    and page :: "'q \<Rightarrow> string \<Rightarrow> 'a list \<times> string"
  assumes size_pos: "ok q \<Longrightarrow> 0 < size q"
    and token_nonempty: "ok q \<Longrightarrow> tok q a \<noteq> []"
    and first_page: "ok q \<Longrightarrow> page q [] = page_from (all q) (tok q) (size q) 0"
    and next_page: "ok q \<Longrightarrow> i < length (all q) \<Longrightarrow>
      page q (tok q (all q ! i)) = page_from (all q) (tok q) (size q) (Suc i)"
begin

lemma page_size: "ok q \<Longrightarrow> i < length (all q) \<Longrightarrow>
    length (fst (page q (tok q (all q ! i)))) \<le> size q \<and> length (fst (page q [])) \<le> size q"
  by (simp add: first_page next_page page_from_def)

lemma walk_from:
  assumes "ok q" and "page q token = page_from (all q) (tok q) (size q) i"
    and "length (all q) - i \<le> fuel"
  shows "walk_pages (page q) (Suc fuel) token = drop i (all q)"
  using assms(2,3)
proof (induction fuel arbitrary: token i)
  case 0
  then show ?case by (simp add: page_from_def)
next
  case (Suc fuel)
  show ?case
  proof (cases "i + size q < length (all q)")
    case False
    then show ?thesis using Suc.prems(1) by (simp add: page_from_def)
  next
    case True
    let ?j = "i + size q - 1"
    have j: "?j < length (all q)" "Suc ?j = i + size q" using True size_pos [OF assms(1)] by auto
    have "page q (tok q (all q ! ?j)) = page_from (all q) (tok q) (size q) (i + size q)"
      using next_page [OF assms(1) j(1)] j(2) by simp
    moreover have "length (all q) - (i + size q) \<le> fuel"
      using Suc.prems(2) size_pos [OF assms(1)] True by linarith
    ultimately have "walk_pages (page q) (Suc fuel) (tok q (all q ! ?j)) = drop (i + size q) (all q)"
      by (rule Suc.IH)
    then have "walk_pages (page q) (Suc (Suc fuel)) token =
        take (size q) (drop i (all q)) @ drop (i + size q) (all q)"
      using Suc.prems(1) True token_nonempty [OF assms(1)] by (simp add: page_from_def del: walk_pages.simps(2)) (simp add: page_from_def)
    also have "\<dots> = drop i (all q)"
      by (metis append_take_drop_id drop_drop add.commute)
    finally show ?thesis .
  qed
qed

lemma walk_complete:
  "ok q \<Longrightarrow> length (all q) \<le> fuel \<Longrightarrow> walk_pages (page q) (Suc fuel) [] = all q"
  using walk_from [of q "[]" 0] first_page by simp

end

end
