(* ===== verification/Repo_Base.thy ===== *)
theory Repo_Base
  imports Score_Outbox_Lease Summary_Outbox_Lease Keyset
begin

text \<open>
  What the repositories share: mapping rows to domain values, reads in a fault-free world,
  and the page a keyset listing returns in terms of the whole ordered listing.
\<close>

text \<open>Mapping rows one by one; the first error ends the listing.\<close>

fun map_results :: "('a \<Rightarrow> error + 'b) \<Rightarrow> 'a list \<Rightarrow> error + 'b list" where
  "map_results f [] = Inr []"
| "map_results f (x # xs) =
     (case f x of Inl e \<Rightarrow> Inl e
      | Inr y \<Rightarrow> (case map_results f xs of Inl e \<Rightarrow> Inl e | Inr ys \<Rightarrow> Inr (y # ys)))"

lemma map_results_Inr: "(\<And>x. x \<in> set xs \<Longrightarrow> f x = Inr (g x)) \<Longrightarrow> map_results f xs = Inr (map g xs)"
  by (induction xs) auto

lemma map_results_length: "map_results f xs = Inr ys \<Longrightarrow> length ys = length xs"
  by (induction xs arbitrary: ys) (auto split: sum.splits)

section \<open>Reads without faults\<close>

lemma exec_direct_outside: "open_tx w = None \<Longrightarrow> exec_direct s w = exec_tx s w"
  by (auto simp: exec_direct_def exec_tx_def take_fault_def Let_def split: prod.split)

definition after_read :: "world \<Rightarrow> world" where
  "after_read w = w\<lparr>faults := advance (faults w), clock := advance (clock w)\<rparr>"

lemma fault_free_read:
  assumes "fault_free w"
  shows "exec_tx (select q) w = (Inr (q (clock w 0) (committed w)), after_read w)"
    and "exec_direct (select q) w = (Inr (q (clock w 0) (committed w)), after_read w)"
proof -
  have o: "open_tx w = None" and f: "faults w 0 = Healthy" using assms by (auto simp: fault_free_def)
  show "exec_tx (select q) w = (Inr (q (clock w 0) (committed w)), after_read w)"
    using exec_tx_outside_fault_free [OF o f, of "select q"]
    by (simp add: select_def after_read_def)
  then show "exec_direct (select q) w = (Inr (q (clock w 0) (committed w)), after_read w)"
    by (simp add: exec_direct_outside [OF o])
qed

lemma after_read_simps [simp]:
  "committed (after_read w) = committed w" "open_tx (after_read w) = open_tx w"
  "clock (after_read w) = advance (clock w)" "faults (after_read w) = advance (faults w)"
  "fresh_ids (after_read w) = fresh_ids w" "ctx_done (after_read w) = ctx_done w"
  "llm_replies (after_read w) = llm_replies w" "embed_replies (after_read w) = embed_replies w"
  by (simp_all add: after_read_def)

lemma fault_free_after_read [simp]: "fault_free w \<Longrightarrow> fault_free (after_read w)"
  by (simp add: fault_free_def)

section \<open>The page of a keyset listing\<close>

definition keyset_page ::
  "bool \<Rightarrow> ('r \<Rightarrow> 'k::linorder) \<Rightarrow> ('r \<Rightarrow> string) \<Rightarrow> nat \<Rightarrow> 'k option \<Rightarrow> 'r list \<Rightarrow> 'r list \<times> string" where
  "keyset_page desc key tok n t rows =
     (let fetched = take (n + 1) (keyset_rows desc key t rows);
          returnCount = min (length fetched) n
      in (take returnCount fetched,
          if length fetched > n then tok (fetched ! (returnCount - 1)) else []))"

lemma take_min_length: "take (min (length xs) n) xs = take n xs"
  by (simp add: min_def)

lemma keyset_page_from:
  assumes "distinct (map key rows)" and "0 < n"
    and "(t = None \<and> i = 0) \<or>
      (\<exists>j < length rows. t = Some (key (keyset_rows desc key None rows ! j)) \<and> i = Suc j)"
  shows "keyset_page desc key tok n t rows = page_from (keyset_rows desc key None rows) tok n i"
proof -
  have "keyset_rows desc key t rows = drop i (keyset_rows desc key None rows)"
    using assms(3) keyset_rows_after [OF assms(1)] by auto
  from fetch_one_more [OF assms(2) this, of tok] show ?thesis
    unfolding keyset_page_def Let_def take_min_length .
qed

lemma page_from_map:
  assumes "\<And>r. r \<in> set all \<Longrightarrow> tok' (mk r) = tok r" and "0 < n"
  shows "(map mk (fst (page_from all tok n i)), snd (page_from all tok n i)) =
    page_from (map mk all) tok' n i"
  using assms by (auto simp: page_from_def take_map drop_map)

lemma distinct_cursors:
  "distinct (map ident rows) \<Longrightarrow> (\<And>r. CursorID (key r) = ident r) \<Longrightarrow> distinct (map key rows)"
  by (simp add: distinct_map inj_on_def) metis

section \<open>Pages cut by cursor tokens\<close>

definition cursor_text :: "ext \<Rightarrow> cursor \<Rightarrow> string" where
  "cursor_text E c = encodePageToken E (SortValue c) (CursorID c)"

lemma decode_cursor_text: "ext_laws E \<Longrightarrow> decodePageToken E (cursor_text E c) = Inr c"
  by (simp add: cursor_text_def decode_encode_token)

lemma cursor_text_nonempty [simp]: "cursor_text E c \<noteq> []"
  by (simp add: cursor_text_def)

text \<open>
  A page function that cuts the listing at the cursor of its token, and that maps the rows
  to values whose token is the one of the row, returns the pages of the mapped listing. The
  tokens are texts \<open>enc\<close> of cursors that \<open>dec\<close> reads back.
\<close>

lemma coded_page_from:
  fixes key :: "'r \<Rightarrow> 'k::linorder"
  assumes d: "distinct (map key rows)" and n: "0 < n"
    and dec: "\<And>r. r \<in> set rows \<Longrightarrow> dec (enc (key r)) = Inr (key r) \<and> enc (key r) \<noteq> []"
    and page: "\<And>t token. t = [] \<and> token = None \<or> (\<exists>c. dec t = Inr c \<and> t \<noteq> [] \<and> token = Some c) \<Longrightarrow>
      page t = (let p = keyset_page desc key (\<lambda>r. enc (key r)) n token rows
                in (map mk (fst p), snd p))"
    and tok: "\<And>r. r \<in> set rows \<Longrightarrow> tok (mk r) = enc (key r)"
    and t: "t = [] \<and> i = 0 \<or>
      (\<exists>j < length rows. t = tok (mk (keyset_rows desc key None rows ! j)) \<and> i = Suc j)"
  shows "page t = page_from (map mk (keyset_rows desc key None rows)) tok n i"
proof -
  let ?all = "keyset_rows desc key None rows"
  obtain token where token: "t = [] \<and> token = None \<or> (\<exists>c. dec t = Inr c \<and> t \<noteq> [] \<and> token = Some c)"
    and i: "(token = None \<and> i = 0) \<or> (\<exists>j < length rows. token = Some (key (?all ! j)) \<and> i = Suc j)"
  proof (cases "t = [] \<and> i = 0")
    case True
    then show ?thesis using that by blast
  next
    case False
    with t obtain j where j: "j < length rows" "t = tok (mk (?all ! j))" "i = Suc j" by auto
    have r: "?all ! j \<in> set rows" using nth_mem [of j ?all] j(1) by simp
    then have "t = enc (key (?all ! j))" using tok j(2) by simp
    then show ?thesis using that [of "Some (key (?all ! j))"] j(1,3) dec [OF r] by auto
  qed
  have "keyset_page desc key (\<lambda>r. enc (key r)) n token rows = page_from ?all (\<lambda>r. enc (key r)) n i"
    using d n i by (rule keyset_page_from)
  moreover have "(map mk (fst (page_from ?all (\<lambda>r. enc (key r)) n i)),
      snd (page_from ?all (\<lambda>r. enc (key r)) n i)) = page_from (map mk ?all) tok n i"
    using tok n by (intro page_from_map) auto
  ultimately show ?thesis using page [OF token] by (simp add: Let_def)
qed

lemma cursor_page_from:
  assumes E: "ext_laws E" and d: "distinct (map key rows)" and n: "0 < n"
    and page: "\<And>t token. t = [] \<and> token = None \<or> (\<exists>c. decodePageToken E t = Inr c \<and> t \<noteq> [] \<and> token = Some c) \<Longrightarrow>
      page t = (let p = keyset_page desc key (\<lambda>r. cursor_text E (key r)) n token rows
                in (map mk (fst p), snd p))"
    and tok: "\<And>r. r \<in> set rows \<Longrightarrow> tok (mk r) = cursor_text E (key r)"
    and t: "t = [] \<and> i = 0 \<or>
      (\<exists>j < length rows. t = tok (mk (keyset_rows desc key None rows ! j)) \<and> i = Suc j)"
  shows "page t = page_from (map mk (keyset_rows desc key None rows)) tok n i"
  using d n _ page tok t
  by (rule coded_page_from [where dec = "decodePageToken E" and enc = "cursor_text E"])
    (simp add: decode_cursor_text [OF E])

end
