(* ===== verification/Source_Repo.thy ===== *)
theory Source_Repo
  imports Repo_Base
begin

text \<open>
  \<open>internal/data/source_repo.go\<close>: storage of sources. A configuration is stored as a JSON
  object; on the way its numbers pass through \<open>float64\<close>, as decoding into \<open>map[string]any\<close>
  makes them. Everything but \<open>ClaimDueCumulative\<close> and \<open>BumpNextSummaryAt\<close> runs on the pooled
  client, outside a transaction of the context.
\<close>

section \<open>Configurations as JSON\<close>

text \<open>An integer as the nearest \<open>float64\<close>, read back as an integer.\<close>

definition float_of_int :: "int \<Rightarrow> int" where
  "float_of_int i = (case rnd (of_int i) of Finite q \<Rightarrow> \<lfloor>q\<rfloor> | _ \<Rightarrow> 0)"

fun config_json :: "SourceConfig \<Rightarrow> json_object" where
  "config_json (TelegramChannelConfig tg u) = [(''tg_id'', JNum (sint tg)), (''username'', JStr u)]"
| "config_json (TelegramGroupConfig tg u) = [(''tg_id'', JNum (sint tg)), (''username'', JStr u)]"
| "config_json (RSSConfig u) = [(''feed_url'', JStr u)]"
| "config_json (HTMLConfig u) = [(''url'', JStr u)]"

fun through_float :: "json \<Rightarrow> json" where
  "through_float (JNum i) = JNum (float_of_int i)"
| "through_float (JStr s) = JStr s"

definition serializeConfig :: "SourceConfig option \<Rightarrow> json_object" where
  "serializeConfig cfg =
     (case cfg of None \<Rightarrow> [] | Some c \<Rightarrow> map (\<lambda>(k, v). (k, through_float v)) (config_json c))"

text \<open>Decoding into a typed field: absent is zero, a wrong type or a number out of range fails.\<close>

definition json_int64 :: "string \<Rightarrow> json_object \<Rightarrow> error + 64 word" where
  "json_int64 k obj =
     (case map_of obj k of
        None \<Rightarrow> Inr 0
      | Some (JNum i) \<Rightarrow>
          (if - (2 ^ 63) \<le> i \<and> i < 2 ^ 63 then Inr (word_of_int i)
           else Inl (Text ''json: cannot unmarshal number into Go value of type int64''))
      | Some (JStr _) \<Rightarrow> Inl (Text ''json: cannot unmarshal string into Go value of type int64''))"

definition json_string :: "string \<Rightarrow> json_object \<Rightarrow> error + string" where
  "json_string k obj =
     (case map_of obj k of
        None \<Rightarrow> Inr []
      | Some (JStr s) \<Rightarrow> Inr s
      | Some (JNum _) \<Rightarrow> Inl (Text ''json: cannot unmarshal number into Go value of type string''))"

definition decode_tg :: "(64 word \<Rightarrow> string \<Rightarrow> SourceConfig) \<Rightarrow> string \<Rightarrow> json_object \<Rightarrow> error + SourceConfig" where
  "decode_tg mk ctx obj =
     (case json_int64 ''tg_id'' obj of
        Inl e \<Rightarrow> Inl (errorf_ctx ctx e)
      | Inr tg \<Rightarrow>
          (case json_string ''username'' obj of
             Inl e \<Rightarrow> Inl (errorf_ctx ctx e)
           | Inr u \<Rightarrow> Inr (mk tg u)))"

definition deserializeConfig :: "SourceType \<Rightarrow> json_object \<Rightarrow> error + SourceConfig" where
  "deserializeConfig t cfgMap =
     (let obj = map (\<lambda>(k, v). (k, through_float v)) cfgMap in
      case t of
        SourceTypeTelegramChannel \<Rightarrow>
          decode_tg TelegramChannelConfig ''unmarshal telegram channel config'' obj
      | SourceTypeTelegramGroup \<Rightarrow>
          decode_tg TelegramGroupConfig ''unmarshal telegram group config'' obj
      | SourceTypeRSS \<Rightarrow>
          (case json_string ''feed_url'' obj of
             Inl e \<Rightarrow> Inl (errorf_ctx ''unmarshal rss config'' e)
           | Inr u \<Rightarrow> Inr (RSSConfig u))
      | SourceTypeHTML \<Rightarrow>
          (case json_string ''url'' obj of
             Inl e \<Rightarrow> Inl (errorf_ctx ''unmarshal html config'' e)
           | Inr u \<Rightarrow> Inr (HTMLConfig u))
      | SourceTypeOther s \<Rightarrow> Inl (Text (''unknown source type: '' @ s)))"

section \<open>Rows and domain values\<close>

definition source_to_domain :: "ext \<Rightarrow> source_row \<Rightarrow> error + Source" where
  "source_to_domain E r =
     (case ValidateSourceType (s_type r) of
        Some e \<Rightarrow> Inl (errorf_ctx ''invalid source type in database'' e)
      | None \<Rightarrow>
     (case deserializeConfig (s_type r) (s_config r) of
        Inl e \<Rightarrow> Inl (errorf_ctx ''deserialize config'' e)
      | Inr c \<Rightarrow>
          Inr \<lparr>src_ID = uuid_string E (s_id r), src_Type = s_type r,
               src_ProcessingMode = ProcessingModeForType (s_type r), src_Config = Some c,
               src_CreatedAt = s_created_at r, src_UpdatedAt = s_updated_at r\<rparr>))"

definition source_repo_Save :: "ext \<Rightarrow> Source \<Rightarrow> world \<Rightarrow> Source result \<times> world" where
  "source_repo_Save E source w =
     (let configJSON = serializeConfig (src_Config source);
          (ident, w) = (if src_ID source = [] then (let (u, w) = new_uuid w in (uuid_string E u, w))
                        else (src_ID source, w))
      in case parse_id E ''invalid source id'' ident of
           Inl e \<Rightarrow> (Inl e, w)
         | Inr i \<Rightarrow>
             (let row = \<lparr>s_id = i, s_type = src_Type source, s_config = configJSON,
                         s_created_at = src_CreatedAt source, s_updated_at = src_UpdatedAt source,
                         s_next_summary_at = None\<rparr>
              in case exec_direct (write_stmt (insert_source row)) w of
                   (Inl e, w) \<Rightarrow> (Inl (errorf_ctx ''save source'' (ent_constraint e)), w)
                 | (Inr _, w) \<Rightarrow> (source_to_domain E row, w)))"

text \<open>\<open>UpdateOneID(id)\<close>: the updated row, or none.\<close>

definition update_source_stmt ::
  "uuid \<Rightarrow> (source_row \<Rightarrow> source_row) \<Rightarrow> source_row option stmt" where
  "update_source_stmt i f now d =
     (case filter (\<lambda>r. s_id r = i) (sources d) of
        [] \<Rightarrow> Inr (None, d)
      | r # _ \<Rightarrow> Inr (Some (f r), d\<lparr>sources := update_where (\<lambda>r. s_id r = i) f (sources d)\<rparr>))"

definition source_repo_Update :: "ext \<Rightarrow> Source \<Rightarrow> world \<Rightarrow> Source result \<times> world" where
  "source_repo_Update E source w =
     (let configJSON = serializeConfig (src_Config source) in
      case parse_id E ''invalid source id'' (src_ID source) of
        Inl e \<Rightarrow> (Inl e, w)
      | Inr i \<Rightarrow>
          (case exec_direct (update_source_stmt i
                  (\<lambda>r. r\<lparr>s_config := configJSON, s_updated_at := src_UpdatedAt source\<rparr>)) w of
             (Inl e, w) \<Rightarrow>
               (if ent_is_not_found e then (Inl (Sentinel ErrSourceNotFound), w)
                else (Inl (errorf_ctx ''update source'' e), w))
           | (Inr None, w) \<Rightarrow> (Inl (Sentinel ErrSourceNotFound), w)
           | (Inr (Some r), w) \<Rightarrow> (source_to_domain E r, w)))"

definition delete_source_stmt :: "uuid \<Rightarrow> bool stmt" where
  "delete_source_stmt i now d =
     (if i \<notin> source_ids d then Inr (False, d)
      else case delete_source i d of Inl e \<Rightarrow> Inl e | Inr d' \<Rightarrow> Inr (True, d'))"

definition source_repo_Delete :: "ext \<Rightarrow> string \<Rightarrow> world \<Rightarrow> unit result \<times> world" where
  "source_repo_Delete E ident w =
     (case parse_id E ''invalid source id'' ident of
        Inl e \<Rightarrow> (Inl e, w)
      | Inr i \<Rightarrow>
          (case exec_direct (delete_source_stmt i) w of
             (Inl e, w) \<Rightarrow>
               (if ent_is_not_found e then (Inl (Sentinel ErrSourceNotFound), w)
                else (Inl (errorf_ctx ''delete source'' (ent_constraint e)), w))
           | (Inr found, w) \<Rightarrow>
               (if found then (Inr (), w) else (Inl (Sentinel ErrSourceNotFound), w))))"

definition source_repo_Get :: "ext \<Rightarrow> string \<Rightarrow> world \<Rightarrow> Source result \<times> world" where
  "source_repo_Get E ident w =
     (case parse_id E ''invalid source id'' ident of
        Inl e \<Rightarrow> (Inl e, w)
      | Inr i \<Rightarrow>
          (case exec_direct (select (\<lambda>_ d. filter (\<lambda>r. s_id r = i) (sources d))) w of
             (Inl e, w) \<Rightarrow>
               (if ent_is_not_found e then (Inl (Sentinel ErrSourceNotFound), w)
                else (Inl (errorf_ctx ''get source'' e), w))
           | (Inr rows, w) \<Rightarrow>
               (case ent_only ''source'' rows of
                  Inl e \<Rightarrow> (if ent_is_not_found e then (Inl (Sentinel ErrSourceNotFound), w)
                            else (Inl (errorf_ctx ''get source'' e), w))
                | Inr r \<Rightarrow> (source_to_domain E r, w))))"

section \<open>Listing\<close>

definition source_matches :: "ListSourcesFilter \<Rightarrow> source_row \<Rightarrow> bool" where
  "source_matches f r \<longleftrightarrow>
     (lsf_Type f \<noteq> SourceTypeOther [] \<longrightarrow> s_type r = lsf_Type f) \<and>
     (case lsf_ProcessingMode f of
        Some ProcessingModeCumulative \<Rightarrow> s_type r = SourceTypeTelegramGroup
      | Some ProcessingModeSelfContained \<Rightarrow>
          s_type r \<in> {SourceTypeTelegramChannel, SourceTypeRSS, SourceTypeHTML}
      | Some (ProcessingModeOther _) \<Rightarrow> True
      | None \<Rightarrow> True)"

definition source_cursor :: "source_row \<Rightarrow> cursor" where
  "source_cursor r = Cursor (s_created_at r) (s_id r)"

text \<open>The callers pass a page size of at least one.\<close>

definition source_repo_List ::
  "ext \<Rightarrow> ListSourcesFilter \<Rightarrow> world \<Rightarrow> Source page result \<times> world" where
  "source_repo_List E f w =
     (case (if lsf_PageToken f = [] then Inr None
            else map_sum (\<lambda>_. errorf_detail ErrInvalidConfig ''invalid page token'') Some
                   (decodePageToken E (lsf_PageToken f))) of
        Inl e \<Rightarrow> (Inl e, w)
      | Inr token \<Rightarrow>
     (let size = nat (lsf_PageSize f) in
      case exec_direct (select (\<lambda>_ d. take (size + 1)
              (keyset_rows False source_cursor token (filter (source_matches f) (sources d))))) w of
        (Inl e, w) \<Rightarrow> (Inl (errorf_ctx ''list sources'' e), w)
      | (Inr rows, w) \<Rightarrow>
          (let returnCount = min (length rows) size in
           case map_results (source_to_domain E) (take returnCount rows) of
             Inl e \<Rightarrow> (Inl e, w)
           | Inr items \<Rightarrow>
               (Inr \<lparr>Items = items,
                     NextPageToken =
                       (if length rows > size
                        then encodePageToken E (s_created_at (rows ! (returnCount - 1)))
                               (s_id (rows ! (returnCount - 1)))
                        else [])\<rparr>, w))))"

section \<open>Scheduling of cumulative sources\<close>

definition source_due :: "time \<Rightarrow> source_row \<Rightarrow> bool" where
  "source_due now r \<longleftrightarrow>
     s_type r = SourceTypeTelegramGroup \<and>
     (case s_next_summary_at r of None \<Rightarrow> True | Some t \<Rightarrow> t \<le> now)"

definition due_key :: "source_row \<Rightarrow> time" where
  "due_key r = (case s_next_summary_at r of Some t \<Rightarrow> t | None \<Rightarrow> s_created_at r)"

definition ClaimDueCumulative :: "ext \<Rightarrow> world \<Rightarrow> Source result \<times> world" where
  "ClaimDueCumulative E w =
     (let (locks, w) = take_locks w;
          (r, w) = exec_tx (select (\<lambda>now d. first_min due_key
                      (filter (\<lambda>r. source_due now r \<and> s_id r \<notin> set locks) (sources d)))) w
      in case query_row r of
           Inl e \<Rightarrow>
             (if errors_is e SqlErrNoRows then (Inl (Sentinel ErrNoSourceDue), w)
              else (Inl (errorf_ctx ''claim due cumulative'' e), w))
         | Inr row \<Rightarrow>
             (case deserializeConfig (s_type row) (s_config row) of
                Inl e \<Rightarrow> (Inl (errorf_ctx ''deserialize config'' e), w)
              | Inr c \<Rightarrow>
                  (Inr \<lparr>src_ID = uuid_string E (s_id row), src_Type = s_type row,
                        src_ProcessingMode = ProcessingModeForType (s_type row),
                        src_Config = Some c, src_CreatedAt = s_created_at row,
                        src_UpdatedAt = s_updated_at row\<rparr>, w)))"

definition bump_stmt :: "uuid \<Rightarrow> time \<Rightarrow> nat stmt" where
  "bump_stmt sid nextAt now d =
     (let (n, rows) = guarded_update (\<lambda>r. s_id r = sid) (\<lambda>r. r\<lparr>s_next_summary_at := Some nextAt\<rparr>) (sources d)
      in Inr (n, d\<lparr>sources := rows\<rparr>))"

definition BumpNextSummaryAt :: "ext \<Rightarrow> string \<Rightarrow> time \<Rightarrow> world \<Rightarrow> unit result \<times> world" where
  "BumpNextSummaryAt E sourceID nextAt w =
     (case parse_id E ''invalid source id'' sourceID of
        Inl e \<Rightarrow> (Inl e, w)
      | Inr sid \<Rightarrow>
          (case exec_tx (bump_stmt sid nextAt) w of
             (Inl e, w) \<Rightarrow> (Inl (errorf_ctx ''bump next_summary_at'' e), w)
           | (Inr affected, w) \<Rightarrow>
               (if affected = 0 then (Inl (Sentinel ErrSourceNotFound), w) else (Inr (), w))))"

section \<open>Walking the listing\<close>

definition source_listing :: "ext \<times> ListSourcesFilter \<times> world \<Rightarrow> source_row list" where
  "source_listing q = (case q of (E, f, w) \<Rightarrow>
     keyset_rows False source_cursor None (filter (source_matches f) (sources (committed w))))"

definition source_value :: "ext \<Rightarrow> source_row \<Rightarrow> Source" where
  "source_value E r = (case source_to_domain E r of Inr s \<Rightarrow> s | Inl _ \<Rightarrow> undefined)"

definition source_page :: "ext \<times> ListSourcesFilter \<times> world \<Rightarrow> string \<Rightarrow> Source list \<times> string" where
  "source_page q t = (case q of (E, f, w) \<Rightarrow>
     (case fst (source_repo_List E (f\<lparr>lsf_PageToken := t\<rparr>) w) of
        Inl _ \<Rightarrow> ([], []) | Inr p \<Rightarrow> (Items p, NextPageToken p)))"

definition source_paging_ok :: "ext \<times> ListSourcesFilter \<times> world \<Rightarrow> bool" where
  "source_paging_ok q = (case q of (E, f, w) \<Rightarrow>
     ext_laws E \<and> fault_free w \<and> 1 \<le> lsf_PageSize f \<and>
     distinct (map s_id (sources (committed w))) \<and>
     (\<forall>r \<in> set (sources (committed w)). \<exists>s. source_to_domain E r = Inr s))"

definition source_token :: "ext \<times> ListSourcesFilter \<times> world \<Rightarrow> Source \<Rightarrow> string" where
  "source_token q s = (case q of (E, f, w) \<Rightarrow>
     encodePageToken E (src_CreatedAt s) (the (parse_uuid E (src_ID s))))"

lemma source_to_domain_fields:
  "source_to_domain E r = Inr s \<Longrightarrow> src_ID s = uuid_string E (s_id r) \<and> src_CreatedAt s = s_created_at r"
  by (auto simp: source_to_domain_def split: option.splits sum.splits)

lemma map_results_source_value:
  assumes "\<forall>r \<in> set rows. \<exists>s. source_to_domain E r = Inr s"
  shows "map_results (source_to_domain E) rows = Inr (map (source_value E) rows)"
  using assms by (intro map_results_Inr) (auto simp: source_value_def split: sum.split)

text \<open>One page of the fault-free listing, as a keyset page.\<close>

lemma source_repo_List_fault_free:
  assumes "source_paging_ok (E, f, w)"
    and "t = [] \<and> token = None \<or> decodePageToken E t = Inr c \<and> t \<noteq> [] \<and> token = Some c"
  shows "source_repo_List E (f\<lparr>lsf_PageToken := t\<rparr>) w =
    (let p = keyset_page False source_cursor (\<lambda>r. encodePageToken E (s_created_at r) (s_id r))
               (nat (lsf_PageSize f)) token (filter (source_matches f) (sources (committed w)))
     in (Inr \<lparr>Items = map (source_value E) (fst p), NextPageToken = snd p\<rparr>, after_read w))"
proof -
  define n where "n = nat (lsf_PageSize f)"
  define R where "R = take (Suc n) (keyset_rows False source_cursor token
    (filter (source_matches f) (sources (committed w))))"
  have m: "source_matches (f\<lparr>lsf_PageToken := t'\<rparr>) = source_matches f" for t'
    by (simp add: fun_eq_iff source_matches_def)
  have fr: "fault_free w" using assms(1) by (simp add: source_paging_ok_def)
  have read: "exec_direct (select (\<lambda>_ d. take (Suc n) (keyset_rows False source_cursor token
      (filter (source_matches f) (sources d))))) w = (Inr R, after_read w)"
    using fault_free_read(2) [OF fr] by (simp add: R_def)
  have "set R \<subseteq> set (sources (committed w))"
    by (auto simp: keyset_rows_def R_def dest!: in_set_takeD)
  then have "\<forall>r \<in> set (take k R). \<exists>s. source_to_domain E r = Inr s" for k
    using assms(1) unfolding source_paging_ok_def by (fastforce dest!: in_set_takeD)
  note v = map_results_source_value [OF this]
  have "source_repo_List E (f\<lparr>lsf_PageToken := t\<rparr>) w =
      (Inr \<lparr>Items = map (source_value E) (take (min (length R) n) R),
            NextPageToken = (if length R > n
              then encodePageToken E (s_created_at (R ! (min (length R) n - 1))) (s_id (R ! (min (length R) n - 1)))
              else [])\<rparr>, after_read w)"
    using assms(2) read by (auto simp: source_repo_List_def m n_def [symmetric] v Let_def)
  then show ?thesis
    by (simp add: keyset_page_def n_def [symmetric] R_def [symmetric] Let_def)
qed

lemma source_page_keyset:
  assumes "source_paging_ok (E, f, w)"
    and "t = [] \<and> token = None \<or> decodePageToken E t = Inr c \<and> t \<noteq> [] \<and> token = Some c"
  shows "source_page (E, f, w) t =
    (let p = keyset_page False source_cursor (\<lambda>r. encodePageToken E (s_created_at r) (s_id r))
               (nat (lsf_PageSize f)) token (filter (source_matches f) (sources (committed w)))
     in (map (source_value E) (fst p), snd p))"
  using source_repo_List_fault_free [OF assms] by (simp add: source_page_def Let_def)

text \<open>The token of a stored source is the text of its cursor.\<close>

lemma source_token_text:
  assumes "source_paging_ok (E, f, w)" and "r \<in> set (sources (committed w))"
  shows "source_token (E, f, w) (source_value E r) = cursor_text E (source_cursor r)"
proof -
  from assms obtain s where "source_to_domain E r = Inr s" by (auto simp: source_paging_ok_def)
  with source_to_domain_fields [OF this] assms(1) show ?thesis
    by (simp add: source_token_def source_value_def source_cursor_def cursor_text_def ext_lawsD source_paging_ok_def)
qed

lemma source_page_from:
  assumes q: "source_paging_ok (E, f, w)"
    and "t = [] \<and> i = 0 \<or> (\<exists>j < length (source_listing (E, f, w)).
      t = source_token (E, f, w) (source_value E (source_listing (E, f, w) ! j)) \<and> i = Suc j)"
  shows "source_page (E, f, w) t = page_from (map (source_value E) (source_listing (E, f, w)))
    (source_token (E, f, w)) (nat (lsf_PageSize f)) i"
proof -
  let ?rows = "filter (source_matches f) (sources (committed w))"
  have E: "ext_laws E" and n: "0 < nat (lsf_PageSize f)" using q by (simp_all add: source_paging_ok_def)
  have d: "distinct (map source_cursor ?rows)"
    using q by (intro distinct_cursors [where ident = s_id])
      (auto simp: source_paging_ok_def source_cursor_def distinct_map_filter)
  show ?thesis
    unfolding source_listing_def prod.case
  proof (rule cursor_page_from [where page = "source_page (E, f, w)", OF E d n])
    fix t token assume "t = [] \<and> token = None \<or> (\<exists>c. decodePageToken E t = Inr c \<and> t \<noteq> [] \<and> token = Some c)"
    then show "source_page (E, f, w) t = (let p = keyset_page False source_cursor
        (\<lambda>r. cursor_text E (source_cursor r)) (nat (lsf_PageSize f)) token ?rows
      in (map (source_value E) (fst p), snd p))"
      using source_page_keyset [OF q, of t token] by (auto simp: source_cursor_def cursor_text_def)
  qed (use assms(2) source_token_text [OF q] in \<open>auto simp: source_listing_def\<close>)
qed

text \<open>Reading a page in a fault-free world, at a token of the walk.\<close>

lemma source_repo_List_from:
  assumes q: "source_paging_ok (E, f, w)"
    and t: "t = [] \<and> i = 0 \<or> (\<exists>j < length (source_listing (E, f, w)).
      t = source_token (E, f, w) (source_value E (source_listing (E, f, w) ! j)) \<and> i = Suc j)"
  shows "source_repo_List E (f\<lparr>lsf_PageToken := t\<rparr>) w =
    (let p = page_from (map (source_value E) (source_listing (E, f, w)))
       (source_token (E, f, w)) (nat (lsf_PageSize f)) i
     in (Inr \<lparr>Items = fst p, NextPageToken = snd p\<rparr>, after_read w))"
proof -
  have "\<exists>token. t = [] \<and> token = None \<or> (\<exists>c. decodePageToken E t = Inr c \<and> t \<noteq> [] \<and> token = Some c)"
  proof (cases "t = []")
    case False
    with t obtain j where j: "j < length (source_listing (E, f, w))"
      "t = source_token (E, f, w) (source_value E (source_listing (E, f, w) ! j))" by blast
    have "source_listing (E, f, w) ! j \<in> set (sources (committed w))"
      using nth_mem [OF j(1)] by (simp add: source_listing_def)
    with j(2) have "t = cursor_text E (source_cursor (source_listing (E, f, w) ! j))"
      using source_token_text [OF q] by simp
    then show ?thesis using q False by (auto simp: source_paging_ok_def decode_cursor_text)
  qed simp
  then obtain token c where tok: "t = [] \<and> token = None \<or> decodePageToken E t = Inr c \<and> t \<noteq> [] \<and> token = Some c"
    by blast
  from source_repo_List_fault_free [OF q tok] source_page_keyset [OF q tok] source_page_from [OF q t]
  show ?thesis by (simp add: Let_def prod_eq_iff)
qed

interpretation source_paging: paged_listing source_paging_ok
  "\<lambda>q. map (source_value (fst q)) (source_listing q)" source_token
  "\<lambda>q. nat (lsf_PageSize (fst (snd q)))" source_page
proof unfold_locales
  fix q :: "ext \<times> ListSourcesFilter \<times> world" and i s
  obtain E f w where q: "q = (E, f, w)" by (cases q)
  assume ok: "source_paging_ok q"
  then show "0 < nat (lsf_PageSize (fst (snd q)))" by (simp add: q source_paging_ok_def)
  show "source_token q s \<noteq> []" by (simp add: q source_token_def)
  show "source_page q [] = page_from (map (source_value (fst q)) (source_listing q)) (source_token q)
      (nat (lsf_PageSize (fst (snd q)))) 0"
    using ok by (simp add: q source_page_from)
  assume "i < length (map (source_value (fst q)) (source_listing q))"
  then show "source_page q (source_token q (map (source_value (fst q)) (source_listing q) ! i)) =
      page_from (map (source_value (fst q)) (source_listing q)) (source_token q)
        (nat (lsf_PageSize (fst (snd q)))) (Suc i)"
    using ok by (auto simp: q intro!: source_page_from)
qed

text \<open>
  C17. Walking the pages of the source listing, token by token, from the empty token yields
  every source that matches the filter exactly once, in order of creation time and
  identifier, whatever the page size.
\<close>

theorem source_listing_complete:
  assumes "ext_laws E" and "fault_free w" and "1 \<le> lsf_PageSize f"
    and "distinct (map s_id (sources (committed w)))"
    and "\<forall>r \<in> set (sources (committed w)). \<exists>s. source_to_domain E r = Inr s"
    and "length (sources (committed w)) \<le> fuel"
  shows "walk_pages (\<lambda>t. case fst (source_repo_List E (f\<lparr>lsf_PageToken := t\<rparr>) w) of
             Inl _ \<Rightarrow> ([], []) | Inr p \<Rightarrow> (Items p, NextPageToken p)) (Suc fuel) [] =
         map (source_value E) (sort_key source_cursor
           (filter (source_matches f) (sources (committed w))))"
proof -
  have ok: "source_paging_ok (E, f, w)" using assms by (simp add: source_paging_ok_def)
  have "length (map (source_value E) (source_listing (E, f, w))) \<le> fuel"
    using le_trans [OF length_filter_le assms(6)] by (simp add: source_listing_def)
  with source_paging.walk_complete [OF ok] show ?thesis
    by (simp add: source_page_def [abs_def] source_listing_def keyset_rows_def after_cursor_def)
qed

definition sample_source :: "uuid \<Rightarrow> SourceType \<Rightarrow> source_row" where
  "sample_source i t =
     \<lparr>s_id = i, s_type = t, s_config = [(''feed_url'', JStr ''u''), (''url'', JStr ''u'')],
      s_created_at = 5, s_updated_at = 5, s_next_summary_at = None\<rparr>"

theorem source_listing_complete_witness:
  "walk_pages (\<lambda>t. case fst (source_repo_List decimal_ext
       (\<lparr>lsf_Type = SourceTypeOther [], lsf_PageSize = 1, lsf_PageToken = [], lsf_ProcessingMode = None\<rparr>
          \<lparr>lsf_PageToken := t\<rparr>)
       (quiet_world (empty_db\<lparr>sources := [sample_source 9 SourceTypeRSS, sample_source 3 SourceTypeHTML]\<rparr>))) of
       Inl _ \<Rightarrow> ([], []) | Inr p \<Rightarrow> (Items p, NextPageToken p)) (Suc 2) [] =
   map (source_value decimal_ext) [sample_source 3 SourceTypeHTML, sample_source 9 SourceTypeRSS]"
  by (subst source_listing_complete)
    (simp_all add: sample_source_def empty_db_def source_to_domain_def ValidateSourceType_def
      deserializeConfig_def json_string_def source_matches_def source_cursor_def less_eq_cursor_def)

end
