(* ===== verification/Post_Repo.thy ===== *)
theory Post_Repo
  imports Source_Repo
begin

text \<open>
  \<open>internal/data/post_repo.go\<close>: storage of posts. \<open>Save\<close> runs on the transaction of the
  context when there is one; reads, updates, deletes and listings run on the pooled client.
\<close>

section \<open>Rows and domain values\<close>

definition post_to_domain :: "ext \<Rightarrow> post_row \<Rightarrow> source_row \<Rightarrow> Post" where
  "post_to_domain E p s =
     \<lparr>post_ID = uuid_string E (p_id p), post_SourceID = uuid_string E (p_source_id p),
      post_Source = \<lparr>si_ID = uuid_string E (s_id s), si_Type = s_type s\<rparr>,
      post_ExternalID = p_external_id p, post_PublishedAt = p_published_at p,
      post_Author = p_author p, post_Text = p_text p, post_Metadata = Some (p_metadata p),
      post_CreatedAt = p_created_at p, post_UpdatedAt = p_updated_at p\<rparr>"

definition post_to_domain_with_source :: "ext \<Rightarrow> post_row \<Rightarrow> source_row option \<Rightarrow> Post" where
  "post_to_domain_with_source E p src =
     (case src of
        None \<Rightarrow>
          \<lparr>post_ID = uuid_string E (p_id p), post_SourceID = uuid_string E (p_source_id p),
           post_Source = empty_source_info,
           post_ExternalID = p_external_id p, post_PublishedAt = p_published_at p,
           post_Author = p_author p, post_Text = p_text p, post_Metadata = Some (p_metadata p),
           post_CreatedAt = p_created_at p, post_UpdatedAt = p_updated_at p\<rparr>
      | Some s \<Rightarrow>
          \<lparr>post_ID = uuid_string E (p_id p), post_SourceID = uuid_string E (p_source_id p),
           post_Source = \<lparr>si_ID = uuid_string E (s_id s), si_Type = s_type s\<rparr>,
           post_ExternalID = p_external_id p, post_PublishedAt = p_published_at p,
           post_Author = p_author p, post_Text = p_text p, post_Metadata = Some (p_metadata p),
           post_CreatedAt = p_created_at p, post_UpdatedAt = p_updated_at p\<rparr>)"

lemma post_to_domain_with_source_Some [simp]:
  "post_to_domain_with_source E p (Some s) = post_to_domain E p s"
  by (simp add: post_to_domain_with_source_def post_to_domain_def)

section \<open>Reading one post\<close>

definition exec :: "bool \<Rightarrow> 'a stmt \<Rightarrow> world \<Rightarrow> 'a result \<times> world" where
  "exec direct s w = (if direct then exec_direct s w else exec_tx s w)"

definition find_source :: "uuid \<Rightarrow> source_row list \<Rightarrow> source_row option" where
  "find_source i rows = List.find (\<lambda>s. s_id s = i) rows"

text \<open>\<open>Query().Where(P).WithSource().Only\<close>: the posts, their sources, then the check for one.\<close>

definition only_post_with_source ::
  "bool \<Rightarrow> (post_row \<Rightarrow> bool) \<Rightarrow> world \<Rightarrow> (post_row \<times> source_row option) result \<times> world" where
  "only_post_with_source direct P w =
     (case exec direct (select (\<lambda>_ d. take 2 (filter P (posts d)))) w of
        (Inl e, w) \<Rightarrow> (Inl e, w)
      | (Inr rows, w) \<Rightarrow>
          (if rows = [] then (Inl (EntNotFound ''post''), w)
           else case exec direct (select (\<lambda>_ d. filter (\<lambda>s. s_id s \<in> p_source_id ` set rows) (sources d))) w of
             (Inl e, w) \<Rightarrow> (Inl e, w)
           | (Inr srcs, w) \<Rightarrow>
               (case ent_only ''post'' rows of
                  Inl e \<Rightarrow> (Inl e, w)
                | Inr p \<Rightarrow> (Inr (p, find_source (p_source_id p) srcs), w))))"

definition getBySourceAndExternalID :: "ext \<Rightarrow> uuid \<Rightarrow> string \<Rightarrow> world \<Rightarrow> Post result \<times> world" where
  "getBySourceAndExternalID E sourceID externalID w =
     (case only_post_with_source False
             (\<lambda>p. p_source_id p = sourceID \<and> p_external_id p = externalID) w of
        (Inl e, w) \<Rightarrow>
          (if ent_is_not_found e then (Inl (Sentinel ErrPostNotFound), w)
           else (Inl (errorf_ctx ''fetch existing post'' e), w))
      | (Inr (p, s), w) \<Rightarrow> (Inr (post_to_domain_with_source E p s), w))"

definition post_repo_Get :: "ext \<Rightarrow> string \<Rightarrow> world \<Rightarrow> Post result \<times> world" where
  "post_repo_Get E ident w =
     (case parse_id E ''invalid post id'' ident of
        Inl e \<Rightarrow> (Inl e, w)
      | Inr uid \<Rightarrow>
          (case only_post_with_source True (\<lambda>p. p_id p = uid) w of
             (Inl e, w) \<Rightarrow>
               (if ent_is_not_found e then (Inl (Sentinel ErrPostNotFound), w)
                else (Inl (errorf_ctx ''get post'' e), w))
           | (Inr (p, s), w) \<Rightarrow> (Inr (post_to_domain_with_source E p s), w)))"

section \<open>Saving\<close>

definition post_row_of :: "uuid \<Rightarrow> uuid \<Rightarrow> Post \<Rightarrow> post_row" where
  "post_row_of i s p =
     \<lparr>p_id = i, p_source_id = s, p_external_id = post_ExternalID p,
      p_published_at = post_PublishedAt p, p_author = post_Author p, p_text = post_Text p,
      p_metadata = (case post_Metadata p of None \<Rightarrow> [] | Some m \<Rightarrow> m),
      p_created_at = post_CreatedAt p, p_updated_at = post_UpdatedAt p\<rparr>"

text \<open>\<open>INSERT ... ON CONFLICT DO NOTHING RETURNING id\<close>: a row exactly when inserted.\<close>

definition insert_post_stmt :: "post_row \<Rightarrow> uuid option stmt" where
  "insert_post_stmt r now d =
     (case insert_post r d of
        Inl e \<Rightarrow> Inl e
      | Inr (inserted, d') \<Rightarrow> Inr (if inserted then Some (p_id r) else None, d'))"

definition post_repo_Save :: "ext \<Rightarrow> Post \<Rightarrow> world \<Rightarrow> (Post \<times> bool) result \<times> world" where
  "post_repo_Save E p w =
     (case parse_id E ''invalid source id'' (post_SourceID p) of
        Inl e \<Rightarrow> (Inl e, w)
      | Inr sourceID \<Rightarrow>
     (case parse_id E ''invalid post id'' (post_ID p) of
        Inl e \<Rightarrow> (Inl e, w)
      | Inr postID \<Rightarrow>
     (let (r, w) = exec_tx (insert_post_stmt (post_row_of postID sourceID p)) w;
          finish = (\<lambda>created w.
            case getBySourceAndExternalID E sourceID (post_ExternalID p) w of
              (Inl e, w) \<Rightarrow> (Inl e, w)
            | (Inr saved, w) \<Rightarrow> (Inr (saved, created), w))
      in case query_row r of
           Inr _ \<Rightarrow> finish True w
         | Inl scanErr \<Rightarrow>
             (if errors_is scanErr SqlErrNoRows then finish False w
              else if pq_code scanErr = Some ''23503'' then (Inl (Sentinel ErrPostSourceNotFound), w)
              else (Inl (errorf_ctx ''save post'' scanErr), w)))))"

section \<open>Updating and deleting\<close>

definition update_post_row :: "Post \<Rightarrow> post_row \<Rightarrow> post_row" where
  "update_post_row p r =
     r\<lparr>p_external_id := post_ExternalID p, p_published_at := post_PublishedAt p,
       p_text := post_Text p, p_metadata := (case post_Metadata p of None \<Rightarrow> [] | Some m \<Rightarrow> m),
       p_updated_at := post_UpdatedAt p, p_author := post_Author p\<rparr>"

text \<open>\<open>UpdateOneID\<close> under the unique key \<open>(source_id, external_id)\<close>.\<close>

definition update_post_stmt :: "uuid \<Rightarrow> Post \<Rightarrow> post_row option stmt" where
  "update_post_stmt i p now d =
     (case filter (\<lambda>r. p_id r = i) (posts d) of
        [] \<Rightarrow> Inr (None, d)
      | r # _ \<Rightarrow>
          (if \<exists>q \<in> set (posts d). p_id q \<noteq> i \<and> p_source_id q = p_source_id r \<and>
                p_external_id q = post_ExternalID p
           then Inl unique_violation
           else Inr (Some (update_post_row p r),
                     d\<lparr>posts := update_where (\<lambda>r. p_id r = i) (update_post_row p) (posts d)\<rparr>)))"

definition post_repo_Update :: "ext \<Rightarrow> Post \<Rightarrow> world \<Rightarrow> Post result \<times> world" where
  "post_repo_Update E p w =
     (case parse_id E ''invalid post id'' (post_ID p) of
        Inl e \<Rightarrow> (Inl e, w)
      | Inr i \<Rightarrow>
          (case exec_direct (update_post_stmt i p) w of
             (Inl e, w) \<Rightarrow>
               (if ent_is_not_found e then (Inl (Sentinel ErrPostNotFound), w)
                else if pq_code (ent_constraint e) = Some ''23505'' then (Inl (Sentinel ErrPostAlreadyExists), w)
                else (Inl (errorf_ctx ''update post'' (ent_constraint e)), w))
           | (Inr None, w) \<Rightarrow> (Inl (Sentinel ErrPostNotFound), w)
           | (Inr (Some updated), w) \<Rightarrow>
               (case exec_direct (select (\<lambda>_ d. filter (\<lambda>s. s_id s = p_source_id updated) (sources d))) w of
                  (Inl e, w) \<Rightarrow> (Inl (errorf_ctx ''get source for post'' e), w)
                | (Inr srcs, w) \<Rightarrow>
                    (case ent_only ''source'' srcs of
                       Inl e \<Rightarrow> (Inl (errorf_ctx ''get source for post'' e), w)
                     | Inr s \<Rightarrow> (Inr (post_to_domain E updated s), w)))))"

definition delete_post_stmt :: "uuid \<Rightarrow> bool stmt" where
  "delete_post_stmt i now d =
     (if i \<notin> post_ids d then Inr (False, d)
      else case delete_post i d of Inl e \<Rightarrow> Inl e | Inr d' \<Rightarrow> Inr (True, d'))"

definition post_repo_Delete :: "ext \<Rightarrow> string \<Rightarrow> world \<Rightarrow> unit result \<times> world" where
  "post_repo_Delete E ident w =
     (case parse_id E ''invalid post id'' ident of
        Inl e \<Rightarrow> (Inl e, w)
      | Inr i \<Rightarrow>
          (case exec_direct (delete_post_stmt i) w of
             (Inl e, w) \<Rightarrow>
               (if ent_is_not_found e then (Inl (Sentinel ErrPostNotFound), w)
                else (Inl (errorf_ctx ''delete post'' (ent_constraint e)), w))
           | (Inr found, w) \<Rightarrow>
               (if found then (Inr (), w) else (Inl (Sentinel ErrPostNotFound), w))))"

section \<open>Listing\<close>

definition getSortParams :: "ListPostsFilter \<Rightarrow> SortField \<times> bool" where
  "getSortParams f =
     ((case lpf_OrderBy f of
         SortByPublishedAt \<Rightarrow> SortByPublishedAt
       | SortByCreatedAt \<Rightarrow> SortByCreatedAt
       | SortFieldOther _ \<Rightarrow> SortByPublishedAt),
      lpf_OrderDir f = SortDesc)"

definition parsePageToken :: "ext \<Rightarrow> string \<Rightarrow> error + cursor" where
  "parsePageToken E token =
     (case decodePageToken E token of
        Inl _ \<Rightarrow> Inl (errorf_detail ErrPostInvalidArgument ''invalid page token'')
      | Inr c \<Rightarrow> Inr c)"

definition post_sort_value :: "SortField \<Rightarrow> post_row \<Rightarrow> time" where
  "post_sort_value field p = (if field = SortByPublishedAt then p_published_at p else p_created_at p)"

definition post_cursor :: "SortField \<Rightarrow> post_row \<Rightarrow> cursor" where
  "post_cursor field p = Cursor (post_sort_value field p) (p_id p)"

text \<open>The cursor conditions of the two directions, as the WHERE clauses spell them.\<close>

definition applyCursorFilterDesc :: "SortField \<Rightarrow> cursor \<Rightarrow> post_row \<Rightarrow> bool" where
  "applyCursorFilterDesc field token p \<longleftrightarrow>
     (if field = SortByPublishedAt
      then p_published_at p < SortValue token \<or>
           (p_published_at p = SortValue token \<and> p_id p < CursorID token)
      else p_created_at p < SortValue token \<or>
           (p_created_at p = SortValue token \<and> p_id p < CursorID token))"

definition applyCursorFilterAsc :: "SortField \<Rightarrow> cursor \<Rightarrow> post_row \<Rightarrow> bool" where
  "applyCursorFilterAsc field token p \<longleftrightarrow>
     (if field = SortByPublishedAt
      then p_published_at p > SortValue token \<or>
           (p_published_at p = SortValue token \<and> p_id p > CursorID token)
      else p_created_at p > SortValue token \<or>
           (p_created_at p = SortValue token \<and> p_id p > CursorID token))"

definition applyPagination :: "SortField \<Rightarrow> bool \<Rightarrow> cursor option \<Rightarrow> post_row list \<Rightarrow> post_row list" where
  "applyPagination field descending token rows =
     (let rows = (case token of
            None \<Rightarrow> rows
          | Some c \<Rightarrow> filter (if descending then applyCursorFilterDesc field c
                              else applyCursorFilterAsc field c) rows)
      in if descending then rev (sort_key (post_cursor field) rows) else sort_key (post_cursor field) rows)"

definition post_matches :: "uuid option \<Rightarrow> ListPostsFilter \<Rightarrow> post_row \<Rightarrow> bool" where
  "post_matches src f p \<longleftrightarrow>
     (case src of None \<Rightarrow> True | Some s \<Rightarrow> p_source_id p = s) \<and>
     (case lpf_CreatedAfter f of None \<Rightarrow> True | Some t \<Rightarrow> p_created_at p \<ge> t) \<and>
     (case lpf_CreatedBefore f of None \<Rightarrow> True | Some t \<Rightarrow> p_created_at p < t)"

definition fetchPosts :: "(post_row list \<Rightarrow> post_row list) \<Rightarrow> nat \<Rightarrow> world \<Rightarrow> post_row list result \<times> world" where
  "fetchPosts query pageSize w =
     (case exec_direct (select (\<lambda>_ d. take (pageSize + 1) (query (posts d)))) w of
        (Inl e, w) \<Rightarrow> (Inl (errorf_ctx ''list posts'' e), w)
      | (Inr rows, w) \<Rightarrow> (Inr rows, w))"

definition batchLoadSources :: "post_row list \<Rightarrow> world \<Rightarrow> source_row list result \<times> world" where
  "batchLoadSources rows w =
     (if rows = [] then (Inr [], w)
      else case exec_direct (select (\<lambda>_ d. filter (\<lambda>s. s_id s \<in> p_source_id ` set rows) (sources d))) w of
             (Inl e, w) \<Rightarrow> (Inl (errorf_ctx ''batch load sources'' e), w)
           | (Inr srcs, w) \<Rightarrow> (Inr srcs, w))"

text \<open>
  The items of a page. A post without its source is fetched individually; when that fails
  too, the code dereferences nil, which the model reports as an error (the reference from
  posts to sources makes it unreachable).
\<close>

definition nil_dereference :: error where
  "nil_dereference = Text ''panic: runtime error: invalid memory address or nil pointer dereference''"

fun build_items :: "ext \<Rightarrow> source_row list \<Rightarrow> post_row list \<Rightarrow> world \<Rightarrow> Post list result \<times> world" where
  "build_items E srcs [] w = (Inr [], w)"
| "build_items E srcs (p # ps) w =
     (let (src, w) =
        (case find_source (p_source_id p) srcs of
           Some s \<Rightarrow> (Some s, w)
         | None \<Rightarrow>
             (case exec_direct (select (\<lambda>_ d. filter (\<lambda>s. s_id s = p_source_id p) (sources d))) w of
                (Inl e, w) \<Rightarrow> (None, w)
              | (Inr rows, w) \<Rightarrow> (case ent_only ''source'' rows of Inl _ \<Rightarrow> (None, w) | Inr s \<Rightarrow> (Some s, w))))
      in case src of
           None \<Rightarrow> (Inl nil_dereference, w)
         | Some s \<Rightarrow>
             (case build_items E srcs ps w of
                (Inl e, w) \<Rightarrow> (Inl e, w)
              | (Inr items, w) \<Rightarrow> (Inr (post_to_domain E p s # items), w)))"

definition buildResult ::
  "ext \<Rightarrow> post_row list \<Rightarrow> source_row list \<Rightarrow> SortField \<Rightarrow> nat \<Rightarrow> world \<Rightarrow> Post page result \<times> world" where
  "buildResult E rows srcs field pageSize w =
     (let returnCount = min (length rows) pageSize in
      case build_items E srcs (take returnCount rows) w of
        (Inl e, w) \<Rightarrow> (Inl e, w)
      | (Inr items, w) \<Rightarrow>
          (Inr \<lparr>Items = items,
                NextPageToken =
                  (if length rows > pageSize
                   then encodePageToken E (post_sort_value field (rows ! (returnCount - 1)))
                          (p_id (rows ! (returnCount - 1)))
                   else [])\<rparr>, w))"

definition post_repo_List :: "ext \<Rightarrow> ListPostsFilter \<Rightarrow> world \<Rightarrow> Post page result \<times> world" where
  "post_repo_List E f w =
     (case (if lpf_SourceID f = [] then Inr None
            else map_sum id Some (parse_id E ''invalid source id'' (lpf_SourceID f))) of
        Inl e \<Rightarrow> (Inl e, w)
      | Inr src \<Rightarrow>
     (let (field, descending) = getSortParams f in
      case (if lpf_PageToken f = [] then Inr None
            else map_sum id Some (parsePageToken E (lpf_PageToken f))) of
        Inl e \<Rightarrow> (Inl e, w)
      | Inr token \<Rightarrow>
     (case fetchPosts (\<lambda>rows. applyPagination field descending token (filter (post_matches src f) rows))
             (nat (lpf_PageSize f)) w of
        (Inl e, w) \<Rightarrow> (Inl e, w)
      | (Inr rows, w) \<Rightarrow>
     (case batchLoadSources rows w of
        (Inl e, w) \<Rightarrow> (Inl e, w)
      | (Inr srcs, w) \<Rightarrow> buildResult E rows srcs field (nat (lpf_PageSize f)) w))))"

end
