(* ===== verification/Post_Paging.thy ===== *)
theory Post_Paging
  imports Post_Repo
begin

text \<open>
  The listing of posts, page by page: \<open>applyPagination\<close> is keyset pagination for each sort
  field and direction, and a client that follows the tokens of \<open>postRepo.List\<close> sees every
  matching post once, in the chosen order.
\<close>

section \<open>The cursor conditions are keyset pagination\<close>

lemma applyCursorFilter_less [simp]:
  "applyCursorFilterDesc field c = (\<lambda>p. post_cursor field p < c)"
  "applyCursorFilterAsc field c = (\<lambda>p. post_cursor field p > c)"
  by (cases c; rule ext; auto simp: applyCursorFilterDesc_def applyCursorFilterAsc_def post_cursor_def
      post_sort_value_def less_cursor_def)+

lemma applyPagination_keyset:
  "applyPagination field descending token rows = keyset_rows descending (post_cursor field) token rows"
  by (cases token) (simp_all add: applyPagination_def keyset_rows_def after_cursor_def Let_def)

section \<open>One page without faults\<close>

definition post_value :: "ext \<Rightarrow> source_row list \<Rightarrow> post_row \<Rightarrow> Post" where
  "post_value E srcs p = post_to_domain_with_source E p (find_source (p_source_id p) srcs)"

lemma find_source_filter:
  "(\<And>s. s_id s = i \<Longrightarrow> Q s) \<Longrightarrow> find_source i (filter Q srcs) = find_source i srcs"
  by (induction srcs) (auto simp: find_source_def)

lemma find_source_Some: "i \<in> s_id ` set srcs \<Longrightarrow> \<exists>s. find_source i srcs = Some s"
  by (induction srcs) (auto simp: find_source_def)

lemma build_items_found:
  "\<forall>p \<in> set rows. \<exists>s. find_source (p_source_id p) srcs = Some s \<Longrightarrow>
   build_items E srcs rows w = (Inr (map (post_value E srcs) rows), w)"
  by (induction rows) (auto simp: post_value_def)

definition posts_have_sources :: "database \<Rightarrow> bool" where
  "posts_have_sources d \<longleftrightarrow> (\<forall>p \<in> set (posts d). p_source_id p \<in> source_ids d)"

text \<open>The posts a filter selects; an invalid source identifier selects none.\<close>

definition filter_source :: "ext \<Rightarrow> ListPostsFilter \<Rightarrow> uuid option" where
  "filter_source E f = (if lpf_SourceID f = [] then None else parse_uuid E (lpf_SourceID f))"

definition post_listing :: "ext \<times> ListPostsFilter \<times> world \<Rightarrow> post_row list" where
  "post_listing q = (case q of (E, f, w) \<Rightarrow>
     (let (field, descending) = getSortParams f
      in keyset_rows descending (post_cursor field) None
           (filter (post_matches (filter_source E f) f) (posts (committed w)))))"

definition post_page :: "ext \<times> ListPostsFilter \<times> world \<Rightarrow> string \<Rightarrow> Post list \<times> string" where
  "post_page q t = (case q of (E, f, w) \<Rightarrow>
     (case fst (post_repo_List E (f\<lparr>lpf_PageToken := t\<rparr>) w) of
        Inl _ \<Rightarrow> ([], []) | Inr p \<Rightarrow> (Items p, NextPageToken p)))"

definition post_paging_ok :: "ext \<times> ListPostsFilter \<times> world \<Rightarrow> bool" where
  "post_paging_ok q = (case q of (E, f, w) \<Rightarrow>
     ext_laws E \<and> fault_free w \<and> 1 \<le> lpf_PageSize f \<and>
     (lpf_SourceID f = [] \<or> parse_uuid E (lpf_SourceID f) \<noteq> None) \<and>
     distinct (map p_id (posts (committed w))) \<and> posts_have_sources (committed w))"

definition post_value_token :: "ext \<times> ListPostsFilter \<times> world \<Rightarrow> Post \<Rightarrow> string" where
  "post_value_token q p = (case q of (E, f, w) \<Rightarrow>
     encodePageToken E
       (if fst (getSortParams f) = SortByPublishedAt then post_PublishedAt p else post_CreatedAt p)
       (the (parse_uuid E (post_ID p))))"

lemma post_value_fields [simp]:
  "post_ID (post_value E srcs p) = uuid_string E (p_id p)"
  "post_PublishedAt (post_value E srcs p) = p_published_at p"
  "post_CreatedAt (post_value E srcs p) = p_created_at p"
  by (simp_all add: post_value_def post_to_domain_with_source_def split: option.split)

lemma batchLoadSources_fault_free:
  assumes "fault_free w"
  shows "\<exists>w'. batchLoadSources rows w =
    (Inr (if rows = [] then [] else filter (\<lambda>s. s_id s \<in> p_source_id ` set rows) (sources (committed w))), w') \<and>
    fault_free w' \<and> committed w' = committed w"
  using assms by (simp add: batchLoadSources_def fault_free_read(2) [OF assms])

lemma fetched_items:
  assumes "set rows \<subseteq> set (posts d)" and "posts_have_sources d"
  shows "build_items E (if rows = [] then [] else filter (\<lambda>s. s_id s \<in> p_source_id ` set rows) (sources d))
      (take k rows) w = (Inr (map (post_value E (sources d)) (take k rows)), w)"
proof (cases "rows = []")
  case False
  let ?srcs = "filter (\<lambda>s. s_id s \<in> p_source_id ` set rows) (sources d)"
  have same: "find_source (p_source_id p) ?srcs = find_source (p_source_id p) (sources d)"
    if "p \<in> set rows" for p
    using that by (intro find_source_filter) auto
  have "\<exists>s. find_source (p_source_id p) ?srcs = Some s" if "p \<in> set rows" for p
    using assms that find_source_Some [of "p_source_id p" "sources d"]
    by (auto simp: same posts_have_sources_def source_ids_def)
  then have "build_items E ?srcs (take k rows) w = (Inr (map (post_value E ?srcs) (take k rows)), w)"
    by (intro build_items_found) (auto dest: in_set_takeD)
  moreover have "map (post_value E ?srcs) (take k rows) = map (post_value E (sources d)) (take k rows)"
    using same by (auto simp: post_value_def dest: in_set_takeD)
  ultimately show ?thesis using False by simp
qed simp

text \<open>The fault-free page as a keyset page of the mapped rows.\<close>

lemma post_repo_List_page:
  assumes q: "post_paging_ok (E, f, w)" and field: "getSortParams f = (field, descending)"
    and "t = [] \<and> token = None \<or> (\<exists>c. decodePageToken E t = Inr c \<and> t \<noteq> [] \<and> token = Some c)"
  shows "\<exists>w'. post_repo_List E (f\<lparr>lpf_PageToken := t\<rparr>) w =
    (let p = keyset_page descending (post_cursor field) (\<lambda>r. cursor_text E (post_cursor field r))
               (nat (lpf_PageSize f)) token
               (filter (post_matches (filter_source E f) f) (posts (committed w)))
     in (Inr \<lparr>Items = map (post_value E (sources (committed w))) (fst p), NextPageToken = snd p\<rparr>, w')) \<and>
    fault_free w' \<and> committed w' = committed w"
proof -
  let ?d = "committed w"
  define n where "n = nat (lpf_PageSize f)"
  define R where "R = take (Suc n) (keyset_rows descending (post_cursor field) token
    (filter (post_matches (filter_source E f) f) (posts ?d)))"
  have m: "post_matches src (f\<lparr>lpf_PageToken := t'\<rparr>) = post_matches src f" for src t'
    by (simp add: fun_eq_iff post_matches_def)
  have g: "getSortParams (f\<lparr>lpf_PageToken := t'\<rparr>) = (field, descending)" for t'
    using field by (simp add: getSortParams_def)
  have fr: "fault_free w" and hs: "posts_have_sources ?d" using q by (simp_all add: post_paging_ok_def)
  have src: "(if lpf_SourceID f = [] then Inr None
      else map_sum id Some (parse_id E ''invalid source id'' (lpf_SourceID f))) = Inr (filter_source E f)"
    using q by (auto simp: post_paging_ok_def filter_source_def parse_id_def)
  have tk: "(if t = [] then Inr None else map_sum id Some (parsePageToken E t)) = Inr token"
    using assms(3) by (auto simp: parsePageToken_def)
  have fetch: "fetchPosts (\<lambda>rows. applyPagination field descending token
        (filter (post_matches (filter_source E f) f) rows)) n w = (Inr R, after_read w)"
    by (simp add: fetchPosts_def fault_free_read(2) [OF fr] applyPagination_keyset R_def)
  have R: "set R \<subseteq> set (posts ?d)"
    by (auto simp: R_def keyset_rows_def Let_def dest!: in_set_takeD split: if_splits)
  obtain w' where batch: "batchLoadSources R (after_read w) =
      (Inr (if R = [] then [] else filter (\<lambda>s. s_id s \<in> p_source_id ` set R) (sources ?d)), w')"
    and w': "fault_free w'" "committed w' = committed w"
    using batchLoadSources_fault_free [of "after_read w" R] fr by auto
  have "post_repo_List E (f\<lparr>lpf_PageToken := t\<rparr>) w =
      (Inr \<lparr>Items = map (post_value E (sources ?d)) (take (min (length R) n) R),
            NextPageToken = (if length R > n
              then cursor_text E (post_cursor field (R ! (min (length R) n - 1))) else [])\<rparr>, w')"
  proof -
    have sel: "lpf_SourceID (f\<lparr>lpf_PageToken := t\<rparr>) = lpf_SourceID f"
      "lpf_PageToken (f\<lparr>lpf_PageToken := t\<rparr>) = t"
      "nat (lpf_PageSize (f\<lparr>lpf_PageToken := t\<rparr>)) = n" by (simp_all add: n_def)
    show ?thesis
      unfolding post_repo_List_def buildResult_def
      by (simp only: sel src tk sum.case prod.case g m Let_def fetch batch fetched_items [OF R hs])
        (simp add: post_cursor_def cursor_text_def)
  qed
  then show ?thesis
    using w' by (simp add: keyset_page_def n_def [symmetric] R_def [symmetric] Let_def)
qed

lemma post_page_keyset:
  assumes q: "post_paging_ok (E, f, w)" and field: "getSortParams f = (field, descending)"
    and "t = [] \<and> token = None \<or> (\<exists>c. decodePageToken E t = Inr c \<and> t \<noteq> [] \<and> token = Some c)"
  shows "post_page (E, f, w) t =
    (let p = keyset_page descending (post_cursor field) (\<lambda>r. cursor_text E (post_cursor field r))
               (nat (lpf_PageSize f)) token
               (filter (post_matches (filter_source E f) f) (posts (committed w)))
     in (map (post_value E (sources (committed w))) (fst p), snd p))"
  using post_repo_List_page [OF assms] by (auto simp: post_page_def Let_def)

text \<open>A page read without faults leaves the world ready for the next one.\<close>

lemma post_repo_List_fault_free:
  assumes q: "post_paging_ok (E, f, w)"
    and "t = [] \<or> (\<exists>c. decodePageToken E t = Inr c)"
  shows "\<exists>page w'. post_repo_List E (f\<lparr>lpf_PageToken := t\<rparr>) w = (Inr page, w') \<and>
    post_page (E, f, w) t = (Items page, NextPageToken page) \<and> fault_free w' \<and> committed w' = committed w"
proof -
  obtain field descending where g: "getSortParams f = (field, descending)" by (cases "getSortParams f")
  obtain token where "t = [] \<and> token = None \<or> (\<exists>c. decodePageToken E t = Inr c \<and> t \<noteq> [] \<and> token = Some c)"
    using assms(2) by (cases "t = []") auto
  from post_repo_List_page [OF q g this] show ?thesis
    by (auto simp: post_page_def Let_def)
qed

lemma post_page_from:
  assumes q: "post_paging_ok (E, f, w)"
    and "t = [] \<and> i = 0 \<or> (\<exists>j < length (post_listing (E, f, w)).
      t = post_value_token (E, f, w) (post_value E (sources (committed w)) (post_listing (E, f, w) ! j)) \<and> i = Suc j)"
  shows "post_page (E, f, w) t = page_from
    (map (post_value E (sources (committed w))) (post_listing (E, f, w)))
    (post_value_token (E, f, w)) (nat (lpf_PageSize f)) i"
proof -
  let ?rows = "filter (post_matches (filter_source E f) f) (posts (committed w))"
  obtain field descending where g: "getSortParams f = (field, descending)" by (cases "getSortParams f")
  have E: "ext_laws E" and n: "0 < nat (lpf_PageSize f)" using q by (simp_all add: post_paging_ok_def)
  have d: "distinct (map (post_cursor field) ?rows)"
    using q by (intro distinct_cursors [where ident = p_id])
      (auto simp: post_paging_ok_def post_cursor_def distinct_map_filter)
  have tok: "post_value_token (E, f, w) (post_value E (sources (committed w)) p) = cursor_text E (post_cursor field p)" for p
    using E g by (auto simp: post_value_token_def cursor_text_def post_cursor_def post_sort_value_def ext_lawsD)
  show ?thesis
    unfolding post_listing_def prod.case g Let_def
    by (rule cursor_page_from [where page = "post_page (E, f, w)", OF E d n post_page_keyset [OF q g] tok])
      (use assms(2) in \<open>simp_all add: post_listing_def g\<close>)
qed

interpretation post_paging: paged_listing post_paging_ok
  "\<lambda>q. map (post_value (fst q) (sources (committed (snd (snd q))))) (post_listing q)" post_value_token
  "\<lambda>q. nat (lpf_PageSize (fst (snd q)))" post_page
proof unfold_locales
  fix q :: "ext \<times> ListPostsFilter \<times> world" and i p
  obtain E f w where q: "q = (E, f, w)" by (cases q)
  let ?all = "map (post_value (fst q) (sources (committed (snd (snd q))))) (post_listing q)"
  assume ok: "post_paging_ok q"
  then show "0 < nat (lpf_PageSize (fst (snd q)))" by (simp add: q post_paging_ok_def)
  show "post_value_token q p \<noteq> []" by (simp add: q post_value_token_def)
  show "post_page q [] = page_from ?all (post_value_token q) (nat (lpf_PageSize (fst (snd q)))) 0"
    using ok by (simp add: q post_page_from)
  assume "i < length ?all"
  then show "post_page q (post_value_token q (?all ! i)) =
      page_from ?all (post_value_token q) (nat (lpf_PageSize (fst (snd q)))) (Suc i)"
    using ok by (auto simp: q intro!: post_page_from)
qed

text \<open>
  Walking the pages of the post listing from the empty token, for either sort field,
  either direction, any page size and any filter, yields every matching post exactly once,
  with its source, in the order asked for.
\<close>

lemma post_listing_complete:
  assumes "ext_laws E" and "fault_free w" and "1 \<le> lpf_PageSize f"
    and "lpf_SourceID f = [] \<or> parse_uuid E (lpf_SourceID f) \<noteq> None"
    and "distinct (map p_id (posts (committed w)))" and "posts_have_sources (committed w)"
    and "length (posts (committed w)) \<le> fuel"
    and "getSortParams f = (field, descending)"
  shows "walk_pages (\<lambda>t. case fst (post_repo_List E (f\<lparr>lpf_PageToken := t\<rparr>) w) of
             Inl _ \<Rightarrow> ([], []) | Inr p \<Rightarrow> (Items p, NextPageToken p)) (Suc fuel) [] =
         map (post_value E (sources (committed w)))
           ((if descending then rev else id) (sort_key (post_cursor field)
             (filter (post_matches (filter_source E f) f) (posts (committed w)))))"
proof -
  have ok: "post_paging_ok (E, f, w)" using assms by (simp add: post_paging_ok_def)
  have "length (map (post_value E (sources (committed w))) (post_listing (E, f, w))) \<le> fuel"
    using le_trans [OF length_filter_le assms(7)] by (simp add: post_listing_def assms(8))
  with post_paging.walk_complete [OF ok] show ?thesis
    by (simp add: post_page_def [abs_def] post_listing_def assms(8) keyset_rows_def after_cursor_def)
qed

definition listed_post :: "uuid \<Rightarrow> time \<Rightarrow> post_row" where
  "listed_post i t = (sample_post i)\<lparr>p_source_id := 9, p_published_at := t\<rparr>"

lemma post_listing_complete_example:
  "walk_pages (\<lambda>t. case fst (post_repo_List decimal_ext
       (\<lparr>lpf_SourceID = [], lpf_PageSize = 1, lpf_PageToken = [], lpf_OrderBy = SortByPublishedAt,
         lpf_OrderDir = SortDesc, lpf_CreatedAfter = None, lpf_CreatedBefore = None\<rparr>
          \<lparr>lpf_PageToken := t\<rparr>)
       (quiet_world (empty_db\<lparr>sources := [sample_source 9 SourceTypeRSS],
          posts := [listed_post 1 10, listed_post 2 20]\<rparr>))) of
       Inl _ \<Rightarrow> ([], []) | Inr p \<Rightarrow> (Items p, NextPageToken p)) (Suc 2) [] =
   map (post_value decimal_ext [sample_source 9 SourceTypeRSS]) [listed_post 2 20, listed_post 1 10]"
  by (subst post_listing_complete [where field = SortByPublishedAt and descending = True])
    (simp_all add: sample_source_def empty_db_def listed_post_def sample_post_def posts_have_sources_def
      source_ids_def post_matches_def post_cursor_def less_eq_cursor_def getSortParams_def filter_source_def
      post_sort_value_def)

end
