(* ===== verification/Summary_Window.thy ===== *)
theory Summary_Window
  imports Post_Paging
begin

text \<open>
  \<open>collectWindowPosts\<close> and \<open>truncateUTF8\<close> of \<open>internal/biz/summary_usecase.go\<close>: the text of a
  digest is made of the newest posts of the window that fit. The loop over pages is given
  fuel, one unit per page; \<open>collect_terminates\<close> shows that one unit more than there are posts
  is enough, so \<open>None\<close> (out of fuel) never arises.
\<close>

section \<open>Cutting a text on a rune boundary\<close>

text \<open>\<open>utf8.RuneStart\<close>: not a continuation byte.\<close>

definition RuneStart :: "char \<Rightarrow> bool" where
  "RuneStart b \<longleftrightarrow> (of_char b :: nat) div 64 \<noteq> 2"

fun back_to_start :: "string \<Rightarrow> nat \<Rightarrow> nat" where
  "back_to_start s 0 = 0"
| "back_to_start s (Suc n) = (if RuneStart (s ! Suc n) then Suc n else back_to_start s n)"

definition truncateUTF8 :: "string \<Rightarrow> nat \<Rightarrow> string" where
  "truncateUTF8 s n = (if length s \<le> n then s else take (back_to_start s n) s)"

section \<open>The loop\<close>

definition piece :: "string \<Rightarrow> string" where
  "piece body = body @ [CHR 0x0A, CHR 0x0A]"

text \<open>
  The texts of one page, newest first: the pieces taken so far (the last one first), their
  length, and whether the collection is over.
\<close>

fun take_pieces :: "nat \<Rightarrow> string list \<Rightarrow> nat \<Rightarrow> string list \<Rightarrow> string list \<times> nat \<times> bool" where
  "take_pieces maxChars acc tot [] = (acc, tot, False)"
| "take_pieces maxChars acc tot (body # bodies) =
     (if tot + length (piece body) > maxChars
      then (if acc = [] then [truncateUTF8 body maxChars] else acc, tot, True)
      else take_pieces maxChars (piece body # acc) (tot + length (piece body)) bodies)"

definition window_filter :: "string \<Rightarrow> time \<Rightarrow> time \<Rightarrow> string \<Rightarrow> ListPostsFilter" where
  "window_filter sourceID start end pageToken =
     \<lparr>lpf_SourceID = sourceID, lpf_PageSize = 500, lpf_PageToken = pageToken,
      lpf_OrderBy = SortByCreatedAt, lpf_OrderDir = SortDesc,
      lpf_CreatedAfter = Some start, lpf_CreatedBefore = Some end\<rparr>"

fun collect_pages ::
  "ext \<Rightarrow> string \<Rightarrow> time \<Rightarrow> time \<Rightarrow> nat \<Rightarrow> nat \<Rightarrow> string \<Rightarrow> string list \<Rightarrow> nat \<Rightarrow> world \<Rightarrow>
     (string list result \<times> world) option" where
  "collect_pages E sourceID start end maxChars 0 pageToken acc tot w = None"
| "collect_pages E sourceID start end maxChars (Suc fuel) pageToken acc tot w =
     (case post_repo_List E (window_filter sourceID start end pageToken) w of
        (Inl e, w) \<Rightarrow> Some (Inl (errorf_ctx ''list posts'' e), w)
      | (Inr page, w) \<Rightarrow>
          (let (acc, tot, over) = take_pieces maxChars acc tot (map post_Text (Items page))
           in if over \<or> NextPageToken page = [] then Some (Inr acc, w)
              else collect_pages E sourceID start end maxChars fuel (NextPageToken page) acc tot w))"

text \<open>The pieces are taken newest first and written in chronological order.\<close>

definition collectWindowPosts ::
  "ext \<Rightarrow> string \<Rightarrow> time \<Rightarrow> time \<Rightarrow> nat \<Rightarrow> nat \<Rightarrow> world \<Rightarrow> (string result \<times> world) option" where
  "collectWindowPosts E sourceID start end maxChars fuel w =
     map_option (\<lambda>(r, w). (map_sum id concat r, w))
       (collect_pages E sourceID start end maxChars fuel [] [] 0 w)"

section \<open>What is taken\<close>

lemma back_to_start_le: "back_to_start s n \<le> n"
  by (induction n) auto

lemma back_to_start_boundary: "0 < back_to_start s n \<Longrightarrow> RuneStart (s ! back_to_start s n)"
  by (induction n) (auto split: if_splits)

lemma truncateUTF8_prefix:
  "\<exists>rest. s = truncateUTF8 s n @ rest \<and> (rest = [] \<or> truncateUTF8 s n = [] \<or> RuneStart (hd rest))"
  "length (truncateUTF8 s n) \<le> n"
proof -
  let ?k = "back_to_start s n"
  have k: "?k \<le> n" by (rule back_to_start_le)
  show "length (truncateUTF8 s n) \<le> n" using k by (simp add: truncateUTF8_def)
  show "\<exists>rest. s = truncateUTF8 s n @ rest \<and> (rest = [] \<or> truncateUTF8 s n = [] \<or> RuneStart (hd rest))"
  proof (cases "length s \<le> n")
    case True
    then show ?thesis by (simp add: truncateUTF8_def)
  next
    case False
    then have "hd (drop ?k s) = s ! ?k" using k by (simp add: hd_drop_conv_nth)
    then show ?thesis
      using False back_to_start_boundary [of s n]
      by (intro exI [of _ "drop ?k s"]) (auto simp: truncateUTF8_def)
  qed
qed

lemma take_pieces_append:
  "take_pieces m acc tot (xs @ ys) =
    (case take_pieces m acc tot xs of
       (acc', tot', over) \<Rightarrow> if over then (acc', tot', True) else take_pieces m acc' tot' ys)"
  by (induction xs arbitrary: acc tot) (auto split: prod.splits)

text \<open>Either the newest text alone is too long and is cut, or the newest texts that fit are taken.\<close>

lemma take_pieces_spec:
  "take_pieces m acc (length (concat acc)) bodies = (acc', tot', over) \<Longrightarrow> acc \<noteq> [] \<Longrightarrow>
    length (concat acc) \<le> m \<Longrightarrow>
    \<exists>k \<le> length bodies. acc' = rev (map piece (take k bodies)) @ acc \<and> length (concat acc') \<le> m \<and>
      (k < length bodies \<longrightarrow> length (concat acc') + length (piece (bodies ! k)) > m)"
proof (induction bodies arbitrary: acc)
  case (Cons b bs)
  show ?case
  proof (cases "length (concat acc) + length (piece b) > m")
    case True
    then show ?thesis using Cons.prems by (intro exI [of _ 0]) auto
  next
    case False
    have "take_pieces m (piece b # acc) (length (concat (piece b # acc))) bs = (acc', tot', over)"
      using False Cons.prems(1) by (simp add: add.commute)
    moreover have "length (concat (piece b # acc)) \<le> m" using False by simp
    ultimately obtain k where k: "k \<le> length bs"
      "acc' = rev (map piece (take k bs)) @ piece b # acc" "length (concat acc') \<le> m"
      "k < length bs \<longrightarrow> length (concat acc') + length (piece (bs ! k)) > m"
      using Cons.IH [of "piece b # acc"] by blast
    show ?thesis
      by (rule exI [of _ "Suc k"]) (use k in simp)
  qed
qed auto

definition digest_text :: "nat \<Rightarrow> string list \<Rightarrow> string \<Rightarrow> bool" where
  "digest_text m bodies t \<longleftrightarrow>
     (\<exists>k \<le> length bodies. t = concat (rev (map piece (take k bodies))) \<and> length t \<le> m \<and>
        (bodies \<noteq> [] \<longrightarrow> 0 < k) \<and> (k < length bodies \<longrightarrow> length t + length (piece (bodies ! k)) > m)) \<or>
     (\<exists>b bs. bodies = b # bs \<and> length (piece b) > m \<and> t = truncateUTF8 b m)"

lemma take_pieces_digest: "digest_text m bodies (concat (fst (take_pieces m [] 0 bodies)))"
proof (cases bodies)
  case Nil
  then show ?thesis by (simp add: digest_text_def)
next
  case (Cons b bs)
  show ?thesis
  proof (cases "length (piece b) > m")
    case True
    then show ?thesis using Cons by (simp add: digest_text_def)
  next
    case False
    obtain acc' tot' over where t: "take_pieces m [piece b] (length (concat [piece b])) bs = (acc', tot', over)"
      by (cases "take_pieces m [piece b] (length (concat [piece b])) bs")
    moreover have "length (concat [piece b]) \<le> m" using False by simp
    ultimately obtain k where k: "k \<le> length bs"
      "acc' = rev (map piece (take k bs)) @ [piece b]" "length (concat acc') \<le> m"
      "k < length bs \<longrightarrow> length (concat acc') + length (piece (bs ! k)) > m"
      using take_pieces_spec [of m "[piece b]"] by blast
    have f: "fst (take_pieces m [] 0 bodies) = acc'" using t False Cons by simp
    show ?thesis
      unfolding digest_text_def by (rule disjI1, rule exI [of _ "Suc k"]) (use k Cons f in simp)
  qed
qed

section \<open>The pages together\<close>

lemma post_Text_value [simp]: "post_Text (post_value E srcs p) = p_text p"
  by (simp add: post_value_def post_to_domain_with_source_def split: option.split)

lemma same_listing:
  "committed w' = committed w \<Longrightarrow> post_listing (E, f, w') = post_listing (E, f, w)"
  by (simp add: post_listing_def)

lemma collect_terminates:
  assumes "post_paging_ok (E, f, w)" and f: "f = window_filter sourceID start end []"
    and "t = [] \<and> i = 0 \<or> (\<exists>j < length (post_listing (E, f, w)).
      t = post_value_token (E, f, w) (post_value E (sources (committed w)) (post_listing (E, f, w) ! j)) \<and> i = Suc j)"
    and "length (post_listing (E, f, w)) - i < fuel"
  shows "\<exists>w'. collect_pages E sourceID start end m fuel t acc tot w =
    Some (Inr (fst (take_pieces m acc tot (map p_text (drop i (post_listing (E, f, w)))))), w') \<and>
    fault_free w' \<and> committed w' = committed w"
  using assms(1,3,4)
proof (induction fuel arbitrary: t i acc tot w)
  case (Suc fuel)
  define all where "all = post_listing (E, f, w)"
  define tok where "tok = post_value_token (E, f, w)"
  define val where "val = post_value E (sources (committed w))"
  have E: "ext_laws E" using Suc.prems(1) by (simp add: post_paging_ok_def)
  have size: "nat (lpf_PageSize f) = 500" by (simp add: f window_filter_def)
  have win: "window_filter sourceID start end t = f\<lparr>lpf_PageToken := t\<rparr>" by (simp add: f window_filter_def)
  have "t = [] \<or> (\<exists>c. decodePageToken E t = Inr c)"
    using Suc.prems(2) E by (auto simp: post_value_token_def decode_encode_token)
  from post_repo_List_fault_free [OF Suc.prems(1) this] obtain page w1 where
    list: "post_repo_List E (f\<lparr>lpf_PageToken := t\<rparr>) w = (Inr page, w1)"
    and pg: "post_page (E, f, w) t = (Items page, NextPageToken page)"
    and w1: "fault_free w1" "committed w1 = committed w" by blast
  have pf: "(Items page, NextPageToken page) = page_from (map val all) tok 500 i"
    using post_page_from [OF Suc.prems(1,2)] pg by (simp add: all_def tok_def val_def size)
  have items: "map post_Text (Items page) = map p_text (take 500 (drop i all))"
    using pf by (simp add: page_from_def val_def take_map drop_map comp_def)
  have nxt: "NextPageToken page = (if i + 500 < length all then tok (val (all ! (i + 499))) else [])"
    using pf by (simp add: page_from_def add.commute)
  obtain acc' tot' over where tp: "take_pieces m acc tot (map p_text (take 500 (drop i all))) = (acc', tot', over)"
    by (cases "take_pieces m acc tot (map p_text (take 500 (drop i all)))")
  have split: "map p_text (drop i all) = map p_text (take 500 (drop i all)) @ map p_text (drop (i + 500) all)"
    by (metis append_take_drop_id drop_drop map_append add.commute)
  have step: "collect_pages E sourceID start end m (Suc fuel) t acc tot w =
      (if over \<or> NextPageToken page = [] then Some (Inr acc', w1)
       else collect_pages E sourceID start end m fuel (NextPageToken page) acc' tot' w1)"
    by (simp add: win list items tp)
  show ?case
  proof (cases "over \<or> NextPageToken page = []")
    case True
    have "fst (take_pieces m acc tot (map p_text (drop i all))) = acc'"
    proof (cases over)
      case False
      then have "\<not> i + 500 < length all" using True nxt by (auto simp: tok_def post_value_token_def split: if_splits)
      then show ?thesis using tp False unfolding split by (simp add: take_pieces_append)
    qed (use tp in \<open>simp add: split take_pieces_append\<close>)
    then show ?thesis using True step w1 by (simp add: all_def [symmetric])
  next
    case False
    then have lt: "i + 500 < length all" and nextp: "NextPageToken page = tok (val (all ! (i + 499)))"
      using nxt by (auto split: if_splits)
    have ok1: "post_paging_ok (E, f, w1)" using Suc.prems(1) w1 by (simp add: post_paging_ok_def)
    have l1: "post_listing (E, f, w1) = all" using same_listing [OF w1(2)] by (simp add: all_def)
    have "\<exists>w'. collect_pages E sourceID start end m fuel (NextPageToken page) acc' tot' w1 =
        Some (Inr (fst (take_pieces m acc' tot' (map p_text (drop (i + 500) (post_listing (E, f, w1)))))), w') \<and>
        fault_free w' \<and> committed w' = committed w1"
    proof (rule Suc.IH [OF ok1])
      show "NextPageToken page = [] \<and> i + 500 = 0 \<or> (\<exists>j < length (post_listing (E, f, w1)).
          NextPageToken page = post_value_token (E, f, w1) (post_value E (sources (committed w1)) (post_listing (E, f, w1) ! j)) \<and>
          i + 500 = Suc j)"
        using lt nextp w1(2) unfolding l1
        by (intro disjI2 exI [of _ "i + 499"]) (simp add: tok_def val_def post_value_token_def)
      show "length (post_listing (E, f, w1)) - (i + 500) < fuel"
        using Suc.prems(3) lt unfolding l1 all_def [symmetric] by linarith
    qed
    moreover have "take_pieces m acc tot (map p_text (drop i all)) =
        take_pieces m acc' tot' (map p_text (drop (i + 500) all))"
      using tp False unfolding split by (simp add: take_pieces_append)
    ultimately show ?thesis using False step w1 l1 by (simp add: all_def [symmetric])
  qed
qed simp

text \<open>The posts of a source created in a window, the newest first.\<close>

definition window_posts :: "uuid \<Rightarrow> time \<Rightarrow> time \<Rightarrow> database \<Rightarrow> post_row list" where
  "window_posts sid start end d =
     rev (sort_key (post_cursor SortByCreatedAt)
       (filter (\<lambda>p. p_source_id p = sid \<and> start \<le> p_created_at p \<and> p_created_at p < end) (posts d)))"

lemma collectWindowPosts_fault_free:
  assumes "ext_laws E" and "fault_free w" and "parse_uuid E sourceID = Some sid" and "sourceID \<noteq> []"
    and "distinct (map p_id (posts (committed w)))" and "posts_have_sources (committed w)"
    and "length (posts (committed w)) < fuel"
  shows "\<exists>w'. collectWindowPosts E sourceID start end m fuel w =
    Some (Inr (concat (fst (take_pieces m [] 0 (map p_text (window_posts sid start end (committed w)))))), w') \<and>
    fault_free w' \<and> committed w' = committed w"
proof -
  define f where "f = window_filter sourceID start end []"
  have ok: "post_paging_ok (E, f, w)"
    using assms by (simp add: post_paging_ok_def f_def window_filter_def)
  have m: "post_matches (filter_source E f) f = (\<lambda>p. p_source_id p = sid \<and> start \<le> p_created_at p \<and> p_created_at p < end)"
    using assms(3,4) by (simp add: fun_eq_iff post_matches_def filter_source_def f_def window_filter_def)
  have all: "post_listing (E, f, w) = window_posts sid start end (committed w)"
    unfolding post_listing_def prod.case m
    by (simp add: getSortParams_def f_def window_filter_def window_posts_def keyset_rows_def after_cursor_def)
  have "length (post_listing (E, f, w)) - 0 < fuel"
    using le_less_trans [OF length_filter_le assms(7)] by (simp add: all window_posts_def)
  from collect_terminates [OF ok f_def, of "[]" 0 fuel m "[]" 0] this show ?thesis
    by (auto simp: all collectWindowPosts_def)
qed

text \<open>
  C28. The text of a digest: without faults the collection ends, and its text is made of the
  newest posts of the window whose pieces fit in the limit, in chronological order, as many
  as fit; when not even the newest fits, of that one cut on a rune boundary. The text never
  exceeds the limit, and it is empty only when the window has no post or the cut leaves
  nothing.
\<close>

theorem collectWindowPosts_newest_that_fit:
  assumes "ext_laws E" and "fault_free w" and "parse_uuid E sourceID = Some sid" and "sourceID \<noteq> []"
    and "distinct (map p_id (posts (committed w)))" and "posts_have_sources (committed w)"
    and "length (posts (committed w)) < fuel"
  shows "\<exists>t w'. collectWindowPosts E sourceID start end m fuel w = Some (Inr t, w') \<and>
    digest_text m (map p_text (window_posts sid start end (committed w))) t \<and> length t \<le> m \<and>
    fault_free w' \<and> committed w' = committed w"
proof -
  define t where "t = concat (fst (take_pieces m [] 0 (map p_text (window_posts sid start end (committed w)))))"
  have d: "digest_text m (map p_text (window_posts sid start end (committed w))) t"
    unfolding t_def by (rule take_pieces_digest)
  then have "length t \<le> m" using truncateUTF8_prefix(2) by (auto simp: digest_text_def)
  then show ?thesis
    using collectWindowPosts_fault_free [OF assms, of start "end" m] d by (auto simp: t_def [symmetric])
qed

theorem collectWindowPosts_newest_that_fit_witness:
  "\<exists>t w'. collectWindowPosts decimal_ext ''9'' 0 100 8 3
      (quiet_world (empty_db\<lparr>sources := [sample_source 9 SourceTypeTelegramGroup],
         posts := [listed_post 1 10, listed_post 2 20]\<rparr>)) = Some (Inr t, w') \<and>
    digest_text 8 (map p_text (window_posts 9 0 100 (committed
      (quiet_world (empty_db\<lparr>sources := [sample_source 9 SourceTypeTelegramGroup],
         posts := [listed_post 1 10, listed_post 2 20]\<rparr>))))) t \<and> length t \<le> 8 \<and>
    fault_free w' \<and> committed w' = committed
      (quiet_world (empty_db\<lparr>sources := [sample_source 9 SourceTypeTelegramGroup],
         posts := [listed_post 1 10, listed_post 2 20]\<rparr>))"
proof -
  have nine: "parse_uuid decimal_ext ''9'' = Some 9" by code_simp
  show ?thesis
    by (rule collectWindowPosts_newest_that_fit [OF _ _ nine])
      (simp_all add: fault_free_def listed_post_def sample_post_def posts_have_sources_def source_ids_def sample_source_def)
qed

end
