(* ===== verification/Tx_Base.thy ===== *)
theory Tx_Base
  imports Repo_Base
begin

text \<open>
  Reasoning about the body of a transaction: what one statement does to the working copy,
  which programs are confined to the transaction, and what \<open>InTx\<close> leaves behind in terms of
  its body, whatever statement, commit or rollback fails.
\<close>

lemma filter_one: "filter P xs = [x] \<Longrightarrow> x \<in> set xs \<and> P x \<and> (\<forall>y \<in> set xs. P y \<longrightarrow> y = x)"
proof -
  assume "filter P xs = [x]"
  then have "set (filter P xs) = {x}" by simp
  then show ?thesis by auto
qed

lemma filter_key_one:
  "distinct (map k xs) \<Longrightarrow> x \<in> set xs \<Longrightarrow> filter (\<lambda>y. k y = k x) xs = [x]"
  by (induction xs) (auto simp: filter_empty_conv image_iff)

section \<open>One statement inside a transaction\<close>

lemma exec_tx_inside:
  assumes "open_tx w = Some t" and "exec_tx s w = (r, w')"
  shows "committed w' = committed w"
    and "r = Inr x \<Longrightarrow> \<exists>d. \<not> tx_aborted t \<and> s (tx_started t) (tx_working t) = Inr (x, d) \<and>
      open_tx w' = Some (t\<lparr>tx_working := d\<rparr>)"
    and "r = Inl e \<Longrightarrow> \<exists>t'. open_tx w' = Some t' \<and> tx_aborted t'"
  using assms
  by (auto simp: exec_tx_def take_fault_def in_transaction_def Let_def
      split: if_splits fault.splits sum.splits)

lemma exec_tx_inside_select:
  assumes "open_tx w = Some t" and "exec_tx (select q) w = (Inr x, w')"
  shows "\<not> tx_aborted t" "x = q (tx_started t) (tx_working t)" "open_tx w' = Some t"
    "committed w' = committed w"
  using exec_tx_inside(1) [OF assms] exec_tx_inside(2) [OF assms refl]
  by (auto simp: select_def)

section \<open>Confined programs\<close>

lemma confined_case [intro]:
  assumes "confined f" and "\<And>e. confined (g e)" and "\<And>x. confined (h x)"
  shows "confined (\<lambda>w. case f w of (Inl e, w1) \<Rightarrow> g e w1 | (Inr x, w1) \<Rightarrow> h x w1)"
proof -
  have "confined (\<lambda>w. case f w of (r, w1) \<Rightarrow> (case r of Inl e \<Rightarrow> g e w1 | Inr x \<Rightarrow> h x w1))"
  proof (rule confined_bind [OF assms(1)])
    show "confined (\<lambda>w1. case r of Inl e \<Rightarrow> g e w1 | Inr x \<Rightarrow> h x w1)" for r
      using assms(2,3) by (cases r) simp_all
  qed
  then show ?thesis .
qed

lemma confined_let [intro]:
  "confined f \<Longrightarrow> (\<And>x. confined (g x)) \<Longrightarrow> confined (\<lambda>w. let (x, w1) = f w in g x w1)"
  unfolding Let_def by (rule confined_bind)

lemma confined_if [intro]: "confined f \<Longrightarrow> confined g \<Longrightarrow> confined (\<lambda>w. if c then f w else g w)"
  by (cases c) simp_all

lemma confined_case_sum [intro]:
  "(\<And>e. confined (g e)) \<Longrightarrow> (\<And>x. confined (h x)) \<Longrightarrow>
   confined (\<lambda>w. case s of Inl e \<Rightarrow> g e w | Inr x \<Rightarrow> h x w)"
  by (cases s) simp_all

lemma confined_case_option [intro]:
  "confined g \<Longrightarrow> (\<And>x. confined (h x)) \<Longrightarrow>
   confined (\<lambda>w. case s of None \<Rightarrow> g w | Some x \<Rightarrow> h x w)"
  by (cases s) simp_all

lemma confined_case_list [intro]:
  "confined g \<Longrightarrow> (\<And>x xs. confined (h x xs)) \<Longrightarrow>
   confined (\<lambda>w. case s of [] \<Rightarrow> g w | x # xs \<Rightarrow> h x xs w)"
  by (cases s) simp_all

lemma confined_case_prod [intro]:
  "(\<And>x y. confined (h x y)) \<Longrightarrow> confined (\<lambda>w. case s of (x, y) \<Rightarrow> h x y w)"
  by (cases s) simp

section \<open>What a transaction leaves behind\<close>

text \<open>
  Whatever fails: nothing, or a state that the body reached with success from a copy of the
  committed state. A reported success is the second.
\<close>

lemma InTx_rule:
  assumes conf: "confined fn"
    and body: "\<And>w1 t x w2 t2. open_tx w1 = Some t \<Longrightarrow> committed w1 = committed w \<Longrightarrow>
      tx_working t = committed w \<Longrightarrow> \<not> tx_aborted t \<Longrightarrow> fn w1 = (Inr x, w2) \<Longrightarrow>
      open_tx w2 = Some t2 \<Longrightarrow> \<not> tx_aborted t2 \<Longrightarrow> P x (tx_working t2)"
  shows "(committed (snd (InTx fn w)) = committed w \<and> (\<forall>x. fst (InTx fn w) \<noteq> Inr x)) \<or>
    (\<exists>x. P x (committed (snd (InTx fn w))) \<and> (\<forall>y. fst (InTx fn w) = Inr y \<longrightarrow> y = x))"
proof -
  have reached: "P x (tx_working t2)"
    if "tx_body_result fn w = Some (Inr x, t2)" and "\<not> tx_aborted t2" for x t2
  proof -
    from that(1) obtain u w1 w2 where b: "begin_tx w = (Inr u, w1)" and f: "fn w1 = (Inr x, w2)"
      and o: "open_tx w2 = Some t2"
      by (auto simp: tx_body_result_def split: prod.splits sum.splits)
    from b obtain t where "open_tx w1 = Some t" "committed w1 = committed w"
      "tx_working t = committed w" "\<not> tx_aborted t"
      by (auto simp: begin_tx_def take_fault_def time_now_def Let_def split: fault.splits)
    from body [OF this f o that(2)] show ?thesis .
  qed
  note e = InTx_effect [OF conf, of w]
  show ?thesis
  proof (cases "fst (InTx fn w)")
    case (Inl err)
    then show ?thesis using e(1) reached by fastforce
  next
    case (Inr y)
    then show ?thesis using e(2) [OF Inr] reached by fastforce
  qed
qed

lemma commit_tx_closes: "open_tx (snd (commit_tx w)) = None"
  by (simp add: commit_tx_def take_fault_def Let_def split: option.split fault.split)

lemma rollback_tx_closes: "open_tx (snd (rollback_tx w)) = None"
  by (simp add: rollback_tx_def take_fault_def Let_def split: fault.split)

lemma InTx_closes:
  assumes "open_tx w = None" shows "open_tx (snd (InTx fn w)) = None"
proof -
  obtain b w1 where b: "begin_tx w = (b, w1)" by (cases "begin_tx w")
  obtain r w2 where f: "fn w1 = (r, w2)" by (cases "fn w1")
  obtain c w3 where c: "commit_tx w2 = (c, w3)" by (cases "commit_tx w2")
  obtain k w4 where k: "rollback_tx w2 = (k, w4)" by (cases "rollback_tx w2")
  have "open_tx w3 = None" "open_tx w4 = None"
    using commit_tx_closes [of w2] rollback_tx_closes [of w2] c k by simp_all
  moreover have "b = Inl e \<Longrightarrow> open_tx w1 = None" for e
    using b assms by (auto simp: begin_tx_def take_fault_def time_now_def Let_def split: fault.splits)
  ultimately show ?thesis
    by (auto simp: InTx_def b f c k split: sum.split)
qed

section \<open>Transactions without faults\<close>

definition ready :: "transaction \<Rightarrow> world \<Rightarrow> bool" where
  "ready t w \<longleftrightarrow> open_tx w = Some t \<and> \<not> tx_aborted t \<and> (\<forall>n. faults w n = Healthy)"

lemma ready_stmt:
  assumes "ready t w" and "s (tx_started t) (tx_working t) = Inr (x, d)"
  shows "\<exists>w'. exec_tx s w = (Inr x, w') \<and> ready (t\<lparr>tx_working := d\<rparr>) w' \<and>
    clock w' = clock w \<and> fresh_ids w' = fresh_ids w"
  using assms
  by (auto simp: ready_def exec_tx_def take_fault_def in_transaction_def Let_def)

lemma ready_select:
  assumes "ready t w"
  shows "\<exists>w'. exec_tx (select q) w = (Inr (q (tx_started t) (tx_working t)), w') \<and> ready t w' \<and>
    clock w' = clock w \<and> fresh_ids w' = fresh_ids w"
  using ready_stmt [OF assms, of "select q"] by (simp add: select_def)

lemma ready_clock [simp]: "ready t (w\<lparr>clock := c\<rparr>) = ready t w"
  by (simp add: ready_def)

lemma ready_fresh_ids [simp]: "ready t (w\<lparr>fresh_ids := c\<rparr>) = ready t w"
  by (simp add: ready_def)

lemma InTx_healthy_effect:
  assumes "fault_free w"
    and "\<And>w1 t. ready t w1 \<Longrightarrow> tx_working t = committed w \<Longrightarrow> fresh_ids w1 = fresh_ids w \<Longrightarrow>
      clock w1 = advance (clock w) \<Longrightarrow>
      \<exists>x w2 t2. fn w1 = (Inr x, w2) \<and> ready t2 w2 \<and> Q x (tx_working t2) (fresh_ids w2) (clock w2)"
  shows "\<exists>x w'. InTx fn w = (Inr x, w') \<and> fault_free w' \<and> Q x (committed w') (fresh_ids w') (clock w')"
proof -
  define w1 where "w1 = w\<lparr>faults := advance (faults w), clock := advance (clock w),
    open_tx := Some \<lparr>tx_started = clock w 0, tx_working = committed w, tx_aborted = False\<rparr>\<rparr>"
  have b: "begin_tx w = (Inr (), w1)"
    using assms(1) by (simp add: begin_tx_def take_fault_def time_now_def fault_free_def w1_def)
  obtain x w2 t2 where f: "fn w1 = (Inr x, w2)" "ready t2 w2" "Q x (tx_working t2) (fresh_ids w2) (clock w2)"
    using assms(2) [of "\<lparr>tx_started = clock w 0, tx_working = committed w, tx_aborted = False\<rparr>" w1] assms(1)
    by (auto simp: ready_def w1_def fault_free_def)
  show ?thesis
    using b f by (auto simp: InTx_def commit_tx_def take_fault_def ready_def fault_free_def)
qed

end
