(* ===== verification/Summary_Repo.thy ===== *)
theory Summary_Repo
  imports Tx_Base
begin

text \<open>
  \<open>internal/data/summary_repo.go\<close>: storage of summaries, on the transaction of the context
  when there is one. Rows with equal creation times, whose order \<open>ORDER BY created_at DESC\<close>
  leaves open, are ordered by their place in the table, the later first.
\<close>

definition summary_to_domain :: "ext \<Rightarrow> summary_row \<Rightarrow> Summary" where
  "summary_to_domain E r =
     \<lparr>sum_ID = uuid_string E (m_id r), sum_PostID = map_option (uuid_string E) (m_post_id r),
      sum_SourceID = uuid_string E (m_source_id r), sum_Text = m_text r,
      sum_WordCount = m_word_count r, sum_CreatedAt = m_created_at r\<rparr>"

definition summary_row_of :: "uuid \<Rightarrow> uuid \<Rightarrow> uuid option \<Rightarrow> Summary \<Rightarrow> summary_row" where
  "summary_row_of i s p v =
     \<lparr>m_id = i, m_post_id = p, m_source_id = s, m_text = sum_Text v,
      m_word_count = sum_WordCount v, m_created_at = sum_CreatedAt v\<rparr>"

definition summary_repo_Save :: "ext \<Rightarrow> Summary \<Rightarrow> world \<Rightarrow> Summary result \<times> world" where
  "summary_repo_Save E v w =
     (case parse_id E ''invalid summary id'' (sum_ID v) of
        Inl e \<Rightarrow> (Inl e, w)
      | Inr i \<Rightarrow>
     (case parse_id E ''invalid source id'' (sum_SourceID v) of
        Inl e \<Rightarrow> (Inl e, w)
      | Inr s \<Rightarrow>
     (case parse_opt_id E ''invalid post id'' (sum_PostID v) of
        Inl e \<Rightarrow> (Inl e, w)
      | Inr p \<Rightarrow>
     (let row = summary_row_of i s p v in
      case exec_tx (write_stmt (insert_summary row)) w of
        (Inl e, w) \<Rightarrow> (Inl (errorf_ctx ''save summary'' (ent_constraint e)), w)
      | (Inr _, w) \<Rightarrow> (Inr (summary_to_domain E row), w)))))"

definition summary_repo_Get :: "ext \<Rightarrow> string \<Rightarrow> world \<Rightarrow> Summary result \<times> world" where
  "summary_repo_Get E ident w =
     (case parse_id E ''invalid summary id'' ident of
        Inl e \<Rightarrow> (Inl e, w)
      | Inr uid \<Rightarrow>
          (case exec_tx (select (\<lambda>_ d. filter (\<lambda>r. m_id r = uid) (summaries d))) w of
             (Inl e, w) \<Rightarrow> (Inl (errorf_ctx ''get summary'' e), w)
           | (Inr rows, w) \<Rightarrow>
               (case ent_only ''summary'' rows of
                  Inl e \<Rightarrow> (if ent_is_not_found e then (Inl (Sentinel ErrSummaryNotFound), w)
                            else (Inl (errorf_ctx ''get summary'' e), w))
                | Inr r \<Rightarrow> (Inr (summary_to_domain E r), w))))"

definition newest_first :: "summary_row list \<Rightarrow> summary_row list" where
  "newest_first rows = rev (sort_key m_created_at rows)"

definition summary_repo_ListByPost :: "ext \<Rightarrow> string \<Rightarrow> world \<Rightarrow> Summary list result \<times> world" where
  "summary_repo_ListByPost E postID w =
     (case parse_id E ''invalid post id'' postID of
        Inl e \<Rightarrow> (Inl e, w)
      | Inr uid \<Rightarrow>
          (case exec_tx (select (\<lambda>_ d. newest_first (filter (\<lambda>r. m_post_id r = Some uid) (summaries d)))) w of
             (Inl e, w) \<Rightarrow> (Inl (errorf_ctx ''list summaries by post'' e), w)
           | (Inr rows, w) \<Rightarrow> (Inr (map (summary_to_domain E) rows), w)))"

definition summary_repo_GetLastBySource :: "ext \<Rightarrow> string \<Rightarrow> world \<Rightarrow> Summary option result \<times> world" where
  "summary_repo_GetLastBySource E sourceID w =
     (case parse_id E ''invalid source id'' sourceID of
        Inl e \<Rightarrow> (Inl e, w)
      | Inr uid \<Rightarrow>
          (case exec_tx (select (\<lambda>_ d. take 1 (newest_first (filter (\<lambda>r. m_source_id r = uid) (summaries d))))) w of
             (Inl e, w) \<Rightarrow> (Inl (errorf_ctx ''get last summary by source'' e), w)
           | (Inr rows, w) \<Rightarrow>
               (case ent_first ''summary'' rows of
                  Inl e \<Rightarrow> (if ent_is_not_found e then (Inr None, w)
                            else (Inl (errorf_ctx ''get last summary by source'' e), w))
                | Inr r \<Rightarrow> (Inr (Some (summary_to_domain E r)), w))))"

section \<open>The listing of a source\<close>

definition summary_cursor :: "summary_row \<Rightarrow> cursor" where
  "summary_cursor r = Cursor (m_created_at r) (m_id r)"

text \<open>
  \<open>Limit(n)\<close> of the generated client: 0 is no limit, and the server refuses a negative one.
\<close>

definition ent_limit :: "int \<Rightarrow> 'a list \<Rightarrow> error + 'a list" where
  "ent_limit n rows =
     (if n = 0 then Inr rows
      else if n < 0 then Inl (Pq ''2201W'' ''LIMIT must not be negative'')
      else Inr (take (nat n) rows))"

text \<open>
  The page size is used as it comes. Indexing the last returned row panics when no row is
  returned although there are rows: \<open>entSummaries[returnCount-1]\<close> with \<open>returnCount = 0\<close>.
\<close>

definition summary_repo_ListBySource ::
  "ext \<Rightarrow> string \<Rightarrow> int \<Rightarrow> string \<Rightarrow> world \<Rightarrow> Summary page result outcome \<times> world" where
  "summary_repo_ListBySource E sourceID pageSize pageToken w =
     (case parse_id E ''invalid source id'' sourceID of
        Inl e \<Rightarrow> (Returns (Inl e), w)
      | Inr uid \<Rightarrow>
     (case (if pageToken = [] then Inr None
            else map_sum (errorf_ctx ''invalid page token'') Some (decodePageToken E pageToken)) of
        Inl e \<Rightarrow> (Returns (Inl e), w)
      | Inr token \<Rightarrow>
     (case exec_tx (\<lambda>_ d. map_sum id (\<lambda>rows. (rows, d)) (ent_limit (pageSize + 1)
             (keyset_rows True summary_cursor token (filter (\<lambda>r. m_source_id r = uid) (summaries d))))) w of
        (Inl e, w) \<Rightarrow> (Returns (Inl (errorf_ctx ''list summaries by source'' e)), w)
      | (Inr rows, w) \<Rightarrow>
          (let returnCount = min (int (length rows)) pageSize in
           if int (length rows) > pageSize then
             (if returnCount - 1 < 0
              then (Panics (''runtime error: index out of range ['' @ itoa (returnCount - 1) @ '']''), w)
              else let last = rows ! nat (returnCount - 1) in
                (Returns (Inr \<lparr>Items = map (summary_to_domain E) (take (nat returnCount) rows),
                               NextPageToken = encodePageToken E (m_created_at last) (m_id last)\<rparr>), w))
           else (Returns (Inr \<lparr>Items = map (summary_to_domain E) (take (nat returnCount) rows),
                               NextPageToken = []\<rparr>), w)))))"

text \<open>
  The listing of a source's summaries crashes on an unset page size: with a page size of
  zero and at least one summary of the source, no fault at all, the call panics with an index
  out of range.
\<close>

lemma ListBySource_zero_page_panics:
  assumes "fault_free w" and "parse_uuid E sourceID = Some uid"
    and "r \<in> set (summaries (committed w))" and "m_source_id r = uid"
  shows "fst (summary_repo_ListBySource E sourceID 0 [] w) =
    Panics ''runtime error: index out of range [-1]''"
proof -
  define rows where "rows = keyset_rows True summary_cursor None
    (filter (\<lambda>r. m_source_id r = uid) (summaries (committed w)))"
  have "r \<in> set rows" using assms(3,4) by (simp add: rows_def)
  then have ne: "rows \<noteq> []" by auto
  have x: "exec_tx (\<lambda>_ d. map_sum id (\<lambda>rows. (rows, d)) (ent_limit (0 + 1)
      (keyset_rows True summary_cursor None (filter (\<lambda>r. m_source_id r = uid) (summaries d))))) w =
    (Inr (take 1 rows), after_read w)"
    using assms(1)
    by (subst exec_tx_outside_fault_free) (simp_all add: fault_free_def ent_limit_def after_read_def rows_def)
  have l: "int (length (take 1 rows)) = 1" using ne by (cases rows) simp_all
  have i: "itoa (- 1) = ''-1''" by code_simp
  show ?thesis
    unfolding summary_repo_ListBySource_def parse_id_def assms(2) option.case sum.case if_True simp_thms x prod.case l
    by (simp add: i Let_def)
qed

lemma ListBySource_zero_page_panics_example:
  "fst (summary_repo_ListBySource decimal_ext ''9'' 0 [] (quiet_world (empty_db\<lparr>summaries :=
      [\<lparr>m_id = 1, m_post_id = None, m_source_id = 9, m_text = ''t'', m_word_count = 1, m_created_at = 0\<rparr>]\<rparr>))) =
   Panics ''runtime error: index out of range [-1]''"
proof -
  have nine: "parse_uuid decimal_ext ''9'' = Some 9" by code_simp
  show ?thesis
    by (rule ListBySource_zero_page_panics [OF _ nine, where r = "\<lparr>m_id = 1, m_post_id = None,
        m_source_id = 9, m_text = ''t'', m_word_count = 1, m_created_at = 0\<rparr>"]) (simp_all add: fault_free_def)
qed

end
