(* ===== verification/Retry.thy ===== *)
theory Retry
  imports Domain
begin

text \<open>
  \<open>internal/biz/summary_retry.go\<close>: the retry policy of both worker pools. Durations are
  64-bit words, so that the doubling in \<open>CalculateBackoff\<close> wraps as it does in Go; the lemmas
  give its closed form \<open>min (base * 2 ^ (attempt - 1)) max\<close>, with bounds and monotonicity.
\<close>

record RetryPolicy =
  MaxAttempts :: int
  BackoffBase :: duration
  BackoffMax :: duration

definition backoffGrowthFactor :: duration where "backoffGrowthFactor = 2"

text \<open>The loop \<open>for i := 1; i < attempt; i++\<close> with \<open>k = attempt - i\<close> turns left.\<close>

fun backoff_loop :: "duration \<Rightarrow> nat \<Rightarrow> duration \<Rightarrow> duration + duration" where
  "backoff_loop mx 0 d = Inr d"
| "backoff_loop mx (Suc k) d =
     (let next = d * backoffGrowthFactor
      in if next <s d \<or> mx <s next then Inl mx else backoff_loop mx k next)"

definition CalculateBackoff :: "RetryPolicy \<Rightarrow> int \<Rightarrow> duration" where
  "CalculateBackoff p attempt =
     (if attempt \<le> 0 then BackoffBase p
      else case backoff_loop (BackoffMax p) (nat (attempt - 1)) (BackoffBase p) of
             Inl d \<Rightarrow> d
           | Inr d \<Rightarrow> if BackoffMax p <s d then BackoffMax p else d)"

fun IsTransientError :: "error option \<Rightarrow> bool" where
  "IsTransientError None = False"
| "IsTransientError (Some e) =
     (if errors_is e ContextCanceled \<or> errors_is e ContextDeadlineExceeded then False
      else if errors_is e ErrSummaryValidation \<or> errors_is e ErrSummarizeSelfContainedSrc \<or>
              errors_is e ErrPostNotFound \<or> errors_is e ErrSourceNotFound then False
      else True)"

definition ShouldRetry :: "RetryPolicy \<Rightarrow> error option \<Rightarrow> int \<Rightarrow> bool" where
  "ShouldRetry p err attempt =
     (if err = None then False
      else if \<not> IsTransientError err then False
      else attempt < MaxAttempts p)"

fun IsTransientScoreError :: "error option \<Rightarrow> bool" where
  "IsTransientScoreError None = False"
| "IsTransientScoreError (Some e) =
     (if errors_is e ContextCanceled \<or> errors_is e ContextDeadlineExceeded then False
      else if errors_is e ErrScoreValidation then False
      else True)"

section \<open>The closed form of the backoff\<close>

lemma sint_bounds64: "- (2 ^ 63) \<le> sint (d :: 64 word)" "sint (d :: 64 word) < 2 ^ 63"
  using sint_greater_eq [of d] sint_less [of d] by simp_all

text \<open>One doubling: the guard is true exactly when the exact product passes the cap.\<close>

lemma sint_double:
  fixes d :: duration
  assumes "0 \<le> sint d"
  shows "sint (d * 2) = (if 2 * sint d < 2 ^ 63 then 2 * sint d else 2 * sint d - 2 ^ 64)"
proof -
  have "sint (d * 2) = (sint d * 2 + 2 ^ 63) mod 2 ^ 64 - 2 ^ 63"
    by (simp add: sint_word_ariths signed_take_bit_eq_take_bit_shift take_bit_eq_mod)
  moreover have "sint d < 2 ^ 63" by (rule sint_bounds64)
  moreover have "x mod (2 ^ 64) = x - 2 ^ 64" if "2 ^ 64 \<le> x" "x < 2 ^ 65" for x :: int
  proof -
    have "x mod (2 ^ 64) = (x - 2 ^ 64) mod 2 ^ 64" by simp
    also have "\<dots> = x - 2 ^ 64" using that by (intro mod_pos_pos_trivial) auto
    finally show ?thesis .
  qed
  from this [of "sint d * 2 + 2 ^ 63"] calculation assms show ?thesis
    by (cases "2 * sint d < 2 ^ 63") (auto simp: mod_pos_pos_trivial)
qed

lemma backoff_guard:
  fixes d mx :: duration
  assumes "0 < sint d" and "0 \<le> sint mx"
  shows "(d * 2 <s d \<or> mx <s d * 2) \<longleftrightarrow> sint mx < 2 * sint d"
  using assms sint_double [of d] sint_bounds64 [of mx] sint_bounds64 [of d]
  by (auto simp: word_sless_alt split: if_splits)

lemma backoff_loop_exact:
  assumes "0 < sint d" and "0 \<le> sint mx" and "sint d \<le> sint mx"
  shows "case backoff_loop mx k d of
           Inl r \<Rightarrow> r = mx \<and> sint mx < sint d * 2 ^ k
         | Inr r \<Rightarrow> sint r = sint d * 2 ^ k \<and> sint r \<le> sint mx"
  using assms
proof (induction k arbitrary: d)
  case (Suc k)
  show ?case
  proof (cases "sint mx < 2 * sint d")
    case True
    then have "backoff_loop mx (Suc k) d = Inl mx"
      using Suc.prems by (simp add: backoff_guard backoffGrowthFactor_def)
    moreover have "2 * sint d \<le> sint d * 2 ^ Suc k"
      using Suc.prems(1) by (simp add: mult_le_cancel_left1)
    ultimately show ?thesis using True by simp
  next
    case False
    have "2 * sint d < 2 ^ 63" using False sint_bounds64(2) [of mx] by linarith
    then have dbl: "sint (d * 2) = 2 * sint d" using Suc.prems(1) by (simp add: sint_double)
    then have "case backoff_loop mx k (d * 2) of
           Inl r \<Rightarrow> r = mx \<and> sint mx < sint (d * 2) * 2 ^ k
         | Inr r \<Rightarrow> sint r = sint (d * 2) * 2 ^ k \<and> sint r \<le> sint mx"
      using Suc.prems False by (intro Suc.IH) auto
    moreover have "backoff_loop mx (Suc k) d = backoff_loop mx k (d * 2)"
      using Suc.prems False by (simp add: backoff_guard backoffGrowthFactor_def)
    ultimately show ?thesis
      by (simp del: backoff_loop.simps add: dbl mult.assoc mult.left_commute split: sum.splits)
  qed
qed simp

lemma CalculateBackoff_value:
  assumes "0 < sint (BackoffBase p)" and "0 \<le> sint (BackoffMax p)" and "1 \<le> n"
  shows "sint (CalculateBackoff p n) =
           min (sint (BackoffBase p) * 2 ^ nat (n - 1)) (sint (BackoffMax p))"
proof (cases "sint (BackoffBase p) \<le> sint (BackoffMax p)")
  case True
  from backoff_loop_exact [OF assms(1,2) True, of "nat (n - 1)"] show ?thesis
    using assms(3)
    by (auto simp: CalculateBackoff_def word_sless_alt split: sum.splits)
next
  case False
  have "CalculateBackoff p n = BackoffMax p"
  proof (cases "nat (n - 1)")
    case 0
    then show ?thesis using False assms(3) by (simp add: CalculateBackoff_def word_sless_alt)
  next
    case (Suc k)
    have "sint (BackoffMax p) < 2 * sint (BackoffBase p)" using False assms(1) by linarith
    then show ?thesis
      using Suc assms by (simp add: CalculateBackoff_def backoffGrowthFactor_def backoff_guard)
  qed
  moreover have "sint (BackoffMax p) \<le> sint (BackoffBase p) * 2 ^ nat (n - 1)"
    using False assms(1)
    by (smt (verit) mult_le_cancel_left1 one_le_power)
  ultimately show ?thesis by simp
qed

text \<open>
  For a policy with a positive base and a non-negative cap, the backoff of attempt
  \<open>n \<ge> 1\<close> is exactly the smaller of \<open>base * 2 ^ (n - 1)\<close> and the cap, computed over the
  integers: no wrap-around of the 64-bit doubling is ever observed.
\<close>

lemma CalculateBackoff_closed_form:
  assumes "0 < sint (BackoffBase p)" and "0 \<le> sint (BackoffMax p)" and "1 \<le> n"
  shows "sint (CalculateBackoff p n) =
           min (sint (BackoffBase p) * 2 ^ nat (n - 1)) (sint (BackoffMax p))"
  using assms by (rule CalculateBackoff_value)

lemma CalculateBackoff_closed_form_example:
  "sint (CalculateBackoff \<lparr>MaxAttempts = 5, BackoffBase = 10, BackoffMax = 60\<rparr> 3) = 40"
  using CalculateBackoff_closed_form
    [of "\<lparr>MaxAttempts = 5, BackoffBase = 10, BackoffMax = 60\<rparr>" 3]
  by simp

lemma CalculateBackoff_nonneg:
  assumes "0 < sint (BackoffBase p)" and "0 < sint (BackoffMax p)"
  shows "0 < sint (CalculateBackoff p n)"
proof (cases "n \<le> 0")
  case True
  then show ?thesis using assms by (simp add: CalculateBackoff_def)
next
  case False
  then show ?thesis using assms by (simp add: CalculateBackoff_value)
qed

text \<open>
  C37. Attempts in order wait no shorter: from attempt 1 on the backoff is positive, never
  above the cap and never decreases; at attempt 0 and below (which the comment of
  \<open>CalculateBackoff\<close> does not cover) it is the base, even where the base is above the cap.
\<close>

theorem CalculateBackoff_monotone_capped:
  assumes "0 < sint (BackoffBase p)" and "0 < sint (BackoffMax p)" and "1 \<le> m" and "m \<le> n"
  shows "0 < sint (CalculateBackoff p m) \<and>
         sint (CalculateBackoff p m) \<le> sint (CalculateBackoff p n) \<and>
         sint (CalculateBackoff p n) \<le> sint (BackoffMax p) \<and>
         CalculateBackoff p 0 = BackoffBase p"
proof -
  have "(2::int) ^ nat (m - 1) \<le> 2 ^ nat (n - 1)"
    using assms(3,4) by (intro power_increasing) auto
  then have "sint (BackoffBase p) * 2 ^ nat (m - 1) \<le> sint (BackoffBase p) * 2 ^ nat (n - 1)"
    using assms(1) by (intro mult_left_mono) auto
  then have "min (sint (BackoffBase p) * 2 ^ nat (m - 1)) (sint (BackoffMax p)) \<le>
             min (sint (BackoffBase p) * 2 ^ nat (n - 1)) (sint (BackoffMax p))"
    by (rule min.mono) simp
  moreover have "sint (CalculateBackoff p m) =
      min (sint (BackoffBase p) * 2 ^ nat (m - 1)) (sint (BackoffMax p))"
    and "sint (CalculateBackoff p n) =
      min (sint (BackoffBase p) * 2 ^ nat (n - 1)) (sint (BackoffMax p))"
    using assms by (auto intro: CalculateBackoff_value)
  moreover have "CalculateBackoff p 0 = BackoffBase p" by (simp add: CalculateBackoff_def)
  moreover have "0 < sint (CalculateBackoff p m)" using assms(1,2) by (rule CalculateBackoff_nonneg)
  ultimately show ?thesis by linarith
qed

theorem CalculateBackoff_monotone_capped_witness:
  "sint (CalculateBackoff \<lparr>MaxAttempts = 5, BackoffBase = 90, BackoffMax = 60\<rparr> 4) \<le> 60 \<and>
   CalculateBackoff \<lparr>MaxAttempts = 5, BackoffBase = 90, BackoffMax = 60\<rparr> 0 = 90"
  using CalculateBackoff_monotone_capped
    [of "\<lparr>MaxAttempts = 5, BackoffBase = 90, BackoffMax = 60\<rparr>" 1 4]
  by simp

section \<open>Classification of errors\<close>

lemma ShouldRetry_iff:
  "ShouldRetry p (Some e) n \<longleftrightarrow> IsTransientError (Some e) \<and> n < MaxAttempts p"
  by (simp add: ShouldRetry_def)

lemma IsTransientError_errorf_ctx [simp]:
  "IsTransientError (Some (errorf_ctx c e)) = IsTransientError (Some e)"
  by simp

lemma IsTransientScoreError_errorf_ctx [simp]:
  "IsTransientScoreError (Some (errorf_ctx c e)) = IsTransientScoreError (Some e)"
  by simp

end
