(* ===== verification/LLM.thy ===== *)
theory LLM
  imports Retry Effects
begin

text \<open>
  The language-model side of summarization: the prompt resolver (\<open>biz/prompt/prompt.go\<close>), the
  router from processing modes to providers (\<open>data/llm_router.go\<close>), the two providers
  (\<open>data/llm_provider.go\<close>, \<open>data/anthropic_provider.go\<close>) and the embedding provider
  (\<open>data/embedding_provider.go\<close>) as functions of what the remote side answered, and the
  retry loop \<open>summarizeWithLLMRetry\<close> of \<open>biz/summary_usecase.go\<close>. The HTTP client, the JSON
  codec and the Anthropic SDK are outside: their outcomes are arguments.
\<close>

section \<open>Prompts\<close>

type_synonym prompt_bodies = "(ProcessingMode \<times> string) list"

definition prompt_For :: "prompt_bodies \<Rightarrow> ProcessingMode \<Rightarrow> string result" where
  "prompt_For bodies mode =
     (case map_of bodies mode of
        None \<Rightarrow> Inl (Sentinel ErrUnknownSummaryPromptMode)
      | Some body \<Rightarrow> Inr body)"

fun validate_modes :: "prompt_bodies \<Rightarrow> ProcessingMode list \<Rightarrow> error option" where
  "validate_modes bodies [] = None"
| "validate_modes bodies (m # ms) =
     (case map_of bodies m of
        None \<Rightarrow> Some (Text (''missing prompt for mode '' @ quote (processing_mode_text m)))
      | Some body \<Rightarrow>
          (if trim_space body = []
           then Some (Text (''empty prompt body for mode '' @ quote (processing_mode_text m)))
           else validate_modes bodies ms))"

definition prompt_validate :: "prompt_bodies \<Rightarrow> error option" where
  "prompt_validate bodies =
     (case validate_modes bodies AllProcessingModes of
        Some e \<Rightarrow> Some e
      | None \<Rightarrow>
          (if length bodies \<noteq> length AllProcessingModes
           then Some (Text ''resolver bodies do not match biz.AllProcessingModes()'') else None))"

text \<open>\<open>NewResolver\<close> on the two embedded texts.\<close>

definition NewResolver :: "string \<Rightarrow> string \<Rightarrow> prompt_bodies outcome" where
  "NewResolver selfContainedBody cumulativeBody =
     (let bodies = [(ProcessingModeSelfContained, selfContainedBody),
                    (ProcessingModeCumulative, cumulativeBody)]
      in case prompt_validate bodies of
           Some e \<Rightarrow> Panics (''prompt.NewResolver: '' @ error_text e)
         | None \<Rightarrow> Returns bodies)"

section \<open>Providers\<close>

record ProviderConf =
  pc_Protocol :: string
  pc_BaseUrl :: string
  pc_Model :: string
  pc_ApiKey :: string
  pc_Effort :: string
  pc_MaxTokens :: int

datatype LLMClient =
    OpenRouterClient (client_conf: ProviderConf) (client_timeout: duration)
  | AnthropicClient (client_conf: ProviderConf) (client_timeout: duration) (client_max_tokens: int)

definition defaultAnthropicMaxTokens :: int where
  "defaultAnthropicMaxTokens = 16000"

definition newAnthropicProvider :: "ProviderConf \<Rightarrow> duration \<Rightarrow> error + LLMClient" where
  "newAnthropicProvider cfg timeout =
     (if pc_Model cfg = [] then Inl (Text ''anthropic provider: model is required'')
      else if pc_Effort cfg \<notin> {[], ''low'', ''medium'', ''high'', ''xhigh'', ''max''}
      then Inl (Text (''anthropic provider: unknown effort '' @ quote (pc_Effort cfg)))
      else Inr (AnthropicClient cfg timeout
                  (if pc_MaxTokens cfg \<le> 0 then defaultAnthropicMaxTokens else pc_MaxTokens cfg)))"

definition newLLMProvider :: "ProviderConf \<Rightarrow> duration \<Rightarrow> error + LLMClient" where
  "newLLMProvider cfg timeout =
     (if pc_Protocol cfg = [] \<or> pc_Protocol cfg = ''openai''
      then Inr (OpenRouterClient cfg timeout)
      else if pc_Protocol cfg = ''anthropic'' then newAnthropicProvider cfg timeout
      else Inl (Text (''unknown protocol '' @ quote (pc_Protocol cfg) @ '' (want '' @ quote ''openai'' @
                      '' or '' @ quote ''anthropic'' @ '')'')))"

text \<open>
  What an HTTP request came to: no response (with whether the deadline of the request had
  passed), a response whose body cannot be read, or a status with a body.
\<close>

datatype http_outcome =
    NoResponse error bool
  | UnreadableBody error
  | Response int string

definition timed_out :: error where
  "timed_out = Sentinel ContextDeadlineExceeded"

definition openrouter_Summarize ::
  "(string \<Rightarrow> error + string list) \<Rightarrow> http_outcome \<Rightarrow> string \<Rightarrow> string \<Rightarrow> string result" where
  "openrouter_Summarize decode http systemPrompt text =
     (if systemPrompt = [] then Inl (Text ''empty system prompt'')
      else case http of
        NoResponse e deadline \<Rightarrow>
          Inl (if deadline then errorf_ctx ''llm request timeout'' timed_out
               else errorf_ctx ''llm request'' e)
      | UnreadableBody e \<Rightarrow> Inl (errorf_ctx ''read response'' e)
      | Response status body \<Rightarrow>
          (if status \<noteq> 200
           then Inl (Text (''llm api error: status='' @ itoa status @ '' body='' @ body))
           else case decode body of
             Inl e \<Rightarrow> Inl (errorf_ctx ''unmarshal response'' e)
           | Inr [] \<Rightarrow> Inl (Text ''llm returned empty choices'')
           | Inr (content # _) \<Rightarrow>
               (if trim_space content = [] then Inl (Text ''llm returned empty summary'')
                else Inr (trim_space content))))"

text \<open>
  The answer of the Messages API: a failed call (with whether the deadline had passed), or a
  message with its stop reason, the category of a refusal, and its text blocks.
\<close>

datatype anthropic_outcome =
    CallFailed error bool
  | Message string string "string list"

definition anthropic_Summarize ::
  "int \<Rightarrow> anthropic_outcome \<Rightarrow> string \<Rightarrow> string \<Rightarrow> string result" where
  "anthropic_Summarize maxTokens answer systemPrompt text =
     (if systemPrompt = [] then Inl (Text ''empty system prompt'')
      else case answer of
        CallFailed e deadline \<Rightarrow>
          Inl (if deadline then errorf_ctx ''llm request timeout'' timed_out
               else errorf_ctx ''llm request'' e)
      | Message stopReason category blocks \<Rightarrow>
          (if stopReason = ''refusal''
           then Inl (Text (''llm refused request: category='' @ quote category))
           else if stopReason = ''max_tokens''
           then Inl (Text (''llm output truncated at max_tokens='' @ itoa maxTokens))
           else let summaryText = trim_space (concat blocks)
                in if summaryText = [] then Inl (Text ''llm returned empty summary'')
                   else Inr summaryText))"

definition embedding_Embed ::
  "(string \<Rightarrow> error + 'v list list) \<Rightarrow> http_outcome \<Rightarrow> 'v list result" where
  "embedding_Embed decode http =
     (case http of
        NoResponse e deadline \<Rightarrow>
          Inl (if deadline then errorf_ctx ''embedding request timeout'' timed_out
               else errorf_ctx ''embedding request'' e)
      | UnreadableBody e \<Rightarrow> Inl (errorf_ctx ''read response'' e)
      | Response status body \<Rightarrow>
          (if status \<noteq> 200
           then Inl (Text (''embedding api error: status='' @ itoa status @ '' body='' @ body))
           else case decode body of
             Inl e \<Rightarrow> Inl (errorf_ctx ''unmarshal response'' e)
           | Inr [] \<Rightarrow> Inl (errorf_detail ErrScoreValidation ''embedding response has no vector'')
           | Inr (v # _) \<Rightarrow>
               (if v = [] then Inl (errorf_detail ErrScoreValidation ''embedding response has no vector'')
                else Inr v)))"

section \<open>The router\<close>

record SummaryLLMConf =
  lc_Timeout :: duration
  lc_ModeProviders :: "(string \<times> string) list"
  lc_Provider :: string
  lc_Providers :: "(string \<times> ProviderConf) list"

definition defaultLLMTimeout :: duration where
  "defaultLLMTimeout = word_of_int (30 * second)"

definition lookup_text :: "(string \<times> string) list \<Rightarrow> string \<Rightarrow> string" where
  "lookup_text m k = (case map_of m k of None \<Rightarrow> [] | Some v \<Rightarrow> v)"

definition provider_name :: "SummaryLLMConf \<Rightarrow> ProcessingMode \<Rightarrow> string" where
  "provider_name cfg mode =
     (let name = lookup_text (lc_ModeProviders cfg) (processing_mode_text mode)
      in if name = [] then lc_Provider cfg else name)"

fun route_modes ::
  "SummaryLLMConf \<Rightarrow> duration \<Rightarrow> ProcessingMode list \<Rightarrow> (string \<times> LLMClient) list \<Rightarrow>
     (ProcessingMode \<times> LLMClient) list \<Rightarrow> error + (ProcessingMode \<times> LLMClient) list" where
  "route_modes cfg timeout [] clients byMode = Inr byMode"
| "route_modes cfg timeout (mode # modes) clients byMode =
     (let name = provider_name cfg mode in
      if name = []
      then Inl (Text (''summary.llm: no provider configured for mode '' @ quote (processing_mode_text mode)))
      else case map_of clients name of
        Some client \<Rightarrow> route_modes cfg timeout modes clients ((mode, client) # byMode)
      | None \<Rightarrow>
          (case map_of (lc_Providers cfg) name of
             None \<Rightarrow> Inl (Text (''llm provider '' @ quote name @ '' not found in configuration''))
           | Some providerCfg \<Rightarrow>
               (case newLLMProvider providerCfg timeout of
                  Inl e \<Rightarrow> Inl (errorf_ctx (''llm provider '' @ quote name) e)
                | Inr client \<Rightarrow>
                    route_modes cfg timeout modes ((name, client) # clients) ((mode, client) # byMode))))"

definition NewSummaryLLMRouter ::
  "SummaryLLMConf option \<Rightarrow> error + (ProcessingMode \<times> LLMClient) list" where
  "NewSummaryLLMRouter config =
     (case config of
        None \<Rightarrow> Inl (Text ''summary.llm configuration is required'')
      | Some cfg \<Rightarrow>
          (let timeout = (if sint (lc_Timeout cfg) \<le> 0 then defaultLLMTimeout else lc_Timeout cfg);
               known = map processing_mode_text AllProcessingModes
           in case List.find (\<lambda>(mode, _). mode \<notin> set known) (lc_ModeProviders cfg) of
                Some (mode, _) \<Rightarrow>
                  Inl (Text (''summary.llm.mode_providers: unknown processing mode '' @ quote mode))
              | None \<Rightarrow> route_modes cfg timeout AllProcessingModes [] []))"

definition router_For :: "(ProcessingMode \<times> LLMClient) list \<Rightarrow> ProcessingMode \<Rightarrow> LLMClient result" where
  "router_For byMode mode =
     (case map_of byMode mode of
        None \<Rightarrow> Inl (Text (''no llm provider for processing mode '' @ quote (processing_mode_text mode)))
      | Some client \<Rightarrow> Inr client)"

definition router_timeout :: "SummaryLLMConf \<Rightarrow> duration" where
  "router_timeout cfg = (if sint (lc_Timeout cfg) \<le> 0 then defaultLLMTimeout else lc_Timeout cfg)"

text \<open>A client is right for a name when it was built from the provider configured under it.\<close>

definition client_of :: "SummaryLLMConf \<Rightarrow> string \<Rightarrow> LLMClient \<Rightarrow> bool" where
  "client_of cfg name c \<longleftrightarrow>
     name \<noteq> [] \<and> (\<exists>p. map_of (lc_Providers cfg) name = Some p \<and> newLLMProvider p (router_timeout cfg) = Inr c)"

lemma route_modes_total:
  assumes "route_modes cfg (router_timeout cfg) modes clients byMode = Inr out" and "distinct modes"
    and "\<forall>name c. map_of clients name = Some c \<longrightarrow> name \<noteq> [] \<longrightarrow> client_of cfg name c"
  shows "(\<forall>m. m \<notin> set modes \<longrightarrow> map_of out m = map_of byMode m) \<and>
    (\<forall>m \<in> set modes. \<exists>c. map_of out m = Some c \<and> client_of cfg (provider_name cfg m) c)"
  using assms
proof (induction modes arbitrary: clients byMode)
  case (Cons mode modes)
  let ?name = "provider_name cfg mode"
  have name: "?name \<noteq> []" using Cons.prems(1) by (auto simp: Let_def)
  obtain client clients' where step: "route_modes cfg (router_timeout cfg) modes clients' ((mode, client) # byMode) = Inr out"
    and c: "client_of cfg ?name client"
    and cs: "\<forall>name c. map_of clients' name = Some c \<longrightarrow> name \<noteq> [] \<longrightarrow> client_of cfg name c"
  proof (cases "map_of clients ?name")
    case (Some client)
    then show ?thesis using that [of clients client] Cons.prems(1,3) name by (simp add: Let_def)
  next
    case None
    then obtain p client where p: "map_of (lc_Providers cfg) ?name = Some p"
      "newLLMProvider p (router_timeout cfg) = Inr client"
      "route_modes cfg (router_timeout cfg) modes ((?name, client) # clients) ((mode, client) # byMode) = Inr out"
      using Cons.prems(1) name by (auto simp: Let_def split: option.splits sum.splits)
    then have "client_of cfg ?name client" using name by (simp add: client_of_def)
    with p(3) Cons.prems(3) show ?thesis using that by (auto split: if_splits)
  qed
  from Cons.IH [OF step] Cons.prems(2) cs have
    "\<forall>m. m \<notin> set modes \<longrightarrow> map_of out m = map_of ((mode, client) # byMode) m"
    "\<forall>m \<in> set modes. \<exists>c. map_of out m = Some c \<and> client_of cfg (provider_name cfg m) c" by auto
  then show ?case using c Cons.prems(2) by auto
qed simp

text \<open>
  A router that was built serves every processing mode: for each the provider is the one
  named for the mode, or the default one, it is configured, and the client was built from
  that configuration. Configuration mistakes surface when the process starts.
\<close>

lemma NewSummaryLLMRouter_total:
  assumes "NewSummaryLLMRouter (Some cfg) = Inr byMode" and "mode \<in> set AllProcessingModes"
  shows "\<exists>p c. provider_name cfg mode \<noteq> [] \<and>
    map_of (lc_Providers cfg) (provider_name cfg mode) = Some p \<and>
    newLLMProvider p (if sint (lc_Timeout cfg) \<le> 0 then defaultLLMTimeout else lc_Timeout cfg) = Inr c \<and>
    router_For byMode mode = Inr c"
proof -
  have "route_modes cfg (router_timeout cfg) AllProcessingModes [] [] = Inr byMode"
    using assms(1) by (auto simp: NewSummaryLLMRouter_def router_timeout_def Let_def split: option.splits)
  from route_modes_total [OF this] assms(2) obtain c where "map_of byMode mode = Some c"
    "client_of cfg (provider_name cfg mode) c" by (auto simp: AllProcessingModes_def)
  then show ?thesis by (auto simp: client_of_def router_For_def router_timeout_def)
qed

definition sample_llm_conf :: SummaryLLMConf where
  "sample_llm_conf =
     \<lparr>lc_Timeout = 0, lc_ModeProviders = [(''cumulative'', ''claude'')], lc_Provider = ''or'',
      lc_Providers =
        [(''or'', \<lparr>pc_Protocol = [], pc_BaseUrl = ''u'', pc_Model = ''m'', pc_ApiKey = ''k'', pc_Effort = [], pc_MaxTokens = 0\<rparr>),
         (''claude'', \<lparr>pc_Protocol = ''anthropic'', pc_BaseUrl = [], pc_Model = ''c'', pc_ApiKey = ''k'', pc_Effort = ''low'', pc_MaxTokens = 0\<rparr>)]\<rparr>"

lemma NewSummaryLLMRouter_total_example:
  "\<exists>byMode p c. NewSummaryLLMRouter (Some sample_llm_conf) = Inr byMode \<and>
    map_of (lc_Providers sample_llm_conf) ''claude'' = Some p \<and> newLLMProvider p defaultLLMTimeout = Inr c \<and>
    router_For byMode ProcessingModeCumulative = Inr c"
proof -
  have name: "provider_name sample_llm_conf ProcessingModeCumulative = ''claude''" by code_simp
  have "\<not> isl (NewSummaryLLMRouter (Some sample_llm_conf))" by code_simp
  then obtain byMode where b: "NewSummaryLLMRouter (Some sample_llm_conf) = Inr byMode"
    by (cases "NewSummaryLLMRouter (Some sample_llm_conf)") simp_all
  have "ProcessingModeCumulative \<in> set AllProcessingModes" by (simp add: AllProcessingModes_def)
  from NewSummaryLLMRouter_total [OF b this] b show ?thesis
    by (auto simp: name) (auto simp: sample_llm_conf_def)
qed

section \<open>The retry loop around a provider\<close>

definition call_llm :: "string \<Rightarrow> string \<Rightarrow> world \<Rightarrow> string result \<times> world" where
  "call_llm systemPrompt text w =
     (llm_replies w 0, w\<lparr>llm_replies := advance (llm_replies w),
                         llm_calls := llm_calls w @ [(systemPrompt, text)]\<rparr>)"

definition take_ctx_done :: "world \<Rightarrow> error option \<times> world" where
  "take_ctx_done w = (ctx_done w 0, w\<lparr>ctx_done := advance (ctx_done w)\<rparr>)"

text \<open>\<open>time.Duration(math.Pow(2, attempt)) * time.Second\<close>, the wait after a failed attempt.\<close>

definition llm_backoff :: "nat \<Rightarrow> duration" where
  "llm_backoff attempt = word_of_int (2 ^ attempt * second)"

text \<open>
  The attempts \<open>attempt, ..., maxRetries - 1\<close>, \<open>left\<close> of them. A failed call waits for
  \<^const>\<open>llm_backoff\<close> or for the end of the context, an empty answer does not wait.
\<close>

fun llm_attempts :: "string \<Rightarrow> string \<Rightarrow> nat \<Rightarrow> nat \<Rightarrow> error \<Rightarrow> world \<Rightarrow> string result \<times> world" where
  "llm_attempts sys text maxRetries 0 lastErr w =
     (Inl (Wrap (''all '' @ itoa (int maxRetries) @ '' attempts failed: '') lastErr []), w)"
| "llm_attempts sys text maxRetries (Suc left) lastErr w =
     (case call_llm sys text w of
        (Inl llmErr, w) \<Rightarrow>
          (case take_ctx_done w of
             (Some ctxErr, w) \<Rightarrow> (Inl ctxErr, w)
           | (None, w) \<Rightarrow> llm_attempts sys text maxRetries left llmErr w)
      | (Inr answer, w) \<Rightarrow>
          (if trim_space answer = []
           then llm_attempts sys text maxRetries left
                  (Text (''llm returned empty summary on attempt '' @ itoa (int (maxRetries - left)))) w
           else (Inr answer, w)))"

definition defaultLLMMaxRetries :: int where
  "defaultLLMMaxRetries = 3"

definition summarizeWithLLMRetry ::
  "prompt_bodies \<Rightarrow> (ProcessingMode \<times> LLMClient) list \<Rightarrow> int \<Rightarrow> ProcessingMode \<Rightarrow> string \<Rightarrow> world \<Rightarrow>
     string result \<times> world" where
  "summarizeWithLLMRetry prompts llms cfgMaxRetries mode text w =
     (case prompt_For prompts mode of
        Inl e \<Rightarrow> (Inl (errorf_ctx (''resolve prompt for mode '' @ quote (processing_mode_text mode)) e), w)
      | Inr systemPrompt \<Rightarrow>
     (case router_For llms mode of
        Inl e \<Rightarrow> (Inl (errorf_ctx (''resolve llm provider for mode '' @ quote (processing_mode_text mode)) e), w)
      | Inr _ \<Rightarrow>
          (let maxRetries = (if cfgMaxRetries \<le> 0 then defaultLLMMaxRetries else cfgMaxRetries)
           in llm_attempts systemPrompt text (nat maxRetries) (nat maxRetries) (Text []) w)))"

text \<open>What the loop can change: it consumes replies and records its calls.\<close>

definition same_store :: "world \<Rightarrow> world \<Rightarrow> bool" where
  "same_store w w' \<longleftrightarrow> committed w' = committed w \<and> open_tx w' = open_tx w \<and> faults w' = faults w \<and>
     clock w' = clock w \<and> fresh_ids w' = fresh_ids w"

lemma same_store_refl [simp]: "same_store w w"
  by (simp add: same_store_def)

lemma same_store_trans: "same_store a b \<Longrightarrow> same_store b c \<Longrightarrow> same_store a c"
  by (simp add: same_store_def)

lemma llm_attempts_frame:
  "llm_attempts sys text mx left e w = (r, w') \<Longrightarrow>
    same_store w w' \<and> (\<exists>n \<le> left. llm_calls w' = llm_calls w @ replicate n (sys, text)) \<and>
    (\<forall>a. r = Inr a \<longrightarrow> trim_space a \<noteq> [])"
proof (induction left arbitrary: e w)
  case 0
  then show ?case by auto
next
  case (Suc left)
  define w1 where "w1 = snd (call_llm sys text w)"
  have w1: "same_store w w1" "llm_calls w1 = llm_calls w @ [(sys, text)]"
    by (simp_all add: w1_def call_llm_def same_store_def)
  define w2 where "w2 = snd (take_ctx_done w1)"
  have w2: "same_store w w2" "llm_calls w2 = llm_calls w @ [(sys, text)]"
    using w1 by (simp_all add: w2_def take_ctx_done_def same_store_def)
  have step: "llm_attempts sys text mx (Suc left) e w =
    (case llm_replies w 0 of
       Inl llmErr \<Rightarrow> (case ctx_done w1 0 of Some ce \<Rightarrow> (Inl ce, w2)
                      | None \<Rightarrow> llm_attempts sys text mx left llmErr w2)
     | Inr a \<Rightarrow> if trim_space a = []
                then llm_attempts sys text mx left
                  (Text (''llm returned empty summary on attempt '' @ itoa (int (mx - left)))) w1
                else (Inr a, w1))"
    by (simp add: w2_def w1_def call_llm_def take_ctx_done_def split: sum.split option.split)
  have one: "llm_calls v = llm_calls w @ [(sys, text)] \<Longrightarrow> \<exists>n \<le> Suc left. llm_calls v = llm_calls w @ replicate n (sys, text)" for v
    by (rule exI [of _ 1]) simp
  have rec: ?case if "llm_attempts sys text mx left e' v = (r, w')" "same_store w v"
    "llm_calls v = llm_calls w @ [(sys, text)]" for e' v
  proof -
    from Suc.IH [OF that(1)] obtain n where n: "same_store v w'" "n \<le> left"
      "llm_calls w' = llm_calls v @ replicate n (sys, text)" "\<forall>a. r = Inr a \<longrightarrow> trim_space a \<noteq> []" by blast
    then have "llm_calls w' = llm_calls w @ replicate (Suc n) (sys, text)" using that(3) by simp
    then show ?thesis using n same_store_trans [OF that(2) n(1)] by (meson Suc_le_mono)
  qed
  show ?case
    using Suc.prems rec [OF _ w1] rec [OF _ w2] one [OF w1(2)] one [OF w2(2)] w1 w2
    unfolding step by (auto split: sum.splits option.splits if_splits)
qed

definition usable :: "string result \<Rightarrow> bool" where
  "usable r \<longleftrightarrow> (case r of Inl _ \<Rightarrow> False | Inr a \<Rightarrow> trim_space a \<noteq> [])"

lemma llm_attempts_first_usable:
  "ctx_done w = (\<lambda>_. None) \<Longrightarrow> llm_attempts sys text mx left e w = (r, w') \<Longrightarrow>
    (\<exists>k < left. (\<forall>j < k. \<not> usable (llm_replies w j)) \<and> usable (llm_replies w k) \<and> r = llm_replies w k \<and>
       llm_calls w' = llm_calls w @ replicate (Suc k) (sys, text)) \<or>
    (\<forall>j < left. \<not> usable (llm_replies w j)) \<and> (\<exists>err. r = Inl err) \<and>
       llm_calls w' = llm_calls w @ replicate left (sys, text)"
proof (induction left arbitrary: e w)
  case 0
  then show ?case by auto
next
  case (Suc left)
  define w1 where "w1 = snd (call_llm sys text w)"
  have w1: "ctx_done w1 = (\<lambda>_. None)" "llm_calls w1 = llm_calls w @ [(sys, text)]"
    "\<And>j. llm_replies w1 j = llm_replies w (Suc j)"
    using Suc.prems(1) by (simp_all add: w1_def call_llm_def)
  show ?case
  proof (cases "usable (llm_replies w 0)")
    case True
    then have "r = llm_replies w 0 \<and> llm_calls w' = llm_calls w @ [(sys, text)]"
      using Suc.prems(2) by (auto simp: usable_def call_llm_def split: sum.splits if_splits)
    then show ?thesis using True by (intro disjI1 exI [of _ 0]) simp
  next
    case False
    obtain e' v where v: "llm_attempts sys text mx left e' v = (r, w')" "ctx_done v = (\<lambda>_. None)"
      "llm_calls v = llm_calls w @ [(sys, text)]" "\<And>j. llm_replies v j = llm_replies w (Suc j)"
    proof (cases "llm_replies w 0")
      case (Inl err)
      with that [of err "w1\<lparr>ctx_done := \<lambda>_. None\<rparr>"] Suc.prems w1 show ?thesis
        by (simp add: call_llm_def take_ctx_done_def w1_def)
    next
      case (Inr a)
      with that [of "Text (''llm returned empty summary on attempt '' @ itoa (int (mx - left)))" w1]
        Suc.prems(2) w1 False show ?thesis
        by (simp add: call_llm_def w1_def usable_def)
    qed
    have all: "(\<forall>j < Suc k. \<not> usable (llm_replies w j)) \<longleftrightarrow> (\<forall>j < k. \<not> usable (llm_replies v j))" for k
      using False v(4) by (metis Suc_less_eq less_Suc_eq_0_disj)
    from Suc.IH [OF v(2,1)] show ?thesis
    proof (elim disjE exE conjE)
      fix k assume k: "k < left" "\<forall>j < k. \<not> usable (llm_replies v j)" "usable (llm_replies v k)"
        "r = llm_replies v k" "llm_calls w' = llm_calls v @ replicate (Suc k) (sys, text)"
      then have "\<forall>j < Suc k. \<not> usable (llm_replies w j)" using all by blast
      then show ?thesis using k v(3,4) by (intro disjI1 exI [of _ "Suc k"]) simp
    next
      fix err assume n: "\<forall>j < left. \<not> usable (llm_replies v j)" "r = Inl err"
        "llm_calls w' = llm_calls v @ replicate left (sys, text)"
      then have "\<forall>j < Suc left. \<not> usable (llm_replies w j)" using all by blast
      then show ?thesis using n v(3) by (intro disjI2) simp
    qed
  qed
qed

text \<open>
  C40. The retry loop asks the provider of the mode, with the prompt of the mode and the given
  text, until the first usable answer (no error, not blank) and returns that answer; it asks
  at most \<open>llm.max_retries\<close> times (3 when unset), and fails exactly when none of these
  answers is usable.
\<close>

theorem summarizeWithLLMRetry_first_usable:
  assumes "prompt_For prompts mode = Inr sys" and "router_For llms mode = Inr client"
    and "ctx_done w = (\<lambda>_. None)" and "maxRetries = nat (if cfg \<le> 0 then 3 else cfg)"
    and "summarizeWithLLMRetry prompts llms cfg mode text w = (r, w')"
  shows "same_store w w' \<and>
    ((\<exists>k < maxRetries. (\<forall>j < k. \<not> usable (llm_replies w j)) \<and> usable (llm_replies w k) \<and> r = llm_replies w k \<and>
       llm_calls w' = llm_calls w @ replicate (Suc k) (sys, text)) \<or>
    (\<forall>j < maxRetries. \<not> usable (llm_replies w j)) \<and> (\<exists>err. r = Inl err) \<and>
       llm_calls w' = llm_calls w @ replicate maxRetries (sys, text))"
proof -
  have run: "llm_attempts sys text maxRetries maxRetries (Text []) w = (r, w')"
    using assms(5) unfolding summarizeWithLLMRetry_def assms(1,2,4)
    by (cases "cfg \<le> 0") (simp_all add: defaultLLMMaxRetries_def Let_def)
  show ?thesis
    using llm_attempts_frame [OF run] llm_attempts_first_usable [OF assms(3) run] by blast
qed

theorem summarizeWithLLMRetry_first_usable_witness:
  "let w = (quiet_world empty_db)\<lparr>llm_replies := (\<lambda>n. if n = 0 then Inl (Text ''503'') else Inr ''short'')\<rparr>;
       (r, w') = summarizeWithLLMRetry [(ProcessingModeCumulative, ''prompt'')]
         [(ProcessingModeCumulative, OpenRouterClient (snd (hd (lc_Providers sample_llm_conf))) 5)]
         0 ProcessingModeCumulative ''text'' w
   in same_store w w' \<and> r = Inr ''short'' \<and> llm_calls w' = replicate 2 (''prompt'', ''text'')"
proof -
  let ?w = "(quiet_world empty_db)\<lparr>llm_replies := (\<lambda>n. if n = 0 then Inl (Text ''503'') else Inr ''short'')\<rparr>"
  let ?prompts = "[(ProcessingModeCumulative, ''prompt'')]"
  let ?llms = "[(ProcessingModeCumulative, OpenRouterClient (snd (hd (lc_Providers sample_llm_conf))) 5)]"
  define w where "w = ?w"
  obtain r w' where run: "summarizeWithLLMRetry ?prompts ?llms 0 ProcessingModeCumulative ''text'' w = (r, w')"
    by (cases "summarizeWithLLMRetry ?prompts ?llms 0 ProcessingModeCumulative ''text'' w")
  have short: "trim_space ''short'' \<noteq> []" by code_simp
  have rep: "llm_replies w 0 = Inl (Text ''503'')" "llm_replies w (Suc 0) = Inr ''short''"
    "ctx_done w = (\<lambda>_. None)" "llm_calls w = []" by (simp_all add: w_def quiet_world_def)
  then have u: "\<not> usable (llm_replies w 0)" "usable (llm_replies w (Suc 0))" by (simp_all add: usable_def short)
  have p: "prompt_For ?prompts ProcessingModeCumulative = Inr ''prompt''" by (simp add: prompt_For_def)
  obtain c where c: "router_For ?llms ProcessingModeCumulative = Inr c" by (simp add: router_For_def)
  have m: "(3::nat) = nat (if (0::int) \<le> 0 then 3 else 0)" by simp
  note res = summarizeWithLLMRetry_first_usable [OF p c rep(3) m run]
  have "\<not> (\<forall>j < 3. \<not> usable (llm_replies w j))" using u(2) by (auto intro!: exI [of _ "Suc 0"])
  with res obtain k where k: "\<forall>j < k. \<not> usable (llm_replies w j)" "usable (llm_replies w k)" "r = llm_replies w k"
    "llm_calls w' = llm_calls w @ replicate (Suc k) (''prompt'', ''text'')" by blast
  have "k \<noteq> 0" using k(2) u(1) by metis
  moreover have "\<not> Suc 0 < k" using k(1) u(2) by blast
  ultimately have "k = Suc 0" by simp
  then have "same_store w w' \<and> r = Inr ''short'' \<and> llm_calls w' = replicate 2 (''prompt'', ''text'')"
    using res k(3,4) rep by (simp add: numeral_2_eq_2)
  then show ?thesis using run unfolding w_def [symmetric] Let_def by simp
qed

end
