(* ===== verification/Source_Usecase.thy ===== *)
theory Source_Usecase
  imports Source_Repo
begin

text \<open>
  \<open>SourceUsecase\<close> of \<open>internal/biz/source.go\<close>: creating, changing, deleting and listing
  sources on top of the repository.
\<close>

section \<open>The operations\<close>

definition SourceUsecase_Create ::
  "ext \<Rightarrow> SourceType \<Rightarrow> SourceConfig option \<Rightarrow> world \<Rightarrow> Source result \<times> world" where
  "SourceUsecase_Create E sourceType config w =
     (case ValidateSourceType sourceType of
        Some e \<Rightarrow> (Inl e, w)
      | None \<Rightarrow>
     (case ValidateSourceConfig E sourceType config of
        Some e \<Rightarrow> (Inl e, w)
      | None \<Rightarrow>
     (let (createdAt, w) = time_now w;
          (updatedAt, w) = time_now w
      in source_repo_Save E
           \<lparr>src_ID = [], src_Type = sourceType,
            src_ProcessingMode = ProcessingModeForType sourceType, src_Config = config,
            src_CreatedAt = createdAt, src_UpdatedAt = updatedAt\<rparr> w)))"

definition SourceUsecase_Update ::
  "ext \<Rightarrow> string \<Rightarrow> SourceType \<Rightarrow> SourceConfig option \<Rightarrow> world \<Rightarrow> Source result \<times> world" where
  "SourceUsecase_Update E ident sourceType config w =
     (case source_repo_Get E ident w of
        (Inl e, w) \<Rightarrow> (Inl e, w)
      | (Inr existing, w) \<Rightarrow>
          (if src_Type existing \<noteq> sourceType then (Inl (Sentinel ErrTypeImmutable), w)
           else case ValidateSourceConfig E sourceType config of
             Some cfgErr \<Rightarrow> (Inl cfgErr, w)
           | None \<Rightarrow>
               (let (now, w) = time_now w
                in source_repo_Update E (existing\<lparr>src_Config := config, src_UpdatedAt := now\<rparr>) w)))"

definition SourceUsecase_Delete :: "ext \<Rightarrow> string \<Rightarrow> world \<Rightarrow> unit result \<times> world" where
  "SourceUsecase_Delete E ident w = source_repo_Delete E ident w"

definition SourceUsecase_Get :: "ext \<Rightarrow> string \<Rightarrow> world \<Rightarrow> Source result \<times> world" where
  "SourceUsecase_Get E ident w = source_repo_Get E ident w"

text \<open>An empty type in the filter means any type.\<close>

definition SourceUsecase_List ::
  "ext \<Rightarrow> ListSourcesFilter \<Rightarrow> world \<Rightarrow> Source page result \<times> world" where
  "SourceUsecase_List E f w =
     (let f = f\<lparr>lsf_PageSize := clamp_page_size (lsf_PageSize f)\<rparr> in
      if lsf_Type f \<noteq> SourceTypeOther [] then
        (case ValidateSourceType (lsf_Type f) of
           Some e \<Rightarrow> (Inl e, w)
         | None \<Rightarrow> source_repo_List E f w)
      else source_repo_List E f w)"

section \<open>What is stored is well typed\<close>

text \<open>
  The invariant of the table: every source has a known type, and its stored configuration
  decodes to a configuration of that type.
\<close>

definition source_row_ok :: "source_row \<Rightarrow> bool" where
  "source_row_ok r \<longleftrightarrow>
     ValidateSourceType (s_type r) = None \<and>
     (\<exists>c. deserializeConfig (s_type r) (s_config r) = Inr c)"

definition sources_ok :: "database \<Rightarrow> bool" where
  "sources_ok d \<longleftrightarrow> distinct (map s_id (sources d)) \<and> (\<forall>r \<in> set (sources d). source_row_ok r)"

lemma source_row_ok_to_domain: "source_row_ok r \<longleftrightarrow> (\<exists>s. source_to_domain E r = Inr s)"
  by (auto simp: source_row_ok_def source_to_domain_def split: option.split sum.split)

section \<open>Configurations survive storage\<close>

text \<open>Telegram identifiers that a \<open>float64\<close> represents exactly.\<close>

fun exact_tg :: "SourceConfig \<Rightarrow> bool" where
  "exact_tg (TelegramChannelConfig tg _) = (\<bar>sint tg\<bar> \<le> 2 ^ 53)"
| "exact_tg (TelegramGroupConfig tg _) = (\<bar>sint tg\<bar> \<le> 2 ^ 53)"
| "exact_tg (RSSConfig _) = True"
| "exact_tg (HTMLConfig _) = True"

lemma float_of_int_exact: "\<bar>i\<bar> \<le> 2 ^ 53 \<Longrightarrow> float_of_int i = i"
  by (simp add: float_of_int_def rnd_of_int)

lemma config_roundtrip:
  assumes "ValidateSourceConfig E t (Some c) = None" and "exact_tg c"
  shows "deserializeConfig t (serializeConfig (Some c)) = Inr c"
proof -
  have r: "- (2 ^ 63) \<le> i \<and> i < 2 ^ 63" if "\<bar>i\<bar> \<le> 2 ^ 53" for i :: int
    using that by (simp add: abs_le_iff)
  show ?thesis
    using assms
    by (cases c; cases t)
      (auto simp: ValidateSourceConfig_def serializeConfig_def deserializeConfig_def decode_tg_def
        json_int64_def json_string_def float_of_int_exact r)
qed

text \<open>One write on the pool without a transaction of the context and without faults.\<close>

lemma fault_free_write:
  assumes "fault_free w"
  shows "exec_direct s w =
    (case s (clock w 0) (committed w) of
       Inl e \<Rightarrow> (Inl e, after_read w)
     | Inr (x, d) \<Rightarrow> (Inr x, (after_read w)\<lparr>committed := d\<rparr>))"
proof -
  have "open_tx w = None" "faults w 0 = Healthy" using assms by (simp_all add: fault_free_def)
  from exec_tx_outside_fault_free [OF this, of s] exec_direct_outside [OF this(1), of s]
  show ?thesis by (simp add: after_read_def split: sum.split prod.split)
qed

text \<open>
  Creating a source with a valid configuration (and a Telegram identifier of at most 53
  bits) stores it under a fresh identifier, and a later \<open>Get\<close> of that identifier returns the
  same source: type, configuration and times.
\<close>

lemma SourceUsecase_Create_Get:
  assumes "ext_laws E" and "fault_free w"
    and "ValidateSourceType t = None" and "ValidateSourceConfig E t (Some c) = None" and "exact_tg c"
    and "fresh_ids w 0 \<notin> source_ids (committed w)"
  shows "\<exists>s w'. SourceUsecase_Create E t (Some c) w = (Inr s, w') \<and>
    src_ID s = uuid_string E (fresh_ids w 0) \<and> src_Type s = t \<and> src_Config s = Some c \<and>
    src_ProcessingMode s = ProcessingModeForType t \<and>
    fst (SourceUsecase_Get E (src_ID s) w') = Inr s"
proof -
  define i where "i = fresh_ids w 0"
  define row where "row = \<lparr>s_id = i, s_type = t, s_config = serializeConfig (Some c),
    s_created_at = clock w 0, s_updated_at = clock w (Suc 0), s_next_summary_at = None\<rparr>"
  define w1 where "w1 = w\<lparr>clock := advance (advance (clock w)), fresh_ids := advance (fresh_ids w)\<rparr>"
  define s where "s = \<lparr>src_ID = uuid_string E i, src_Type = t,
    src_ProcessingMode = ProcessingModeForType t, src_Config = Some c,
    src_CreatedAt = clock w 0, src_UpdatedAt = clock w (Suc 0)\<rparr>"
  define w2 where "w2 = (after_read w1)\<lparr>committed := (committed w)\<lparr>sources := sources (committed w) @ [row]\<rparr>\<rparr>"
  have dom: "source_to_domain E row = Inr s"
    using assms(3) config_roundtrip [OF assms(4,5)] by (simp add: source_to_domain_def row_def s_def)
  have fr: "fault_free w1" "fault_free w2"
    using assms(2) by (auto simp: fault_free_def w1_def w2_def after_read_def)
  have "insert_source row (committed w1) = Inr ((committed w)\<lparr>sources := sources (committed w) @ [row]\<rparr>)"
    using assms(6) by (simp add: insert_source_def w1_def row_def i_def)
  then have ins: "exec_direct (write_stmt (insert_source row)) w1 = (Inr (), w2)"
    using fault_free_write [OF fr(1), of "write_stmt (insert_source row)"]
    by (simp add: write_stmt_def w2_def)
  have create: "SourceUsecase_Create E t (Some c) w = (Inr s, w2)"
    using assms(1) ins dom
    by (simp add: SourceUsecase_Create_def assms(3,4) time_now_def source_repo_Save_def new_uuid_def
        w1_def [symmetric] i_def [symmetric] row_def [symmetric] Let_def)
  have "\<forall>r \<in> set (sources (committed w)). s_id r \<noteq> i"
    using assms(6) unfolding source_ids_def i_def by (metis image_eqI)
  then have "filter (\<lambda>r. s_id r = i) (sources (committed w2)) = [row]"
    by (simp add: w2_def row_def filter_empty_conv)
  then have "fst (SourceUsecase_Get E (src_ID s) w2) = Inr s"
    using assms(1) dom
    by (simp add: SourceUsecase_Get_def source_repo_Get_def s_def fault_free_read(2) [OF fr(2)] ent_only_def)
  then show ?thesis using create by (auto simp: s_def i_def)
qed

section \<open>An identifier that does not survive\<close>

lemma float_of_int_max: "float_of_int 9223372036854775807 = 9223372036854775808"
proof -
  have "bitlen 9223372036854775807 = Suc 62" by (rule bitlen_eq) simp_all
  then have f: "floor_log2 9223372036854775807 = 62"
    using floor_log2_of_nat [of 9223372036854775807] by simp
  have "\<lfloor>9223372036854775807 / 1024 :: rat\<rfloor> = 9007199254740991" by (rule floor_unique) simp_all
  then have "round_half_even (9223372036854775807 / 1024) = 9007199254740992"
    by (simp add: round_half_even_def Let_def)
  then show ?thesis by (simp add: float_of_int_def rnd_def f pow2_def)
qed

lemma float_of_int_2_63: "float_of_int 9223372036854775808 = 9223372036854775808"
proof -
  have "bitlen 9223372036854775808 = Suc 63" by (rule bitlen_eq) simp_all
  then have f: "floor_log2 9223372036854775808 = 63"
    using floor_log2_of_nat [of 9223372036854775808] by simp
  have "rnd 9223372036854775808 = Finite 9223372036854775808"
    by (rule rnd_exact [where m = "2 ^ 52"]) (simp_all add: f pow2_def)
  then show ?thesis by (simp add: float_of_int_def)
qed

section \<open>What an update can change\<close>

lemma exec_direct_outside_effect:
  assumes "open_tx w = None" and "exec_direct s w = (r, w')"
  shows "open_tx w' = None"
    and "committed w' = committed w \<or> (\<exists>x. s (clock w 0) (committed w) = Inr (x, committed w'))"
    and "r = Inr x \<Longrightarrow> s (clock w 0) (committed w) = Inr (x, committed w')"
  using exec_tx_outside [OF assms(1), of s r w'] assms(2)
  unfolding exec_direct_outside [OF assms(1)] by blast+

lemma source_repo_Get_effect:
  assumes "open_tx w = None" and "source_repo_Get E ident w = (r, w')"
  shows "open_tx w' = None" and "committed w' = committed w"
    and "r = Inr s \<Longrightarrow> \<exists>i row. parse_uuid E ident = Some i \<and>
      filter (\<lambda>r. s_id r = i) (sources (committed w)) = [row] \<and> source_to_domain E row = Inr s"
proof -
  have all: "open_tx w' = None \<and> committed w' = committed w \<and> (\<forall>s. r = Inr s \<longrightarrow>
    (\<exists>i row. parse_uuid E ident = Some i \<and>
       filter (\<lambda>r. s_id r = i) (sources (committed w)) = [row] \<and> source_to_domain E row = Inr s))"
  proof (cases "parse_uuid E ident")
    case None
    then show ?thesis using assms by (auto simp: source_repo_Get_def parse_id_def)
  next
    case (Some i)
    define found where "found = filter (\<lambda>r. s_id r = i) (sources (committed w))"
    obtain q w1 where q: "exec_direct (select (\<lambda>_ d. filter (\<lambda>r. s_id r = i) (sources d))) w = (q, w1)"
      by (cases "exec_direct (select (\<lambda>_ d. filter (\<lambda>r. s_id r = i) (sources d))) w")
    note eff = exec_direct_outside_effect [OF assms(1) q]
    have w1: "committed w1 = committed w" "open_tx w1 = None" using eff(1,2) by (auto simp: select_def)
    have "q = Inr rows \<Longrightarrow> rows = found" for rows using eff(3) by (auto simp: select_def found_def)
    then show ?thesis
      using assms(2) Some q w1 unfolding found_def [symmetric]
      by (cases q) (auto simp: source_repo_Get_def parse_id_def ent_only_def found_def [symmetric]
          split: list.splits sum.splits if_splits)
  qed
  then show "open_tx w' = None" "committed w' = committed w" by blast+
  show "r = Inr s \<Longrightarrow> \<exists>i row. parse_uuid E ident = Some i \<and>
      filter (\<lambda>r. s_id r = i) (sources (committed w)) = [row] \<and> source_to_domain E row = Inr s"
    using all by blast
qed

text \<open>
  A source never changes its type, and its configuration is only ever replaced by one
  that is valid for the type it has: whatever the arguments and whichever statement fails,
  an update leaves every source as it was, or changes the configuration and the update time
  of the one source named, whose type is the type given and accepts the new configuration.
\<close>

lemma SourceUsecase_Update_type_immutable:
  assumes "ext_laws E" and "open_tx w = None"
  shows "committed (snd (SourceUsecase_Update E ident t cfg w)) = committed w \<or>
    (\<exists>i now row. parse_uuid E ident = Some i \<and>
       filter (\<lambda>r. s_id r = i) (sources (committed w)) = [row] \<and> s_type row = t \<and>
       ValidateSourceConfig E t cfg = None \<and>
       committed (snd (SourceUsecase_Update E ident t cfg w)) = (committed w)\<lparr>sources :=
         update_where (\<lambda>r. s_id r = i)
           (\<lambda>r. r\<lparr>s_config := serializeConfig cfg, s_updated_at := now\<rparr>) (sources (committed w))\<rparr>)"
proof -
  obtain g w1 where g: "source_repo_Get E ident w = (g, w1)" by (cases "source_repo_Get E ident w")
  note eff = source_repo_Get_effect [OF assms(2) g]
  show ?thesis
  proof (cases "\<exists>s. g = Inr s \<and> src_Type s = t \<and> ValidateSourceConfig E t cfg = None")
    case False
    then have "committed (snd (SourceUsecase_Update E ident t cfg w)) = committed w1"
      using g by (cases g) (auto simp: SourceUsecase_Update_def split: option.split)
    then show ?thesis using eff(2) by simp
  next
    case True
    then obtain s where s: "g = Inr s" "src_Type s = t" "ValidateSourceConfig E t cfg = None" by blast
    from eff(3) [OF s(1)] obtain i row where row: "parse_uuid E ident = Some i"
      "filter (\<lambda>r. s_id r = i) (sources (committed w)) = [row]" "source_to_domain E row = Inr s" by blast
    have "row \<in> set (filter (\<lambda>r. s_id r = i) (sources (committed w)))" using row(2) by simp
    then have i: "s_id row = i" by simp
    have dom: "src_ID s = uuid_string E i" "src_Type s = s_type row"
      using row(3) i by (auto simp: source_to_domain_def split: option.splits sum.splits)
    define now where "now = clock w1 0"
    define w2 where "w2 = w1\<lparr>clock := advance (clock w1)\<rparr>"
    define f where "f = (\<lambda>r::source_row. r\<lparr>s_config := serializeConfig cfg, s_updated_at := now\<rparr>)"
    have w2: "open_tx w2 = None" "committed w2 = committed w" using eff(1,2) by (simp_all add: w2_def)
    obtain q w3 where q: "exec_direct (update_source_stmt i f) w2 = (q, w3)"
      by (cases "exec_direct (update_source_stmt i f) w2")
    have "committed (snd (SourceUsecase_Update E ident t cfg w)) = committed w3"
      using g s q assms(1) dom(1)
      by (auto simp: SourceUsecase_Update_def source_repo_Update_def time_now_def now_def [symmetric]
          w2_def [symmetric] f_def Let_def split: sum.split option.split)
    moreover have "committed w3 = committed w \<or>
        committed w3 = (committed w)\<lparr>sources := update_where (\<lambda>r. s_id r = i) f (sources (committed w))\<rparr>"
      using exec_direct_outside_effect(2) [OF w2(1) q] row(2) w2(2)
      by (auto simp: update_source_stmt_def)
    ultimately show ?thesis using row(1,2) dom(2) s(2,3) unfolding f_def by auto
  qed
qed

lemma SourceUsecase_Update_type_immutable_example:
  "let w = quiet_world (empty_db\<lparr>sources := [sample_source 9 SourceTypeRSS]\<rparr>);
       w' = snd (SourceUsecase_Update decimal_ext ''9'' SourceTypeTelegramGroup None w)
   in committed w' = committed w \<or>
    (\<exists>i now row. parse_uuid decimal_ext ''9'' = Some i \<and>
       filter (\<lambda>r. s_id r = i) (sources (committed w)) = [row] \<and> s_type row = SourceTypeTelegramGroup \<and>
       ValidateSourceConfig decimal_ext SourceTypeTelegramGroup None = None \<and>
       committed w' = (committed w)\<lparr>sources :=
         update_where (\<lambda>r. s_id r = i)
           (\<lambda>r. r\<lparr>s_config := serializeConfig None, s_updated_at := now\<rparr>) (sources (committed w))\<rparr>)"
  using SourceUsecase_Update_type_immutable [of decimal_ext
      "quiet_world (empty_db\<lparr>sources := [sample_source 9 SourceTypeRSS]\<rparr>)" "''9''" SourceTypeTelegramGroup None]
  unfolding Let_def by simp

text \<open>
  An identifier that the stored form cannot represent: creating a Telegram channel with
  the largest \<open>int64\<close> identifier passes validation and inserts the row, but the number comes
  back as \<open>2 ^ 63\<close>, which no \<open>int64\<close> holds. \<open>Create\<close> reports an error although the source is
  stored, and every later \<open>Get\<close> of it fails.
\<close>

lemma SourceUsecase_Create_poison:
  assumes "ext_laws E" and "fault_free w"
    and "fresh_ids w 0 \<notin> source_ids (committed w)"
    and "c = TelegramChannelConfig (word_of_int (2 ^ 63 - 1)) username"
  shows "ValidateSourceConfig E SourceTypeTelegramChannel (Some c) = None \<and>
    (\<exists>e e' w'. SourceUsecase_Create E SourceTypeTelegramChannel (Some c) w = (Inl e, w') \<and>
       fresh_ids w 0 \<in> source_ids (committed w') \<and>
       fst (SourceUsecase_Get E (uuid_string E (fresh_ids w 0)) w') = Inl e')"
proof -
  define i where "i = fresh_ids w 0"
  define row where "row = \<lparr>s_id = i, s_type = SourceTypeTelegramChannel, s_config = serializeConfig (Some c),
    s_created_at = clock w 0, s_updated_at = clock w (Suc 0), s_next_summary_at = None\<rparr>"
  define w1 where "w1 = w\<lparr>clock := advance (advance (clock w)), fresh_ids := advance (fresh_ids w)\<rparr>"
  define w2 where "w2 = (after_read w1)\<lparr>committed := (committed w)\<lparr>sources := sources (committed w) @ [row]\<rparr>\<rparr>"
  have valid: "ValidateSourceConfig E SourceTypeTelegramChannel (Some c) = None"
    by (simp add: assms(4) ValidateSourceConfig_def)
  have "serializeConfig (Some c) = [(''tg_id'', JNum (2 ^ 63)), (''username'', JStr username)]"
    by (simp add: assms(4) serializeConfig_def float_of_int_max)
  then obtain e where dom: "source_to_domain E row = Inl e"
    by (simp add: source_to_domain_def row_def ValidateSourceType_def deserializeConfig_def decode_tg_def
        json_int64_def float_of_int_2_63)
  have fr: "fault_free w1" "fault_free w2"
    using assms(2) by (auto simp: fault_free_def w1_def w2_def after_read_def)
  have "insert_source row (committed w1) = Inr ((committed w)\<lparr>sources := sources (committed w) @ [row]\<rparr>)"
    using assms(3) by (simp add: insert_source_def w1_def row_def i_def)
  then have ins: "exec_direct (write_stmt (insert_source row)) w1 = (Inr (), w2)"
    using fault_free_write [OF fr(1), of "write_stmt (insert_source row)"]
    by (simp add: write_stmt_def w2_def)
  have create: "SourceUsecase_Create E SourceTypeTelegramChannel (Some c) w = (Inl e, w2)"
    using assms(1) ins dom valid
    by (simp add: SourceUsecase_Create_def ValidateSourceType_def time_now_def source_repo_Save_def new_uuid_def
        w1_def [symmetric] i_def [symmetric] row_def [symmetric] Let_def)
  have "\<forall>r \<in> set (sources (committed w)). s_id r \<noteq> i"
    using assms(3) unfolding source_ids_def i_def by (metis image_eqI)
  then have "filter (\<lambda>r. s_id r = i) (sources (committed w2)) = [row]"
    by (simp add: w2_def row_def filter_empty_conv)
  then have "fst (SourceUsecase_Get E (uuid_string E i) w2) = Inl e"
    using assms(1) dom
    by (simp add: SourceUsecase_Get_def source_repo_Get_def fault_free_read(2) [OF fr(2)] ent_only_def)
  moreover have "i \<in> source_ids (committed w2)" by (simp add: w2_def source_ids_def row_def)
  ultimately show ?thesis using create valid unfolding i_def by blast
qed

lemma SourceUsecase_Create_poison_example:
  "ValidateSourceConfig decimal_ext SourceTypeTelegramChannel
     (Some (TelegramChannelConfig (word_of_int (2 ^ 63 - 1)) ''x'')) = None \<and>
   (\<exists>e e' w'. SourceUsecase_Create decimal_ext SourceTypeTelegramChannel
       (Some (TelegramChannelConfig (word_of_int (2 ^ 63 - 1)) ''x'')) (quiet_world empty_db) = (Inl e, w') \<and>
     fresh_ids (quiet_world empty_db) 0 \<in> source_ids (committed w') \<and>
     fst (SourceUsecase_Get decimal_ext (uuid_string decimal_ext (fresh_ids (quiet_world empty_db) 0)) w') = Inl e')"
  by (rule SourceUsecase_Create_poison [OF _ _ _ refl])
    (simp_all add: fault_free_def source_ids_def empty_db_def)

end
