(* ===== verification/Post_Usecase.thy ===== *)
theory Post_Usecase
  imports Tx_Base Post_Paging Source_Usecase
begin

text \<open>
  \<open>PostUsecase\<close> of \<open>internal/biz/post.go\<close>: every post enters the system through \<open>Create\<close>,
  which stores it and, for a self-contained source, enqueues its summarization in the same
  transaction.
\<close>

section \<open>The operations\<close>

definition NewSummaryEvent ::
  "ext \<Rightarrow> SummaryEventType \<Rightarrow> string \<Rightarrow> string option \<Rightarrow> world \<Rightarrow> SummaryEvent \<times> world" where
  "NewSummaryEvent E eventType sourceID postID w =
     (let (i, w) = new_uuid w; (now, w) = time_now w
      in (\<lparr>se_ID = uuid_string E i, se_PostID = postID, se_SourceID = sourceID,
           se_EventType = eventType, se_Status = Pending, se_SummaryID = None, se_Error = None,
           se_CreatedAt = now, se_ProcessedAt = None, se_AttemptCount = 0\<rparr>, w))"

definition create_post_body ::
  "ext \<Rightarrow> ProcessingMode \<Rightarrow> string \<Rightarrow> Post \<Rightarrow> world \<Rightarrow> Post result \<times> world" where
  "create_post_body E mode sourceID post w =
     (case post_repo_Save E post w of
        (Inl e, w) \<Rightarrow> (Inl e, w)
      | (Inr saved_created, w) \<Rightarrow>
          (if mode = ProcessingModeSelfContained \<and> snd saved_created
           then (let (event, w) = NewSummaryEvent E SummarizePost sourceID
                                    (Some (post_ID (fst saved_created))) w
                 in case summary_outbox_Save E event w of
                      (Inl outboxErr, w) \<Rightarrow> (Inl outboxErr, w)
                    | (Inr _, w) \<Rightarrow> (Inr (fst saved_created), w))
           else (Inr (fst saved_created), w)))"

definition PostUsecase_Create ::
  "ext \<Rightarrow> string \<Rightarrow> string \<Rightarrow> string \<Rightarrow> time \<Rightarrow> string option \<Rightarrow> metadata \<Rightarrow> world \<Rightarrow>
     Post result \<times> world" where
  "PostUsecase_Create E sourceID externalID text publishedAt author metadata w =
     (case ValidateCreatePost E sourceID externalID text publishedAt of
        Some e \<Rightarrow> (Inl e, w)
      | None \<Rightarrow>
     (case source_repo_Get E sourceID w of
        (Inl e, w) \<Rightarrow> (Inl e, w)
      | (Inr source, w) \<Rightarrow>
     (let metadata = (case metadata of None \<Rightarrow> [] | Some m \<Rightarrow> m);
          (now, w) = time_now w;
          (i, w) = new_uuid w;
          post = \<lparr>post_ID = uuid_string E i, post_SourceID = sourceID, post_Source = empty_source_info,
                  post_ExternalID = externalID, post_PublishedAt = publishedAt,
                  post_Author = author, post_Text = text, post_Metadata = Some metadata,
                  post_CreatedAt = now, post_UpdatedAt = now\<rparr>
      in InTx (create_post_body E (ProcessingModeForType (src_Type source)) sourceID post) w)))"

definition PostUsecase_Update ::
  "ext \<Rightarrow> string \<Rightarrow> string \<Rightarrow> string \<Rightarrow> time \<Rightarrow> string option \<Rightarrow> metadata \<Rightarrow> world \<Rightarrow>
     Post result \<times> world" where
  "PostUsecase_Update E ident externalID text publishedAt author metadata w =
     (case ValidateUpdatePost externalID text publishedAt of
        Some e \<Rightarrow> (Inl e, w)
      | None \<Rightarrow>
     (case post_repo_Get E ident w of
        (Inl e, w) \<Rightarrow> (Inl e, w)
      | (Inr existing, w) \<Rightarrow>
     (let metadata = (case metadata of None \<Rightarrow> [] | Some m \<Rightarrow> m);
          (now, w) = time_now w
      in post_repo_Update E
           (existing\<lparr>post_ExternalID := externalID, post_PublishedAt := publishedAt,
                     post_Author := author, post_Text := text, post_Metadata := Some metadata,
                     post_UpdatedAt := now\<rparr>) w)))"

definition PostUsecase_Delete :: "ext \<Rightarrow> string \<Rightarrow> world \<Rightarrow> unit result \<times> world" where
  "PostUsecase_Delete E ident w = post_repo_Delete E ident w"

definition PostUsecase_Get :: "ext \<Rightarrow> string \<Rightarrow> world \<Rightarrow> Post result \<times> world" where
  "PostUsecase_Get E ident w = post_repo_Get E ident w"

definition PostUsecase_List :: "ext \<Rightarrow> ListPostsFilter \<Rightarrow> world \<Rightarrow> Post page result \<times> world" where
  "PostUsecase_List E f w =
     (let f = f\<lparr>lpf_PageSize := clamp_page_size (lpf_PageSize f)\<rparr> in
      case ValidateListPostsFilter E f of
        Some e \<Rightarrow> (Inl e, w)
      | None \<Rightarrow> post_repo_List E f w)"

section \<open>The transaction body is confined\<close>

lemma confined_summary_outbox_Save [intro]: "confined (summary_outbox_Save E ev)"
  unfolding summary_outbox_Save_def [abs_def] Let_def
  by (intro confined_case_sum confined_case confined_exec_tx confined_if confined_return)

lemma confined_NewSummaryEvent [intro]: "confined (NewSummaryEvent E ty s p)"
  unfolding NewSummaryEvent_def [abs_def]
  by (intro confined_let confined_new_uuid confined_time_now confined_return)

lemma confined_only_post [intro]: "confined (only_post_with_source False P)"
  unfolding only_post_with_source_def [abs_def] exec_def if_False
  by (intro confined_case confined_if confined_case_sum confined_exec_tx confined_return)

lemma confined_getBySource [intro]: "confined (getBySourceAndExternalID E s x)"
  unfolding getBySourceAndExternalID_def [abs_def]
  by (intro confined_case confined_only_post) (auto intro!: confined_if)

lemma confined_post_repo_Save [intro]: "confined (post_repo_Save E p)"
  unfolding post_repo_Save_def [abs_def] Let_def
  by (intro confined_bind confined_case_sum confined_if confined_return confined_exec_tx
      confined_getBySource)

lemma confined_create_post_body [intro]: "confined (create_post_body E mode s p)"
  unfolding create_post_body_def [abs_def]
  by (intro confined_case confined_post_repo_Save confined_return confined_if confined_let
      confined_NewSummaryEvent confined_summary_outbox_Save)

section \<open>What saving a post does inside a transaction\<close>

lemma only_post_inside:
  assumes "open_tx w = Some t" and "only_post_with_source False P w = (Inr (p, s), w')"
  shows "open_tx w' = Some t" and "committed w' = committed w"
    and "filter P (posts (tx_working t)) = [p]"
    and "s = find_source (p_source_id p) (sources (tx_working t))" and "\<not> tx_aborted t"
proof -
  obtain r1 w1 where 1: "exec_tx (select (\<lambda>_ d. take 2 (filter P (posts d)))) w = (r1, w1)"
    by (cases "exec_tx (select (\<lambda>_ d. take 2 (filter P (posts d)))) w")
  from 1 assms(2) obtain rows where r1: "r1 = Inr rows" "rows \<noteq> []"
    by (auto simp: only_post_with_source_def exec_def split: sum.splits if_splits)
  note a = exec_tx_inside_select [OF assms(1) 1 [unfolded r1(1)]]
  obtain r2 w2 where 2: "exec_tx (select (\<lambda>_ d. filter (\<lambda>s. s_id s \<in> p_source_id ` set rows) (sources d))) w1 = (r2, w2)"
    by (cases "exec_tx (select (\<lambda>_ d. filter (\<lambda>s. s_id s \<in> p_source_id ` set rows) (sources d))) w1")
  from 1 2 r1 assms(2) obtain srcs where r2: "r2 = Inr srcs"
    by (auto simp: only_post_with_source_def exec_def split: sum.splits)
  note b = exec_tx_inside_select [OF a(3) 2 [unfolded r2]]
  have e: "ent_only ''post'' rows = Inr p" "s = find_source (p_source_id p) srcs" "w' = w2"
    using 1 2 r1 r2 assms(2)
    by (auto simp: only_post_with_source_def exec_def split: sum.splits)
  from e(1) have rows: "rows = [p]" by (auto simp: ent_only_def split: list.splits)
  have "take 2 (filter P (posts (tx_working t))) = [p]" using rows a(2) by simp
  then show "filter P (posts (tx_working t)) = [p]"
    by (cases "filter P (posts (tx_working t))") (auto simp: take_Cons' split: if_splits)
  show "open_tx w' = Some t" "committed w' = committed w" "\<not> tx_aborted t"
    using a(1,4) b(3,4) e(3) by simp_all
  show "s = find_source (p_source_id p) (sources (tx_working t))"
    using e(2) b(2) rows find_source_filter [of "p_source_id p" "\<lambda>s. s_id s = p_source_id p"] by simp
qed

lemma getBySource_inside:
  assumes "open_tx w = Some t" and "getBySourceAndExternalID E sid x w = (Inr saved, w')"
  shows "open_tx w' = Some t" and "committed w' = committed w"
    and "\<exists>row. filter (\<lambda>p. p_source_id p = sid \<and> p_external_id p = x) (posts (tx_working t)) = [row] \<and>
      saved = post_value E (sources (tx_working t)) row"
    and "\<not> tx_aborted t"
proof -
  from assms(2) obtain p s where o: "only_post_with_source False
      (\<lambda>p. p_source_id p = sid \<and> p_external_id p = x) w = (Inr (p, s), w')"
    and v: "saved = post_to_domain_with_source E p s"
    by (auto simp: getBySourceAndExternalID_def split: sum.splits prod.splits if_splits)
  note i = only_post_inside [OF assms(1) o]
  show "open_tx w' = Some t" "committed w' = committed w" "\<not> tx_aborted t" using i by simp_all
  show "\<exists>row. filter (\<lambda>p. p_source_id p = sid \<and> p_external_id p = x) (posts (tx_working t)) = [row] \<and>
      saved = post_value E (sources (tx_working t)) row"
    using i(3) unfolding v i(4) post_value_def by blast
qed

definition post_key :: "uuid \<Rightarrow> string \<Rightarrow> post_row \<Rightarrow> bool" where
  "post_key sid x p \<longleftrightarrow> p_source_id p = sid \<and> p_external_id p = x"

lemma post_repo_Save_inside:
  assumes t: "open_tx w = Some t" and save: "post_repo_Save E p w = (Inr (saved, created), w')"
  shows "\<exists>sid pid d. parse_uuid E (post_SourceID p) = Some sid \<and> parse_uuid E (post_ID p) = Some pid \<and>
    insert_post (post_row_of pid sid p) (tx_working t) = Inr (created, d) \<and>
    open_tx w' = Some (t\<lparr>tx_working := d\<rparr>) \<and> committed w' = committed w \<and>
    (\<exists>row. filter (post_key sid (post_ExternalID p)) (posts d) = [row] \<and>
       saved = post_value E (sources d) row)"
proof -
  from save obtain sid pid where ids: "parse_uuid E (post_SourceID p) = Some sid"
    "parse_uuid E (post_ID p) = Some pid"
    by (auto simp: post_repo_Save_def parse_id_def split: option.splits)
  obtain r w1 where x: "exec_tx (insert_post_stmt (post_row_of pid sid p)) w = (r, w1)"
    by (cases "exec_tx (insert_post_stmt (post_row_of pid sid p)) w")
  show ?thesis
  proof (cases r)
    case (Inl e)
    then obtain t' where t': "open_tx w1 = Some t'" "tx_aborted t'" using exec_tx_inside(3) [OF t x] by blast
    have "getBySourceAndExternalID E sid (post_ExternalID p) w1 \<noteq> (Inr s, w2)" for s w2
      using getBySource_inside(4) [OF t'(1)] t'(2) by blast
    with save x ids Inl show ?thesis
      by (auto simp: post_repo_Save_def parse_id_def query_row_def split: sum.splits prod.splits if_splits)
  next
    case (Inr q)
    from exec_tx_inside(2) [OF t x Inr] obtain d where d: "insert_post_stmt (post_row_of pid sid p) (tx_started t) (tx_working t) = Inr (q, d)"
      "open_tx w1 = Some (t\<lparr>tx_working := d\<rparr>)" by blast
    have g: "getBySourceAndExternalID E sid (post_ExternalID p) w1 = (Inr saved, w') \<and> created = (q \<noteq> None)"
      using save x ids Inr
      by (auto simp: post_repo_Save_def parse_id_def query_row_def split: sum.splits prod.splits if_splits option.splits)
    note i = getBySource_inside [OF d(2) g [THEN conjunct1]]
    have "insert_post (post_row_of pid sid p) (tx_working t) = Inr (created, d)"
      using d(1) g by (auto simp: insert_post_stmt_def split: sum.splits prod.splits if_splits)
    moreover have "post_key sid (post_ExternalID p) = (\<lambda>r. p_source_id r = sid \<and> p_external_id r = post_ExternalID p)"
      by (simp add: post_key_def fun_eq_iff)
    ultimately show ?thesis using ids i exec_tx_inside(1) [OF t x] by auto
  qed
qed

text \<open>
  The effect of a creation on the database: the post was there already and nothing changed,
  or it is appended, together with a pending summarization event for it when the source is
  self-contained. In either case there is exactly one post with the key, the one reported.
\<close>

definition create_effect ::
  "ext \<Rightarrow> ProcessingMode \<Rightarrow> uuid \<Rightarrow> string \<Rightarrow> string \<Rightarrow> database \<Rightarrow> Post \<Rightarrow> database \<Rightarrow> bool" where
  "create_effect E mode sid x text d saved d' \<longleftrightarrow>
     (\<exists>row. filter (post_key sid x) (posts d') = [row] \<and> saved = post_value E (sources d') row \<and>
       (d' = d \<and> row \<in> set (posts d) \<or>
        \<not> (\<exists>q \<in> set (posts d). post_key sid x q) \<and> p_text row = text \<and>
        (if mode = ProcessingModeSelfContained
         then \<exists>ev. e_post_id ev = Some (p_id row) \<and> e_source_id ev = sid \<and>
                e_event_type ev = SummarizePost \<and> l_status ev = Pending \<and> l_next_attempt_at ev = None \<and>
                d' = d\<lparr>posts := posts d @ [row], summary_events := summary_events d @ [ev]\<rparr>
         else d' = d\<lparr>posts := posts d @ [row]\<rparr>)))"

lemma summary_outbox_Save_inside:
  assumes t: "open_tx w = Some t" and save: "summary_outbox_Save E ev w = (Inr saved, w')"
  shows "\<exists>i s p d. parse_uuid E (se_ID ev) = Some i \<and> parse_uuid E (se_SourceID ev) = Some s \<and>
    parse_opt_id E ''invalid post id'' (se_PostID ev) = Inr p \<and>
    insert_summary_event (new_summary_event_row i s p ev) (tx_working t) = Inr d \<and>
    open_tx w' = Some (t\<lparr>tx_working := d\<rparr>) \<and> committed w' = committed w \<and>
    saved = summary_event_to_domain E (new_summary_event_row i s p ev)"
proof -
  from save obtain i s p where ids: "parse_uuid E (se_ID ev) = Some i" "parse_uuid E (se_SourceID ev) = Some s"
    "parse_opt_id E ''invalid post id'' (se_PostID ev) = Inr p"
    by (auto simp: summary_outbox_Save_def parse_id_def split: option.splits sum.splits)
  obtain r w1 where x: "exec_tx (write_stmt (insert_summary_event (new_summary_event_row i s p ev))) w = (r, w1)"
    by (cases "exec_tx (write_stmt (insert_summary_event (new_summary_event_row i s p ev))) w")
  with save ids have r: "r = Inr ()" and w': "w' = w1"
    and saved: "saved = summary_event_to_domain E (new_summary_event_row i s p ev)"
    by (auto simp: summary_outbox_Save_def parse_id_def Let_def split: sum.splits if_splits)
  from exec_tx_inside(1) [OF t x] exec_tx_inside(2) [OF t x r] show ?thesis
    using ids w' saved by (auto simp: write_stmt_def split: sum.splits)
qed

lemma create_post_body_effect:
  assumes E: "ext_laws E" and t: "open_tx w = Some t"
    and body: "create_post_body E mode sourceID p w = (Inr saved, w')"
    and p: "post_SourceID p = sourceID" and t2: "open_tx w' = Some t2"
  shows "\<exists>sid. parse_uuid E sourceID = Some sid \<and>
    create_effect E mode sid (post_ExternalID p) (post_Text p) (tx_working t) saved (tx_working t2)"
proof -
  obtain r w1 where s: "post_repo_Save E p w = (r, w1)" by (cases "post_repo_Save E p w")
  with body obtain saved1 created where r: "r = Inr (saved1, created)"
    by (cases r) (auto simp: create_post_body_def)
  from post_repo_Save_inside [OF t s [unfolded r]] obtain sid pid d row where
    sid: "parse_uuid E sourceID = Some sid" "parse_uuid E (post_ID p) = Some pid"
    and ins: "insert_post (post_row_of pid sid p) (tx_working t) = Inr (created, d)"
    and w1: "open_tx w1 = Some (t\<lparr>tx_working := d\<rparr>)"
    and row: "filter (post_key sid (post_ExternalID p)) (posts d) = [row]" "saved1 = post_value E (sources d) row"
    using p by auto
  have key: "post_key sid (post_ExternalID p) (post_row_of pid sid p)"
    by (simp add: post_key_def post_row_of_def)
  have inserted: "if created then d = (tx_working t)\<lparr>posts := posts (tx_working t) @ [post_row_of pid sid p]\<rparr> \<and>
        \<not> (\<exists>q \<in> set (posts (tx_working t)). post_key sid (post_ExternalID p) q)
      else d = tx_working t"
    using ins by (auto simp: insert_post_def post_key_def post_row_of_def split: if_splits)
  have in_d: "row \<in> set (posts d)" using row(1) by (metis filter_is_subset list.set_intros(1) subsetD)
  show ?thesis
  proof (cases "mode = ProcessingModeSelfContained \<and> created")
    case False
    then have w': "w' = w1" "saved = saved1" using body s r by (auto simp: create_post_body_def)
    then have "t2 = t\<lparr>tx_working := d\<rparr>" using t2 w1 by simp
    then have t2: "tx_working t2 = d" by simp
    show ?thesis
      using False inserted row sid(1) in_d key
      by (cases created) (auto simp: create_effect_def t2 w' filter_append post_row_of_def split: if_splits)
  next
    case True
    then have new: "d = (tx_working t)\<lparr>posts := posts (tx_working t) @ [post_row_of pid sid p]\<rparr>"
      "\<not> (\<exists>q \<in> set (posts (tx_working t)). post_key sid (post_ExternalID p) q)" using inserted by auto
    then have row': "row = post_row_of pid sid p"
      using row(1) key by (auto simp: filter_empty_conv)
    obtain ev w2 where ev: "NewSummaryEvent E SummarizePost sourceID (Some (post_ID saved1)) w1 = (ev, w2)"
      by (cases "NewSummaryEvent E SummarizePost sourceID (Some (post_ID saved1)) w1")
    then have w2: "open_tx w2 = open_tx w1" and evf: "se_EventType ev = SummarizePost" "se_Status ev = Pending"
      "se_SourceID ev = sourceID" "se_PostID ev = Some (post_ID saved1)"
      by (auto simp: NewSummaryEvent_def new_uuid_def time_now_def)
    obtain r3 w3 where o: "summary_outbox_Save E ev w2 = (r3, w3)" by (cases "summary_outbox_Save E ev w2")
    with body s r True ev obtain se where r3: "r3 = Inr se" and w': "w' = w3" "saved = saved1"
      by (cases r3) (auto simp: create_post_body_def)
    have o2: "open_tx w2 = Some (t\<lparr>tx_working := d\<rparr>)" using w2 w1 by simp
    from summary_outbox_Save_inside [OF o2 o [unfolded r3]] obtain i ss pp d2 where
      es: "parse_uuid E (se_SourceID ev) = Some ss" "parse_opt_id E ''invalid post id'' (se_PostID ev) = Inr pp"
      "insert_summary_event (new_summary_event_row i ss pp ev) d = Inr d2"
      "open_tx w3 = Some (t\<lparr>tx_working := d2\<rparr>)" by auto
    have "ss = sid" using es(1) evf(3) sid(1) by simp
    moreover have "pp = Some (p_id row)"
      using es(2) evf(4) row(2) E by (simp add: parse_opt_id_def)
    moreover have "d2 = d\<lparr>summary_events := summary_events d @ [new_summary_event_row i ss pp ev]\<rparr>"
      using es(3) by (auto simp: insert_summary_event_def split: if_splits)
    moreover have "t2 = t\<lparr>tx_working := d2\<rparr>" using t2 es(4) w' by simp
    ultimately show ?thesis
      using True new row sid(1) evf row' w'(2)
      by (auto simp: create_effect_def new_summary_event_row_def post_row_of_def intro!: exI)
  qed
qed

section \<open>Creation is atomic and idempotent\<close>

lemma PostUsecase_Create_effect:
  assumes "ext_laws E" and "open_tx w = None"
    and "PostUsecase_Create E sourceID x text publishedAt author metadata w = (r, w')"
  shows "(committed w' = committed w \<and> (\<forall>s. r \<noteq> Inr s)) \<or>
    (\<exists>sid src saved. parse_uuid E sourceID = Some sid \<and> src \<in> set (sources (committed w)) \<and> s_id src = sid \<and>
       create_effect E (ProcessingModeForType (s_type src)) sid x text (committed w) saved (committed w') \<and>
       (\<forall>y. r = Inr y \<longrightarrow> y = saved))"
proof -
  obtain g w1 where g: "source_repo_Get E sourceID w = (g, w1)" by (cases "source_repo_Get E sourceID w")
  note eff = source_repo_Get_effect [OF assms(2) g]
  show ?thesis
  proof (cases "ValidateCreatePost E sourceID x text publishedAt = None \<and> (\<exists>s. g = Inr s)")
    case False
    then show ?thesis using assms(3) g eff(2)
      by (cases g) (auto simp: PostUsecase_Create_def split: option.splits)
  next
    case True
    then obtain s where s: "g = Inr s" and v: "ValidateCreatePost E sourceID x text publishedAt = None" by blast
    from eff(3) [OF s] obtain i row where row: "parse_uuid E sourceID = Some i"
      "filter (\<lambda>r. s_id r = i) (sources (committed w)) = [row]" "source_to_domain E row = Inr s" by blast
    have "row \<in> set (filter (\<lambda>r. s_id r = i) (sources (committed w)))" using row(2) by simp
    then have src: "row \<in> set (sources (committed w))" "s_id row = i" by simp_all
    have ty: "src_Type s = s_type row"
      using row(3) by (auto simp: source_to_domain_def split: option.splits sum.splits)
    define post where "post = \<lparr>post_ID = uuid_string E (fresh_ids w1 0), post_SourceID = sourceID,
      post_Source = empty_source_info, post_ExternalID = x, post_PublishedAt = publishedAt,
      post_Author = author, post_Text = text,
      post_Metadata = Some (case metadata of None \<Rightarrow> [] | Some m \<Rightarrow> m),
      post_CreatedAt = clock w1 0, post_UpdatedAt = clock w1 0\<rparr>"
    define w2 where "w2 = w1\<lparr>clock := advance (clock w1), fresh_ids := advance (fresh_ids w1)\<rparr>"
    define mode where "mode = ProcessingModeForType (s_type row)"
    have post: "post_SourceID post = sourceID" "post_ExternalID post = x" "post_Text post = text"
      by (simp_all add: post_def)
    have run: "InTx (create_post_body E mode sourceID post) w2 = (r, w')"
      using assms(3) g s v
      by (simp add: PostUsecase_Create_def time_now_def new_uuid_def post_def w2_def mode_def ty Let_def)
    have c2: "committed w2 = committed w" using eff(2) by (simp add: w2_def)
    have "(committed (snd (InTx (create_post_body E mode sourceID post) w2)) = committed w2 \<and>
        (\<forall>y. fst (InTx (create_post_body E mode sourceID post) w2) \<noteq> Inr y)) \<or>
      (\<exists>saved. (parse_uuid E sourceID = Some i \<and> create_effect E mode i x text (committed w) saved
          (committed (snd (InTx (create_post_body E mode sourceID post) w2)))) \<and>
        (\<forall>y. fst (InTx (create_post_body E mode sourceID post) w2) = Inr y \<longrightarrow> y = saved))"
    proof (rule InTx_rule [where P = "\<lambda>saved d'. parse_uuid E sourceID = Some i \<and>
        create_effect E mode i x text (committed w) saved d'", OF confined_create_post_body])
      fix w1 t saved w3 t2
      assume a: "open_tx w1 = Some t" "tx_working t = committed w2"
        "create_post_body E mode sourceID post w1 = (Inr saved, w3)" "open_tx w3 = Some t2"
      from create_post_body_effect [OF assms(1) a(1,3) post(1) a(4)] a(2) c2
      show "parse_uuid E sourceID = Some i \<and> create_effect E mode i x text (committed w) saved (tx_working t2)"
        by (auto simp: row(1) post)
    qed
    then show ?thesis
      using run c2 row(1) src unfolding mode_def by auto
  qed
qed

text \<open>
  C5. Creating a post is atomic whatever fails (any statement, the commit, a lost answer): the
  database is unchanged and an error is reported, or it ends in exactly the effect of a
  creation: one post with the key \<open>(source, external id)\<close>, and when it is new and its source
  self-contained, its pending summarization event. A post that was there already changes
  nothing, and a reported post is the stored one.
\<close>

theorem PostUsecase_Create_atomic:
  assumes "ext_laws E" and "open_tx w = None"
    and "PostUsecase_Create E sourceID x text publishedAt author metadata w = (r, w')"
  shows "(committed w' = committed w \<and> (\<forall>s. r \<noteq> Inr s)) \<or>
    (\<exists>sid src saved. parse_uuid E sourceID = Some sid \<and> src \<in> set (sources (committed w)) \<and> s_id src = sid \<and>
       create_effect E (ProcessingModeForType (s_type src)) sid x text (committed w) saved (committed w') \<and>
       (\<forall>y. r = Inr y \<longrightarrow> y = saved))"
  using assms by (rule PostUsecase_Create_effect)

theorem PostUsecase_Create_atomic_witness:
  "let r = PostUsecase_Create decimal_ext ''9'' ''x1'' ''hello'' 77 None None
       (quiet_world (empty_db\<lparr>sources := [sample_source 9 SourceTypeRSS]\<rparr>))
   in (committed (snd r) = empty_db\<lparr>sources := [sample_source 9 SourceTypeRSS]\<rparr> \<and> (\<forall>s. fst r \<noteq> Inr s)) \<or>
    (\<exists>sid src saved. parse_uuid decimal_ext ''9'' = Some sid \<and> src \<in> set [sample_source 9 SourceTypeRSS] \<and>
       s_id src = sid \<and>
       create_effect decimal_ext (ProcessingModeForType (s_type src)) sid ''x1'' ''hello''
         (empty_db\<lparr>sources := [sample_source 9 SourceTypeRSS]\<rparr>) saved (committed (snd r)) \<and>
       (\<forall>y. fst r = Inr y \<longrightarrow> y = saved))"
proof -
  let ?w = "quiet_world (empty_db\<lparr>sources := [sample_source 9 SourceTypeRSS]\<rparr>)"
  have "open_tx ?w = None" by simp
  from PostUsecase_Create_atomic [OF decimal_ext_laws this surjective_pairing,
      of "''9''" "''x1''" "''hello''" 77 None None]
  show ?thesis unfolding Let_def by simp
qed

section \<open>Creation succeeds\<close>

lemma only_post_ready:
  assumes t: "ready t w" and one: "filter P (posts (tx_working t)) = [p]"
  shows "\<exists>w'. only_post_with_source False P w =
      (Inr (p, find_source (p_source_id p) (sources (tx_working t))), w') \<and> ready t w' \<and>
      clock w' = clock w \<and> fresh_ids w' = fresh_ids w"
proof -
  obtain w1 where 1: "exec_tx (select (\<lambda>_ d. take 2 (filter P (posts d)))) w = (Inr [p], w1)"
    "ready t w1" "clock w1 = clock w" "fresh_ids w1 = fresh_ids w"
    using ready_select [OF t, of "\<lambda>_ d. take 2 (filter P (posts d))"] one by auto
  obtain w2 where 2: "exec_tx (select (\<lambda>_ d. filter (\<lambda>s. s_id s \<in> p_source_id ` set [p]) (sources d))) w1 =
      (Inr (filter (\<lambda>s. s_id s \<in> p_source_id ` set [p]) (sources (tx_working t))), w2)"
    "ready t w2" "clock w2 = clock w1" "fresh_ids w2 = fresh_ids w1"
    using ready_select [OF 1(2), of "\<lambda>_ d. filter (\<lambda>s. s_id s \<in> p_source_id ` set [p]) (sources d)"] by auto
  have "find_source (p_source_id p) (filter (\<lambda>s. s_id s \<in> p_source_id ` set [p]) (sources (tx_working t))) =
      find_source (p_source_id p) (sources (tx_working t))"
    by (rule find_source_filter) simp
  then have "only_post_with_source False P w =
      (Inr (p, find_source (p_source_id p) (sources (tx_working t))), w2)"
    unfolding only_post_with_source_def exec_def if_False 1(1) prod.case sum.case 2(1)
    by (simp add: ent_only_def)
  then show ?thesis using 1 2 by auto
qed

lemma post_repo_Save_ready:
  assumes t: "ready t w"
    and ids: "parse_uuid E (post_SourceID p) = Some sid" "parse_uuid E (post_ID p) = Some pid"
    and ins: "insert_post (post_row_of pid sid p) (tx_working t) = Inr (created, d)"
    and one: "filter (post_key sid (post_ExternalID p)) (posts d) = [row]"
  shows "\<exists>w'. post_repo_Save E p w = (Inr (post_value E (sources d) row, created), w') \<and>
    ready (t\<lparr>tx_working := d\<rparr>) w' \<and> clock w' = clock w \<and> fresh_ids w' = fresh_ids w"
proof -
  have "insert_post_stmt (post_row_of pid sid p) (tx_started t) (tx_working t) =
      Inr (if created then Some pid else None, d)"
    using ins by (simp add: insert_post_stmt_def post_row_of_def)
  from ready_stmt [of _ _ "insert_post_stmt (post_row_of pid sid p)", OF t this] obtain w1 where
    1: "exec_tx (insert_post_stmt (post_row_of pid sid p)) w = (Inr (if created then Some pid else None), w1)"
    "ready (t\<lparr>tx_working := d\<rparr>) w1" "clock w1 = clock w" "fresh_ids w1 = fresh_ids w" by blast
  have row: "p_source_id row = sid"
    using filter_one [OF one] by (simp add: post_key_def)
  have "filter (\<lambda>q. p_source_id q = sid \<and> p_external_id q = post_ExternalID p)
      (posts (tx_working (t\<lparr>tx_working := d\<rparr>))) = [row]"
    using one by (simp add: post_key_def [abs_def])
  from only_post_ready [OF 1(2) this] obtain w2 where
    2: "only_post_with_source False (\<lambda>q. p_source_id q = sid \<and> p_external_id q = post_ExternalID p) w1 =
        (Inr (row, find_source (p_source_id row) (sources d)), w2)"
    "ready (t\<lparr>tx_working := d\<rparr>) w2" "clock w2 = clock w1" "fresh_ids w2 = fresh_ids w1" by auto
  have "post_repo_Save E p w = (Inr (post_value E (sources d) row, created), w2)"
    using 1(1) 2(1) ids
    by (simp add: post_repo_Save_def parse_id_def getBySourceAndExternalID_def query_row_def
        post_value_def errors_is.simps)
  then show ?thesis using 1 2 by auto
qed

text \<open>
  The rows a creation adds, with the identifiers they take: none when the post is there, else
  the post, and for a self-contained source its event.
\<close>

definition created_rows ::
  "uuid stream \<Rightarrow> uuid \<Rightarrow> string \<Rightarrow> database \<Rightarrow> database \<Rightarrow> uuid stream \<Rightarrow> bool" where
  "created_rows ids sid x d d' ids' \<longleftrightarrow>
     (\<exists>q \<in> set (posts d). post_key sid x q) \<and> d' = d \<and> ids' = advance ids \<or>
     \<not> (\<exists>q \<in> set (posts d). post_key sid x q) \<and>
     (\<exists>row. p_id row = ids 0 \<and> post_key sid x row \<and>
        (d' = d\<lparr>posts := posts d @ [row]\<rparr> \<and> ids' = advance ids \<or>
         (\<exists>ev. l_id ev = ids 1 \<and> e_post_id ev = Some (ids 0) \<and> ids' = advance (advance ids) \<and>
            d' = d\<lparr>posts := posts d @ [row], summary_events := summary_events d @ [ev]\<rparr>)))"

text \<open>In an open transaction without faults: the event of a new post is stored.\<close>

lemma post_event_ready:
  assumes E: "ext_laws E" and sid: "parse_uuid E sourceID = Some sid" and r: "ready t w" and d: "tx_working t = d"
    and fresh: "fresh_ids w 0 \<notin> l_id ` set (summary_events d)" "\<forall>e \<in> set (summary_events d). e_post_id e \<noteq> Some pid"
    and refs: "sid \<in> source_ids d" "pid \<in> post_ids d"
  shows "\<exists>ev w1 w2 u row. NewSummaryEvent E SummarizePost sourceID (Some (uuid_string E pid)) w = (ev, w1) \<and>
    summary_outbox_Save E ev w1 = (Inr u, w2) \<and> ready (t\<lparr>tx_working := d\<lparr>summary_events := summary_events d @ [row]\<rparr>\<rparr>) w2 \<and>
    l_id row = fresh_ids w 0 \<and> e_post_id row = Some pid \<and> fresh_ids w2 = advance (fresh_ids w) \<and> clock w2 = advance (clock w)"
proof -
  obtain ev w1 where ev: "NewSummaryEvent E SummarizePost sourceID (Some (uuid_string E pid)) w = (ev, w1)"
    by (cases "NewSummaryEvent E SummarizePost sourceID (Some (uuid_string E pid)) w")
  then have w1: "ready t w1" "fresh_ids w1 = advance (fresh_ids w)" "clock w1 = advance (clock w)"
    and evf: "se_ID ev = uuid_string E (fresh_ids w 0)" "se_SourceID ev = sourceID"
      "se_PostID ev = Some (uuid_string E pid)" "se_EventType ev = SummarizePost"
    using r by (auto simp: NewSummaryEvent_def new_uuid_def time_now_def)
  let ?row = "new_summary_event_row (fresh_ids w 0) sid (Some pid) ev"
  have "insert_summary_event ?row d = Inr (d\<lparr>summary_events := summary_events d @ [?row]\<rparr>)"
    using fresh refs evf(4)
    by (auto simp: insert_summary_event_def new_summary_event_row_def opt_in_def
        summary_event_conflict_def conflicts_active_post_def conflicts_active_source_def)
  then have "write_stmt (insert_summary_event ?row) (tx_started t) (tx_working t) =
      Inr ((), d\<lparr>summary_events := summary_events d @ [?row]\<rparr>)" by (simp add: write_stmt_def d)
  from ready_stmt [of _ _ "write_stmt (insert_summary_event ?row)", OF w1(1) this] obtain w2 where
    2: "exec_tx (write_stmt (insert_summary_event ?row)) w1 = (Inr (), w2)"
      "ready (t\<lparr>tx_working := d\<lparr>summary_events := summary_events d @ [?row]\<rparr>\<rparr>) w2" "fresh_ids w2 = fresh_ids w1"
      "clock w2 = clock w1"
    by auto
  have "summary_outbox_Save E ev w1 = (Inr (summary_event_to_domain E ?row), w2)"
    using 2(1) E sid by (simp add: summary_outbox_Save_def evf parse_id_def parse_opt_id_def ext_lawsD Let_def)
  then show ?thesis
    using ev 2 w1(2,3)
    by (intro exI [of _ ev] exI [of _ w1] exI [of _ w2] exI [of _ "summary_event_to_domain E ?row"] exI [of _ ?row])
      (simp add: new_summary_event_row_def)
qed

text \<open>The post itself: it is inserted, or the one with its key is found.\<close>

lemma post_save_ready:
  assumes E: "ext_laws E" and pids: "parse_uuid E (post_SourceID post) = Some sid" "post_ID post = uuid_string E pid"
    and r: "ready t w" and d: "tx_working t = d" and sid: "sid \<in> source_ids d" and fresh: "pid \<notin> post_ids d"
    and keys: "distinct (map (\<lambda>p. (p_source_id p, p_external_id p)) (posts d))"
  shows "\<exists>row w1 d1. let present = (\<exists>q \<in> set (posts d). post_key sid (post_ExternalID post) q) in
    post_repo_Save E post w = (Inr (post_value E (sources d1) row, \<not> present), w1) \<and> ready (t\<lparr>tx_working := d1\<rparr>) w1 \<and>
    fresh_ids w1 = fresh_ids w \<and> clock w1 = clock w \<and>
    (if present then d1 = d
     else d1 = d\<lparr>posts := posts d @ [row]\<rparr> \<and> p_id row = pid \<and> post_key sid (post_ExternalID post) row)"
proof -
  let ?x = "post_ExternalID post" and ?new = "post_row_of pid sid post"
  define present where "present \<longleftrightarrow> (\<exists>q \<in> set (posts d). post_key sid ?x q)"
  define d1 where "d1 = (if present then d else d\<lparr>posts := posts d @ [?new]\<rparr>)"
  have ins: "insert_post ?new (tx_working t) = Inr (\<not> present, d1)"
    using fresh sid unfolding d by (auto simp: insert_post_def post_row_of_def present_def post_key_def d1_def)
  have "\<exists>row. filter (post_key sid ?x) (posts d1) = [row] \<and> (\<not> present \<longrightarrow> row = ?new)"
  proof (cases present)
    case True
    then obtain q where q: "q \<in> set (posts d)" "post_key sid ?x q" by (auto simp: present_def)
    from filter_key_one [OF keys q(1)] q(2) have "filter (post_key sid ?x) (posts d) = [q]"
      by (simp add: post_key_def [abs_def])
    then show ?thesis using True by (simp add: d1_def)
  next
    case False
    then show ?thesis by (auto simp: d1_def present_def filter_empty_conv post_key_def post_row_of_def)
  qed
  then obtain row where row: "filter (post_key sid ?x) (posts d1) = [row]" "\<not> present \<Longrightarrow> row = ?new" by blast
  have pid: "parse_uuid E (post_ID post) = Some pid" using E by (simp add: pids(2) ext_lawsD)
  obtain w1 where 1: "post_repo_Save E post w = (Inr (post_value E (sources d1) row, \<not> present), w1)"
    "ready (t\<lparr>tx_working := d1\<rparr>) w1" "fresh_ids w1 = fresh_ids w" "clock w1 = clock w"
    using post_repo_Save_ready [OF r pids(1) pid ins row(1)] by blast
  have "p_id ?new = pid" "post_key sid ?x ?new" by (simp_all add: post_key_def post_row_of_def)
  then have "if present then d1 = d else d1 = d\<lparr>posts := posts d @ [row]\<rparr> \<and> p_id row = pid \<and> post_key sid ?x row"
    using row(2) by (auto simp: d1_def)
  with 1 show ?thesis
    unfolding Let_def present_def [symmetric] by (intro exI [of _ row] exI [of _ w1] exI [of _ d1]) blast
qed

lemma create_post_body_ready:
  assumes E: "ext_laws E" and sid: "parse_uuid E sourceID = Some sid" and post: "post_SourceID post = sourceID"
    "post_ID post = uuid_string E (ids 0)" and r: "ready t w" and d: "tx_working t = d" and ids: "fresh_ids w = advance ids"
    and keys: "distinct (map (\<lambda>p. (p_source_id p, p_external_id p)) (posts d))" and sid_in: "sid \<in> source_ids d"
    and fresh: "ids 0 \<notin> post_ids d" "ids 1 \<notin> l_id ` set (summary_events d)"
      "\<forall>e \<in> set (summary_events d). e_post_id e \<noteq> Some (ids 0)"
  shows "\<exists>y w2 t2 k. create_post_body E mode sourceID post w = (Inr y, w2) \<and> ready t2 w2 \<and>
    clock w2 = (\<lambda>n. clock w (n + k)) \<and> created_rows ids sid (post_ExternalID post) d (tx_working t2) (fresh_ids w2)"
proof -
  let ?x = "post_ExternalID post"
  define present where "present \<longleftrightarrow> (\<exists>q \<in> set (posts d). post_key sid ?x q)"
  obtain row w1 d1 where 1: "post_repo_Save E post w = (Inr (post_value E (sources d1) row, \<not> present), w1)"
    "ready (t\<lparr>tx_working := d1\<rparr>) w1" "fresh_ids w1 = fresh_ids w" "clock w1 = clock w"
    and d1: "if present then d1 = d else d1 = d\<lparr>posts := posts d @ [row]\<rparr> \<and> p_id row = ids 0 \<and> post_key sid ?x row"
    using post_save_ready [OF E sid [folded post(1)] post(2) r d sid_in fresh(1) keys] unfolding present_def Let_def by blast
  show ?thesis
  proof (cases "mode = ProcessingModeSelfContained \<and> \<not> present")
    case False
    then have "create_post_body E mode sourceID post w = (Inr (post_value E (sources d1) row), w1)"
      by (auto simp: create_post_body_def 1(1))
    moreover have "created_rows ids sid ?x d d1 (fresh_ids w1)"
      using d1 1(3) ids by (auto simp: created_rows_def present_def split: if_splits)
    moreover have "clock w1 = (\<lambda>n. clock w (n + 0))" using 1(4) by simp
    ultimately show ?thesis using 1(2) by fastforce
  next
    case True
    then have d1': "d1 = d\<lparr>posts := posts d @ [row]\<rparr>" "p_id row = ids 0" "post_key sid ?x row" using d1 by simp_all
    have "fresh_ids w1 0 \<notin> l_id ` set (summary_events d1)" "\<forall>e \<in> set (summary_events d1). e_post_id e \<noteq> Some (ids 0)"
      "sid \<in> source_ids d1" "ids 0 \<in> post_ids d1"
      using fresh(2,3) sid_in 1(3) ids d1' by (simp_all add: source_ids_def post_ids_def)
    from post_event_ready [OF E sid 1(2) _ this] obtain ev v1 w2 u q where
      ev: "NewSummaryEvent E SummarizePost sourceID (Some (uuid_string E (ids 0))) w1 = (ev, v1)"
        "summary_outbox_Save E ev v1 = (Inr u, w2)"
      and 2: "ready (t\<lparr>tx_working := d1\<lparr>summary_events := summary_events d1 @ [q]\<rparr>\<rparr>) w2"
        "l_id q = fresh_ids w1 0" "e_post_id q = Some (ids 0)" "fresh_ids w2 = advance (fresh_ids w1)" "clock w2 = advance (clock w1)"
      by auto
    have "create_post_body E mode sourceID post w = (Inr (post_value E (sources d1) row), w2)"
      using True ev d1'(2) by (simp add: create_post_body_def 1(1))
    moreover have "created_rows ids sid ?x d (d1\<lparr>summary_events := summary_events d1 @ [q]\<rparr>) (fresh_ids w2)"
      using True 2(2-4) 1(3) ids d1' unfolding created_rows_def present_def
      by (intro disjI2 conjI exI [of _ row] disjI2 exI [of _ q]) simp_all
    moreover have "clock w2 = (\<lambda>n. clock w (n + 1))" using 1(4) 2(5) by (simp add: advance_def)
    ultimately show ?thesis using 2(1) by fastforce
  qed
qed

text \<open>
  Without faults a valid creation for a stored source succeeds: it reports the stored
  post, and the database shows the effect of a creation. With \<open>PostUsecase_Create_effect\<close>, a
  second creation with the same key returns the post of the first and changes nothing.
\<close>

lemma PostUsecase_Create_succeeds:
  assumes E: "ext_laws E" and w: "fault_free w"
    and v: "ValidateCreatePost E sourceID x text publishedAt = None"
    and sid: "parse_uuid E sourceID = Some sid"
    and src: "filter (\<lambda>r. s_id r = sid) (sources (committed w)) = [src]" "source_row_ok src"
    and keys: "distinct (map (\<lambda>p. (p_source_id p, p_external_id p)) (posts (committed w)))"
    and fresh: "fresh_ids w 0 \<notin> post_ids (committed w)"
      "fresh_ids w 1 \<notin> l_id ` set (summary_events (committed w))"
      "\<forall>e \<in> set (summary_events (committed w)). e_post_id e \<noteq> Some (fresh_ids w 0)"
  shows "\<exists>saved w'. PostUsecase_Create E sourceID x text publishedAt author metadata w = (Inr saved, w') \<and>
    fault_free w' \<and> clock_suffix w w' \<and>
    created_rows (fresh_ids w) sid x (committed w) (committed w') (fresh_ids w') \<and>
    create_effect E (ProcessingModeForType (s_type src)) sid x text (committed w) saved (committed w')"
proof -
  obtain s where s: "source_to_domain E src = Inr s" using src(2) source_row_ok_to_domain [of src E] by blast
  have ty: "src_Type s = s_type src"
    using s by (auto simp: source_to_domain_def split: option.splits sum.splits)
  have sid_in: "sid \<in> source_ids (committed w)"
    using filter_one [OF src(1)] unfolding source_ids_def by auto
  have get: "source_repo_Get E sourceID w = (Inr s, after_read w)"
    using s by (simp add: source_repo_Get_def parse_id_def sid fault_free_read(2) [OF w] src(1) ent_only_def)
  define mode where "mode = ProcessingModeForType (s_type src)"
  define post where "post = \<lparr>post_ID = uuid_string E (fresh_ids w 0), post_SourceID = sourceID,
    post_Source = empty_source_info, post_ExternalID = x, post_PublishedAt = publishedAt,
    post_Author = author, post_Text = text,
    post_Metadata = Some (case metadata of None \<Rightarrow> [] | Some m \<Rightarrow> m),
    post_CreatedAt = clock w (Suc 0), post_UpdatedAt = clock w (Suc 0)\<rparr>"
  have post: "post_SourceID post = sourceID" "post_ID post = uuid_string E (fresh_ids w 0)" "post_ExternalID post = x"
    by (simp_all add: post_def)
  define w2 where "w2 = (after_read w)\<lparr>clock := advance (advance (clock w)), fresh_ids := advance (fresh_ids w)\<rparr>"
  have run: "PostUsecase_Create E sourceID x text publishedAt author metadata w =
      InTx (create_post_body E mode sourceID post) w2"
    by (simp add: PostUsecase_Create_def v get time_now_def new_uuid_def post_def w2_def mode_def ty Let_def)
  have w2: "fault_free w2" "committed w2 = committed w" "fresh_ids w2 = advance (fresh_ids w)" "clock w2 = advance (advance (clock w))"
    using w by (simp_all add: w2_def fault_free_def after_read_def)
  have "\<exists>y w'. InTx (create_post_body E mode sourceID post) w2 = (Inr y, w') \<and> fault_free w' \<and>
      clock_suffix w w' \<and> created_rows (fresh_ids w) sid x (committed w) (committed w') (fresh_ids w')"
    unfolding clock_suffix_def
  proof (rule InTx_healthy_effect [OF w2(1)])
    fix w1 t assume r: "ready t w1" and d: "tx_working t = committed w2" and ids1: "fresh_ids w1 = fresh_ids w2"
      and clock1: "clock w1 = advance (clock w2)"
    obtain y v t2 k where b: "create_post_body E mode sourceID post w1 = (Inr y, v)" "ready t2 v"
      "clock v = (\<lambda>n. clock w1 (n + k))" "created_rows (fresh_ids w) sid x (committed w) (tx_working t2) (fresh_ids v)"
      using create_post_body_ready [OF E sid post(1,2) r d [unfolded w2(2)] ids1 [unfolded w2(3)] keys sid_in fresh, of mode]
      unfolding post(3) by blast
    have "clock v = (\<lambda>n. clock w (n + (k + 3)))" unfolding b(3) clock1 w2(4) by (simp add: advance_def eval_nat_numeral)
    with b show "\<exists>y w2 t2. create_post_body E mode sourceID post w1 = (Inr y, w2) \<and> ready t2 w2 \<and>
        (\<exists>k. clock w2 = (\<lambda>n. clock w (n + k))) \<and>
        created_rows (fresh_ids w) sid x (committed w) (tx_working t2) (fresh_ids w2)" by blast
  qed
  then obtain saved w' where res: "PostUsecase_Create E sourceID x text publishedAt author metadata w = (Inr saved, w')"
    and w': "fault_free w'" "clock_suffix w w'" "created_rows (fresh_ids w) sid x (committed w) (committed w') (fresh_ids w')"
    unfolding run by blast
  have src_eq: "r = src" if "r \<in> set (sources (committed w))" "s_id r = sid" for r
    using that filter_one [OF src(1)] by blast
  have "open_tx w = None" using w by (simp add: fault_free_def)
  from PostUsecase_Create_effect [OF E this res] res w' src_eq sid show ?thesis by auto
qed

end
