(* ===== verification/Reaping.thy ===== *)
theory Reaping
  imports Tables
begin

text \<open>
  The loop that both reapers run over the events whose lease ended
  (\<open>SummaryUsecase.ReapStuckEvents\<close>, \<open>ScoreUsecase.ReapStuckScoreEvents\<close>): it is written out
  twice in the code with the same text, and is one function here, applied to the accessors
  and the guarded write of either outbox. What the loop may do to a table of leases is
  proved once, for any guarded write that keeps the contract of the locale.
\<close>

fun reap_loop ::
  "('e \<Rightarrow> int) \<Rightarrow> ('e \<Rightarrow> world \<Rightarrow> bool result \<times> world) \<Rightarrow> int \<Rightarrow> 'e list \<Rightarrow> nat \<Rightarrow> world \<Rightarrow>
     (nat \<times> error option) \<times> world" where
  "reap_loop attempts fail_expired maxAttempts [] terminated w = ((terminated, None), w)"
| "reap_loop attempts fail_expired maxAttempts (ev # evs) terminated w =
     (if attempts ev < maxAttempts then reap_loop attempts fail_expired maxAttempts evs terminated w
      else case fail_expired ev w of
        (Inl termErr, w) \<Rightarrow> ((terminated, Some (errorf_ctx ''fail expired'' termErr)), w)
      | (Inr ok, w) \<Rightarrow>
          reap_loop attempts fail_expired maxAttempts evs (if ok then Suc terminated else terminated) w)"

section \<open>Reaped rows\<close>

definition doomed :: "int \<Rightarrow> duration \<Rightarrow> time \<Rightarrow> 'r lease_row_scheme \<Rightarrow> bool" where
  "doomed maxAttempts grace now r \<longleftrightarrow> maxAttempts \<le> l_attempt_count r \<and> stuck grace now r"

definition reaped ::
  "int \<Rightarrow> duration \<Rightarrow> string \<Rightarrow> 'r lease_row_scheme \<Rightarrow> 'r lease_row_scheme \<Rightarrow> bool" where
  "reaped maxAttempts grace x r r' \<longleftrightarrow>
     r' = r \<or> (\<exists>now. doomed maxAttempts grace now r \<and> r' = fail_row x now r)"

lemma reaped_trans: "reaped n g x a b \<Longrightarrow> reaped n g x b c \<Longrightarrow> reaped n g x a c"
  by (auto simp: reaped_def doomed_def stuck_def fail_row_def)

lemma reaped_all_trans:
  "list_all2 (reaped n g x) as bs \<Longrightarrow> list_all2 (reaped n g x) bs cs \<Longrightarrow> list_all2 (reaped n g x) as cs"
  by (rule list_all2_trans [OF reaped_trans])

lemma reaped_refl [simp]: "list_all2 (reaped n g x) as as"
  by (rule list_all2_refl) (simp add: reaped_def)

lemma reaped_update:
  assumes "\<And>r. P r \<Longrightarrow> doomed n g now r"
  shows "list_all2 (reaped n g x) rows (update_where P (fail_row x now) rows)"
  unfolding update_where_def list_all2_map2
  by (rule list_all2_refl) (auto simp: reaped_def dest: assms)

definition in_progress :: "'r lease_row_scheme list \<Rightarrow> nat" where
  "in_progress rows = count_where (\<lambda>r. l_status r = Processing) rows"

lemma in_progress_update:
  assumes "\<And>r. P r \<Longrightarrow> doomed n g now r"
  shows "in_progress (update_where P (fail_row x now) rows) + count_where P rows = in_progress rows"
proof (induction rows)
  case (Cons r rows)
  have "P r \<Longrightarrow> l_status r = Processing \<and> l_status (fail_row x now r) = Failed"
    using assms [of r] by (simp add: doomed_def stuck_def fail_row_def)
  then show ?case using Cons by (auto simp: in_progress_def)
qed (simp add: in_progress_def)

section \<open>The contract of a guarded write\<close>

text \<open>
  A table of leases inside the database, and a write that, outside a transaction, turns rows
  it finds doomed into failed ones: all of a guard or none, and with the answer true at least one.
\<close>

locale reaper =
  fixes rows :: "database \<Rightarrow> 'r lease_row_scheme list"
    and put :: "'r lease_row_scheme list \<Rightarrow> database \<Rightarrow> database"
    and fail_expired :: "'e \<Rightarrow> world \<Rightarrow> bool result \<times> world"
    and maxAttempts :: int and grace :: duration and msg :: string
  assumes rows_put: "rows (put rs d) = rs"
    and put_rows: "put (rows d) d = d"
    and put_put: "put rs' (put rs d) = put rs' d"
    and fail_effect: "open_tx w = None \<Longrightarrow> fail_expired ev w = (r, w') \<Longrightarrow>
      open_tx w' = None \<and>
      (committed w' = committed w \<and> r \<noteq> Inr True \<or>
       (\<exists>P now. (\<forall>q. P q \<longrightarrow> doomed maxAttempts grace now q) \<and> (r = Inr True \<longrightarrow> 0 < count_where P (rows (committed w))) \<and>
          committed w' = put (update_where P (fail_row msg now) (rows (committed w))) (committed w)))"
begin

lemma fail_one:
  assumes "open_tx w = None" and "fail_expired ev w = (r, w')"
  shows "open_tx w' = None \<and> committed w' = put (rows (committed w')) (committed w) \<and>
    list_all2 (reaped maxAttempts grace msg) (rows (committed w)) (rows (committed w')) \<and>
    (if r = Inr True then 1 else 0) + in_progress (rows (committed w')) \<le> in_progress (rows (committed w))"
proof (cases "committed w' = committed w \<and> r \<noteq> Inr True")
  case True
  then show ?thesis using fail_effect [OF assms] by (auto simp: put_rows)
next
  case False
  then obtain P now where P: "\<And>q. P q \<Longrightarrow> doomed maxAttempts grace now q"
    "r = Inr True \<Longrightarrow> 0 < count_where P (rows (committed w))"
    "committed w' = put (update_where P (fail_row msg now) (rows (committed w))) (committed w)"
    using fail_effect [OF assms] by blast
  have rows': "rows (committed w') = update_where P (fail_row msg now) (rows (committed w))"
    by (simp add: P(3) rows_put)
  have "in_progress (rows (committed w')) + count_where P (rows (committed w)) = in_progress (rows (committed w))"
    unfolding rows' by (rule in_progress_update [OF P(1)])
  moreover have "list_all2 (reaped maxAttempts grace msg) (rows (committed w)) (rows (committed w'))"
    unfolding rows' by (rule reaped_update [OF P(1)])
  moreover have "committed w' = put (rows (committed w')) (committed w)" unfolding rows' by (rule P(3))
  moreover have "(if r = Inr True then 1 else 0) \<le> count_where P (rows (committed w))"
    using P(2) by (cases "r = Inr True") (simp_all add: Suc_le_eq del: count_where_pos)
  ultimately show ?thesis using fail_effect [OF assms] by linarith
qed

lemma reap_loop_effect:
  "open_tx w = None \<Longrightarrow> reap_loop attempts fail_expired maxAttempts evs k w = ((n, err), w') \<Longrightarrow>
    open_tx w' = None \<and> committed w' = put (rows (committed w')) (committed w) \<and>
    list_all2 (reaped maxAttempts grace msg) (rows (committed w)) (rows (committed w')) \<and>
    n + in_progress (rows (committed w')) \<le> k + in_progress (rows (committed w))"
proof (induction evs arbitrary: k w)
  case Nil
  then show ?case by (auto simp: put_rows)
next
  case (Cons ev evs)
  show ?case
  proof (cases "attempts ev < maxAttempts")
    case True
    then show ?thesis using Cons.IH [OF Cons.prems(1)] Cons.prems(2) by auto
  next
    case False
    obtain r v where f: "fail_expired ev w = (r, v)" by (cases "fail_expired ev w")
    note one = fail_one [OF Cons.prems(1) f]
    show ?thesis
    proof (cases r)
      case (Inl e)
      then show ?thesis using False f Cons.prems(2) one by auto
    next
      case (Inr ok)
      have rest: "reap_loop attempts fail_expired maxAttempts evs (if ok then Suc k else k) v = ((n, err), w')"
        using False f Cons.prems(2) Inr by simp
      have v: "open_tx v = None" using one by blast
      note ih = Cons.IH [OF v rest]
      have "committed w' = put (rows (committed w')) (committed w)"
        using ih one put_put by metis
      moreover have "list_all2 (reaped maxAttempts grace msg) (rows (committed w)) (rows (committed w'))"
        using ih one reaped_all_trans by blast
      moreover have "n + in_progress (rows (committed w')) \<le> k + in_progress (rows (committed w))"
        using ih one Inr by (auto split: if_splits)
      ultimately show ?thesis using ih by blast
    qed
  qed
qed

end

end
