(* ===== verification/Summary_Usecase.thy ===== *)
theory Summary_Usecase
  imports Summary_Window Summary_Repo LLM Post_Usecase Reaping
begin

text \<open>
  \<open>SummaryUsecase\<close> of \<open>internal/biz/summary_usecase.go\<close>: processing of the two kinds of
  summarization events, scheduling of cumulative sources, the manual trigger and the reaper
  of stuck events. What the usecase is built from (external functions, prompts, providers,
  configuration) is the record \<open>SummaryDeps\<close>.
\<close>

section \<open>Configuration\<close>

text \<open>\<open>conf.Summary\<close> as its getters return it: unset durations and numbers are zero.\<close>

record SummaryConf =
  sf_CronInterval :: duration
  sf_EventTtl :: duration
  sf_MaxWindow :: duration
  sf_MaxInputChars :: int
  sf_LlmMaxRetries :: int
  sf_ReaperGrace :: duration
  sf_MaxAttempts :: int
  sf_BackoffBase :: duration
  sf_BackoffMax :: duration
  sf_LeaseTtl :: duration

record SummaryDeps =
  dep_ext :: ext
  dep_prompts :: prompt_bodies
  dep_llms :: "(ProcessingMode \<times> LLMClient) list"
  dep_cfg :: SummaryConf

definition or_default :: "duration \<Rightarrow> int \<Rightarrow> duration" where
  "or_default d seconds = (if sint d \<le> 0 then word_of_int (seconds * second) else d)"

definition defaultReaperMaxAttempts :: int where "defaultReaperMaxAttempts = 5"
definition defaultCumulativeMaxChars :: int where "defaultCumulativeMaxChars = 50000"
definition reaperBatchLimit :: nat where "reaperBatchLimit = 100"

definition max_attempts_of :: "int \<Rightarrow> int" where
  "max_attempts_of n = (if n \<le> 0 then defaultReaperMaxAttempts else n)"

definition cronInterval :: "SummaryConf \<Rightarrow> duration" where
  "cronInterval cfg = or_default (sf_CronInterval cfg) 3600"

definition SummaryUsecase_RetryPolicy :: "SummaryConf \<Rightarrow> RetryPolicy" where
  "SummaryUsecase_RetryPolicy cfg =
     \<lparr>MaxAttempts = max_attempts_of (sf_MaxAttempts cfg),
      BackoffBase = or_default (sf_BackoffBase cfg) 10,
      BackoffMax = or_default (sf_BackoffMax cfg) 600\<rparr>"

section \<open>Processing events\<close>

definition ensureNotExpired :: "SummaryConf \<Rightarrow> SummaryEvent \<Rightarrow> world \<Rightarrow> error option \<times> world" where
  "ensureNotExpired cfg event w =
     (let (now, w) = time_now w in
      if time_sub now (se_CreatedAt event) > sint (or_default (sf_EventTtl cfg) 86400)
      then (Some (Sentinel ErrSummaryEventExpired), w) else (None, w))"

definition save_summary ::
  "ext \<Rightarrow> string option \<Rightarrow> string \<Rightarrow> string \<Rightarrow> world \<Rightarrow> string result \<times> world" where
  "save_summary E postID sourceID body w =
     (let (i, w) = new_uuid w; (now, w) = time_now w in
      case summary_repo_Save E
             \<lparr>sum_ID = uuid_string E i, sum_PostID = postID, sum_SourceID = sourceID, sum_Text = body,
              sum_WordCount = int (length (Go_Base.fields body)), sum_CreatedAt = now\<rparr> w of
        (Inl e, w) \<Rightarrow> (Inl (errorf_ctx ''save summary'' e), w)
      | (Inr saved, w) \<Rightarrow> (Inr (sum_ID saved), w))"

definition ProcessPostEvent :: "SummaryDeps \<Rightarrow> SummaryEvent \<Rightarrow> world \<Rightarrow> string result \<times> world" where
  "ProcessPostEvent D event w =
     (case ensureNotExpired (dep_cfg D) event w of
        (Some e, w) \<Rightarrow> (Inl e, w)
      | (None, w) \<Rightarrow>
     (case se_PostID event of
        None \<Rightarrow> (Inl (errorf_detail ErrSummaryValidation ''post id is nil for summarize_post event''), w)
      | Some postID \<Rightarrow>
     (case summary_repo_ListByPost (dep_ext D) postID w of
        (Inl e, w) \<Rightarrow> (Inl (errorf_ctx ''check existing summary'' e), w)
      | (Inr existing, w) \<Rightarrow>
     (if existing \<noteq> [] then (Inr (sum_ID (hd existing)), w)
      else case post_repo_Get (dep_ext D) postID w of
        (Inl e, w) \<Rightarrow> (Inl (errorf_ctx ''get post'' e), w)
      | (Inr post, w) \<Rightarrow>
     (case summarizeWithLLMRetry (dep_prompts D) (dep_llms D) (sf_LlmMaxRetries (dep_cfg D))
             ProcessingModeSelfContained (post_Text post) w of
        (Inl e, w) \<Rightarrow> (Inl (errorf_ctx ''summarize'' e), w)
      | (Inr body, w) \<Rightarrow> save_summary (dep_ext D) (Some postID) (se_SourceID event) body w)))))"

definition window_start :: "SummaryConf \<Rightarrow> Summary option \<Rightarrow> time \<Rightarrow> time" where
  "window_start cfg lastSummary now =
     (let windowStart = time_add now (- or_default (sf_MaxWindow cfg) 259200) in
      case lastSummary of
        Some m \<Rightarrow> if sum_CreatedAt m > windowStart then sum_CreatedAt m else windowStart
      | None \<Rightarrow> windowStart)"

definition max_input_chars :: "SummaryConf \<Rightarrow> nat" where
  "max_input_chars cfg =
     nat (if sf_MaxInputChars cfg \<le> 0 then defaultCumulativeMaxChars else sf_MaxInputChars cfg)"

definition ProcessSourceEvent ::
  "SummaryDeps \<Rightarrow> nat \<Rightarrow> SummaryEvent \<Rightarrow> world \<Rightarrow> (string result \<times> world) option" where
  "ProcessSourceEvent D fuel event w =
     (case ensureNotExpired (dep_cfg D) event w of
        (Some e, w) \<Rightarrow> Some (Inl e, w)
      | (None, w) \<Rightarrow>
     (case summary_repo_GetLastBySource (dep_ext D) (se_SourceID event) w of
        (Inl e, w) \<Rightarrow> Some (Inl (errorf_ctx ''get last summary'' e), w)
      | (Inr lastSummary, w) \<Rightarrow>
     (let (now, w) = time_now w in
      case collectWindowPosts (dep_ext D) (se_SourceID event) (window_start (dep_cfg D) lastSummary now) now
             (max_input_chars (dep_cfg D)) fuel w of
        None \<Rightarrow> None
      | Some (Inl e, w) \<Rightarrow> Some (Inl e, w)
      | Some (Inr body, w) \<Rightarrow>
          (if body = [] then Some (Inl (Sentinel ErrSummarySourceNoPosts), w)
           else case summarizeWithLLMRetry (dep_prompts D) (dep_llms D) (sf_LlmMaxRetries (dep_cfg D))
                       ProcessingModeCumulative body w of
             (Inl e, w) \<Rightarrow> Some (Inl (errorf_ctx ''summarize'' e), w)
           | (Inr digest, w) \<Rightarrow> Some (save_summary (dep_ext D) None (se_SourceID event) digest w)))))"

section \<open>Scheduling\<close>

definition newest_post_filter :: "string \<Rightarrow> time option \<Rightarrow> time \<Rightarrow> ListPostsFilter" where
  "newest_post_filter sourceID createdAfter now =
     \<lparr>lpf_SourceID = sourceID, lpf_PageSize = 1, lpf_PageToken = [],
      lpf_OrderBy = SortByCreatedAt, lpf_OrderDir = SortDesc,
      lpf_CreatedAfter = createdAfter, lpf_CreatedBefore = Some now\<rparr>"

definition maybeEnqueueSourceEvent :: "ext \<Rightarrow> string \<Rightarrow> world \<Rightarrow> bool result \<times> world" where
  "maybeEnqueueSourceEvent E sourceID w =
     (case summary_outbox_HasActiveEvent E sourceID SummarizeSource w of
        (Inl e, w) \<Rightarrow> (Inl e, w)
      | (Inr active, w) \<Rightarrow>
     (if active \<noteq> None then (Inr False, w)
      else case summary_repo_GetLastBySource E sourceID w of
        (Inl e, w) \<Rightarrow> (Inl e, w)
      | (Inr lastSummary, w) \<Rightarrow>
     (let (now, w) = time_now w in
      case post_repo_List E (newest_post_filter sourceID (map_option sum_CreatedAt lastSummary) now) w of
        (Inl e, w) \<Rightarrow> (Inl e, w)
      | (Inr page, w) \<Rightarrow>
     (if Items page = [] then (Inr False, w)
      else let (event, w) = NewSummaryEvent E SummarizeSource sourceID None w in
        case summary_outbox_Save E event w of
          (Inl saveErr, w) \<Rightarrow>
            (if errors_is saveErr ErrSummaryAlreadyProcessing then (Inr False, w) else (Inl saveErr, w))
        | (Inr _, w) \<Rightarrow> (Inr True, w)))))"

definition schedule_body :: "ext \<Rightarrow> duration \<Rightarrow> world \<Rightarrow> bool result \<times> world" where
  "schedule_body E interval w =
     (case ClaimDueCumulative E w of
        (Inl claimErr, w) \<Rightarrow> (Inl claimErr, w)
      | (Inr source, w) \<Rightarrow>
     (let (now, w) = time_now w in
      case BumpNextSummaryAt E (src_ID source) (time_add now interval) w of
        (Inl e, w) \<Rightarrow> (Inl e, w)
      | (Inr _, w) \<Rightarrow> maybeEnqueueSourceEvent E (src_ID source) w))"

definition ScheduleNextCumulative :: "SummaryDeps \<Rightarrow> world \<Rightarrow> bool result \<times> world" where
  "ScheduleNextCumulative D w =
     (case InTx (schedule_body (dep_ext D) (cronInterval (dep_cfg D))) w of
        (Inl txErr, w) \<Rightarrow>
          (if errors_is txErr ErrNoSourceDue then (Inr False, w) else (Inl txErr, w))
      | (Inr scheduled, w) \<Rightarrow> (Inr scheduled, w))"

definition trigger_body :: "ext \<Rightarrow> string \<Rightarrow> time \<Rightarrow> world \<Rightarrow> string result \<times> world" where
  "trigger_body E sourceID nextAt w =
     (let (event, w) = NewSummaryEvent E SummarizeSource sourceID None w in
      case summary_outbox_Save E event w of
        (Inl saveErr, w) \<Rightarrow> (Inl saveErr, w)
      | (Inr saved, w) \<Rightarrow>
          (case BumpNextSummaryAt E sourceID nextAt w of
             (Inl e, w) \<Rightarrow> (Inl e, w)
           | (Inr _, w) \<Rightarrow> (Inr (se_ID saved), w)))"

definition TriggerSourceSummarize ::
  "SummaryDeps \<Rightarrow> string \<Rightarrow> world \<Rightarrow> (string \<times> bool) result \<times> world" where
  "TriggerSourceSummarize D sourceID w =
     (case source_repo_Get (dep_ext D) sourceID w of
        (Inl e, w) \<Rightarrow> (Inl e, w)
      | (Inr source, w) \<Rightarrow>
     (if ProcessingModeForType (src_Type source) \<noteq> ProcessingModeCumulative
      then (Inl (Sentinel ErrSummarizeSelfContainedSrc), w)
      else case summary_outbox_HasActiveEvent (dep_ext D) sourceID SummarizeSource w of
        (Inl e, w) \<Rightarrow> (Inl e, w)
      | (Inr (Some activeEvent), w) \<Rightarrow> (Inr (se_ID activeEvent, True), w)
      | (Inr None, w) \<Rightarrow>
     (let (now, w) = time_now w in
      case InTx (trigger_body (dep_ext D) sourceID (time_add now (cronInterval (dep_cfg D)))) w of
        (Inl txErr, w) \<Rightarrow> (Inl txErr, w)
      | (Inr eventID, w) \<Rightarrow> (Inr (eventID, False), w))))"

section \<open>Reaping and reading\<close>

definition max_attempts_exceeded :: string where
  "max_attempts_exceeded = ''max attempts exceeded''"

definition ReapStuckEvents :: "SummaryDeps \<Rightarrow> world \<Rightarrow> (nat \<times> error option) \<times> world" where
  "ReapStuckEvents D w =
     (let grace = or_default (sf_ReaperGrace (dep_cfg D)) 30;
          maxAttempts = max_attempts_of (sf_MaxAttempts (dep_cfg D))
      in case summary_outbox_ListLeaseExpired (dep_ext D) grace reaperBatchLimit w of
           (Inl e, w) \<Rightarrow> ((0, Some (errorf_ctx ''list lease expired'' e)), w)
         | (Inr events, w) \<Rightarrow> reap_loop se_AttemptCount
             (\<lambda>ev. summary_outbox_FailExpired (dep_ext D) (se_ID ev) maxAttempts grace max_attempts_exceeded)
             maxAttempts events 0 w)"

definition SummaryUsecase_GetSummaryEvent :: "SummaryDeps \<Rightarrow> string \<Rightarrow> world \<Rightarrow> SummaryEvent result \<times> world" where
  "SummaryUsecase_GetSummaryEvent D ident w = summary_outbox_Get (dep_ext D) ident w"

definition SummaryUsecase_GetSummary :: "SummaryDeps \<Rightarrow> string \<Rightarrow> world \<Rightarrow> Summary result \<times> world" where
  "SummaryUsecase_GetSummary D ident w = summary_repo_Get (dep_ext D) ident w"

definition SummaryUsecase_ListPostSummaries :: "SummaryDeps \<Rightarrow> string \<Rightarrow> world \<Rightarrow> Summary list result \<times> world" where
  "SummaryUsecase_ListPostSummaries D postID w = summary_repo_ListByPost (dep_ext D) postID w"

definition SummaryUsecase_ListSourceSummaries ::
  "SummaryDeps \<Rightarrow> string \<Rightarrow> int \<Rightarrow> string \<Rightarrow> world \<Rightarrow> Summary page result outcome \<times> world" where
  "SummaryUsecase_ListSourceSummaries D sourceID pageSize pageToken w =
     summary_repo_ListBySource (dep_ext D) sourceID pageSize pageToken w"

end
