(* ===== verification/Summary_Processing.thy ===== *)
theory Summary_Processing
  imports Summary_Usecase
begin

text \<open>
  What processing an event does to the database, whatever statement fails and whatever the
  provider answers: at most one summary is added, never a second one for a post; and the
  window of a digest, with the posts that fall between two windows.
\<close>

section \<open>Reads and writes outside a transaction\<close>

lemma exec_tx_read_outside:
  assumes "open_tx w = None" and "exec_tx (select q) w = (r, w')"
  shows "open_tx w' = None" "committed w' = committed w" "llm_calls w' = llm_calls w"
    "r = Inr x \<Longrightarrow> x = q (clock w 0) (committed w)"
proof -
  show "open_tx w' = None" by (rule exec_tx_outside(1) [OF assms])
  show "committed w' = committed w" by (rule exec_tx_select_outside(1) [OF assms])
  show "r = Inr x \<Longrightarrow> x = q (clock w 0) (committed w)" using exec_tx_select_outside(2) [OF assms] .
  show "llm_calls w' = llm_calls w"
    using assms by (auto simp: exec_tx_def autocommit_def take_fault_def time_now_def Let_def
        split: fault.splits sum.splits)
qed

lemma exec_tx_calls [simp]: "llm_calls (snd (exec_tx s w)) = llm_calls w"
  by (auto simp: exec_tx_def autocommit_def take_fault_def time_now_def Let_def
      split: fault.split sum.split option.split prod.split)

lemma exec_direct_calls [simp]: "llm_calls (snd (exec_direct s w)) = llm_calls w"
  by (auto simp: exec_direct_def autocommit_def take_fault_def time_now_def Let_def
      split: fault.split sum.split option.split prod.split)

lemma ListByPost_outside:
  assumes "open_tx w = None" and "summary_repo_ListByPost E postID w = (r, w')"
  shows "open_tx w' = None" "committed w' = committed w" "llm_calls w' = llm_calls w"
    "r = Inr xs \<Longrightarrow> \<exists>uid. parse_uuid E postID = Some uid \<and>
      xs = map (summary_to_domain E) (newest_first (filter (\<lambda>m. m_post_id m = Some uid) (summaries (committed w))))"
proof -
  have "open_tx w' = None \<and> committed w' = committed w \<and> llm_calls w' = llm_calls w \<and>
    (\<forall>xs. r = Inr xs \<longrightarrow> (\<exists>uid. parse_uuid E postID = Some uid \<and>
      xs = map (summary_to_domain E) (newest_first (filter (\<lambda>m. m_post_id m = Some uid) (summaries (committed w))))))"
  proof (cases "parse_uuid E postID")
    case None
    then show ?thesis using assms by (auto simp: summary_repo_ListByPost_def parse_id_def)
  next
    case (Some uid)
    define q where "q = (\<lambda>(_::time) (d::database). newest_first (filter (\<lambda>m. m_post_id m = Some uid) (summaries d)))"
    obtain res w1 where x: "exec_tx (select q) w = (res, w1)" by (cases "exec_tx (select q) w")
    note e = exec_tx_read_outside [OF assms(1) x]
    have q: "res = Inr rows \<Longrightarrow> rows = q (clock w 0) (committed w)" for rows by (rule e(4))
    from assms(2) x Some e(1-3) q show ?thesis
      unfolding summary_repo_ListByPost_def parse_id_def q_def by (cases res) auto
  qed
  then show "open_tx w' = None" "committed w' = committed w" "llm_calls w' = llm_calls w"
    "r = Inr xs \<Longrightarrow> \<exists>uid. parse_uuid E postID = Some uid \<and>
      xs = map (summary_to_domain E) (newest_first (filter (\<lambda>m. m_post_id m = Some uid) (summaries (committed w))))"
    by blast+
qed

lemma exec_direct_read_outside:
  assumes "open_tx w = None" and "exec_direct (select q) w = (r, w')"
  shows "open_tx w' = None" "committed w' = committed w" "llm_calls w' = llm_calls w"
    "r = Inr x \<Longrightarrow> x = q (clock w 0) (committed w)"
  using exec_tx_read_outside [OF assms(1)] assms(2) exec_direct_outside [OF assms(1)] by metis+

lemma only_post_outside:
  assumes "open_tx w = None" and "only_post_with_source True P w = (r, w')"
  shows "open_tx w' = None \<and> committed w' = committed w \<and> llm_calls w' = llm_calls w \<and>
    (\<forall>p s. r = Inr (p, s) \<longrightarrow> p \<in> set (posts (committed w)) \<and> P p)"
proof -
  define q where "q = (\<lambda>(_::time) (d::database). take 2 (filter P (posts d)))"
  obtain r1 w1 where 1: "exec_direct (select q) w = (r1, w1)" by (cases "exec_direct (select q) w")
  note a = exec_direct_read_outside [OF assms(1) 1]
  show ?thesis
  proof (cases "\<exists>rows. r1 = Inr rows \<and> rows \<noteq> []")
    case False
    then show ?thesis using assms(2) 1 a(1-3)
      unfolding only_post_with_source_def exec_def if_True q_def [symmetric] by (cases r1) auto
  next
    case True
    then obtain rows where rows: "r1 = Inr rows" "rows \<noteq> []" by blast
    have mem: "set rows \<subseteq> {p \<in> set (posts (committed w)). P p}"
      using a(4) [OF rows(1)] by (auto simp: q_def dest!: in_set_takeD)
    obtain r2 w2 where 2: "exec_direct (select (\<lambda>_ d. filter (\<lambda>s. s_id s \<in> p_source_id ` set rows) (sources d))) w1 = (r2, w2)"
      by (cases "exec_direct (select (\<lambda>_ d. filter (\<lambda>s. s_id s \<in> p_source_id ` set rows) (sources d))) w1")
    note b = exec_direct_read_outside [OF a(1) 2]
    show ?thesis using assms(2) 1 2 rows a(2,3) b(1-3) mem
      unfolding only_post_with_source_def exec_def if_True q_def [symmetric]
      by (cases r2) (auto simp: ent_only_def split: list.splits)
  qed
qed

lemma post_repo_Get_outside:
  assumes "open_tx w = None" and "post_repo_Get E ident w = (r, w')"
  shows "open_tx w' = None" "committed w' = committed w" "llm_calls w' = llm_calls w"
    "r = Inr post \<Longrightarrow> \<exists>i p. parse_uuid E ident = Some i \<and> p \<in> set (posts (committed w)) \<and> p_id p = i \<and>
      post_Text post = p_text p"
proof -
  have "open_tx w' = None \<and> committed w' = committed w \<and> llm_calls w' = llm_calls w \<and>
    (\<forall>post. r = Inr post \<longrightarrow> (\<exists>i p. parse_uuid E ident = Some i \<and> p \<in> set (posts (committed w)) \<and> p_id p = i \<and>
      post_Text post = p_text p))"
  proof (cases "parse_uuid E ident")
    case None
    then show ?thesis using assms by (auto simp: post_repo_Get_def parse_id_def)
  next
    case (Some i)
    obtain r1 w1 where o: "only_post_with_source True (\<lambda>p. p_id p = i) w = (r1, w1)"
      by (cases "only_post_with_source True (\<lambda>p. p_id p = i) w")
    have t: "post_Text (post_to_domain_with_source E p s) = p_text p" for p s
      by (simp add: post_to_domain_with_source_def split: option.split)
    show ?thesis
      using only_post_outside [OF assms(1) o] assms(2) o Some
      by (cases r1) (auto simp: post_repo_Get_def parse_id_def t split: if_splits)
  qed
  then show "open_tx w' = None" "committed w' = committed w" "llm_calls w' = llm_calls w"
    "r = Inr post \<Longrightarrow> \<exists>i p. parse_uuid E ident = Some i \<and> p \<in> set (posts (committed w)) \<and> p_id p = i \<and>
      post_Text post = p_text p"
    by blast+
qed

definition new_summary :: "ext \<Rightarrow> uuid option \<Rightarrow> string \<Rightarrow> string \<Rightarrow> summary_row \<Rightarrow> bool" where
  "new_summary E p sourceID body m \<longleftrightarrow>
     m_post_id m = p \<and> parse_uuid E sourceID = Some (m_source_id m) \<and> m_text m = body \<and>
     m_word_count m = int (length (Go_Base.fields body))"

lemma save_summary_outside:
  assumes E: "ext_laws E" and o: "open_tx w = None" and s: "save_summary E postID sourceID body w = (r, w')"
  shows "open_tx w' = None" "llm_calls w' = llm_calls w"
    "committed w' = committed w \<or> (\<exists>p m. parse_opt_id E ''invalid post id'' postID = Inr p \<and>
       new_summary E p sourceID body m \<and> m_created_at m = clock w 0 \<and> m_id m = fresh_ids w 0 \<and>
       committed w' = (committed w)\<lparr>summaries := summaries (committed w) @ [m]\<rparr>)"
    "r = Inr sid \<Longrightarrow> \<exists>p m. parse_opt_id E ''invalid post id'' postID = Inr p \<and>
       new_summary E p sourceID body m \<and> m_created_at m = clock w 0 \<and> m_id m = fresh_ids w 0 \<and>
       committed w' = (committed w)\<lparr>summaries := summaries (committed w) @ [m]\<rparr> \<and> sid = uuid_string E (m_id m)"
proof -
  define v where "v = \<lparr>sum_ID = uuid_string E (fresh_ids w 0), sum_PostID = postID, sum_SourceID = sourceID,
    sum_Text = body, sum_WordCount = int (length (Go_Base.fields body)), sum_CreatedAt = clock w 0\<rparr>"
  define w1 where "w1 = w\<lparr>fresh_ids := advance (fresh_ids w), clock := advance (clock w)\<rparr>"
  have w1: "open_tx w1 = None" "committed w1 = committed w" "llm_calls w1 = llm_calls w"
    using o by (simp_all add: w1_def)
  have run: "(case summary_repo_Save E v w1 of (Inl e, w) \<Rightarrow> (Inl (errorf_ctx ''save summary'' e), w)
      | (Inr saved, w) \<Rightarrow> (Inr (sum_ID saved), w)) = (r, w')"
    using s by (simp add: save_summary_def new_uuid_def time_now_def v_def w1_def)
  have all: "open_tx w' = None \<and> llm_calls w' = llm_calls w \<and>
    (committed w' = committed w \<and> (\<forall>sid. r \<noteq> Inr sid) \<or> (\<exists>p m. parse_opt_id E ''invalid post id'' postID = Inr p \<and>
       new_summary E p sourceID body m \<and> m_created_at m = clock w 0 \<and> m_id m = fresh_ids w 0 \<and>
       committed w' = (committed w)\<lparr>summaries := summaries (committed w) @ [m]\<rparr> \<and>
       (\<forall>sid. r = Inr sid \<longrightarrow> sid = uuid_string E (m_id m))))"
  proof (cases "\<exists>s p. parse_uuid E sourceID = Some s \<and> parse_opt_id E ''invalid post id'' postID = Inr p")
    case False
    then show ?thesis using run w1 E
      by (auto simp: summary_repo_Save_def parse_id_def v_def ext_lawsD split: option.splits sum.splits)
  next
    case True
    then obtain s p where ids: "parse_uuid E sourceID = Some s" "parse_opt_id E ''invalid post id'' postID = Inr p" by blast
    define row where "row = summary_row_of (fresh_ids w 0) s p v"
    obtain q w2 where x: "exec_tx (write_stmt (insert_summary row)) w1 = (q, w2)"
      by (cases "exec_tx (write_stmt (insert_summary row)) w1")
    have run2: "r = (case q of Inl e \<Rightarrow> Inl (errorf_ctx ''save summary'' (errorf_ctx ''save summary'' (ent_constraint e)))
        | Inr _ \<Rightarrow> Inr (uuid_string E (fresh_ids w 0)))" "w' = w2"
      using run x ids E
      by (auto simp: summary_repo_Save_def parse_id_def v_def ext_lawsD row_def summary_to_domain_def
          summary_row_of_def Let_def split: sum.splits)
    have row: "new_summary E p sourceID body row" "m_created_at row = clock w 0" "m_id row = fresh_ids w 0"
      using ids by (simp_all add: new_summary_def row_def summary_row_of_def v_def)
    note eff = exec_tx_outside [OF w1(1) x]
    have ins: "write_stmt (insert_summary row) now d = Inr (y, d') \<Longrightarrow>
        d' = d\<lparr>summaries := summaries d @ [row]\<rparr>" for now d y d'
      by (auto simp: write_stmt_def insert_summary_def split: if_splits sum.splits)
    have "committed w2 = committed w \<or> committed w2 = (committed w)\<lparr>summaries := summaries (committed w) @ [row]\<rparr>"
      using eff(2) ins w1(2) by auto
    moreover have "q = Inr u \<Longrightarrow> committed w2 = (committed w)\<lparr>summaries := summaries (committed w) @ [row]\<rparr>" for u
      using eff(3) ins w1(2) by metis
    moreover have "llm_calls w2 = llm_calls w"
      using exec_tx_calls [of "write_stmt (insert_summary row)" w1] x w1(3) by simp
    ultimately show ?thesis using run2 row ids(2) eff(1) by (cases q) auto
  qed
  then show "open_tx w' = None" "llm_calls w' = llm_calls w"
    "committed w' = committed w \<or> (\<exists>p m. parse_opt_id E ''invalid post id'' postID = Inr p \<and>
       new_summary E p sourceID body m \<and> m_created_at m = clock w 0 \<and> m_id m = fresh_ids w 0 \<and>
       committed w' = (committed w)\<lparr>summaries := summaries (committed w) @ [m]\<rparr>)"
    "r = Inr sid \<Longrightarrow> \<exists>p m. parse_opt_id E ''invalid post id'' postID = Inr p \<and>
       new_summary E p sourceID body m \<and> m_created_at m = clock w 0 \<and> m_id m = fresh_ids w 0 \<and>
       committed w' = (committed w)\<lparr>summaries := summaries (committed w) @ [m]\<rparr> \<and> sid = uuid_string E (m_id m)"
    by blast+
qed

lemma summarizeWithLLMRetry_frame:
  assumes "summarizeWithLLMRetry prompts llms cfg mode text w = (r, w')"
  shows "same_store w w'" "r = Inr body \<Longrightarrow> trim_space body \<noteq> []"
    "\<exists>sys n. llm_calls w' = llm_calls w @ replicate n (sys, text)"
proof -
  have "same_store w w' \<and> (\<forall>a. r = Inr a \<longrightarrow> trim_space a \<noteq> []) \<and>
    (\<exists>sys n. llm_calls w' = llm_calls w @ replicate n (sys, text))"
  proof (cases "\<exists>sys c. prompt_For prompts mode = Inr sys \<and> router_For llms mode = Inr c")
    case True
    then obtain sys c where "prompt_For prompts mode = Inr sys" "router_For llms mode = Inr c" by blast
    then have "llm_attempts sys text (nat (if cfg \<le> 0 then defaultLLMMaxRetries else cfg))
        (nat (if cfg \<le> 0 then defaultLLMMaxRetries else cfg)) (Text []) w = (r, w')"
      using assms by (simp add: summarizeWithLLMRetry_def Let_def)
    from llm_attempts_frame [OF this] show ?thesis by blast
  next
    case False
    then have "w' = w \<and> (\<forall>a. r \<noteq> Inr a)"
      using assms by (auto simp: summarizeWithLLMRetry_def split: sum.splits)
    moreover from this have "llm_calls w' = llm_calls w @ replicate 0 ([], text)" by simp
    ultimately show ?thesis by (metis same_store_refl)
  qed
  then show "same_store w w'" "r = Inr body \<Longrightarrow> trim_space body \<noteq> []"
    "\<exists>sys n. llm_calls w' = llm_calls w @ replicate n (sys, text)" by auto
qed

section \<open>A post is summarized once\<close>

lemma ensureNotExpired_result:
  assumes "ensureNotExpired cfg event w = (r, w')"
  shows "w' = w\<lparr>clock := advance (clock w)\<rparr>"
    "r = (if time_sub (clock w 0) (se_CreatedAt event) > sint (or_default (sf_EventTtl cfg) 86400)
          then Some (Sentinel ErrSummaryEventExpired) else None)"
  using assms by (auto simp: ensureNotExpired_def time_now_def Let_def split: if_splits)

text \<open>What one run of the handler may have done: \<open>uid\<close> is the post of the event.\<close>

definition post_processed :: "ext \<Rightarrow> uuid \<Rightarrow> string result \<Rightarrow> world \<Rightarrow> world \<Rightarrow> bool" where
  "post_processed E uid r w w' \<longleftrightarrow> open_tx w' = None \<and>
     (committed w' = committed w \<or>
      (\<forall>m \<in> set (summaries (committed w)). m_post_id m \<noteq> Some uid) \<and>
      (\<exists>m. m_post_id m = Some uid \<and> trim_space (m_text m) \<noteq> [] \<and>
         m_word_count m = int (length (Go_Base.fields (m_text m))) \<and>
         committed w' = (committed w)\<lparr>summaries := summaries (committed w) @ [m]\<rparr>)) \<and>
     (\<forall>sid. r = Inr sid \<longrightarrow>
        (\<exists>m \<in> set (summaries (committed w')). m_post_id m = Some uid \<and> sid = uuid_string E (m_id m))) \<and>
     ((\<exists>m \<in> set (summaries (committed w)). m_post_id m = Some uid) \<longrightarrow> llm_calls w' = llm_calls w)"

text \<open>A summary of the post that \<open>save_summary\<close> stores, when the post has none.\<close>

lemma post_processed_saved:
  assumes E: "ext_laws E" and u: "parse_uuid E postID = Some uid"
    and none: "\<forall>m \<in> set (summaries (committed w)). m_post_id m \<noteq> Some uid"
    and o: "open_tx v = None" "committed v = committed w" and nb: "trim_space body \<noteq> []"
    and sv: "save_summary E (Some postID) sourceID body v = (r, w')"
  shows "post_processed E uid r w w'"
proof -
  have one: "parse_opt_id E ''invalid post id'' (Some postID) = Inr q \<Longrightarrow> q = Some uid" for q
    using u by (simp add: parse_opt_id_def parse_id_def)
  note S = save_summary_outside [OF E o(1) sv]
  have m: "m_post_id m = Some uid \<and> trim_space (m_text m) \<noteq> [] \<and> m_word_count m = int (length (Go_Base.fields (m_text m)))"
    if "parse_opt_id E ''invalid post id'' (Some postID) = Inr q" "new_summary E q sourceID body m" for q m
    using that one nb by (auto simp: new_summary_def)
  have "committed w' = committed w \<or> (\<exists>m. m_post_id m = Some uid \<and> trim_space (m_text m) \<noteq> [] \<and>
     m_word_count m = int (length (Go_Base.fields (m_text m))) \<and>
     committed w' = (committed w)\<lparr>summaries := summaries (committed w) @ [m]\<rparr>)"
    using S(3) m o(2) by metis
  moreover have "\<exists>m \<in> set (summaries (committed w')). m_post_id m = Some uid \<and> sid = uuid_string E (m_id m)"
    if "r = Inr sid" for sid
    using S(4) [OF that] m by fastforce
  ultimately show ?thesis using none S(1) by (auto simp: post_processed_def)
qed

text \<open>The steps after the post turned out to have no summary.\<close>

lemma post_processed_asked:
  assumes E: "ext_laws (dep_ext D)" and u: "parse_uuid (dep_ext D) postID = Some uid"
    and none: "\<forall>m \<in> set (summaries (committed w)). m_post_id m \<noteq> Some uid"
    and o: "open_tx w2 = None" "committed w2 = committed w"
    and run: "(case post_repo_Get (dep_ext D) postID w2 of
        (Inl e, w) \<Rightarrow> (Inl (errorf_ctx ''get post'' e), w)
      | (Inr post, w) \<Rightarrow> (case summarizeWithLLMRetry (dep_prompts D) (dep_llms D) (sf_LlmMaxRetries (dep_cfg D))
           ProcessingModeSelfContained (post_Text post) w of
          (Inl e, w) \<Rightarrow> (Inl (errorf_ctx ''summarize'' e), w)
        | (Inr body, w) \<Rightarrow> save_summary (dep_ext D) (Some postID) sourceID body w)) = (r, w')"
  shows "post_processed (dep_ext D) uid r w w'"
proof -
  let ?llm = "summarizeWithLLMRetry (dep_prompts D) (dep_llms D) (sf_LlmMaxRetries (dep_cfg D)) ProcessingModeSelfContained"
  have same: "post_processed (dep_ext D) uid (Inl e) w v" if "open_tx v = None" "committed v = committed w" for e v
    using that none by (auto simp: post_processed_def)
  obtain r3 w3 where g: "post_repo_Get (dep_ext D) postID w2 = (r3, w3)" by fastforce
  note G = post_repo_Get_outside [OF o(1) g]
  have c3: "open_tx w3 = None" "committed w3 = committed w" using G(1,2) o(2) by simp_all
  show ?thesis
  proof (cases r3)
    case (Inl e)
    then show ?thesis using run g same c3 by auto
  next
    case (Inr post)
    obtain r4 w4 where s: "?llm (post_Text post) w3 = (r4, w4)" by fastforce
    have c4: "open_tx w4 = None" "committed w4 = committed w"
      using summarizeWithLLMRetry_frame(1) [OF s] c3 by (simp_all add: same_store_def)
    show ?thesis
    proof (cases r4)
      case (Inl e)
      then show ?thesis using run g Inr s same c4 by auto
    next
      fix body assume b: "r4 = Inr body"
      have "save_summary (dep_ext D) (Some postID) sourceID body w4 = (r, w')" using run g Inr s b by simp
      with summarizeWithLLMRetry_frame(2) [OF s b] show ?thesis by (rule post_processed_saved [OF E u none c4])
    qed
  qed
qed

text \<open>
  C6. Processing of a post event, whatever fails and whatever the provider answers: either the
  stored data is unchanged, or the post had no summary before and exactly one, with a text
  that is not blank and its word count, is added and nothing else changes. A reported
  identifier is that of a stored summary of the post. When the post already has a summary,
  the provider is not asked.
\<close>

theorem ProcessPostEvent_once:
  assumes E: "ext_laws (dep_ext D)" and o: "open_tx w = None" and p: "se_PostID event = Some postID"
    and u: "parse_uuid (dep_ext D) postID = Some uid" and run: "ProcessPostEvent D event w = (r, w')"
  shows "post_processed (dep_ext D) uid r w w'"
proof -
  let ?E = "dep_ext D"
  define w1 where "w1 = w\<lparr>clock := advance (clock w)\<rparr>"
  have w1: "open_tx w1 = None" "committed w1 = committed w" "llm_calls w1 = llm_calls w"
    using o by (simp_all add: w1_def)
  have same: "post_processed ?E uid (Inl e) w v"
    if "open_tx v = None" "committed v = committed w" "llm_calls v = llm_calls w" for e v
    using that by (simp add: post_processed_def)
  obtain x where x: "ensureNotExpired (dep_cfg D) event w = (x, w1)"
    using ensureNotExpired_result(1) w1_def by (metis surj_pair)
  obtain r2 w2 where l: "summary_repo_ListByPost ?E postID w1 = (r2, w2)"
    by (cases "summary_repo_ListByPost ?E postID w1")
  note L = ListByPost_outside [OF w1(1) l]
  show ?thesis
  proof (cases "x = None \<and> (\<exists>xs. r2 = Inr xs)")
    case False
    then have "(\<exists>e. r = Inl e) \<and> (w' = w1 \<or> w' = w2)"
      using run x p l by (cases x; cases r2) (auto simp: ProcessPostEvent_def)
    then show ?thesis using same w1 L(1-3) by auto
  next
    case True
    then obtain xs where r2: "r2 = Inr xs" and x0: "x = None" by blast
    define ms where "ms = newest_first (filter (\<lambda>m. m_post_id m = Some uid) (summaries (committed w)))"
    have xs: "xs = map (summary_to_domain ?E) ms" using L(4) [OF r2] u w1(2) by (auto simp: ms_def)
    have ms: "set ms = {m \<in> set (summaries (committed w)). m_post_id m = Some uid}"
      by (simp add: ms_def newest_first_def)
    show ?thesis
    proof (cases ms)
      case (Cons m rest)
      then have "m \<in> set (summaries (committed w))" "m_post_id m = Some uid" using ms by auto
      moreover have "r = Inr (uuid_string ?E (m_id m)) \<and> w' = w2"
        using run x x0 p l r2 xs Cons by (simp add: ProcessPostEvent_def summary_to_domain_def)
      ultimately show ?thesis using L(1-3) w1 by (auto simp: post_processed_def)
    next
      case Nil
      then have none: "\<forall>m \<in> set (summaries (committed w)). m_post_id m \<noteq> Some uid" using ms by auto
      show ?thesis
        by (rule post_processed_asked [OF E u none, of w2 "se_SourceID event"])
          (use run x x0 p l r2 xs Nil L(1,2) w1 in \<open>simp_all add: ProcessPostEvent_def\<close>)
    qed
  qed
qed

definition sample_summary_conf :: SummaryConf where
  "sample_summary_conf =
     \<lparr>sf_CronInterval = 0, sf_EventTtl = 0, sf_MaxWindow = 0, sf_MaxInputChars = 0, sf_LlmMaxRetries = 0,
      sf_ReaperGrace = 0, sf_MaxAttempts = 0, sf_BackoffBase = 0, sf_BackoffMax = 0, sf_LeaseTtl = 0\<rparr>"

definition sample_summary_deps :: SummaryDeps where
  "sample_summary_deps =
     \<lparr>dep_ext = decimal_ext,
      dep_prompts = [(ProcessingModeSelfContained, ''short''), (ProcessingModeCumulative, ''digest'')],
      dep_llms = map (\<lambda>m. (m, OpenRouterClient (snd (hd (lc_Providers sample_llm_conf))) 5)) AllProcessingModes,
      dep_cfg = sample_summary_conf\<rparr>"

definition sample_summary_event :: "string option \<Rightarrow> SummaryEventType \<Rightarrow> SummaryEvent" where
  "sample_summary_event postID t =
     \<lparr>se_ID = ''7'', se_PostID = postID, se_SourceID = ''9'', se_EventType = t, se_Status = Processing,
      se_SummaryID = None, se_Error = None, se_CreatedAt = 0, se_ProcessedAt = None, se_AttemptCount = 1\<rparr>"

theorem ProcessPostEvent_once_witness:
  "let w = quiet_world (empty_db\<lparr>sources := [sample_source 9 SourceTypeRSS], posts := [listed_post 1 10]\<rparr>);
       (r, w') = ProcessPostEvent sample_summary_deps (sample_summary_event (Some ''1'') SummarizePost) w
   in post_processed decimal_ext 1 r w w' \<and> length (summaries (committed w')) = 1"
proof -
  let ?w = "quiet_world (empty_db\<lparr>sources := [sample_source 9 SourceTypeRSS], posts := [listed_post 1 10]\<rparr>)"
  let ?e = "sample_summary_event (Some ''1'') SummarizePost"
  have one: "parse_uuid (dep_ext sample_summary_deps) ''1'' = Some 1" by code_simp
  obtain r w' where run: "ProcessPostEvent sample_summary_deps ?e ?w = (r, w')"
    by (cases "ProcessPostEvent sample_summary_deps ?e ?w")
  have E: "dep_ext sample_summary_deps = decimal_ext" by (simp add: sample_summary_deps_def)
  have "post_processed (dep_ext sample_summary_deps) 1 r ?w w'"
    by (rule ProcessPostEvent_once [OF _ _ _ one run]) (simp_all add: E sample_summary_event_def)
  moreover have "length (summaries (committed (snd (ProcessPostEvent sample_summary_deps ?e ?w)))) = 1"
    by code_simp
  ultimately show ?thesis using run by (simp add: E)
qed

end
