(* ===== verification/Summary_Digest.thy ===== *)
theory Summary_Digest
  imports Summary_Processing
begin

text \<open>
  The digest of a cumulative source: which posts it is made of, which summary it stores, and
  how its window relates to the next one.
\<close>

section \<open>Steps that only read\<close>

text \<open>Such a step asks no provider, takes no identifier, and the clock goes on.\<close>

definition reads_on :: "world \<Rightarrow> world \<Rightarrow> bool" where
  "reads_on w w' \<longleftrightarrow> llm_calls w' = llm_calls w \<and> llm_replies w' = llm_replies w \<and>
     fresh_ids w' = fresh_ids w \<and> (\<exists>k. clock w' = (\<lambda>n. clock w (n + k)))"

definition quietly :: "(world \<Rightarrow> 'a \<times> world) \<Rightarrow> bool" where
  "quietly f \<longleftrightarrow> (\<forall>w. reads_on w (snd (f w)))"

lemma reads_on_refl [simp]: "reads_on w w"
  by (auto simp: reads_on_def intro: exI [of _ 0])

lemma reads_on_trans: "reads_on a b \<Longrightarrow> reads_on b c \<Longrightarrow> reads_on a c"
  by (auto simp: reads_on_def add.assoc)

lemma quietlyD: "quietly f \<Longrightarrow> f w = (r, w') \<Longrightarrow> reads_on w w'"
  by (metis quietly_def snd_conv)

lemma advance_shift: "\<exists>k. advance f = (\<lambda>n. f (n + k))"
  by (rule exI [of _ 1]) (simp add: fun_eq_iff)

lemma quietly_exec_tx [simp, intro]: "quietly (exec_tx s)"
  by (auto simp: quietly_def reads_on_def exec_tx_def autocommit_def take_fault_def time_now_def Let_def
      advance_shift intro: exI [of _ 0] split: fault.split sum.split option.split prod.split)

lemma quietly_exec_direct [simp, intro]: "quietly (exec_direct s)"
  by (auto simp: quietly_def reads_on_def exec_direct_def autocommit_def take_fault_def time_now_def Let_def
      advance_shift intro: exI [of _ 0] split: fault.split sum.split option.split prod.split)

lemma quietly_return [simp, intro]: "quietly (\<lambda>w. (x, w))"
  by (simp add: quietly_def)

lemma quietly_bind:
  assumes "quietly f" and "\<And>x. quietly (g x)"
  shows "quietly (\<lambda>w. case f w of (x, w1) \<Rightarrow> g x w1)"
  unfolding quietly_def
proof
  fix w
  obtain x w1 where f: "f w = (x, w1)" by (cases "f w")
  have "reads_on w w1" "reads_on w1 (snd (g x w1))"
    using quietlyD [OF assms(1) f] assms(2) [of x] by (auto simp: quietly_def)
  then show "reads_on w (snd (case f w of (x, w1) \<Rightarrow> g x w1))"
    using f by (auto intro: reads_on_trans)
qed

lemma quietly_case [intro]:
  assumes "quietly f" and "\<And>e. quietly (g e)" and "\<And>x. quietly (h x)"
  shows "quietly (\<lambda>w. case f w of (Inl e, w1) \<Rightarrow> g e w1 | (Inr x, w1) \<Rightarrow> h x w1)"
proof -
  have "quietly (\<lambda>w. case f w of (r, w1) \<Rightarrow> (case r of Inl e \<Rightarrow> g e w1 | Inr x \<Rightarrow> h x w1))"
  proof (rule quietly_bind [OF assms(1)])
    show "quietly (\<lambda>w1. case r of Inl e \<Rightarrow> g e w1 | Inr x \<Rightarrow> h x w1)" for r
      using assms(2,3) by (cases r) simp_all
  qed
  then show ?thesis .
qed

lemma quietly_if [intro]: "quietly f \<Longrightarrow> quietly g \<Longrightarrow> quietly (\<lambda>w. if c then f w else g w)"
  by (cases c) simp_all

lemma quietly_case_sum [intro]:
  "(\<And>e. quietly (g e)) \<Longrightarrow> (\<And>x. quietly (h x)) \<Longrightarrow>
   quietly (\<lambda>w. case s of Inl e \<Rightarrow> g e w | Inr x \<Rightarrow> h x w)"
  by (cases s) simp_all

lemmas quietly_rules = quietly_if quietly_case quietly_case_sum quietly_exec_tx quietly_exec_direct quietly_return

lemma build_items_Cons:
  "build_items E srcs (p # ps) = (\<lambda>w. case
      (case find_source (p_source_id p) srcs of
        Some s \<Rightarrow> (Some s, w)
      | None \<Rightarrow> (case exec_direct (select (\<lambda>_ d. filter (\<lambda>s. s_id s = p_source_id p) (sources d))) w of
          (Inl e, w) \<Rightarrow> (None, w)
        | (Inr rows, w) \<Rightarrow> (case ent_only ''source'' rows of Inl _ \<Rightarrow> (None, w) | Inr s \<Rightarrow> (Some s, w))))
      of (src, w) \<Rightarrow> (case src of None \<Rightarrow> (Inl nil_dereference, w)
        | Some s \<Rightarrow> (case build_items E srcs ps w of (Inl e, w) \<Rightarrow> (Inl e, w)
            | (Inr items, w) \<Rightarrow> (Inr (post_to_domain E p s # items), w))))"
  by (rule ext) (simp add: Let_def)

lemma quietly_build_items [simp]: "quietly (build_items E srcs ps)"
proof (induction ps)
  case Nil
  then show ?case by (simp add: quietly_def)
next
  case (Cons p ps)
  have src: "quietly (\<lambda>w. case find_source (p_source_id p) srcs of
      Some s \<Rightarrow> (Some s, w)
    | None \<Rightarrow> (case exec_direct (select (\<lambda>_ d. filter (\<lambda>s. s_id s = p_source_id p) (sources d))) w of
        (Inl e, w) \<Rightarrow> (None, w)
      | (Inr rows, w) \<Rightarrow> (case ent_only ''source'' rows of Inl _ \<Rightarrow> (None, w) | Inr s \<Rightarrow> (Some s, w))))"
    by (cases "find_source (p_source_id p) srcs") (simp_all only: option.case, (intro quietly_rules)+)
  have rest: "quietly (\<lambda>w. case src of None \<Rightarrow> (Inl nil_dereference, w)
      | Some s \<Rightarrow> (case build_items E srcs ps w of (Inl e, w) \<Rightarrow> (Inl e, w)
          | (Inr items, w) \<Rightarrow> (Inr (post_to_domain E p s # items), w)))" for src
    by (cases src) (simp_all only: option.case, (intro quietly_rules Cons.IH)+)
  show ?case unfolding build_items_Cons by (rule quietly_bind [OF src rest])
qed

lemma quietly_post_repo_List [simp]: "quietly (post_repo_List E f)"
proof -
  have f: "quietly (fetchPosts q n)" for q n
    unfolding fetchPosts_def by (intro quietly_rules)
  have b: "quietly (batchLoadSources rows)" for rows
    unfolding batchLoadSources_def by (intro quietly_rules)
  have r: "quietly (buildResult E rows srcs field n)" for rows srcs field n
    unfolding buildResult_def Let_def by (intro quietly_rules quietly_build_items)
  obtain field descending where g: "getSortParams f = (field, descending)" by (cases "getSortParams f")
  show ?thesis
    unfolding post_repo_List_def Let_def g prod.case by (intro quietly_rules f b r)
qed

lemma collect_pages_reads_on:
  "collect_pages E sourceID start end m fuel t acc tot w = Some (r, w') \<Longrightarrow> reads_on w w'"
proof (induction fuel arbitrary: t acc tot w)
  case (Suc fuel)
  obtain r1 w1 where l: "post_repo_List E (window_filter sourceID start end t) w = (r1, w1)"
    by (cases "post_repo_List E (window_filter sourceID start end t) w")
  have 1: "reads_on w w1" by (rule quietlyD [OF quietly_post_repo_List l])
  show ?case
    using Suc.prems l 1 Suc.IH reads_on_trans [OF 1]
    by (auto simp: Let_def split: sum.splits prod.splits if_splits)
qed simp

section \<open>Reading the last summary\<close>

definition last_summary :: "uuid \<Rightarrow> database \<Rightarrow> summary_row option" where
  "last_summary sid d =
     (case newest_first (filter (\<lambda>r. m_source_id r = sid) (summaries d)) of [] \<Rightarrow> None | m # _ \<Rightarrow> Some m)"

lemma GetLastBySource_fault_free:
  assumes "fault_free w" and "parse_uuid E sourceID = Some sid"
  shows "summary_repo_GetLastBySource E sourceID w =
    (Inr (map_option (summary_to_domain E) (last_summary sid (committed w))), after_read w)"
  using assms fault_free_read(1) [OF assms(1), of "\<lambda>_ d. take 1 (newest_first (filter (\<lambda>r. m_source_id r = sid) (summaries d)))"]
  by (simp add: summary_repo_GetLastBySource_def parse_id_def last_summary_def ent_first_def split: list.split)

section \<open>The digest\<close>

lemma collect_digest:
  assumes "ext_laws E" and "fault_free w" and "parse_uuid E sourceID = Some sid" and "sourceID \<noteq> []"
    and "distinct (map p_id (posts (committed w)))" and "posts_have_sources (committed w)"
    and "length (posts (committed w)) < fuel"
  shows "\<exists>t w'. collectWindowPosts E sourceID start end m fuel w = Some (Inr t, w') \<and>
    digest_text m (map p_text (window_posts sid start end (committed w))) t \<and>
    fault_free w' \<and> committed w' = committed w \<and> reads_on w w'"
proof -
  obtain w' where c: "collectWindowPosts E sourceID start end m fuel w =
      Some (Inr (concat (fst (take_pieces m [] 0 (map p_text (window_posts sid start end (committed w)))))), w')"
    "fault_free w'" "committed w' = committed w"
    using collectWindowPosts_fault_free [OF assms] by blast
  then obtain r where "collect_pages E sourceID start end m fuel [] [] 0 w = Some (r, w')"
    by (auto simp: collectWindowPosts_def)
  then have "reads_on w w'" by (rule collect_pages_reads_on)
  with c take_pieces_digest show ?thesis by blast
qed

lemma llm_first_answer:
  assumes "prompt_For prompts mode = Inr sys" and "router_For llms mode = Inr c"
    and "llm_replies w 0 = Inr body" and "trim_space body \<noteq> []"
  shows "fst (summarizeWithLLMRetry prompts llms cfg mode text w) = Inr body"
proof -
  obtain k where k: "nat (if cfg \<le> 0 then defaultLLMMaxRetries else cfg) = Suc k"
    by (cases "nat (if cfg \<le> 0 then defaultLLMMaxRetries else cfg)")
      (auto simp: defaultLLMMaxRetries_def split: if_splits)
  show ?thesis
    unfolding summarizeWithLLMRetry_def assms(1,2) sum.case Let_def k
    using assms(3,4) by (simp add: call_llm_def)
qed

text \<open>
  What a run on the window text \<open>t\<close> that ends at reading \<open>2\<close> of the clock may have done: with no
  text, nothing; otherwise the provider was asked about \<open>t\<close> only, and a digest for the source
  was added or nothing was stored. The digest is dated by a reading after the end of the window.
\<close>

definition digest_stored :: "ext \<Rightarrow> uuid \<Rightarrow> string result \<Rightarrow> world \<Rightarrow> world \<Rightarrow> bool" where
  "digest_stored E sid r w w' \<longleftrightarrow>
     (\<exists>m k. m_post_id m = None \<and> m_source_id m = sid \<and> trim_space (m_text m) \<noteq> [] \<and>
        m_word_count m = int (length (Go_Base.fields (m_text m))) \<and>
        2 < k \<and> m_created_at m = clock w k \<and> (\<forall>s. r = Inr s \<longrightarrow> s = uuid_string E (m_id m)) \<and>
        committed w' = (committed w)\<lparr>summaries := summaries (committed w) @ [m]\<rparr>)"

definition source_processed :: "ext \<Rightarrow> uuid \<Rightarrow> string \<Rightarrow> string result \<Rightarrow> world \<Rightarrow> world \<Rightarrow> bool" where
  "source_processed E sid t r w w' \<longleftrightarrow>
     (if t = [] then r = Inl (Sentinel ErrSummarySourceNoPosts) \<and> committed w' = committed w \<and>
        llm_calls w' = llm_calls w
      else (\<exists>sys n. llm_calls w' = llm_calls w @ replicate n (sys, t)) \<and>
        (committed w' = committed w \<and> (\<exists>e. r = Inl e) \<or> digest_stored E sid r w w'))"

lemma save_digest:
  assumes E: "ext_laws E" and o: "open_tx w = None" and s: "save_summary E None sourceID body w = (r, w')"
    and sid: "parse_uuid E sourceID = Some sid" and nb: "trim_space body \<noteq> []"
    and k: "2 < k" "clock w 0 = clock w0 k" and c: "committed w = committed w0"
  shows "committed w' = committed w0 \<and> (\<exists>e. r = Inl e) \<or> digest_stored E sid r w0 w'"
proof -
  note S = save_summary_outside [OF E o s]
  have none: "parse_opt_id E ''invalid post id'' None = Inr q \<Longrightarrow> q = None" for q
    by (simp add: parse_opt_id_def)
  have m: "new_summary E q sourceID body m \<Longrightarrow> parse_opt_id E ''invalid post id'' None = Inr q \<Longrightarrow>
      m_post_id m = None \<and> m_source_id m = sid \<and> m_text m = body \<and>
      m_word_count m = int (length (Go_Base.fields (m_text m)))" for q m
    using none sid by (auto simp: new_summary_def)
  show ?thesis
  proof (cases r)
    case (Inl e)
    then show ?thesis using S(3) m nb k c unfolding digest_stored_def by (metis Inl_Inr_False)
  next
    case (Inr x)
    then show ?thesis using S(4) [OF Inr] m nb k c unfolding digest_stored_def by (metis sum.inject(2))
  qed
qed

lemma save_digest_succeeds:
  assumes E: "ext_laws E" and ff: "fault_free w" and sid: "parse_uuid E sourceID = Some sid"
    and "sid \<in> source_ids (committed w)" and "fresh_ids w 0 \<notin> summary_ids (committed w)"
  shows "\<exists>s. fst (save_summary E None sourceID body w) = Inr s"
proof -
  define w1 where "w1 = w\<lparr>fresh_ids := advance (fresh_ids w), clock := advance (clock w)\<rparr>"
  define row where "row = summary_row_of (fresh_ids w 0) sid None
    \<lparr>sum_ID = uuid_string E (fresh_ids w 0), sum_PostID = None, sum_SourceID = sourceID,
     sum_Text = body, sum_WordCount = int (length (Go_Base.fields body)), sum_CreatedAt = clock w 0\<rparr>"
  have "open_tx w1 = None" "faults w1 0 = Healthy" using ff by (simp_all add: w1_def fault_free_def)
  from exec_tx_outside_fault_free [OF this, of "write_stmt (insert_summary row)"]
  have "\<exists>w2. exec_tx (write_stmt (insert_summary row)) w1 = (Inr (), w2)"
    using assms(4,5) by (simp add: write_stmt_def insert_summary_def row_def summary_row_of_def w1_def opt_in_def)
  then show ?thesis
    using sid E by (auto simp: save_summary_def summary_repo_Save_def new_uuid_def time_now_def w1_def [symmetric]
        row_def [symmetric] parse_id_def parse_opt_id_def ext_lawsD)
qed

text \<open>When nothing stands in the way of a digest: configuration, answer, source and identifier.\<close>

definition digest_possible :: "SummaryDeps \<Rightarrow> uuid \<Rightarrow> world \<Rightarrow> bool" where
  "digest_possible D sid w \<longleftrightarrow>
     \<not> isl (prompt_For (dep_prompts D) ProcessingModeCumulative) \<and>
     \<not> isl (router_For (dep_llms D) ProcessingModeCumulative) \<and> usable (llm_replies w 0) \<and>
     sid \<in> source_ids (committed w) \<and> fresh_ids w 0 \<notin> summary_ids (committed w)"

text \<open>What the steps up to the text of the window leave as it was.\<close>

definition before_llm :: "nat \<Rightarrow> world \<Rightarrow> world \<Rightarrow> bool" where
  "before_llm k w v \<longleftrightarrow>
     fault_free v \<and> committed v = committed w \<and> llm_calls v = llm_calls w \<and> llm_replies v 0 = llm_replies w 0 \<and>
     fresh_ids v = fresh_ids w \<and> clock v 0 = clock w (k + 3)"

lemma digest_collected:
  assumes "ext_laws (dep_ext D)" and ff: "fault_free w"
    and "parse_uuid (dep_ext D) (se_SourceID event) = Some sid" and "se_SourceID event \<noteq> []"
    and "distinct (map p_id (posts (committed w)))" and "posts_have_sources (committed w)"
    and "length (posts (committed w)) < fuel"
    and fresh: "time_sub (clock w 0) (se_CreatedAt event) \<le> sint (or_default (sf_EventTtl (dep_cfg D)) 86400)"
    and start: "start = window_start (dep_cfg D)
      (map_option (summary_to_domain (dep_ext D)) (last_summary sid (committed w))) (clock w 2)"
  shows "\<exists>t v k. digest_text (max_input_chars (dep_cfg D)) (map p_text (window_posts sid start (clock w 2) (committed w))) t \<and>
    before_llm k w v \<and>
    ProcessSourceEvent D fuel event w =
      (if t = [] then Some (Inl (Sentinel ErrSummarySourceNoPosts), v)
       else case summarizeWithLLMRetry (dep_prompts D) (dep_llms D) (sf_LlmMaxRetries (dep_cfg D)) ProcessingModeCumulative t v of
         (Inl e, w) \<Rightarrow> Some (Inl (errorf_ctx ''summarize'' e), w)
       | (Inr digest, w) \<Rightarrow> Some (save_summary (dep_ext D) None (se_SourceID event) digest w))"
proof -
  let ?E = "dep_ext D" and ?m = "max_input_chars (dep_cfg D)"
  define w1 where "w1 = w\<lparr>clock := advance (clock w)\<rparr>"
  define w3 where "w3 = (after_read w1)\<lparr>clock := advance (clock (after_read w1))\<rparr>"
  have ff1: "fault_free w1" and ff3: "fault_free w3" using ff by (simp_all add: fault_free_def w1_def w3_def)
  have c3: "committed w3 = committed w" "llm_calls w3 = llm_calls w" "clock w3 n = clock w (n + 3)"
    "llm_replies w3 = llm_replies w" "fresh_ids w3 = fresh_ids w" for n
    by (simp_all add: w3_def w1_def after_read_def eval_nat_numeral)
  have e: "ensureNotExpired (dep_cfg D) event w = (None, w1)"
    using fresh by (simp add: ensureNotExpired_def time_now_def w1_def)
  have l: "summary_repo_GetLastBySource ?E (se_SourceID event) w1 =
      (Inr (map_option (summary_to_domain ?E) (last_summary sid (committed w))), after_read w1)"
    using GetLastBySource_fault_free [OF ff1 assms(3)] by (simp add: w1_def)
  have now: "time_now (after_read w1) = (clock w 2, w3)"
    by (simp add: time_now_def w3_def) (simp add: w1_def eval_nat_numeral)
  obtain t w4 where col: "collectWindowPosts ?E (se_SourceID event) start (clock w 2) ?m fuel w3 = Some (Inr t, w4)"
    and t: "digest_text ?m (map p_text (window_posts sid start (clock w 2) (committed w))) t"
    and w4: "fault_free w4" "committed w4 = committed w" "reads_on w3 w4"
    using collect_digest [OF assms(1) ff3 assms(3,4), of fuel start "clock w 2" ?m] assms(5-7) c3(1) by auto
  obtain k where "clock w4 0 = clock w (k + 3)" using w4(3) c3(3) by (auto simp: reads_on_def)
  then have "before_llm k w w4" using w4 c3 by (simp add: before_llm_def reads_on_def)
  then show ?thesis
    using t by (intro exI [of _ t] exI [of _ w4] exI [of _ k])
      (simp add: ProcessSourceEvent_def e l now start [symmetric] col)
qed

lemma digest_llm_answers:
  assumes "digest_possible D sid w" and "before_llm k w v"
    and s: "summarizeWithLLMRetry (dep_prompts D) (dep_llms D) (sf_LlmMaxRetries (dep_cfg D)) ProcessingModeCumulative t v = (q, v')"
  shows "\<exists>body. q = Inr body"
proof -
  obtain sys c body where a: "prompt_For (dep_prompts D) ProcessingModeCumulative = Inr sys"
    "router_For (dep_llms D) ProcessingModeCumulative = Inr c" "llm_replies w 0 = Inr body" "trim_space body \<noteq> []"
    using assms(1) by (auto simp: digest_possible_def usable_def isl_def split: sum.splits) (metis sum.exhaust)
  have "llm_replies v 0 = Inr body" using a(3) assms(2) by (simp add: before_llm_def)
  from llm_first_answer [OF a(1,2) this a(4)] s show ?thesis by (metis fst_conv)
qed

text \<open>The steps from the provider on.\<close>

lemma digest_summarized:
  assumes E: "ext_laws (dep_ext D)" and src: "parse_uuid (dep_ext D) (se_SourceID event) = Some sid"
    and v: "before_llm k w v" and t: "t \<noteq> []"
    and run: "(case summarizeWithLLMRetry (dep_prompts D) (dep_llms D) (sf_LlmMaxRetries (dep_cfg D)) ProcessingModeCumulative t v of
         (Inl e, w) \<Rightarrow> (Inl (errorf_ctx ''summarize'' e), w)
       | (Inr digest, w) \<Rightarrow> save_summary (dep_ext D) None (se_SourceID event) digest w) = (r, w')"
  shows "source_processed (dep_ext D) sid t r w w' \<and> (digest_possible D sid w \<longrightarrow> (\<exists>s. r = Inr s))"
proof -
  let ?E = "dep_ext D"
  obtain r5 w5 where s: "summarizeWithLLMRetry (dep_prompts D) (dep_llms D) (sf_LlmMaxRetries (dep_cfg D))
      ProcessingModeCumulative t v = (r5, w5)" by fastforce
  note F = summarizeWithLLMRetry_frame [OF s]
  have w5: "open_tx w5 = None" "committed w5 = committed w" "clock w5 0 = clock w (k + 3)"
    "fault_free w5" "fresh_ids w5 = fresh_ids w"
    using F(1) v by (simp_all add: same_store_def fault_free_def before_llm_def)
  have calls5: "\<exists>sys n. llm_calls w5 = llm_calls w @ replicate n (sys, t)" using F(3) v by (simp add: before_llm_def)
  show ?thesis
  proof (cases r5)
    case (Inl err)
    then show ?thesis using digest_llm_answers [OF _ v s] run s t w5(2) calls5 by (auto simp: source_processed_def)
  next
    case (Inr body)
    then have sv: "save_summary ?E None (se_SourceID event) body w5 = (r, w')" using run s by simp
    from save_digest [OF E w5(1) sv src F(2) [OF Inr] _ w5(3,2)]
    have "committed w' = committed w \<and> (\<exists>e. r = Inl e) \<or> digest_stored ?E sid r w w'" by simp
    moreover have "llm_calls w' = llm_calls w5" by (rule save_summary_outside(2) [OF E w5(1) sv])
    moreover have "digest_possible D sid w \<Longrightarrow> \<exists>x. r = Inr x"
      using save_digest_succeeds [OF E w5(4) src, of body] w5(2,5) sv by (simp add: digest_possible_def)
    ultimately show ?thesis using t calls5 by (auto simp: source_processed_def)
  qed
qed



end
