(* ===== verification/Summary_Scheduling.thy ===== *)
theory Summary_Scheduling
  imports Summary_Digest
begin

text \<open>
  Scheduling of cumulative sources: the claim of a due source, the move of its next date and
  the event are one transaction; so are the event and the date of a manual trigger. Reaping
  of stuck events.
\<close>

section \<open>Programs that read inside a transaction\<close>

text \<open>They keep the working copy; a failing statement may abort the transaction.\<close>

definition tx_reads :: "(world \<Rightarrow> 'a \<times> world) \<Rightarrow> bool" where
  "tx_reads f \<longleftrightarrow> (\<forall>w t. open_tx w = Some t \<longrightarrow>
     (\<exists>a. open_tx (snd (f w)) = Some (t\<lparr>tx_aborted := a\<rparr>) \<and> (tx_aborted t \<longrightarrow> a)) \<and>
     committed (snd (f w)) = committed w)"

lemma tx_readsD:
  assumes "tx_reads f" and "f w = (r, w')" and "open_tx w = Some t"
  shows "committed w' = committed w"
    and "\<exists>a. open_tx w' = Some (t\<lparr>tx_aborted := a\<rparr>) \<and> (tx_aborted t \<longrightarrow> a)"
  using assms by (metis tx_reads_def snd_conv)+

lemma tx_reads_confined: "tx_reads f \<Longrightarrow> confined f"
  by (rule confinedI) (auto simp: tx_reads_def)

lemma abort_id [simp]: "t\<lparr>tx_aborted := tx_aborted t\<rparr> = t"
  by (cases t) simp

lemma tx_reads_select [simp, intro]: "tx_reads (exec_tx (select q))"
  unfolding tx_reads_def
proof (intro allI impI)
  fix w :: world and t assume t: "open_tx w = Some t"
  then show "(\<exists>a. open_tx (snd (exec_tx (select q) w)) = Some (t\<lparr>tx_aborted := a\<rparr>) \<and> (tx_aborted t \<longrightarrow> a)) \<and>
      committed (snd (exec_tx (select q) w)) = committed w"
    by (cases t) (auto simp: exec_tx_def take_fault_def in_transaction_def select_def split: fault.split)
qed

lemma tx_reads_direct_select [simp, intro]: "tx_reads (exec_direct (select q))"
  unfolding tx_reads_def
proof (intro allI impI)
  fix w :: world and t assume t: "open_tx w = Some t"
  then show "(\<exists>a. open_tx (snd (exec_direct (select q) w)) = Some (t\<lparr>tx_aborted := a\<rparr>) \<and> (tx_aborted t \<longrightarrow> a)) \<and>
      committed (snd (exec_direct (select q) w)) = committed w"
    by (cases t) (auto simp: exec_direct_def autocommit_def take_fault_def time_now_def select_def Let_def split: fault.split)
qed

lemma tx_reads_pure:
  assumes "\<And>w. committed (snd (f w)) = committed w" and "\<And>w. open_tx (snd (f w)) = open_tx w"
  shows "tx_reads f"
  unfolding tx_reads_def using assms abort_id by metis

lemma tx_reads_return [simp, intro]: "tx_reads (\<lambda>w. (x, w))"
  and tx_reads_time_now [simp, intro]: "tx_reads time_now"
  and tx_reads_new_uuid [simp, intro]: "tx_reads new_uuid"
  and tx_reads_take_locks [simp, intro]: "tx_reads take_locks"
  by (simp_all add: tx_reads_pure)

lemma tx_reads_bind:
  assumes "tx_reads f" and "\<And>x. tx_reads (g x)"
  shows "tx_reads (\<lambda>w. case f w of (x, w1) \<Rightarrow> g x w1)"
  unfolding tx_reads_def
proof (intro allI impI)
  fix w :: world and t assume t: "open_tx w = Some t"
  obtain x w1 where f: "f w = (x, w1)" by (cases "f w")
  obtain a where a: "open_tx w1 = Some (t\<lparr>tx_aborted := a\<rparr>)" "tx_aborted t \<longrightarrow> a" "committed w1 = committed w"
    using tx_readsD [OF assms(1) f t] by blast
  obtain y w2 where g: "g x w1 = (y, w2)" by (cases "g x w1")
  from tx_readsD [OF assms(2) g a(1)] a
  show "(\<exists>a. open_tx (snd (case f w of (x, w1) \<Rightarrow> g x w1)) = Some (t\<lparr>tx_aborted := a\<rparr>) \<and> (tx_aborted t \<longrightarrow> a)) \<and>
      committed (snd (case f w of (x, w1) \<Rightarrow> g x w1)) = committed w"
    by (auto simp: f g)
qed

lemma tx_reads_case:
  assumes "tx_reads f" and "\<And>e. tx_reads (g e)" and "\<And>x. tx_reads (h x)"
  shows "tx_reads (\<lambda>w. case f w of (Inl e, w1) \<Rightarrow> g e w1 | (Inr x, w1) \<Rightarrow> h x w1)"
proof -
  have "tx_reads (\<lambda>w. case f w of (r, w1) \<Rightarrow> (case r of Inl e \<Rightarrow> g e w1 | Inr x \<Rightarrow> h x w1))"
  proof (rule tx_reads_bind [OF assms(1)])
    show "tx_reads (\<lambda>w1. case r of Inl e \<Rightarrow> g e w1 | Inr x \<Rightarrow> h x w1)" for r
      using assms(2,3) by (cases r) simp_all
  qed
  then show ?thesis .
qed

lemma tx_reads_if: "tx_reads f \<Longrightarrow> tx_reads g \<Longrightarrow> tx_reads (\<lambda>w. if c then f w else g w)"
  by (cases c) simp_all

lemma tx_reads_case_sum:
  "(\<And>e. tx_reads (g e)) \<Longrightarrow> (\<And>x. tx_reads (h x)) \<Longrightarrow>
   tx_reads (\<lambda>w. case s of Inl e \<Rightarrow> g e w | Inr x \<Rightarrow> h x w)"
  by (cases s) simp_all

lemmas tx_reads_rules = tx_reads_case tx_reads_if tx_reads_case_sum tx_reads_select tx_reads_direct_select
  tx_reads_return tx_reads_time_now tx_reads_new_uuid tx_reads_take_locks

lemma tx_reads_build_items: "tx_reads (build_items E srcs ps)"
proof (induction ps)
  case Nil
  then show ?case by (simp add: tx_reads_pure)
next
  case (Cons p ps)
  have src: "tx_reads (\<lambda>w. case find_source (p_source_id p) srcs of
      Some s \<Rightarrow> (Some s, w)
    | None \<Rightarrow> (case exec_direct (select (\<lambda>_ d. filter (\<lambda>s. s_id s = p_source_id p) (sources d))) w of
        (Inl e, w) \<Rightarrow> (None, w)
      | (Inr rows, w) \<Rightarrow> (case ent_only ''source'' rows of Inl _ \<Rightarrow> (None, w) | Inr s \<Rightarrow> (Some s, w))))"
    by (cases "find_source (p_source_id p) srcs") (simp_all only: option.case, (intro tx_reads_rules)+)
  have rest: "tx_reads (\<lambda>w. case src of None \<Rightarrow> (Inl nil_dereference, w)
      | Some s \<Rightarrow> (case build_items E srcs ps w of (Inl e, w) \<Rightarrow> (Inl e, w)
          | (Inr items, w) \<Rightarrow> (Inr (post_to_domain E p s # items), w)))" for src
    by (cases src) (simp_all only: option.case, (intro tx_reads_rules Cons.IH)+)
  show ?case unfolding build_items_Cons by (rule tx_reads_bind [OF src rest])
qed

lemma tx_reads_post_repo_List: "tx_reads (post_repo_List E f)"
proof -
  have f: "tx_reads (fetchPosts q n)" for q n
    unfolding fetchPosts_def by (intro tx_reads_rules)
  have b: "tx_reads (batchLoadSources rows)" for rows
    unfolding batchLoadSources_def by (intro tx_reads_rules)
  have r: "tx_reads (buildResult E rows srcs field n)" for rows srcs field n
    unfolding buildResult_def Let_def by (intro tx_reads_rules tx_reads_build_items)
  obtain field descending where g: "getSortParams f = (field, descending)" by (cases "getSortParams f")
  show ?thesis
    unfolding post_repo_List_def Let_def g prod.case by (intro tx_reads_rules f b r)
qed

lemma tx_reads_HasActiveEvent: "tx_reads (summary_outbox_HasActiveEvent E s ty)"
  unfolding summary_outbox_HasActiveEvent_def by (intro tx_reads_rules)

lemma tx_reads_GetLastBySource: "tx_reads (summary_repo_GetLastBySource E s)"
  unfolding summary_repo_GetLastBySource_def by (intro tx_reads_rules)

lemma tx_reads_NewSummaryEvent: "tx_reads (NewSummaryEvent E ty s p)"
  unfolding NewSummaryEvent_def Let_def by (intro tx_reads_bind tx_reads_rules)

lemma tx_reads_ClaimDueCumulative: "tx_reads (ClaimDueCumulative E)"
  unfolding ClaimDueCumulative_def Let_def
  by (intro tx_reads_bind [OF tx_reads_take_locks] tx_reads_bind [OF tx_reads_select] tx_reads_rules)

section \<open>The bodies of the two transactions\<close>

lemma ClaimDueCumulative_inside:
  assumes "open_tx w = Some t" and "ClaimDueCumulative E w = (Inr s, w')"
  shows "open_tx w' = Some t" and "committed w' = committed w" and "\<not> tx_aborted t"
    and "\<exists>row. first_min due_key (filter (\<lambda>r. source_due (tx_started t) r \<and> s_id r \<notin> set (row_locks w 0))
      (sources (tx_working t))) = Some row \<and> src_ID s = uuid_string E (s_id row)"
proof -
  define q where "q = (\<lambda>now d. first_min due_key
    (filter (\<lambda>r. source_due now r \<and> s_id r \<notin> set (row_locks w 0)) (sources (d::database))))"
  define w0 where "w0 = w\<lparr>row_locks := advance (row_locks w)\<rparr>"
  obtain r w1 where x: "exec_tx (select q) w0 = (r, w1)" by (cases "exec_tx (select q) w0")
  have o: "open_tx w0 = Some t" using assms(1) by (simp add: w0_def)
  have run: "(case query_row r of
           Inl e \<Rightarrow> (if errors_is e SqlErrNoRows then (Inl (Sentinel ErrNoSourceDue), w1)
                     else (Inl (errorf_ctx ''claim due cumulative'' e), w1))
         | Inr row \<Rightarrow> (case deserializeConfig (s_type row) (s_config row) of
                Inl e \<Rightarrow> (Inl (errorf_ctx ''deserialize config'' e), w1)
              | Inr c \<Rightarrow> (Inr \<lparr>src_ID = uuid_string E (s_id row), src_Type = s_type row,
                        src_ProcessingMode = ProcessingModeForType (s_type row),
                        src_Config = Some c, src_CreatedAt = s_created_at row,
                        src_UpdatedAt = s_updated_at row\<rparr>, w1))) = (Inr s, w')"
    using assms(2) x unfolding ClaimDueCumulative_def take_locks_def w0_def [symmetric] q_def [symmetric] Let_def prod.case
    by simp
  obtain row where row: "query_row r = Inr row" using run by (cases "query_row r") (auto split: if_splits)
  then have r: "r = Inr (Some row)" by (auto simp: query_row_def split: sum.splits option.splits)
  have s: "src_ID s = uuid_string E (s_id row)" and w1: "w' = w1"
    using run row by (auto split: sum.splits)
  note e = exec_tx_inside_select [OF o x [unfolded r]]
  show "open_tx w' = Some t" "committed w' = committed w" "\<not> tx_aborted t"
    using e(1,3,4) w1 by (simp_all add: w0_def)
  show "\<exists>row. first_min due_key (filter (\<lambda>r. source_due (tx_started t) r \<and> s_id r \<notin> set (row_locks w 0))
      (sources (tx_working t))) = Some row \<and> src_ID s = uuid_string E (s_id row)"
    using e(2) [symmetric] s unfolding q_def by blast
qed

definition bumped :: "uuid \<Rightarrow> time \<Rightarrow> database \<Rightarrow> database" where
  "bumped sid nextAt d =
     d\<lparr>sources := update_where (\<lambda>r. s_id r = sid) (\<lambda>r. r\<lparr>s_next_summary_at := Some nextAt\<rparr>) (sources d)\<rparr>"

lemma BumpNextSummaryAt_inside:
  assumes "open_tx w = Some t" and "BumpNextSummaryAt E s nextAt w = (Inr u, w')"
  shows "\<exists>sid. parse_uuid E s = Some sid \<and> open_tx w' = Some (t\<lparr>tx_working := bumped sid nextAt (tx_working t)\<rparr>) \<and>
    committed w' = committed w \<and> sid \<in> source_ids (tx_working t)"
proof -
  from assms(2) obtain sid where sid: "parse_uuid E s = Some sid"
    by (auto simp: BumpNextSummaryAt_def parse_id_def split: option.splits)
  obtain r w1 where x: "exec_tx (bump_stmt sid nextAt) w = (r, w1)" by (cases "exec_tx (bump_stmt sid nextAt) w")
  from assms(2) x sid obtain n where r: "r = Inr n" "0 < n" and w1: "w' = w1"
    by (auto simp: BumpNextSummaryAt_def parse_id_def split: sum.splits if_splits)
  from exec_tx_inside(2) [OF assms(1) x r(1)] obtain d where
    d: "bump_stmt sid nextAt (tx_started t) (tx_working t) = Inr (n, d)" "open_tx w1 = Some (t\<lparr>tx_working := d\<rparr>)" by blast
  have "d = bumped sid nextAt (tx_working t)" and n: "n = count_where (\<lambda>r. s_id r = sid) (sources (tx_working t))"
    using d(1) by (auto simp: bump_stmt_def guarded_update_def bumped_def)
  moreover have "sid \<in> source_ids (tx_working t)"
    using r(2) count_where_0 [of "\<lambda>r. s_id r = sid" "sources (tx_working t)"] unfolding n source_ids_def by force
  ultimately show ?thesis using sid d(2) w1 exec_tx_inside(1) [OF assms(1) x] by auto
qed

text \<open>A pending event for the whole of a source.\<close>

definition source_event :: "uuid \<Rightarrow> summary_event_row \<Rightarrow> bool" where
  "source_event sid r \<longleftrightarrow> e_post_id r = None \<and> e_source_id r = sid \<and> e_event_type r = SummarizeSource \<and>
     l_status r = Pending \<and> l_attempt_count r = 0 \<and> l_locked_by r = None"

definition with_event :: "summary_event_row \<Rightarrow> database \<Rightarrow> database" where
  "with_event ev d = d\<lparr>summary_events := summary_events d @ [ev]\<rparr>"

lemma enqueue_inside:
  assumes t: "open_tx w = Some t" and new: "NewSummaryEvent E SummarizeSource s None w = (ev, w1)"
    and save: "summary_outbox_Save E ev w1 = (r, w2)"
  shows "r = Inr saved \<Longrightarrow> \<exists>sid row. parse_uuid E s = Some sid \<and> source_event sid row \<and>
      open_tx w2 = Some (t\<lparr>tx_working := with_event row (tx_working t)\<rparr>) \<and> se_ID saved = uuid_string E (l_id row)"
    and "r = Inl e \<Longrightarrow> errors_is e ErrSummaryAlreadyProcessing \<Longrightarrow> \<exists>t'. open_tx w2 = Some t' \<and> tx_aborted t'"
proof -
  have w1: "open_tx w1 = Some t" using t new by (auto simp: NewSummaryEvent_def new_uuid_def time_now_def)
  have ev: "se_SourceID ev = s" "se_PostID ev = None" "se_EventType ev = SummarizeSource" "se_Status ev = Pending"
    using new by (auto simp: NewSummaryEvent_def new_uuid_def time_now_def)
  show "\<exists>sid row. parse_uuid E s = Some sid \<and> source_event sid row \<and>
      open_tx w2 = Some (t\<lparr>tx_working := with_event row (tx_working t)\<rparr>) \<and> se_ID saved = uuid_string E (l_id row)"
    if r: "r = Inr saved"
  proof -
    obtain i si p d where S: "parse_uuid E (se_SourceID ev) = Some si"
      "parse_opt_id E ''invalid post id'' (se_PostID ev) = Inr p"
      "insert_summary_event (new_summary_event_row i si p ev) (tx_working t) = Inr d"
      "open_tx w2 = Some (t\<lparr>tx_working := d\<rparr>)" "saved = summary_event_to_domain E (new_summary_event_row i si p ev)"
      using summary_outbox_Save_inside [OF w1 save [unfolded r]] by blast
    have "d = with_event (new_summary_event_row i si p ev) (tx_working t)"
      using S(3) by (auto simp: insert_summary_event_def with_event_def split: if_splits)
    moreover have "source_event si (new_summary_event_row i si p ev)"
      using ev S(2) by (simp add: source_event_def new_summary_event_row_def parse_opt_id_def)
    moreover have "se_ID saved = uuid_string E (l_id (new_summary_event_row i si p ev))"
      by (simp add: S(5) summary_event_to_domain_def)
    ultimately show ?thesis using S(1,4) ev(1) by blast
  qed
  show "\<exists>t'. open_tx w2 = Some t' \<and> tx_aborted t'"
    if r: "r = Inl e" and e: "errors_is e ErrSummaryAlreadyProcessing"
  proof -
    from save r e obtain i si p where ids: "parse_uuid E (se_ID ev) = Some i" "parse_uuid E (se_SourceID ev) = Some si"
      "parse_opt_id E ''invalid post id'' (se_PostID ev) = Inr p"
      by (auto simp: summary_outbox_Save_def parse_id_def parse_opt_id_def split: option.splits sum.splits)
    obtain q v where x: "exec_tx (write_stmt (insert_summary_event (new_summary_event_row i si p ev))) w1 = (q, v)"
      by (cases "exec_tx (write_stmt (insert_summary_event (new_summary_event_row i si p ev))) w1")
    with save r ids obtain err where "q = Inl err" "w2 = v"
      by (cases q) (auto simp: summary_outbox_Save_def parse_id_def Let_def split: if_splits)
    then show ?thesis using exec_tx_inside(3) [OF w1 x] by blast
  qed
qed

section \<open>What the transactions do\<close>

lemma maybeEnqueue_inside:
  assumes t: "open_tx w = Some t" and run: "maybeEnqueueSourceEvent E s w = (Inr x, w')"
    and t2: "open_tx w' = Some t2" "\<not> tx_aborted t2"
  shows "if x then \<exists>sid row. parse_uuid E s = Some sid \<and> source_event sid row \<and> tx_working t2 = with_event row (tx_working t)
    else tx_working t2 = tx_working t"
proof -
  have keep: "tx_working t2 = tx_working t" if "w' = v" "open_tx v = Some (t\<lparr>tx_aborted := a\<rparr>)" for v a
    using that t2(1) by auto
  obtain r1 w1 where 1: "summary_outbox_HasActiveEvent E s SummarizeSource w = (r1, w1)"
    by (cases "summary_outbox_HasActiveEvent E s SummarizeSource w")
  obtain a1 where a1: "open_tx w1 = Some (t\<lparr>tx_aborted := a1\<rparr>)"
    using tx_readsD(2) [OF tx_reads_HasActiveEvent 1 t] by blast
  obtain r2 w2 where 2: "summary_repo_GetLastBySource E s w1 = (r2, w2)"
    by (cases "summary_repo_GetLastBySource E s w1")
  obtain a2 where a2: "open_tx w2 = Some (t\<lparr>tx_aborted := a2\<rparr>)"
    using tx_readsD(2) [OF tx_reads_GetLastBySource 2 a1] by auto
  obtain now w3 where 3: "time_now w2 = (now, w3)" by (cases "time_now w2")
  have a3: "open_tx w3 = Some (t\<lparr>tx_aborted := a2\<rparr>)" using 3 a2 by (auto simp: time_now_def)
  show ?thesis
  proof (cases "\<exists>lastSummary. r1 = Inr None \<and> r2 = Inr lastSummary")
    case False
    then have "\<not> x \<and> w' = w1"
      using run 1 2 by (auto simp: maybeEnqueueSourceEvent_def split: sum.splits if_splits)
    then show ?thesis using keep a1 by simp
  next
    case True
    then obtain lastSummary where r12: "r1 = Inr None" "r2 = Inr lastSummary" by blast
    let ?f = "newest_post_filter s (map_option sum_CreatedAt lastSummary) now"
    obtain r4 w4 where 4: "post_repo_List E ?f w3 = (r4, w4)" by (cases "post_repo_List E ?f w3")
    obtain a4 where a4: "open_tx w4 = Some (t\<lparr>tx_aborted := a4\<rparr>)"
      using tx_readsD(2) [OF tx_reads_post_repo_List 4 a3] by auto
    obtain ev w5 where 5: "NewSummaryEvent E SummarizeSource s None w4 = (ev, w5)"
      by (cases "NewSummaryEvent E SummarizeSource s None w4")
    obtain r6 w6 where 6: "summary_outbox_Save E ev w5 = (r6, w6)" by (cases "summary_outbox_Save E ev w5")
    have run4: "(case r4 of Inl e \<Rightarrow> (Inl e, w4)
      | Inr page \<Rightarrow> (if Items page = [] then (Inr False, w4)
          else case r6 of Inl saveErr \<Rightarrow>
              (if errors_is saveErr ErrSummaryAlreadyProcessing then (Inr False, w6) else (Inl saveErr, w6))
          | Inr _ \<Rightarrow> (Inr True, w6))) = (Inr x, w')"
      using run 1 2 3 4 5 6 r12 by (cases r4; cases r6) (auto simp: maybeEnqueueSourceEvent_def split: if_splits)
    note sv = enqueue_inside [OF a4 5 6]
    show ?thesis
    proof (cases "\<exists>e. r6 = Inl e \<and> w' = w6 \<and> errors_is e ErrSummaryAlreadyProcessing")
      case True
      then show ?thesis using sv(2) t2 by auto
    next
      case False
      with run4 consider "\<not> x" "w' = w4" | saved where "x" "w' = w6" "r6 = Inr saved"
        by (auto split: sum.splits if_splits)
      then show ?thesis
      proof cases
        case 1
        then show ?thesis using keep a4 by simp
      next
        case 2
        then show ?thesis using sv(1) [OF 2(3)] t2(1) by auto
      qed
    qed
  qed
qed

lemma confined_schedule_body: "confined (schedule_body E interval)"
proof -
  have bump: "confined (BumpNextSummaryAt E s n)" for s n
    unfolding BumpNextSummaryAt_def by (intro confined_case_sum confined_case confined_exec_tx confined_if confined_return)
  have enq: "confined (maybeEnqueueSourceEvent E s)" for s
    unfolding maybeEnqueueSourceEvent_def
    by (intro confined_case confined_if confined_let confined_time_now confined_return confined_NewSummaryEvent
        confined_summary_outbox_Save tx_reads_confined tx_reads_HasActiveEvent tx_reads_GetLastBySource tx_reads_post_repo_List)
  show ?thesis
    unfolding schedule_body_def
    by (intro confined_case confined_let confined_time_now confined_return bump enq
        tx_reads_confined [OF tx_reads_ClaimDueCumulative])
qed

text \<open>
  The effect of a scheduling round on the database \<open>d\<close>: the source with the least key of the
  due and unlocked ones gets a new date, and an event for it is queued or not.
\<close>

definition scheduled_effect :: "bool \<Rightarrow> database \<Rightarrow> database \<Rightarrow> bool" where
  "scheduled_effect x d d' \<longleftrightarrow>
     (\<exists>now locks row nextAt.
        first_min due_key (filter (\<lambda>r. source_due now r \<and> s_id r \<notin> set locks) (sources d)) = Some row \<and>
        (if x then \<exists>ev. source_event (s_id row) ev \<and> d' = with_event ev (bumped (s_id row) nextAt d)
         else d' = bumped (s_id row) nextAt d))"

lemma schedule_body_effect:
  assumes E: "ext_laws E" and t: "open_tx w = Some t" and run: "schedule_body E interval w = (Inr x, w')"
    and t2: "open_tx w' = Some t2" "\<not> tx_aborted t2"
  shows "scheduled_effect x (tx_working t) (tx_working t2)"
proof -
  obtain r1 w1 where 1: "ClaimDueCumulative E w = (r1, w1)" by (cases "ClaimDueCumulative E w")
  with run obtain src where r1: "r1 = Inr src" by (cases r1) (auto simp: schedule_body_def)
  from ClaimDueCumulative_inside [OF t 1 [unfolded r1]] obtain row where w1: "open_tx w1 = Some t"
    and row: "first_min due_key (filter (\<lambda>r. source_due (tx_started t) r \<and> s_id r \<notin> set (row_locks w 0))
      (sources (tx_working t))) = Some row" "src_ID src = uuid_string E (s_id row)" by blast
  define nextAt where "nextAt = time_add (clock w1 0) interval"
  define w2 where "w2 = w1\<lparr>clock := advance (clock w1)\<rparr>"
  have w2: "open_tx w2 = Some t" using w1 by (simp add: w2_def)
  obtain r3 w3 where 3: "BumpNextSummaryAt E (src_ID src) nextAt w2 = (r3, w3)"
    by (cases "BumpNextSummaryAt E (src_ID src) nextAt w2")
  with run 1 r1 obtain u where r3: "r3 = Inr u" and enq: "maybeEnqueueSourceEvent E (src_ID src) w3 = (Inr x, w')"
    by (cases r3) (auto simp: schedule_body_def time_now_def nextAt_def w2_def)
  from BumpNextSummaryAt_inside [OF w2 3 [unfolded r3]] have w3: "open_tx w3 = Some (t\<lparr>tx_working := bumped (s_id row) nextAt (tx_working t)\<rparr>)"
    using row(2) E by (auto simp: ext_lawsD)
  have "if x then \<exists>ev. source_event (s_id row) ev \<and> tx_working t2 = with_event ev (bumped (s_id row) nextAt (tx_working t))
    else tx_working t2 = bumped (s_id row) nextAt (tx_working t)"
    using maybeEnqueue_inside [OF w3 enq t2] row(2) E by (auto simp: ext_lawsD split: if_splits)
  with row(1) show ?thesis unfolding scheduled_effect_def by blast
qed

lemma ScheduleNextCumulative_effect:
  assumes "ext_laws (dep_ext D)"
  shows "let (r, w') = ScheduleNextCumulative D w in
    committed w' = committed w \<and> r \<noteq> Inr True \<or>
    (\<exists>x. scheduled_effect x (committed w) (committed w') \<and> (\<forall>y. r = Inr y \<and> y \<longrightarrow> x))"
proof -
  let ?body = "schedule_body (dep_ext D) (cronInterval (dep_cfg D))"
  obtain r w' where i: "InTx ?body w = (r, w')" by (cases "InTx ?body w")
  have "(committed (snd (InTx ?body w)) = committed w \<and> (\<forall>x. fst (InTx ?body w) \<noteq> Inr x)) \<or>
    (\<exists>x. scheduled_effect x (committed w) (committed (snd (InTx ?body w))) \<and>
       (\<forall>y. fst (InTx ?body w) = Inr y \<longrightarrow> y = x))"
    by (rule InTx_rule [OF confined_schedule_body]) (metis schedule_body_effect [OF assms])
  then show ?thesis
    using i by (cases r) (auto simp: ScheduleNextCumulative_def)
qed

text \<open>
  C11. A scheduling round is atomic, whatever statement, commit or rollback fails: nothing is
  changed and no event is reported, or the claimed due source has its new date, together
  with the pending event that is reported, and nothing else is changed.
\<close>

theorem ScheduleNextCumulative_atomic:
  assumes "ext_laws (dep_ext D)"
  shows "let (r, w') = ScheduleNextCumulative D w in
    committed w' = committed w \<and> r \<noteq> Inr True \<or>
    (\<exists>x. scheduled_effect x (committed w) (committed w') \<and> (\<forall>y. r = Inr y \<and> y \<longrightarrow> x))"
  using assms by (rule ScheduleNextCumulative_effect)

definition due_world :: world where
  "due_world = quiet_world (empty_db\<lparr>sources := [sample_source 9 SourceTypeTelegramGroup],
     posts := [listed_post 1 10, listed_post 2 20]\<rparr>)"

theorem ScheduleNextCumulative_atomic_witness:
  "let (r, w') = ScheduleNextCumulative sample_summary_deps due_world in
    r = Inr True \<and> (\<exists>x. scheduled_effect x (committed due_world) (committed w') \<and> (\<forall>y. r = Inr y \<and> y \<longrightarrow> x))"
proof -
  obtain r w' where run: "ScheduleNextCumulative sample_summary_deps due_world = (r, w')"
    by (cases "ScheduleNextCumulative sample_summary_deps due_world")
  have "fst (ScheduleNextCumulative sample_summary_deps due_world) = Inr True" by code_simp
  moreover have "ext_laws (dep_ext sample_summary_deps)" by (simp add: sample_summary_deps_def)
  ultimately show ?thesis
    using ScheduleNextCumulative_atomic [of sample_summary_deps due_world] run by (auto simp: Let_def)
qed

text \<open>
  A lost race is not the quiet outcome its comment promises: the unique violation of the
  insert aborts the transaction, so the swallowed error comes back from the commit, and the
  new date of the source is lost with it.
\<close>

lemma ScheduleNextCumulative_lost_race:
  "let (r, w') = ScheduleNextCumulative sample_summary_deps
       (due_world\<lparr>faults := (\<lambda>n. if n = 7 then Refused unique_violation else Healthy)\<rparr>)
   in r = Inl (errorf_ctx ''commit tx'' failed_commit_error) \<and> committed w' = committed due_world"
  by code_simp

section \<open>The manual trigger\<close>

lemma confined_trigger_body: "confined (trigger_body E s nextAt)"
proof -
  have bump: "confined (BumpNextSummaryAt E s n)" for n
    unfolding BumpNextSummaryAt_def by (intro confined_case_sum confined_case confined_exec_tx confined_if confined_return)
  show ?thesis
    unfolding trigger_body_def
    by (intro confined_case confined_let confined_return bump confined_NewSummaryEvent confined_summary_outbox_Save)
qed

definition triggered_effect :: "ext \<Rightarrow> uuid \<Rightarrow> string \<Rightarrow> database \<Rightarrow> database \<Rightarrow> bool" where
  "triggered_effect E sid eventID d d' \<longleftrightarrow>
     (\<exists>ev nextAt. source_event sid ev \<and> eventID = uuid_string E (l_id ev) \<and>
        d' = bumped sid nextAt (with_event ev d))"

lemma trigger_body_effect:
  assumes t: "open_tx w = Some t" and s: "parse_uuid E s = Some sid"
    and run: "trigger_body E s nextAt w = (Inr eid, w')" and t2: "open_tx w' = Some t2"
  shows "triggered_effect E sid eid (tx_working t) (tx_working t2)"
proof -
  obtain ev w1 where 1: "NewSummaryEvent E SummarizeSource s None w = (ev, w1)"
    by (cases "NewSummaryEvent E SummarizeSource s None w")
  obtain r2 w2 where 2: "summary_outbox_Save E ev w1 = (r2, w2)" by (cases "summary_outbox_Save E ev w1")
  with run 1 obtain saved where r2: "r2 = Inr saved" by (cases r2) (auto simp: trigger_body_def)
  obtain r3 w3 where 3: "BumpNextSummaryAt E s nextAt w2 = (r3, w3)" by (cases "BumpNextSummaryAt E s nextAt w2")
  with run 1 2 r2 obtain u where r3: "r3 = Inr u" "w' = w3" "eid = se_ID saved"
    by (cases r3) (auto simp: trigger_body_def)
  from enqueue_inside(1) [OF t 1 2 r2] s obtain row where row: "source_event sid row"
    "open_tx w2 = Some (t\<lparr>tx_working := with_event row (tx_working t)\<rparr>)" "se_ID saved = uuid_string E (l_id row)" by auto
  from BumpNextSummaryAt_inside [OF row(2) 3 [unfolded r3(1)]] s t2 r3(2)
  have "tx_working t2 = bumped sid nextAt (with_event row (tx_working t))" by auto
  with row r3(3) show ?thesis unfolding triggered_effect_def by blast
qed

lemma HasActiveEvent_outside:
  assumes "open_tx w = None" and "summary_outbox_HasActiveEvent E s ty w = (r, w')"
  shows "open_tx w' = None" "committed w' = committed w"
    "r = Inr (Some ev) \<Longrightarrow> \<exists>uid row. parse_uuid E s = Some uid \<and> row \<in> set (summary_events (committed w)) \<and>
      active_source_event uid ty row \<and> ev = summary_event_to_domain E row"
    "r = Inr None \<Longrightarrow> \<exists>uid. parse_uuid E s = Some uid \<and>
      (\<forall>row \<in> set (summary_events (committed w)). \<not> active_source_event uid ty row)"
proof -
  have "open_tx w' = None \<and> committed w' = committed w \<and>
    (\<forall>ev. r = Inr (Some ev) \<longrightarrow> (\<exists>uid row. parse_uuid E s = Some uid \<and> row \<in> set (summary_events (committed w)) \<and>
      active_source_event uid ty row \<and> ev = summary_event_to_domain E row)) \<and>
    (r = Inr None \<longrightarrow> (\<exists>uid. parse_uuid E s = Some uid \<and>
      (\<forall>row \<in> set (summary_events (committed w)). \<not> active_source_event uid ty row)))"
  proof (cases "parse_uuid E s")
    case None
    then show ?thesis using assms by (auto simp: summary_outbox_HasActiveEvent_def parse_id_def)
  next
    case (Some uid)
    define q where "q = (\<lambda>(_::time) (d::database). filter (active_source_event uid ty) (summary_events d))"
    obtain res w1 where x: "exec_tx (select q) w = (res, w1)" by (cases "exec_tx (select q) w")
    note e = exec_tx_read_outside [OF assms(1) x]
    have run: "(case res of Inl e \<Rightarrow> (Inl (errorf_ctx ''check active event'' e), w1)
       | Inr rows \<Rightarrow> (case ent_only ''summary_event'' rows of
            Inl e \<Rightarrow> (if ent_is_not_found e then (Inr None, w1) else (Inl (errorf_ctx ''check active event'' e), w1))
          | Inr r \<Rightarrow> (Inr (Some (summary_event_to_domain E r)), w1))) = (r, w')"
      using assms(2) x Some unfolding summary_outbox_HasActiveEvent_def parse_id_def q_def by (cases res) auto
    have q: "set rows = {r \<in> set (summary_events (committed w)). active_source_event uid ty r}" if "res = Inr rows" for rows
      using e(4) [OF that] by (auto simp: q_def)
    show ?thesis
    proof (cases res)
      case (Inl err)
      then show ?thesis using run e(1,2) by auto
    next
      case (Inr rows)
      have sub: "x \<in> set rows \<Longrightarrow> x \<in> set (summary_events (committed w)) \<and> active_source_event uid ty x" for x
        using q [OF Inr] by blast
      consider "rows = []" | x where "rows = [x]" | x y zs where "rows = x # y # zs" by (metis list.exhaust)
      then show ?thesis
      proof cases
        case 1
        then show ?thesis using run e(1,2) q [OF Inr] Some Inr by (auto simp: ent_only_def)
      next
        case (2 x)
        then have "r = Inr (Some (summary_event_to_domain E x)) \<and> w' = w1"
          using run Inr by (simp add: ent_only_def)
        moreover have "x \<in> set (summary_events (committed w)) \<and> active_source_event uid ty x" using sub 2 by simp
        ultimately show ?thesis using e(1,2) Some by blast
      next
        case 3
        then show ?thesis using run e(1,2) Inr by (auto simp: ent_only_def)
      qed
    qed
  qed
  then show "open_tx w' = None" "committed w' = committed w"
    "r = Inr (Some ev) \<Longrightarrow> \<exists>uid row. parse_uuid E s = Some uid \<and> row \<in> set (summary_events (committed w)) \<and>
      active_source_event uid ty row \<and> ev = summary_event_to_domain E row"
    "r = Inr None \<Longrightarrow> \<exists>uid. parse_uuid E s = Some uid \<and>
      (\<forall>row \<in> set (summary_events (committed w)). \<not> active_source_event uid ty row)"
    by blast+
qed

text \<open>
  The manual trigger, whatever fails: it changes nothing, and then a reported event is an
  active one the source already had; or the source is cumulative and had no active event, and
  exactly one pending event for it is queued, the reported one, together with the new date.
\<close>

lemma TriggerSourceSummarize_atomic:
  assumes E: "ext_laws (dep_ext D)" and o: "open_tx w = None" and s: "parse_uuid (dep_ext D) sourceID = Some sid"
  shows "let (r, w') = TriggerSourceSummarize D sourceID w; d = committed w in
    (committed w' = d \<and> (\<forall>eid existing. r = Inr (eid, existing) \<longrightarrow> existing \<and>
       (\<exists>row \<in> set (summary_events d). active_source_event sid SummarizeSource row \<and>
          eid = uuid_string (dep_ext D) (l_id row)))) \<or>
    ((\<exists>row \<in> set (sources d). s_id row = sid \<and> ProcessingModeForType (s_type row) = ProcessingModeCumulative) \<and>
     (\<forall>row \<in> set (summary_events d). \<not> active_source_event sid SummarizeSource row) \<and>
     (\<exists>eid. triggered_effect (dep_ext D) sid eid d (committed w') \<and> (\<forall>y. r = Inr y \<longrightarrow> y = (eid, False))))"
proof -
  let ?E = "dep_ext D"
  obtain g w1 where g: "source_repo_Get ?E sourceID w = (g, w1)" by (cases "source_repo_Get ?E sourceID w")
  note G = source_repo_Get_effect [OF o g]
  show ?thesis
  proof (cases "\<exists>src. g = Inr src \<and> ProcessingModeForType (src_Type src) = ProcessingModeCumulative")
    case False
    then show ?thesis using g G(2) by (cases g) (auto simp: TriggerSourceSummarize_def)
  next
    case True
    then obtain src where src: "g = Inr src" "ProcessingModeForType (src_Type src) = ProcessingModeCumulative" by blast
    obtain row where row: "filter (\<lambda>r. s_id r = sid) (sources (committed w)) = [row]" "source_to_domain ?E row = Inr src"
      using G(3) [OF src(1)] s by auto
    have ty: "src_Type src = s_type row"
      using row(2) by (auto simp: source_to_domain_def split: option.splits sum.splits)
    have cumulative: "\<exists>row \<in> set (sources (committed w)). s_id row = sid \<and>
        ProcessingModeForType (s_type row) = ProcessingModeCumulative"
      using filter_one [OF row(1)] src(2) unfolding ty by blast
    obtain a w2 where a: "summary_outbox_HasActiveEvent ?E sourceID SummarizeSource w1 = (a, w2)"
      by (cases "summary_outbox_HasActiveEvent ?E sourceID SummarizeSource w1")
    note A = HasActiveEvent_outside [OF G(1) a]
    show ?thesis
    proof (cases "a = Inr None")
      case False
      define r where "r = (case a of Inr (Some ev) \<Rightarrow> Inr (se_ID ev, True) | Inl e \<Rightarrow> Inl e)"
      have t: "TriggerSourceSummarize D sourceID w = (r, w2)"
        using False g src a by (simp add: TriggerSourceSummarize_def r_def split: sum.split option.split)
      have y: "\<exists>ev. a = Inr (Some ev) \<and> y = (se_ID ev, True)" if "r = Inr y" for y
        using that False by (auto simp: r_def split: sum.splits option.splits)
      have "\<exists>row \<in> set (summary_events (committed w)). active_source_event sid SummarizeSource row \<and>
          se_ID ev = uuid_string ?E (l_id row)" if "a = Inr (Some ev)" for ev
        using A(3) [OF that] s G(2) by (auto simp: summary_event_to_domain_def)
      then show ?thesis using y A(2) G(2) unfolding t Let_def prod.case by (metis Pair_inject)
    next
      case True
      define w3 where "w3 = w2\<lparr>clock := advance (clock w2)\<rparr>"
      define body where "body = trigger_body ?E sourceID (time_add (clock w2 0) (cronInterval (dep_cfg D)))"
      have c3: "committed w3 = committed w" using A(2) G(2) by (simp add: w3_def)
      have none: "\<forall>row \<in> set (summary_events (committed w)). \<not> active_source_event sid SummarizeSource row"
        using A(4) [OF True] s G(2) by auto
      have run: "TriggerSourceSummarize D sourceID w =
          (case InTx body w3 of (Inl e, w) \<Rightarrow> (Inl e, w) | (Inr eid, w) \<Rightarrow> (Inr (eid, False), w))"
        using g src a True by (simp add: TriggerSourceSummarize_def time_now_def w3_def body_def)
      have "(committed (snd (InTx body w3)) = committed w3 \<and> (\<forall>x. fst (InTx body w3) \<noteq> Inr x)) \<or>
        (\<exists>x. triggered_effect ?E sid x (committed w3) (committed (snd (InTx body w3))) \<and>
           (\<forall>y. fst (InTx body w3) = Inr y \<longrightarrow> y = x))"
        unfolding body_def by (rule InTx_rule [OF confined_trigger_body]) (metis trigger_body_effect [OF _ s])
      then have eff: "(committed v = committed w \<and> (\<forall>x. q \<noteq> Inr x)) \<or>
        (\<exists>x. triggered_effect ?E sid x (committed w) (committed v) \<and> (\<forall>y. q = Inr y \<longrightarrow> y = x))"
        if "InTx body w3 = (q, v)" for q v using that c3 by simp
      obtain q v where i: "InTx body w3 = (q, v)" by (cases "InTx body w3")
      have t: "TriggerSourceSummarize D sourceID w = (map_sum id (\<lambda>eid. (eid, False)) q, v)"
        unfolding run i by (cases q) simp_all
      show ?thesis
        using eff [OF i] cumulative none unfolding t Let_def prod.case by (cases q) auto
    qed
  qed
qed

lemma TriggerSourceSummarize_atomic_example:
  "let (r, w') = TriggerSourceSummarize sample_summary_deps ''9'' due_world; d = committed due_world in
    r = Inr (''0'', False) \<and>
    (\<exists>eid. triggered_effect decimal_ext 9 eid d (committed w') \<and> (\<forall>y. r = Inr y \<longrightarrow> y = (eid, False)))"
proof -
  have "fst (TriggerSourceSummarize sample_summary_deps ''9'' due_world) = Inr (''0'', False)" by code_simp
  then obtain w' where r: "TriggerSourceSummarize sample_summary_deps ''9'' due_world = (Inr (''0'', False), w')"
    by (metis prod.collapse)
  have E: "dep_ext sample_summary_deps = decimal_ext" by (simp add: sample_summary_deps_def)
  have nine: "parse_uuid decimal_ext ''9'' = Some 9" by code_simp
  have none: "summary_events (committed due_world) = []" by (simp add: due_world_def empty_db_def)
  show ?thesis
    using TriggerSourceSummarize_atomic [of sample_summary_deps due_world "''9''" 9] nine none
    unfolding r Let_def prod.case E by (auto simp: due_world_def)
qed

section \<open>Reaping\<close>

interpretation summary_reaper:
  reaper summary_events "\<lambda>rs d. d\<lparr>summary_events := rs\<rparr>"
    "\<lambda>ev. summary_outbox_FailExpired E (se_ID ev) n g x" n g x for E n g x
proof unfold_locales
  fix w ev r w'
  assume o: "open_tx w = None" and run: "summary_outbox_FailExpired E (se_ID ev) n g x w = (r, w')"
  show "open_tx w' = None \<and> (committed w' = committed w \<and> r \<noteq> Inr True \<or>
     (\<exists>P now. (\<forall>q. P q \<longrightarrow> doomed n g now q) \<and> (r = Inr True \<longrightarrow> 0 < count_where P (summary_events (committed w))) \<and>
        committed w' = (committed w)\<lparr>summary_events := update_where P (fail_row x now) (summary_events (committed w))\<rparr>))"
  proof (cases "parse_uuid E (se_ID ev)")
    case None
    then show ?thesis using run o by (auto simp: summary_outbox_FailExpired_def parse_id_def)
  next
    case (Some eid)
    obtain q v where e: "exec_tx (update_summary_events (fail_guard eid n g) (fail_row x)) w = (q, v)"
      by (cases "exec_tx (update_summary_events (fail_guard eid n g) (fail_row x)) w")
    have rv: "w' = v \<and> (r = Inr True \<longrightarrow> (\<exists>k. q = Inr k \<and> 0 < k))"
      using run e Some by (cases q) (auto simp: summary_outbox_FailExpired_def parse_id_def)
    have guard: "\<forall>q. fail_guard eid n g (clock w 0) q \<longrightarrow> doomed n g (clock w 0) q"
      by (simp add: fail_guard_def doomed_def)
    note eff = exec_tx_outside [OF o e]
    show ?thesis
    proof (cases "r = Inr True")
      case False
      then show ?thesis using eff(1,2) rv guard unfolding update_summary_events_Inr by blast
    next
      case True
      then obtain k where k: "q = Inr k" "0 < k" using rv by blast
      then show ?thesis using eff(1) eff(3) [OF k(1)] rv guard unfolding update_summary_events_Inr by blast
    qed
  qed
qed (simp_all)

text \<open>
  Reaping, whatever fails: of the whole database only summary events change, and of them
  only such that are being processed, whose lease ended more than the grace period ago and
  whose attempts are used up; these become failed. At most as many are reported as left
  processing.
\<close>

lemma ReapStuckEvents_only_stuck:
  assumes "open_tx w = None"
  shows "let ((n, err), w') = ReapStuckEvents D w;
      rows = summary_events (committed w); rows' = summary_events (committed w') in
    committed w' = (committed w)\<lparr>summary_events := rows'\<rparr> \<and>
    list_all2 (reaped (max_attempts_of (sf_MaxAttempts (dep_cfg D))) (or_default (sf_ReaperGrace (dep_cfg D)) 30)
      max_attempts_exceeded) rows rows' \<and>
    n + in_progress rows' \<le> in_progress rows"
proof -
  let ?g = "or_default (sf_ReaperGrace (dep_cfg D)) 30" and ?n = "max_attempts_of (sf_MaxAttempts (dep_cfg D))"
  obtain r w1 where l: "summary_outbox_ListLeaseExpired (dep_ext D) ?g reaperBatchLimit w = (r, w1)"
    by (cases "summary_outbox_ListLeaseExpired (dep_ext D) ?g reaperBatchLimit w")
  define q where "q = (\<lambda>now (d::database). lease_expired_rows ?g reaperBatchLimit now (summary_events d))"
  obtain rq wq where x: "exec_tx (select q) w = (rq, wq)" by (cases "exec_tx (select q) w")
  have "w1 = wq" using l x unfolding summary_outbox_ListLeaseExpired_def q_def by (cases rq) auto
  then have w1: "open_tx w1 = None" "committed w1 = committed w" using exec_tx_read_outside [OF assms x] by auto
  show ?thesis
  proof (cases r)
    case (Inl e)
    then show ?thesis using l w1 by (simp add: ReapStuckEvents_def)
  next
    case (Inr evs)
    obtain n err w' where run: "reap_loop se_AttemptCount
        (\<lambda>ev. summary_outbox_FailExpired (dep_ext D) (se_ID ev) ?n ?g max_attempts_exceeded) ?n evs 0 w1 = ((n, err), w')"
      by (metis prod.collapse)
    then have "ReapStuckEvents D w = ((n, err), w')" using l Inr by (simp add: ReapStuckEvents_def)
    then show ?thesis using summary_reaper.reap_loop_effect [OF w1(1) run] w1(2) by simp
  qed
qed

definition stuck_world :: world where
  "stuck_world = (quiet_world (empty_db\<lparr>summary_events :=
     [(sample_summary_row Processing (Some ''w1'') (Some 100))\<lparr>l_attempt_count := 5\<rparr>]\<rparr>))\<lparr>clock := \<lambda>_. 40000000000\<rparr>"

lemma ReapStuckEvents_only_stuck_example:
  "let ((n, err), w') = ReapStuckEvents sample_summary_deps stuck_world;
      rows = summary_events (committed stuck_world); rows' = summary_events (committed w') in
    n = 1 \<and> err = None \<and> committed w' = (committed stuck_world)\<lparr>summary_events := rows'\<rparr> \<and>
    list_all2 (reaped 5 (or_default 0 30) max_attempts_exceeded) rows rows' \<and> n + in_progress rows' \<le> in_progress rows"
proof -
  have "fst (ReapStuckEvents sample_summary_deps stuck_world) = (1, None)" by code_simp
  then obtain w' where r: "ReapStuckEvents sample_summary_deps stuck_world = ((1, None), w')"
    by (metis prod.collapse)
  have c: "max_attempts_of (sf_MaxAttempts (dep_cfg sample_summary_deps)) = 5"
    "sf_ReaperGrace (dep_cfg sample_summary_deps) = 0"
    by (simp_all add: sample_summary_deps_def sample_summary_conf_def max_attempts_of_def defaultReaperMaxAttempts_def)
  have "open_tx stuck_world = None" by (simp add: stuck_world_def)
  from ReapStuckEvents_only_stuck [OF this, of sample_summary_deps] show ?thesis
    unfolding r c Let_def prod.case by simp
qed

end
