(* ===== verification/Relevance.thy ===== *)
theory Relevance
  imports Float64 Domain
begin

text \<open>
  \<open>Cosine\<close> and \<open>Relevance\<close> of \<open>internal/biz/score.go\<close>, operation by operation on binary64
  values. The components of a vector are the \<open>float32\<close> values of the code converted to
  \<open>float64\<close>, a conversion without rounding.
\<close>

text \<open>The accumulators \<open>dot\<close>, \<open>na\<close>, \<open>nb\<close> of the loop over the components.\<close>

fun cosine_loop ::
  "float64 list \<Rightarrow> float64 list \<Rightarrow> float64 \<Rightarrow> float64 \<Rightarrow> float64 \<Rightarrow> float64 \<times> float64 \<times> float64" where
  "cosine_loop (x # xs) (y # ys) dot na nb =
     cosine_loop xs ys (fadd dot (fmul x y)) (fadd na (fmul x x)) (fadd nb (fmul y y))"
| "cosine_loop _ _ dot na nb = (dot, na, nb)"

definition Cosine :: "float64 list \<Rightarrow> float64 list \<Rightarrow> error + float64" where
  "Cosine a b =
     (if a = [] \<or> b = [] then Inl (errorf_detail ErrScoreValidation ''empty embedding vector'')
      else if length a \<noteq> length b
      then Inl (errorf_detail ErrScoreValidation
                  (''embedding dimension mismatch ('' @ itoa (int (length a)) @ '' vs '' @ itoa (int (length b)) @ '')''))
      else let (dot, na, nb) = cosine_loop a b (Finite 0) (Finite 0) (Finite 0)
           in if feq na (Finite 0) \<or> feq nb (Finite 0) then Inr (Finite 0)
              else Inr (fdiv dot (fmul (fsqrt na) (fsqrt nb))))"

fun relevance_loop :: "float64 list \<Rightarrow> float64 list list \<Rightarrow> float64 \<Rightarrow> error + float64" where
  "relevance_loop post [] best = Inr best"
| "relevance_loop post (interest # is) best =
     (case Cosine post interest of
        Inl e \<Rightarrow> Inl e
      | Inr c \<Rightarrow> relevance_loop post is (if fless best c then c else best))"

definition Relevance :: "float64 list \<Rightarrow> float64 list list \<Rightarrow> error + float64" where
  "Relevance postEmbedding interestEmbeddings =
     (if interestEmbeddings = [] then Inr (Finite 0)
      else case relevance_loop postEmbedding interestEmbeddings (Finite 0) of
        Inl e \<Rightarrow> Inl e
      | Inr best \<Rightarrow>
          (let best = (if fless best (Finite 0) then Finite 0 else best)
           in Inr (if fless (Finite 1) best then Finite 1 else best)))"

section \<open>Symmetry\<close>

lemma cosine_loop_swap:
  "cosine_loop a b d na nb = (d', na', nb') \<longleftrightarrow> cosine_loop b a d nb na = (d', nb', na')"
  by (induction a b d na nb rule: cosine_loop.induct) (simp_all add: fmul_commute split: list.splits, (cases, auto)+)

text \<open>
  The similarity does not depend on the order of its two vectors: both orders are refused
  with the validation error, or both give the same number.
\<close>

lemma Cosine_symmetric:
  "Cosine a b = Cosine b a \<or>
   (\<exists>e f. Cosine a b = Inl e \<and> Cosine b a = Inl f \<and> errors_is e ErrScoreValidation \<and> errors_is f ErrScoreValidation)"
proof (cases "a = [] \<or> b = [] \<or> length a \<noteq> length b")
  case True
  then show ?thesis by (auto simp: Cosine_def errorf_detail_def)
next
  case False
  obtain d na nb where ab: "cosine_loop a b (Finite 0) (Finite 0) (Finite 0) = (d, na, nb)"
    by (cases "cosine_loop a b (Finite 0) (Finite 0) (Finite 0)")
  then have "cosine_loop b a (Finite 0) (Finite 0) (Finite 0) = (d, nb, na)"
    by (simp add: cosine_loop_swap [of b a])
  then show ?thesis
    using False ab by (auto simp: Cosine_def fmul_commute [of "fsqrt nb"])
qed

section \<open>The greatest similarity, cut to the unit interval\<close>

lemma fless_asym: "fless a b \<Longrightarrow> \<not> fless b a"
  by (cases a; cases b) auto

lemma not_fless_trans: "\<not> fless a b \<Longrightarrow> \<not> fless b c \<Longrightarrow> b \<noteq> NaN \<Longrightarrow> \<not> fless a c"
  by (cases a; cases b; cases c) auto

lemma fless_not_NaN: "fless a b \<Longrightarrow> b \<noteq> NaN" "fless a b \<Longrightarrow> a \<noteq> NaN"
  by (cases a; cases b; simp)+

lemma fless_eq: "\<not> fless a b \<Longrightarrow> \<not> fless b a \<Longrightarrow> a \<noteq> NaN \<Longrightarrow> b \<noteq> NaN \<Longrightarrow> a = b"
  by (cases a; cases b) auto

lemma relevance_loop_Inr:
  "relevance_loop v is best = Inr r \<Longrightarrow> best \<noteq> NaN \<Longrightarrow>
    r \<noteq> NaN \<and> \<not> fless r best \<and> (\<forall>i \<in> set is. \<exists>c. Cosine v i = Inr c \<and> \<not> fless r c) \<and>
    (r = best \<or> (\<exists>i \<in> set is. Cosine v i = Inr r))"
proof (induction "is" arbitrary: best)
  case (Cons i "is")
  from Cons.prems obtain c where c: "Cosine v i = Inr c" by (auto split: sum.splits)
  define best' where "best' = (if fless best c then c else best)"
  have nn: "best' \<noteq> NaN" using Cons.prems(2) fless_not_NaN by (auto simp: best'_def)
  have "relevance_loop v is best' = Inr r" using Cons.prems(1) c by (simp add: best'_def)
  note ih = Cons.IH [OF this nn]
  have "\<not> fless best' best" "\<not> fless best' c" using fless_asym by (auto simp: best'_def)
  then have "\<not> fless r best" "\<not> fless r c" using ih not_fless_trans nn by blast+
  then show ?case using ih c by (auto simp: best'_def split: if_splits)
qed simp

lemma relevance_loop_Inl:
  "(\<exists>e. relevance_loop v is best = Inl e) \<longleftrightarrow> (\<exists>i \<in> set is. \<exists>e. Cosine v i = Inl e)"
  by (induction "is" arbitrary: best) (auto split: sum.split)

text \<open>What a relevance is: the greatest of zero and the similarities, but at most one.\<close>

definition is_relevance :: "float64 list \<Rightarrow> float64 list set \<Rightarrow> float64 \<Rightarrow> bool" where
  "is_relevance v S r \<longleftrightarrow>
     (\<exists>q. r = Finite q \<and> 0 \<le> q \<and> q \<le> 1) \<and>
     (\<forall>i \<in> S. \<exists>c. Cosine v i = Inr c \<and> (r = Finite 1 \<or> \<not> fless r c)) \<and>
     (r = Finite 0 \<or> (\<exists>i \<in> S. \<exists>c. Cosine v i = Inr c \<and> (c = r \<or> r = Finite 1 \<and> fless (Finite 1) c)))"

lemma Relevance_is_relevance:
  assumes "Relevance v is = Inr r" shows "is_relevance v (set is) r"
proof (cases "is = []")
  case True
  then show ?thesis using assms by (auto simp: Relevance_def is_relevance_def)
next
  case False
  with assms obtain b where b: "relevance_loop v is (Finite 0) = Inr b"
    by (auto simp: Relevance_def split: sum.splits)
  note l = relevance_loop_Inr [OF b]
  have nz: "\<not> fless b (Finite 0)" "b \<noteq> NaN" using l by auto
  then have r: "r = (if fless (Finite 1) b then Finite 1 else b)"
    using assms b False by (simp add: Relevance_def Let_def)
  have q: "\<exists>q. r = Finite q \<and> 0 \<le> q \<and> q \<le> 1" using nz r by (cases b) auto
  show ?thesis
  proof (cases "fless (Finite 1) b")
    case True
    then have "b \<noteq> Finite 0" by auto
    then have "\<exists>i \<in> set is. Cosine v i = Inr b" using l by auto
    then show ?thesis using True r q l unfolding is_relevance_def by auto
  next
    case False
    then show ?thesis using r q l unfolding is_relevance_def by auto
  qed
qed

lemma is_relevance_unique_le:
  assumes "is_relevance v S a" and "is_relevance v S b" shows "\<not> fless a b"
proof
  assume ab: "fless a b"
  from assms obtain p q where pq: "a = Finite p" "b = Finite q" "0 \<le> p" "q \<le> 1" by (auto simp: is_relevance_def)
  with ab have "b \<noteq> Finite 0" "a \<noteq> Finite 1" by auto
  with assms(2) obtain i c where i: "i \<in> S" "Cosine v i = Inr c" "c = b \<or> b = Finite 1 \<and> fless (Finite 1) c"
    by (auto simp: is_relevance_def)
  have "fless a c" using i(3) ab fless_trans by blast
  moreover have "\<not> fless a c" using assms(1) i(1,2) \<open>a \<noteq> Finite 1\<close> by (auto simp: is_relevance_def)
  ultimately show False by contradiction
qed

lemma is_relevance_unique:
  assumes "is_relevance v S a" and "is_relevance v S b" shows "a = b"
proof -
  have "a \<noteq> NaN" "b \<noteq> NaN" using assms by (auto simp: is_relevance_def)
  then show ?thesis using assms is_relevance_unique_le fless_eq by blast
qed

text \<open>
  C29. The relevance of a vector is a number between 0 and 1 (never NaN or infinite, whatever
  the components): the greatest of zero and its similarities to the interests, cut at one,
  whatever the order of the interests and however often each occurs. It is refused exactly when one
  similarity is.
\<close>

theorem Relevance_correct:
  "(case Relevance v is of
      Inl e \<Rightarrow> \<exists>i \<in> set is. Cosine v i = Inl e
    | Inr r \<Rightarrow> is_relevance v (set is) r \<and> (\<forall>js. set js = set is \<longrightarrow> Relevance v js = Inr r))"
proof (cases "Relevance v is")
  case (Inl e)
  have first: "relevance_loop v js b = Inl e \<Longrightarrow> \<exists>i \<in> set js. Cosine v i = Inl e" for js b
    by (induction js arbitrary: b) (auto split: sum.splits)
  show ?thesis using Inl first by (auto simp: Relevance_def Let_def split: if_splits sum.splits)
next
  case (Inr r)
  note rel = Relevance_is_relevance [OF Inr]
  have "Relevance v js = Inr r" if js: "set js = set is" for js
  proof (cases "Relevance v js")
    case (Inl e)
    then have "\<exists>i \<in> set js. \<exists>e. Cosine v i = Inl e"
      using relevance_loop_Inl [of v js "Finite 0"] by (auto simp: Relevance_def Let_def split: if_splits sum.splits)
    then show ?thesis using rel js by (auto simp: is_relevance_def)
  next
    case (Inr s)
    then show ?thesis using Relevance_is_relevance [OF Inr] rel js is_relevance_unique by auto
  qed
  then show ?thesis using Inr rel by simp
qed

theorem Relevance_correct_witness:
  "Relevance [Finite 1] [[Finite 1], [Finite 0]] = Relevance [Finite 1] [[Finite 0], [Finite 1], [Finite 1]]"
proof -
  have ok: "Cosine [Finite 1] [Finite x] \<noteq> Inl e" for x e by (simp add: Cosine_def Let_def)
  have s: "set [[Finite 0], [Finite 1], [Finite 1]] = set [[Finite 1], [Finite 0]]" by auto
  have "\<not> (\<exists>i \<in> set [[Finite 1], [Finite 0]]. Cosine [Finite 1] i = Inl e)" for e using ok by simp
  then obtain r where r: "Relevance [Finite 1] [[Finite 1], [Finite 0]] = Inr r"
    using Relevance_correct [of "[[Finite 1], [Finite 0]]" "[Finite 1]"]
    by (cases "Relevance [Finite 1] [[Finite 1], [Finite 0]]") auto
  then have "Relevance [Finite 1] [[Finite 0], [Finite 1], [Finite 1]] = Inr r"
    using Relevance_correct [of "[[Finite 1], [Finite 0]]" "[Finite 1]"] s by simp
  then show ?thesis using r by simp
qed

end
