(* ===== verification/Score_Repo.thy ===== *)
theory Score_Repo
  imports Tx_Base Relevance
begin

text \<open>
  \<open>postEmbeddingRepo\<close> (\<open>internal/data/post_embedding_repo.go\<close>) and the upsert of \<open>scoreRepo\<close>
  (\<open>internal/data/score_repo.go\<close>): one row per scored entity, a post or a digest.
\<close>

section \<open>Values\<close>

record Score =
  sco_ID :: string
  sco_PostID :: "string option"
  sco_SummaryID :: "string option"
  sco_Value :: float64
  sco_Model :: string
  sco_CreatedAt :: time
  sco_UpdatedAt :: time

record PostEmbedding =
  pe_PostID :: "string option"
  pe_SummaryID :: "string option"
  pe_Vector :: "float64 list"
  pe_Model :: string
  pe_InputHash :: string
  pe_CreatedAt :: time
  pe_UpdatedAt :: time

definition score_to_domain :: "ext \<Rightarrow> score_row \<Rightarrow> Score" where
  "score_to_domain E r =
     \<lparr>sco_ID = uuid_string E (r_id r), sco_PostID = map_option (uuid_string E) (r_post_id r),
      sco_SummaryID = map_option (uuid_string E) (r_summary_id r), sco_Value = r_value r,
      sco_Model = r_model r, sco_CreatedAt = r_created_at r, sco_UpdatedAt = r_updated_at r\<rparr>"

definition embedding_to_domain :: "ext \<Rightarrow> embedding_row \<Rightarrow> PostEmbedding" where
  "embedding_to_domain E r =
     \<lparr>pe_PostID = map_option (uuid_string E) (v_post_id r), pe_SummaryID = map_option (uuid_string E) (v_summary_id r),
      pe_Vector = v_vector r, pe_Model = v_model r, pe_InputHash = v_input_hash r,
      pe_CreatedAt = v_created_at r, pe_UpdatedAt = v_updated_at r\<rparr>"

section \<open>The upserts\<close>

text \<open>
  The entity of a row: exactly one of the two columns is set. The partial unique index of the
  column that is set is the arbiter of \<open>ON CONFLICT\<close>; it is consulted before the primary key
  and the reference.
\<close>

definition same_entity :: "uuid option \<Rightarrow> uuid option \<Rightarrow> uuid option \<Rightarrow> uuid option \<Rightarrow> bool" where
  "same_entity p m p' m' \<longleftrightarrow> (p \<noteq> None \<and> p' = p) \<or> (m \<noteq> None \<and> m' = m)"

definition score_for :: "uuid option \<Rightarrow> uuid option \<Rightarrow> score_row \<Rightarrow> bool" where
  "score_for p m r \<longleftrightarrow> same_entity p m (r_post_id r) (r_summary_id r)"

definition upsert_score_stmt ::
  "uuid \<Rightarrow> uuid option \<Rightarrow> uuid option \<Rightarrow> float64 \<Rightarrow> string \<Rightarrow> score_row stmt" where
  "upsert_score_stmt i p m v model now d =
     (let f = (\<lambda>r. r\<lparr>r_value := v, r_model := model, r_updated_at := now\<rparr>);
          row = \<lparr>r_id = i, r_post_id = p, r_summary_id = m, r_value = v, r_model = model,
                 r_created_at = now, r_updated_at = now\<rparr>
      in case filter (score_for p m) (scores d) of
           r # _ \<Rightarrow> Inr (f r, d\<lparr>scores := update_where (score_for p m) f (scores d)\<rparr>)
         | [] \<Rightarrow>
             (if i \<in> r_id ` set (scores d) then Inl unique_violation
              else if \<not> opt_in p (post_ids d) \<or> \<not> opt_in m (summary_ids d) then Inl foreign_key_violation
              else Inr (row, d\<lparr>scores := scores d @ [row]\<rparr>)))"

definition score_repo_Upsert :: "ext \<Rightarrow> Score \<Rightarrow> world \<Rightarrow> Score result \<times> world" where
  "score_repo_Upsert E score w =
     (case parse_id E ''invalid score id'' (sco_ID score) of
        Inl e \<Rightarrow> (Inl e, w)
      | Inr i \<Rightarrow>
     (case (case sco_PostID score of
              Some x \<Rightarrow> map_sum id (\<lambda>u. (Some u, None)) (parse_id E ''invalid post id'' x)
            | None \<Rightarrow> (case sco_SummaryID score of
                Some x \<Rightarrow> map_sum id (\<lambda>u. (None, Some u)) (parse_id E ''invalid summary id'' x)
              | None \<Rightarrow> Inl (Text ''score has neither post_id nor summary_id''))) of
        Inl e \<Rightarrow> (Inl e, w)
      | Inr (p, m) \<Rightarrow>
          (case exec_tx (upsert_score_stmt i p m (sco_Value score) (sco_Model score)) w of
             (Inl e, w) \<Rightarrow> (Inl (errorf_ctx ''upsert score'' e), w)
           | (Inr r, w) \<Rightarrow> (Inr (score_to_domain E r), w))))"

section \<open>Persisted embeddings\<close>

definition embeddingKeyColumn :: "ScoreKey \<Rightarrow> error + string \<times> string" where
  "embeddingKeyColumn key =
     (case sk_PostID key of
        Some x \<Rightarrow> Inr (''post_id'', x)
      | None \<Rightarrow> (case sk_SummaryID key of
          Some x \<Rightarrow> Inr (''summary_id'', x)
        | None \<Rightarrow> Inl (Text ''score key has neither post_id nor summary_id'')))"

definition embedding_for :: "uuid option \<Rightarrow> uuid option \<Rightarrow> embedding_row \<Rightarrow> bool" where
  "embedding_for p m r \<longleftrightarrow> same_entity p m (v_post_id r) (v_summary_id r)"

definition embedding_repo_Get :: "ext \<Rightarrow> ScoreKey \<Rightarrow> world \<Rightarrow> PostEmbedding result \<times> world" where
  "embedding_repo_Get E key w =
     (case embeddingKeyColumn key of
        Inl e \<Rightarrow> (Inl e, w)
      | Inr (column, ident) \<Rightarrow>
     (case parse_id E (''invalid '' @ column) ident of
        Inl e \<Rightarrow> (Inl e, w)
      | Inr kid \<Rightarrow>
     (let (p, m) = (if column = ''post_id'' then (Some kid, None) else (None, Some kid));
          (r, w) = exec_tx (select (\<lambda>_ d. List.find (embedding_for p m) (post_embeddings d))) w
      in case query_row r of
           Inl e \<Rightarrow>
             (if errors_is e SqlErrNoRows then (Inl (Sentinel ErrPostEmbeddingNotFound), w)
              else (Inl (errorf_ctx ''get post embedding'' e), w))
         | Inr row \<Rightarrow> (Inr (embedding_to_domain E row), w))))"

text \<open>\<open>json.Marshal\<close> of a vector refuses values that are not numbers; what it writes reads back.\<close>

definition encode_vector :: "float64 list \<Rightarrow> error + float64 list" where
  "encode_vector v =
     (if list_all (\<lambda>x. case x of Finite _ \<Rightarrow> True | _ \<Rightarrow> False) v then Inr v
      else Inl (Text ''json: unsupported value''))"

definition upsert_embedding_stmt ::
  "uuid \<Rightarrow> uuid option \<Rightarrow> uuid option \<Rightarrow> float64 list \<Rightarrow> string \<Rightarrow> string \<Rightarrow> embedding_row stmt" where
  "upsert_embedding_stmt i p m v model h now d =
     (let f = (\<lambda>r. r\<lparr>v_vector := v, v_model := model, v_input_hash := h, v_updated_at := now\<rparr>);
          row = \<lparr>v_id = i, v_post_id = p, v_summary_id = m, v_vector = v, v_model = model, v_input_hash = h,
                 v_created_at = now, v_updated_at = now\<rparr>
      in case filter (embedding_for p m) (post_embeddings d) of
           r # _ \<Rightarrow> Inr (f r, d\<lparr>post_embeddings := update_where (embedding_for p m) f (post_embeddings d)\<rparr>)
         | [] \<Rightarrow>
             (if i \<in> v_id ` set (post_embeddings d) then Inl unique_violation
              else if \<not> opt_in p (post_ids d) \<or> \<not> opt_in m (summary_ids d) then Inl foreign_key_violation
              else Inr (row, d\<lparr>post_embeddings := post_embeddings d @ [row]\<rparr>)))"

text \<open>The column is chosen by the post, the query by the digest.\<close>

definition embedding_repo_Upsert :: "ext \<Rightarrow> PostEmbedding \<Rightarrow> world \<Rightarrow> PostEmbedding result \<times> world" where
  "embedding_repo_Upsert E pe w =
     (case embeddingKeyColumn \<lparr>sk_PostID = pe_PostID pe, sk_SummaryID = pe_SummaryID pe\<rparr> of
        Inl e \<Rightarrow> (Inl e, w)
      | Inr (column, ident) \<Rightarrow>
     (case parse_id E (''invalid '' @ column) ident of
        Inl e \<Rightarrow> (Inl e, w)
      | Inr kid \<Rightarrow>
     (case encode_vector (pe_Vector pe) of
        Inl e \<Rightarrow> (Inl (errorf_ctx ''encode vector'' e), w)
      | Inr v \<Rightarrow>
     (let (p, m) = (if pe_SummaryID pe \<noteq> None then (None, Some kid) else (Some kid, None));
          (i, w) = new_uuid w
      in case exec_tx (upsert_embedding_stmt i p m v (pe_Model pe) (pe_InputHash pe)) w of
           (Inl e, w) \<Rightarrow> (Inl (errorf_ctx ''upsert post embedding'' e), w)
         | (Inr r, w) \<Rightarrow> (Inr (embedding_to_domain E r), w)))))"

section \<open>One row per entity\<close>

definition scores_unique :: "database \<Rightarrow> bool" where
  "scores_unique d \<longleftrightarrow> (\<forall>r \<in> set (scores d). one_key (r_post_id r) (r_summary_id r)) \<and>
     (\<forall>p m. one_key p m \<longrightarrow> length (filter (score_for p m) (scores d)) \<le> 1)"

lemma score_for_keep [simp]:
  "score_for p m (r\<lparr>r_value := v, r_model := x, r_updated_at := t\<rparr>) = score_for p m r"
  by (simp add: score_for_def)

lemma filter_update_where:
  "(\<And>x. Q (f x) = Q x) \<Longrightarrow> filter Q (update_where P f xs) = update_where P f (filter Q xs)"
  by (induction xs) auto

lemma upsert_score_effect:
  assumes "scores_unique d" and key: "one_key p m" and u: "upsert_score_stmt i p m v model now d = Inr (r, d')"
  shows "filter (score_for p m) (scores d') = [r]" "filter (\<lambda>x. \<not> score_for p m x) (scores d') = filter (\<lambda>x. \<not> score_for p m x) (scores d)"
    "r_value r = v" "r_model r = model" "d' = d\<lparr>scores := scores d'\<rparr>" "scores_unique d'"
proof -
  define f where "f = (\<lambda>r::score_row. r\<lparr>r_value := v, r_model := model, r_updated_at := now\<rparr>)"
  have fk: "score_for a b (f x) = score_for a b x" for a b x by (simp add: f_def)
  have le: "length (filter (score_for p m) (scores d)) \<le> 1" using assms(1) key by (simp add: scores_unique_def)
  have "filter (score_for p m) (scores d') = [r] \<and>
    filter (\<lambda>x. \<not> score_for p m x) (scores d') = filter (\<lambda>x. \<not> score_for p m x) (scores d) \<and>
    r_value r = v \<and> r_model r = model \<and> d' = d\<lparr>scores := scores d'\<rparr> \<and> scores_unique d'"
  proof (cases "filter (score_for p m) (scores d)")
    case (Cons q qs)
    with le have q: "filter (score_for p m) (scores d) = [q]" by simp
    then have "score_for p m q" using filter_one by fastforce
    have d': "d' = d\<lparr>scores := update_where (score_for p m) f (scores d)\<rparr>" and r: "r = f q"
      using u q by (simp_all add: upsert_score_stmt_def f_def)
    have one: "filter (score_for p m) (scores d') = [r]" using q \<open>score_for p m q\<close> by (simp add: d' filter_update_where fk r)
    have "update_where (score_for p m) f (filter (\<lambda>x. \<not> score_for p m x) (scores d)) = filter (\<lambda>x. \<not> score_for p m x) (scores d)"
      by (rule update_where_none) simp
    then have "filter (\<lambda>x. \<not> score_for p m x) (scores d') = filter (\<lambda>x. \<not> score_for p m x) (scores d)"
      by (simp add: d' filter_update_where fk)
    moreover have "r_value r = v" "r_model r = model" by (simp_all add: r f_def)
    moreover have "d' = d\<lparr>scores := scores d'\<rparr>" by (simp add: d')
    moreover have "\<forall>r \<in> set (scores d'). one_key (r_post_id r) (r_summary_id r)"
      using assms(1) by (auto simp: d' scores_unique_def set_update_where f_def)
    then have "scores_unique d'" using assms(1) by (simp add: d' scores_unique_def filter_update_where fk)
    with calculation one show ?thesis by blast
  next
    case Nil
    define row where "row = \<lparr>r_id = i, r_post_id = p, r_summary_id = m, r_value = v, r_model = model,
      r_created_at = now, r_updated_at = now\<rparr>"
    have d': "d' = d\<lparr>scores := scores d @ [row]\<rparr>" and r: "r = row"
      using u Nil by (auto simp: upsert_score_stmt_def row_def Let_def split: if_splits)
    have own: "score_for p m row" using key by (auto simp: score_for_def same_entity_def row_def one_key_def)
    then have "filter (score_for p m) (scores d') = [r]" using Nil by (simp add: d' r)
    moreover have "filter (\<lambda>x. \<not> score_for p m x) (scores d') = filter (\<lambda>x. \<not> score_for p m x) (scores d)"
      using own by (simp add: d')
    moreover have "r_value r = v" "r_model r = model" by (simp_all add: r row_def)
    moreover have "d' = d\<lparr>scores := scores d'\<rparr>" by (simp add: d')
    moreover have "length (filter (score_for a b) (scores d')) \<le> 1" if "one_key a b" for a b
    proof (cases "score_for a b row")
      case True
      then have "score_for a b = score_for p m"
        using that key by (auto simp: score_for_def same_entity_def row_def one_key_def fun_eq_iff)
      then show ?thesis using Nil own by (simp add: d')
    next
      case False
      then show ?thesis using assms(1) that by (simp add: d' scores_unique_def)
    qed
    then have "scores_unique d'" using assms(1) key by (auto simp: d' scores_unique_def row_def)
    with calculation show ?thesis by blast
  qed
  then show "filter (score_for p m) (scores d') = [r]"
    "filter (\<lambda>x. \<not> score_for p m x) (scores d') = filter (\<lambda>x. \<not> score_for p m x) (scores d)"
    "r_value r = v" "r_model r = model" "d' = d\<lparr>scores := scores d'\<rparr>" "scores_unique d'" by blast+
qed

end
