(* ===== verification/Interest.thy ===== *)
theory Interest
  imports Source_Usecase Tx_Base Score_Outbox_Lease
begin

text \<open>
  Interests: \<open>internal/data/interest_repo.go\<close> (with the field checks of the generated client)
  and \<open>InterestUsecase\<close> of \<open>internal/biz/interest.go\<close>. The repository always works on the
  connection pool (\<open>r.data.Ent\<close>), also when it is called inside \<open>InTx\<close>.
\<close>

section \<open>The repository\<close>

record Interest =
  int_ID :: string
  int_Topic :: string
  int_Embedding :: "float64 list"
  int_Model :: string
  int_CreatedAt :: time
  int_UpdatedAt :: time

record ListInterestsFilter =
  lif_PageSize :: int
  lif_PageToken :: string

record InterestVector =
  iv_Embedding :: "float64 list"
  iv_Model :: string

definition mapInterestToDomain :: "ext \<Rightarrow> interest_row \<Rightarrow> Interest" where
  "mapInterestToDomain E r =
     \<lparr>int_ID = uuid_string E (i_id r), int_Topic = i_topic r, int_Embedding = i_embedding r,
      int_Model = i_model r, int_CreatedAt = i_created_at r, int_UpdatedAt = i_updated_at r\<rparr>"

text \<open>The builders' validators: topic and model are not empty.\<close>

definition check_interest :: "string \<Rightarrow> string \<Rightarrow> error option" where
  "check_interest topic model =
     (if topic = [] then Some (Text ''ent: validator failed for field \"Interest.topic\": value is less than the required length'')
      else if model = [] then Some (Text ''ent: validator failed for field \"Interest.model\": value is less than the required length'')
      else None)"

definition interest_repo_Save :: "ext \<Rightarrow> Interest \<Rightarrow> world \<Rightarrow> Interest result \<times> world" where
  "interest_repo_Save E v w =
     (case parse_id E ''invalid interest id'' (int_ID v) of
        Inl e \<Rightarrow> (Inl e, w)
      | Inr i \<Rightarrow>
     (case check_interest (int_Topic v) (int_Model v) of
        Some e \<Rightarrow> (Inl (errorf_ctx ''save interest'' e), w)
      | None \<Rightarrow>
     (let row = \<lparr>i_id = i, i_topic = int_Topic v, i_embedding = int_Embedding v, i_model = int_Model v,
                 i_created_at = int_CreatedAt v, i_updated_at = int_UpdatedAt v\<rparr> in
      case exec_direct (write_stmt (insert_interest row)) w of
        (Inl e, w) \<Rightarrow> (Inl (errorf_ctx ''save interest'' (ent_constraint e)), w)
      | (Inr _, w) \<Rightarrow> (Inr (mapInterestToDomain E row), w))))"

definition update_interest_stmt ::
  "uuid \<Rightarrow> (interest_row \<Rightarrow> interest_row) \<Rightarrow> interest_row option stmt" where
  "update_interest_stmt i f now d =
     (case filter (\<lambda>r. i_id r = i) (interests d) of
        [] \<Rightarrow> Inr (None, d)
      | r # _ \<Rightarrow> Inr (Some (f r), d\<lparr>interests := update_where (\<lambda>r. i_id r = i) f (interests d)\<rparr>))"

definition interest_repo_Update :: "ext \<Rightarrow> Interest \<Rightarrow> world \<Rightarrow> Interest result \<times> world" where
  "interest_repo_Update E v w =
     (case parse_id E ''invalid interest id'' (int_ID v) of
        Inl e \<Rightarrow> (Inl e, w)
      | Inr i \<Rightarrow>
     (case check_interest (int_Topic v) (int_Model v) of
        Some e \<Rightarrow> (Inl (errorf_ctx ''update interest'' e), w)
      | None \<Rightarrow>
     (case exec_direct (update_interest_stmt i (\<lambda>r. r\<lparr>i_topic := int_Topic v, i_embedding := int_Embedding v,
             i_model := int_Model v, i_updated_at := int_UpdatedAt v\<rparr>)) w of
        (Inl e, w) \<Rightarrow>
          (if ent_is_not_found e then (Inl (Sentinel ErrInterestNotFound), w)
           else (Inl (errorf_ctx ''update interest'' (ent_constraint e)), w))
      | (Inr None, w) \<Rightarrow> (Inl (Sentinel ErrInterestNotFound), w)
      | (Inr (Some r), w) \<Rightarrow> (Inr (mapInterestToDomain E r), w))))"

definition delete_interest_stmt :: "uuid \<Rightarrow> bool stmt" where
  "delete_interest_stmt i now d =
     Inr (i \<in> i_id ` set (interests d), d\<lparr>interests := filter (\<lambda>r. i_id r \<noteq> i) (interests d)\<rparr>)"

definition interest_repo_Delete :: "ext \<Rightarrow> string \<Rightarrow> world \<Rightarrow> unit result \<times> world" where
  "interest_repo_Delete E ident w =
     (case parse_id E ''invalid interest id'' ident of
        Inl e \<Rightarrow> (Inl e, w)
      | Inr i \<Rightarrow>
          (case exec_direct (delete_interest_stmt i) w of
             (Inl e, w) \<Rightarrow>
               (if ent_is_not_found e then (Inl (Sentinel ErrInterestNotFound), w)
                else (Inl (errorf_ctx ''delete interest'' e), w))
           | (Inr found, w) \<Rightarrow>
               (if found then (Inr (), w) else (Inl (Sentinel ErrInterestNotFound), w))))"

definition interest_repo_Get :: "ext \<Rightarrow> string \<Rightarrow> world \<Rightarrow> Interest result \<times> world" where
  "interest_repo_Get E ident w =
     (case parse_id E ''invalid interest id'' ident of
        Inl e \<Rightarrow> (Inl e, w)
      | Inr i \<Rightarrow>
          (case exec_direct (select (\<lambda>_ d. filter (\<lambda>r. i_id r = i) (interests d))) w of
             (Inl e, w) \<Rightarrow> (Inl (errorf_ctx ''get interest'' e), w)
           | (Inr rows, w) \<Rightarrow>
               (case ent_only ''interest'' rows of
                  Inl e \<Rightarrow> (if ent_is_not_found e then (Inl (Sentinel ErrInterestNotFound), w)
                            else (Inl (errorf_ctx ''get interest'' e), w))
                | Inr r \<Rightarrow> (Inr (mapInterestToDomain E r), w))))"

definition interest_cursor :: "interest_row \<Rightarrow> cursor" where
  "interest_cursor r = Cursor (i_created_at r) (i_id r)"

text \<open>The usecase passes a page size of at least one.\<close>

definition interest_repo_List :: "ext \<Rightarrow> ListInterestsFilter \<Rightarrow> world \<Rightarrow> Interest page result \<times> world" where
  "interest_repo_List E f w =
     (case (if lif_PageToken f = [] then Inr None
            else map_sum (\<lambda>_. errorf_detail ErrInterestValidation ''invalid page token'') Some
                   (decodePageToken E (lif_PageToken f))) of
        Inl e \<Rightarrow> (Inl e, w)
      | Inr token \<Rightarrow>
     (let size = nat (lif_PageSize f) in
      case exec_direct (select (\<lambda>_ d. take (size + 1) (keyset_rows False interest_cursor token (interests d)))) w of
        (Inl e, w) \<Rightarrow> (Inl (errorf_ctx ''list interests'' e), w)
      | (Inr rows, w) \<Rightarrow>
          (let returnCount = min (length rows) size in
           (Inr \<lparr>Items = map (mapInterestToDomain E) (take returnCount rows),
                 NextPageToken =
                   (if length rows > size
                    then encodePageToken E (i_created_at (rows ! (returnCount - 1))) (i_id (rows ! (returnCount - 1)))
                    else [])\<rparr>, w))))"

definition ListInterestVectors :: "world \<Rightarrow> InterestVector list result \<times> world" where
  "ListInterestVectors w =
     (case exec_direct (select (\<lambda>_ d. interests d)) w of
        (Inl e, w) \<Rightarrow> (Inl (errorf_ctx ''list interest vectors'' e), w)
      | (Inr rows, w) \<Rightarrow> (Inr (map (\<lambda>r. \<lparr>iv_Embedding = i_embedding r, iv_Model = i_model r\<rparr>) rows), w))"

section \<open>The usecase\<close>

text \<open>The embeddings provider: each call takes the next answer and is recorded.\<close>

definition scorer_Embed :: "string \<Rightarrow> world \<Rightarrow> float64 list result \<times> world" where
  "scorer_Embed text w =
     (embed_replies w 0, w\<lparr>embed_replies := advance (embed_replies w), embed_calls := embed_calls w @ [text]\<rparr>)"

definition enqueue_rescore :: "'a \<Rightarrow> world \<Rightarrow> 'a result \<times> world" where
  "enqueue_rescore x w =
     (case EnqueueScoredPosts w of
        (Inl e, w) \<Rightarrow> (Inl (errorf_ctx ''enqueue rescore'' e), w)
      | (Inr _, w) \<Rightarrow>
          (case EnqueueScoredDigests w of
             (Inl e, w) \<Rightarrow> (Inl (errorf_ctx ''enqueue digest rescore'' e), w)
           | (Inr _, w) \<Rightarrow> (Inr x, w)))"

text \<open>The body of the three transactions: a change of the interests, then the events.\<close>

definition interest_body :: "(world \<Rightarrow> 'a result \<times> world) \<Rightarrow> world \<Rightarrow> 'a result \<times> world" where
  "interest_body change w =
     (case change w of
        (Inl e, w) \<Rightarrow> (Inl e, w)
      | (Inr x, w) \<Rightarrow> enqueue_rescore x w)"

definition InterestUsecase_Create :: "ext \<Rightarrow> string \<Rightarrow> string \<Rightarrow> world \<Rightarrow> Interest result \<times> world" where
  "InterestUsecase_Create E model topic w =
     (case ValidateInterestTopic topic of
        Some e \<Rightarrow> (Inl e, w)
      | None \<Rightarrow>
     (case scorer_Embed topic w of
        (Inl e, w) \<Rightarrow> (Inl (errorf_ctx ''embed topic'' e), w)
      | (Inr embedding, w) \<Rightarrow>
     (let (now, w) = time_now w; (i, w) = new_uuid w;
          interest = \<lparr>int_ID = uuid_string E i, int_Topic = topic, int_Embedding = embedding,
                      int_Model = model, int_CreatedAt = now, int_UpdatedAt = now\<rparr>
      in InTx (interest_body (interest_repo_Save E interest)) w)))"

definition InterestUsecase_Update ::
  "ext \<Rightarrow> string \<Rightarrow> string \<Rightarrow> string \<Rightarrow> world \<Rightarrow> Interest result \<times> world" where
  "InterestUsecase_Update E model ident topic w =
     (case ValidateInterestTopic topic of
        Some e \<Rightarrow> (Inl e, w)
      | None \<Rightarrow>
     (case interest_repo_Get E ident w of
        (Inl e, w) \<Rightarrow> (Inl e, w)
      | (Inr existing, w) \<Rightarrow>
     (case scorer_Embed topic w of
        (Inl e, w) \<Rightarrow> (Inl (errorf_ctx ''embed topic'' e), w)
      | (Inr embedding, w) \<Rightarrow>
     (let (now, w) = time_now w in
      InTx (interest_body (interest_repo_Update E
        (existing\<lparr>int_Topic := topic, int_Embedding := embedding, int_Model := model, int_UpdatedAt := now\<rparr>))) w))))"

definition InterestUsecase_Delete :: "ext \<Rightarrow> string \<Rightarrow> world \<Rightarrow> unit result \<times> world" where
  "InterestUsecase_Delete E ident w = InTx (interest_body (interest_repo_Delete E ident)) w"

definition InterestUsecase_Get :: "ext \<Rightarrow> string \<Rightarrow> world \<Rightarrow> Interest result \<times> world" where
  "InterestUsecase_Get E ident w = interest_repo_Get E ident w"

definition InterestUsecase_List :: "ext \<Rightarrow> ListInterestsFilter \<Rightarrow> world \<Rightarrow> Interest page result \<times> world" where
  "InterestUsecase_List E f w = interest_repo_List E (f\<lparr>lif_PageSize := clamp_page_size (lif_PageSize f)\<rparr>) w"

section \<open>A failed re-scoring leaves the interest behind\<close>

lemma confined_insert_loop: "(\<And>i k. confined (exec_tx (q i k))) \<Longrightarrow> confined (insert_loop ctx q ks n)"
proof (induction ks arbitrary: n)
  case Nil
  then show ?case by simp
next
  case (Cons k ks)
  have "confined (\<lambda>w. case new_uuid w of (i, w) \<Rightarrow> (case exec_tx (q i k) w of
      (Inl e, w) \<Rightarrow> (Inl (errorf_ctx ctx e), w)
    | (Inr inserted, w) \<Rightarrow> insert_loop ctx q ks (n + (if inserted then 1 else 0)) w))"
    by (intro confined_bind confined_new_uuid confined_case confined_exec_tx confined_return Cons)
  then show ?case by (simp add: Let_def)
qed

lemma confined_EnqueueScoredPosts: "confined EnqueueScoredPosts"
  unfolding EnqueueScoredPosts_def [abs_def] scoredCandidatePostIDs_def
  by (intro confined_case confined_exec_tx confined_return confined_insert_loop)

text \<open>A write of the pool inside an open transaction is committed at once, and visible in it.\<close>

lemma exec_direct_inside:
  assumes "open_tx w = Some t" and "\<forall>n. faults w n = Healthy"
    and "s (clock w 0) (committed w) = Inr (x, d)" and "s (clock w 0) (tx_working t) = Inr (y, d2)"
  shows "\<exists>w'. exec_direct s w = (Inr x, w') \<and> committed w' = d \<and> open_tx w' = Some (t\<lparr>tx_working := d2\<rparr>) \<and>
    (\<forall>n. faults w' n = Healthy)"
  using assms by (simp add: exec_direct_def take_fault_def autocommit_def time_now_def)

lemma InTx_failing:
  assumes "fault_free w"
    and "\<And>w1 t. ready t w1 \<Longrightarrow> tx_working t = committed w \<Longrightarrow> committed w1 = committed w \<Longrightarrow> fresh_ids w1 = fresh_ids w \<Longrightarrow>
      \<exists>e w2. fn w1 = (Inl e, w2) \<and> committed w2 = d \<and> open_tx w2 \<noteq> None"
  shows "\<exists>e w'. InTx fn w = (Inl e, w') \<and> committed w' = d \<and> open_tx w' = None"
proof -
  define w1 where "w1 = w\<lparr>faults := advance (faults w), clock := advance (clock w),
    open_tx := Some \<lparr>tx_started = clock w 0, tx_working = committed w, tx_aborted = False\<rparr>\<rparr>"
  have b: "begin_tx w = (Inr (), w1)"
    using assms(1) by (simp add: begin_tx_def take_fault_def time_now_def fault_free_def w1_def)
  obtain e w2 where f: "fn w1 = (Inl e, w2)" "committed w2 = d"
    using assms(2) [of "\<lparr>tx_started = clock w 0, tx_working = committed w, tx_aborted = False\<rparr>" w1] assms(1)
    by (auto simp: ready_def w1_def fault_free_def)
  show ?thesis
    using b f by (auto simp: InTx_def rollback_tx_def take_fault_def Let_def split: fault.split)
qed

lemma digest_blocks_interests [simp]:
  "digest_blocks (d\<lparr>interests := xs\<rparr>) = digest_blocks d" "no_nil_post (d\<lparr>interests := xs\<rparr>) = no_nil_post d"
  by (simp_all add: digest_blocks_def no_nil_post_def scored_posts_def active_for_post_def post_ids_def cong: option.case_cong)

text \<open>
  Creating an interest is not atomic with the re-scoring: without any fault, once a digest
  has a score among the rows to re-score, the creation reports an error, and the interest is
  stored all the same.
\<close>

lemma InterestUsecase_Create_not_atomic:
  assumes "ext_laws E" and "fault_free w" and "ValidateInterestTopic topic = None" and "model \<noteq> []"
    and "embed_replies w 0 = Inr v" and "fresh_ids w 0 \<notin> i_id ` set (interests (committed w))"
    and "no_nil_post (committed w)" and "digest_blocks (committed w)"
  shows "\<exists>e w'. InterestUsecase_Create E model topic w = (Inl e, w') \<and>
    committed w' = (committed w)\<lparr>interests := interests (committed w) @
      [\<lparr>i_id = fresh_ids w 0, i_topic = topic, i_embedding = v, i_model = model,
        i_created_at = clock w 0, i_updated_at = clock w 0\<rparr>]\<rparr>"
proof -
  define row where "row = \<lparr>i_id = fresh_ids w 0, i_topic = topic, i_embedding = v, i_model = model,
    i_created_at = clock w 0, i_updated_at = clock w 0\<rparr>"
  define d where "d = (committed w)\<lparr>interests := interests (committed w) @ [row]\<rparr>"
  define interest where "interest = \<lparr>int_ID = uuid_string E (fresh_ids w 0), int_Topic = topic, int_Embedding = v,
    int_Model = model, int_CreatedAt = clock w 0, int_UpdatedAt = clock w 0\<rparr>"
  define w0 where "w0 = w\<lparr>embed_replies := advance (embed_replies w), embed_calls := embed_calls w @ [topic],
    clock := advance (clock w), fresh_ids := advance (fresh_ids w)\<rparr>"
  have w0: "fault_free w0" "committed w0 = committed w" using assms(2) by (simp_all add: w0_def fault_free_def)
  have topic: "topic \<noteq> []" using assms(3) by (auto simp: ValidateInterestTopic_def split: if_splits)
  have ins: "write_stmt (insert_interest row) now (committed w) = Inr ((), d)" for now
    using assms(6) by (simp add: write_stmt_def insert_interest_def row_def d_def)
  have "\<exists>e w'. InTx (interest_body (interest_repo_Save E interest)) w0 = (Inl e, w') \<and> committed w' = d \<and> open_tx w' = None"
  proof (rule InTx_failing [OF w0(1)])
    fix w1 t
    assume r: "ready t w1" "tx_working t = committed w0" "committed w1 = committed w0"
    have t: "open_tx w1 = Some t" "\<forall>n. faults w1 n = Healthy" using r(1) by (simp_all add: ready_def)
    obtain w2 where x: "exec_direct (write_stmt (insert_interest row)) w1 = (Inr (), w2)" "committed w2 = d"
      "open_tx w2 = Some (t\<lparr>tx_working := d\<rparr>)"
      using exec_direct_inside [OF t, of "write_stmt (insert_interest row)"] r(2,3) w0(2) ins by auto
    have save: "interest_repo_Save E interest w1 = (Inr (mapInterestToDomain E row), w2)"
      using x(1) assms(1,4) topic
      by (simp add: interest_repo_Save_def interest_def parse_id_def ext_lawsD check_interest_def row_def)
    have inv: "world_inv (\<lambda>d. no_nil_post d \<and> digest_blocks d) w2"
      using assms(7,8) x(2,3) by (simp add: world_inv_def d_def)
    obtain q w3 where e: "EnqueueScoredPosts w2 = (q, w3)" by (cases "EnqueueScoredPosts w2")
    obtain err where q: "q = Inl err" using EnqueueScoredPosts_fails_on_digest [OF inv] e by auto
    have "committed w3 = d" "open_tx w3 \<noteq> None"
      using confined_EnqueueScoredPosts x(2,3) e unfolding confined_def by (metis option.distinct(1) snd_conv)+
    then show "\<exists>e w2. interest_body (interest_repo_Save E interest) w1 = (Inl e, w2) \<and> committed w2 = d \<and> open_tx w2 \<noteq> None"
      using save e q by (simp add: interest_body_def enqueue_rescore_def)
  qed
  then show ?thesis
    using assms(3,5)
    by (auto simp: InterestUsecase_Create_def scorer_Embed_def time_now_def new_uuid_def w0_def interest_def
        d_def row_def)
qed

lemma InterestUsecase_Create_not_atomic_example:
  "let w = (quiet_world (empty_db\<lparr>scores := [\<lparr>r_id = 1, r_post_id = None, r_summary_id = Some 4, r_value = Finite 1,
         r_model = ''m'', r_created_at = 1, r_updated_at = 1\<rparr>]\<rparr>))\<lparr>embed_replies := \<lambda>_. Inr [Finite 1]\<rparr>
   in \<exists>e w'. InterestUsecase_Create decimal_ext ''m'' ''go'' w = (Inl e, w') \<and>
    committed w' = (committed w)\<lparr>interests := [\<lparr>i_id = 0, i_topic = ''go'', i_embedding = [Finite 1], i_model = ''m'',
        i_created_at = 0, i_updated_at = 0\<rparr>]\<rparr>"
proof -
  let ?w = "(quiet_world (empty_db\<lparr>scores := [\<lparr>r_id = 1, r_post_id = None, r_summary_id = Some 4, r_value = Finite 1,
         r_model = ''m'', r_created_at = 1, r_updated_at = 1\<rparr>]\<rparr>))\<lparr>embed_replies := \<lambda>_. Inr [Finite 1]\<rparr>"
  have "ValidateInterestTopic ''go'' = None" by code_simp
  with InterestUsecase_Create_not_atomic [of decimal_ext ?w "''go''" "''m''" "[Finite 1]"] show ?thesis
    by (simp add: Let_def fault_free_def no_nil_post_def digest_blocks_def empty_db_def post_ids_def
        active_for_post_def scored_posts_def enqueueScanLimit_def)
qed

end
