(* ===== verification/Sha256.thy ===== *)
theory Sha256
  imports Go_Base
begin

text \<open>
  \<open>crypto/sha256\<close> as far as \<open>hashInput\<close> of \<open>internal/biz/score.go\<close> uses it: the digest of a
  text, in hexadecimal (FIPS 180-4, on 32-bit words).
\<close>

unbundle bit_operations_syntax

type_synonym w32 = "32 word"

text \<open>
  The constants of the standard are no table here: they are the first 32 bits of the fractional
  parts of the cube roots (of the rounds) and of the square roots (of the initial state) of the
  first primes.
\<close>

fun root_bits :: "nat \<Rightarrow> int \<Rightarrow> nat \<Rightarrow> int \<Rightarrow> int" where
  "root_bits k n 0 acc = acc"
| "root_bits k n (Suc i) acc = root_bits k n i (let b = acc + 2 ^ i in if b ^ k \<le> n then b else acc)"

text \<open>The bits found are those of the integer root.\<close>

lemma root_bits_correct:
  "acc ^ k \<le> n \<Longrightarrow> n < (acc + 2 ^ i) ^ k \<Longrightarrow>
   (root_bits k n i acc) ^ k \<le> n \<and> n < (root_bits k n i acc + 1) ^ k"
proof (induction i arbitrary: acc)
  case (Suc i)
  have double: "acc + 2 ^ i + 2 ^ i = acc + 2 ^ Suc i" by simp
  show ?case
  proof (cases "(acc + 2 ^ i) ^ k \<le> n")
    case True
    with Suc.IH [OF True] Suc.prems(2) show ?thesis unfolding double by (simp only: root_bits.simps Let_def if_True)
  next
    case False
    then have "n < (acc + 2 ^ i) ^ k" by (simp only: not_le)
    from Suc.IH [OF Suc.prems(1) this] False show ?thesis by (simp only: root_bits.simps Let_def if_False)
  qed
qed (simp only: root_bits.simps power_0 simp_thms)

definition primes_below :: "int \<Rightarrow> int list" where
  "primes_below n = filter (\<lambda>p. list_all (\<lambda>d. p mod d \<noteq> 0) [2..p - 1]) [2..n - 1]"

definition root_fraction :: "nat \<Rightarrow> int \<Rightarrow> w32" where
  "root_fraction k p = word_of_int (root_bits k (p * 4294967296 ^ k) 37 0)"

definition sha_k :: "w32 list" where
  "sha_k = map (root_fraction 3) (primes_below 312)"

type_synonym sha_state = "w32 \<times> w32 \<times> w32 \<times> w32 \<times> w32 \<times> w32 \<times> w32 \<times> w32"

definition sha_init :: sha_state where
  "sha_init = (root_fraction 2 2, root_fraction 2 3, root_fraction 2 5, root_fraction 2 7,
      root_fraction 2 11, root_fraction 2 13, root_fraction 2 17, root_fraction 2 19)"

section \<open>Padding and blocks\<close>

definition be_bytes :: "nat \<Rightarrow> int \<Rightarrow> int list" where
  "be_bytes k n = map (\<lambda>i. n div 256 ^ (k - 1 - i) mod 256) [0..<k]"

text \<open>One bit, zeros, and the length in bits as 64 bits: a multiple of 64 bytes.\<close>

definition sha_pad :: "int list \<Rightarrow> int list" where
  "sha_pad bs = bs @ 128 # replicate ((119 - length bs mod 64) mod 64) 0 @ be_bytes 8 (8 * int (length bs))"

fun be_words :: "int list \<Rightarrow> w32 list" where
  "be_words (a # b # c # d # bs) = word_of_int (((a * 256 + b) * 256 + c) * 256 + d) # be_words bs"
| "be_words _ = []"

section \<open>The compression of a block\<close>

text \<open>The schedule is extended from its last sixteen words, the newest first.\<close>

definition sigma0 :: "w32 \<Rightarrow> w32" where
  "sigma0 x = (word_rotr 7 x XOR word_rotr 18 x) XOR drop_bit 3 x"

definition sigma1 :: "w32 \<Rightarrow> w32" where
  "sigma1 x = (word_rotr 17 x XOR word_rotr 19 x) XOR drop_bit 10 x"

fun sha_schedule :: "nat \<Rightarrow> w32 list \<Rightarrow> w32 list" where
  "sha_schedule 0 ws = rev ws"
| "sha_schedule (Suc n) ws =
     sha_schedule n ((sigma1 (ws ! 1) + ws ! 6 + sigma0 (ws ! 14) + ws ! 15) # ws)"

definition sha_round :: "w32 \<times> w32 \<Rightarrow> sha_state \<Rightarrow> sha_state" where
  "sha_round = (\<lambda>(k, w) (a, b, c, d, e, f, g, h).
     let s1 = (word_rotr 6 e XOR word_rotr 11 e) XOR word_rotr 25 e;
         ch = (e AND f) XOR (NOT e AND g);
         t1 = h + s1 + ch + k + w;
         s0 = (word_rotr 2 a XOR word_rotr 13 a) XOR word_rotr 22 a;
         maj = ((a AND b) XOR (a AND c)) XOR (b AND c)
     in (t1 + s0 + maj, a, b, c, d + t1, e, f, g))"

fun sha_add :: "sha_state \<Rightarrow> sha_state \<Rightarrow> sha_state" where
  "sha_add (a, b, c, d, e, f, g, h) (a', b', c', d', e', f', g', h') =
     (a + a', b + b', c + c', d + d', e + e', f + f', g + g', h + h')"

definition sha_block :: "w32 list \<Rightarrow> sha_state \<Rightarrow> sha_state" where
  "sha_block ws s = sha_add s (fold sha_round (zip sha_k (sha_schedule 48 (rev ws))) s)"

function sha_blocks :: "w32 list \<Rightarrow> sha_state \<Rightarrow> sha_state" where
  "sha_blocks ws s = (if length ws < 16 then s else sha_blocks (drop 16 ws) (sha_block (take 16 ws) s))"
  by pat_completeness auto
termination by (relation "measure (length \<circ> fst)") auto

declare sha_blocks.simps [simp del]

definition Sum256 :: "string \<Rightarrow> sha_state" where
  "Sum256 s = sha_blocks (be_words (sha_pad (map of_char s))) sha_init"

section \<open>\<open>hashInput\<close>\<close>

definition word_bytes :: "w32 \<Rightarrow> int list" where
  "word_bytes w = be_bytes 4 (uint w)"

definition hex_byte :: "int \<Rightarrow> string" where
  "hex_byte b = [hex_digit (nat (b div 16)), hex_digit (nat (b mod 16))]"

definition hashInput :: "string \<Rightarrow> string" where
  "hashInput text = (case Sum256 text of (a, b, c, d, e, f, g, h) \<Rightarrow>
     concat (map hex_byte (concat (map word_bytes [a, b, c, d, e, f, g, h]))))"

text \<open>The padded text consists of whole blocks.\<close>

lemma length_be_bytes [simp]: "length (be_bytes k n) = k"
  by (simp add: be_bytes_def)

lemma length_sha_pad: "length (sha_pad bs) mod 64 = 0"
proof -
  define m where "m = length bs mod 64"
  have "m < 64" by (simp add: m_def)
  have "(119 - m) mod 64 = (if m \<le> 55 then 55 - m else 119 - m)"
  proof (cases "m \<le> 55")
    case True
    then have "119 - m = 55 - m + 64" by simp
    then show ?thesis using True by (simp only: mod_add_self2) simp
  qed (use \<open>m < 64\<close> in simp)
  then have "(m + (9 + (119 - m) mod 64)) mod 64 = 0" using \<open>m < 64\<close> by auto
  then have "(length bs + (9 + (119 - m) mod 64)) mod 64 = 0" unfolding m_def by (simp add: mod_simps)
  then show ?thesis by (simp add: sha_pad_def m_def add.commute add.left_commute)
qed

end
