(* ===== verification/Score_Usecase.thy ===== *)
theory Score_Usecase
  imports Score_Repo Interest Summary_Scheduling Sha256
begin

text \<open>
  \<open>ScoreUsecase\<close> of \<open>internal/biz/score.go\<close>: enqueueing of due work, scoring of one event
  with the persisted embedding as a cache, reaping.
\<close>

record ScoringConf =
  scf_ReaperGrace :: duration
  scf_MaxAttempts :: int
  scf_BackoffBase :: duration
  scf_BackoffMax :: duration
  scf_LeaseTtl :: duration

section \<open>Enqueueing and reaping\<close>

definition EnqueueDue :: "world \<Rightarrow> int result \<times> world" where
  "EnqueueDue w =
     (case EnqueueDuePosts w of
        (Inl e, w) \<Rightarrow> (Inl (errorf_ctx ''enqueue due posts'' e), w)
      | (Inr nPosts, w) \<Rightarrow>
          (case EnqueueDueDigests w of
             (Inl e, w) \<Rightarrow> (Inl (errorf_ctx ''enqueue due digests'' e), w)
           | (Inr nDigests, w) \<Rightarrow> (Inr (nPosts + nDigests), w)))"

definition ReapStuckScoreEvents :: "ext \<Rightarrow> ScoringConf \<Rightarrow> world \<Rightarrow> (nat \<times> error option) \<times> world" where
  "ReapStuckScoreEvents E cfg w =
     (let grace = or_default (scf_ReaperGrace cfg) 30;
          maxAttempts = max_attempts_of (scf_MaxAttempts cfg)
      in case score_outbox_ListLeaseExpired E grace reaperBatchLimit w of
           (Inl e, w) \<Rightarrow> ((0, Some (errorf_ctx ''list lease expired'' e)), w)
         | (Inr events, w) \<Rightarrow>
             reap_loop sc_AttemptCount
               (\<lambda>ev. score_outbox_FailExpired E (sc_ID ev) maxAttempts grace max_attempts_exceeded)
               maxAttempts events 0 w)"

definition ScoreUsecase_RetryPolicy :: "ScoringConf \<Rightarrow> RetryPolicy" where
  "ScoreUsecase_RetryPolicy cfg =
     \<lparr>MaxAttempts = max_attempts_of (scf_MaxAttempts cfg),
      BackoffBase = or_default (scf_BackoffBase cfg) 10,
      BackoffMax = or_default (scf_BackoffMax cfg) 600\<rparr>"

section \<open>Scoring an event\<close>

text \<open>An event without a key dereferences nil; the CHECK of the table rules it out.\<close>

definition resolveScoreInput :: "ext \<Rightarrow> ScoreEvent \<Rightarrow> world \<Rightarrow> (ScoreKey \<times> string) result \<times> world" where
  "resolveScoreInput E event w =
     (case sc_SummaryID event of
        Some m \<Rightarrow>
          (case summary_repo_Get E m w of
             (Inl e, w) \<Rightarrow> (Inl (errorf_ctx ''get digest summary'' e), w)
           | (Inr summary, w) \<Rightarrow> (Inr (\<lparr>sk_PostID = None, sk_SummaryID = Some m\<rparr>, sum_Text summary), w))
      | None \<Rightarrow>
     (case sc_PostID event of
        None \<Rightarrow> (Inl nil_dereference, w)
      | Some p \<Rightarrow>
          (case summary_repo_ListByPost E p w of
             (Inl e, w) \<Rightarrow> (Inl (errorf_ctx ''list post summaries'' e), w)
           | (Inr [], w) \<Rightarrow> (Inl (errorf_detail ErrScoreValidation ''post has no summary''), w)
           | (Inr (s # _), w) \<Rightarrow> (Inr (\<lparr>sk_PostID = Some p, sk_SummaryID = None\<rparr>, sum_Text s), w))))"

definition resolveVector ::
  "ext \<Rightarrow> string \<Rightarrow> ScoreKey \<Rightarrow> string \<Rightarrow> world \<Rightarrow> float64 list result \<times> world" where
  "resolveVector E model key text w =
     (let inputHash = hashInput text;
          compute = (\<lambda>w. case scorer_Embed text w of
             (Inl e, w) \<Rightarrow> (Inl (errorf_ctx ''embed summary'' e), w)
           | (Inr vector, w) \<Rightarrow>
               (case embedding_repo_Upsert E
                       \<lparr>pe_PostID = sk_PostID key, pe_SummaryID = sk_SummaryID key, pe_Vector = vector,
                        pe_Model = model, pe_InputHash = inputHash,
                        pe_CreatedAt = zero_time, pe_UpdatedAt = zero_time\<rparr> w of
                  (Inl e, w) \<Rightarrow> (Inl (errorf_ctx ''persist embedding'' e), w)
                | (Inr _, w) \<Rightarrow> (Inr vector, w)))
      in case embedding_repo_Get E key w of
           (Inr stored, w) \<Rightarrow>
             (if pe_Model stored = model \<and> pe_InputHash stored = inputHash then (Inr (pe_Vector stored), w)
              else compute w)
         | (Inl e, w) \<Rightarrow>
             (if \<not> errors_is e ErrPostEmbeddingNotFound then (Inl (errorf_ctx ''get embedding'' e), w)
              else compute w))"

definition check_vector :: "string \<Rightarrow> InterestVector \<Rightarrow> error + float64 list" where
  "check_vector model iv =
     (if iv_Model iv \<noteq> model
      then Inl (errorf_detail ErrScoreValidation
                  (''interest embedded with model '' @ quote (iv_Model iv) @ '', current '' @ quote model))
      else Inr (iv_Embedding iv))"

definition upsert_value :: "ext \<Rightarrow> string \<Rightarrow> ScoreKey \<Rightarrow> float64 \<Rightarrow> world \<Rightarrow> string result \<times> world" where
  "upsert_value E model key v w =
     (let (now, w) = time_now w; (i, w) = new_uuid w in
      case score_repo_Upsert E \<lparr>sco_ID = uuid_string E i, sco_PostID = sk_PostID key, sco_SummaryID = sk_SummaryID key,
               sco_Value = v, sco_Model = model, sco_CreatedAt = now, sco_UpdatedAt = now\<rparr> w of
        (Inl e, w) \<Rightarrow> (Inl (errorf_ctx ''upsert score'' e), w)
      | (Inr saved, w) \<Rightarrow> (Inr (sco_ID saved), w))"

definition ScorePost :: "ext \<Rightarrow> string \<Rightarrow> ScoreEvent \<Rightarrow> world \<Rightarrow> string result \<times> world" where
  "ScorePost E model event w =
     (case resolveScoreInput E event w of
        (Inl e, w) \<Rightarrow> (Inl e, w)
      | (Inr (key, text), w) \<Rightarrow>
     (case ListInterestVectors w of
        (Inl e, w) \<Rightarrow> (Inl (errorf_ctx ''list interest vectors'' e), w)
      | (Inr vectors, w) \<Rightarrow>
     (case map_results (check_vector model) vectors of
        Inl e \<Rightarrow> (Inl e, w)
      | Inr interestEmbeddings \<Rightarrow>
          (if interestEmbeddings = [] then upsert_value E model key (Finite 0) w
           else case resolveVector E model key text w of
             (Inl e, w) \<Rightarrow> (Inl e, w)
           | (Inr postEmbedding, w) \<Rightarrow>
               (case Relevance postEmbedding interestEmbeddings of
                  Inl e \<Rightarrow> (Inl e, w)
                | Inr value \<Rightarrow> upsert_value E model key value w)))))"

section \<open>Reaping\<close>

interpretation score_reaper:
  reaper score_events "\<lambda>rs d. d\<lparr>score_events := rs\<rparr>"
    "\<lambda>ev. score_outbox_FailExpired E (sc_ID ev) n g x" n g x for E n g x
proof unfold_locales
  fix w ev r w'
  assume o: "open_tx w = None" and run: "score_outbox_FailExpired E (sc_ID ev) n g x w = (r, w')"
  show "open_tx w' = None \<and> (committed w' = committed w \<and> r \<noteq> Inr True \<or>
     (\<exists>P now. (\<forall>q. P q \<longrightarrow> doomed n g now q) \<and> (r = Inr True \<longrightarrow> 0 < count_where P (score_events (committed w))) \<and>
        committed w' = (committed w)\<lparr>score_events := update_where P (fail_row x now) (score_events (committed w))\<rparr>))"
  proof (cases "parse_uuid E (sc_ID ev)")
    case None
    then show ?thesis using run o by (auto simp: score_outbox_FailExpired_def parse_id_def)
  next
    case (Some eid)
    obtain q v where e: "exec_tx (update_score_events (fail_guard eid n g) (fail_row x)) w = (q, v)"
      by (cases "exec_tx (update_score_events (fail_guard eid n g) (fail_row x)) w")
    have rv: "w' = v \<and> (r = Inr True \<longrightarrow> (\<exists>k. q = Inr k \<and> 0 < k))"
      using run e Some by (cases q) (auto simp: score_outbox_FailExpired_def parse_id_def)
    have guard: "\<forall>q. fail_guard eid n g (clock w 0) q \<longrightarrow> doomed n g (clock w 0) q"
      by (simp add: fail_guard_def doomed_def)
    note eff = exec_tx_outside [OF o e]
    show ?thesis
    proof (cases "r = Inr True")
      case False
      then show ?thesis using eff(1,2) rv guard unfolding update_score_events_Inr by blast
    next
      case True
      then obtain k where k: "q = Inr k" "0 < k" using rv by blast
      then show ?thesis using eff(1) eff(3) [OF k(1)] rv guard unfolding update_score_events_Inr by blast
    qed
  qed
qed (simp_all)

end
