(* ===== verification/Schedulers.thy ===== *)
theory Schedulers
  imports Summary_Scheduling Score_Usecase
begin

text \<open>
  The periodic tasks of \<open>internal/task\<close>: \<open>source_due_scheduler.go\<close>, \<open>score_due_scheduler.go\<close>,
  \<open>stuck_event_reaper.go\<close> and \<open>stuck_score_event_reaper.go\<close>. The stream \<open>running\<close> holds what
  the task finds each time it looks at its context and its stop channel.
\<close>

text \<open>\<open>run\<close>: look, work, sleep. The flag tells whether the task has stopped within the rounds.\<close>

fun periodic :: "(world \<Rightarrow> world) \<Rightarrow> bool stream \<Rightarrow> nat \<Rightarrow> world \<Rightarrow> bool \<times> world" where
  "periodic job running 0 w = (False, w)"
| "periodic job running (Suc k) w =
     (if \<not> running 0 then (True, w)
      else let w = job w in
        if \<not> running 1 then (True, w) else periodic job (advance (advance running)) k w)"

text \<open>The reaper of score events works before it looks.\<close>

fun ticking :: "(world \<Rightarrow> world) \<Rightarrow> bool stream \<Rightarrow> nat \<Rightarrow> world \<Rightarrow> bool \<times> world" where
  "ticking job running 0 w = (False, w)"
| "ticking job running (Suc k) w =
     (let w = job w in if \<not> running 0 then (True, w) else ticking job (advance running) k w)"

definition ScoreDueScheduler_run :: "bool stream \<Rightarrow> nat \<Rightarrow> world \<Rightarrow> bool \<times> world" where
  "ScoreDueScheduler_run = periodic (\<lambda>w. snd (EnqueueDue w))"

definition StuckEventReaper_run :: "SummaryDeps \<Rightarrow> bool stream \<Rightarrow> nat \<Rightarrow> world \<Rightarrow> bool \<times> world" where
  "StuckEventReaper_run D = periodic (\<lambda>w. snd (ReapStuckEvents D w))"

definition StuckScoreEventReaper_run :: "ext \<Rightarrow> ScoringConf \<Rightarrow> bool stream \<Rightarrow> nat \<Rightarrow> world \<Rightarrow> bool \<times> world" where
  "StuckScoreEventReaper_run E cfg = ticking (\<lambda>w. snd (ReapStuckScoreEvents E cfg w))"

text \<open>
  One tick of the source scheduler repeats the round until it reports that nothing was queued
  or an error. \<open>None\<close> is a tick that has not ended within the rounds given.
\<close>

fun tick :: "SummaryDeps \<Rightarrow> bool stream \<Rightarrow> nat \<Rightarrow> world \<Rightarrow> (world \<times> bool stream) option" where
  "tick D running 0 w = None"
| "tick D running (Suc k) w =
     (if \<not> running 0 then Some (w, advance running)
      else case ScheduleNextCumulative D w of
        (Inl err, w) \<Rightarrow> Some (w, advance running)
      | (Inr scheduled, w) \<Rightarrow> (if \<not> scheduled then Some (w, advance running) else tick D (advance running) k w))"

fun SourceDueScheduler_run ::
  "SummaryDeps \<Rightarrow> nat \<Rightarrow> bool stream \<Rightarrow> nat \<Rightarrow> world \<Rightarrow> (bool \<times> world) option" where
  "SourceDueScheduler_run D fuel running 0 w = Some (False, w)"
| "SourceDueScheduler_run D fuel running (Suc k) w =
     (if \<not> running 0 then Some (True, w)
      else case tick D (advance running) fuel w of
        None \<Rightarrow> None
      | Some (w, running) \<Rightarrow>
          (if \<not> running 0 then Some (True, w) else SourceDueScheduler_run D fuel (advance running) k w))"

section \<open>A tick ends\<close>

named_theorems keeps_intros

lemmas [keeps_intros] = keeps_case keeps_let keeps_if keeps_case_sum keeps_case_option keeps_return
  keeps_time_now keeps_new_uuid keeps_take_locks keeps_exec_tx keeps_exec_direct stmt_keeps_select

lemma keeps_bind:
  assumes "keeps P f" and "\<And>x. keeps P (g x)"
  shows "keeps P (\<lambda>w. case f w of (x, w1) \<Rightarrow> g x w1)"
  using assms unfolding keeps_def by (auto split: prod.split)

lemma keeps_case_prod [keeps_intros]:
  "(\<And>x y. keeps P (h x y)) \<Longrightarrow> keeps P (\<lambda>w. case s of (x, y) \<Rightarrow> h x y w)"
  by (cases s) simp

lemma bump_unique [keeps_intros]: "stmt_keeps summary_events_unique (bump_stmt sid nextAt)"
  by (auto simp: stmt_keeps_def bump_stmt_def guarded_update_def summary_events_unique_def)

lemma keeps_build_items [keeps_intros]: "keeps P (build_items E srcs rows)"
proof (induction rows)
  case Nil
  show ?case by (simp add: keeps_def)
next
  case (Cons p ps)
  show ?case unfolding build_items.simps Let_def
    by (rule keeps_bind; intro keeps_intros Cons)
qed

lemma keeps_post_repo_List [keeps_intros]: "keeps P (post_repo_List E f)"
  unfolding post_repo_List_def fetchPosts_def batchLoadSources_def buildResult_def Let_def
  by (intro keeps_intros)

lemma keeps_maybeEnqueue [keeps_intros]: "keeps summary_events_unique (maybeEnqueueSourceEvent E s)"
  unfolding maybeEnqueueSourceEvent_def summary_outbox_HasActiveEvent_def summary_repo_GetLastBySource_def
    summary_outbox_Save_def NewSummaryEvent_def Let_def
  by (intro keeps_intros keeps_bind insert_summary_event_keeps)

lemma ScheduleNextCumulative_unique: "keeps summary_events_unique (ScheduleNextCumulative D)"
proof -
  have "keeps summary_events_unique (schedule_body E interval)" for E interval
    unfolding schedule_body_def ClaimDueCumulative_def BumpNextSummaryAt_def Let_def
    by (intro keeps_intros keeps_bind)
  then show ?thesis unfolding ScheduleNextCumulative_def by (intro keeps_intros keeps_InTx)
qed

text \<open>The sources without an active summarization event.\<close>

definition unqueued :: "database \<Rightarrow> uuid set" where
  "unqueued d = {s \<in> source_ids d. \<not> (\<exists>r \<in> set (summary_events d). active_source_event s SummarizeSource r)}"

lemma scheduled_takes:
  assumes "scheduled_effect True d d'" and "summary_events_unique d'"
  shows "unqueued d' \<subset> unqueued d" "finite (unqueued d)"
proof -
  show "finite (unqueued d)" by (simp add: unqueued_def source_ids_def)
  from assms(1) obtain now locks row nextAt ev where
    row: "first_min due_key (filter (\<lambda>r. source_due now r \<and> s_id r \<notin> set locks) (sources d)) = Some row"
    and ev: "source_event (s_id row) ev" and d': "d' = with_event ev (bumped (s_id row) nextAt d)"
    by (auto simp: scheduled_effect_def)
  have "map s_id (sources d') = map s_id (sources d)" by (simp add: d' with_event_def bumped_def map_update_where)
  then have ids: "source_ids d' = source_ids d" unfolding source_ids_def set_map [symmetric] by simp
  have evs: "summary_events d' = summary_events d @ [ev]" by (simp add: d' with_event_def bumped_def)
  have act: "active_source_event (s_id row) SummarizeSource ev" using ev by (simp add: source_event_def active_source_event_def)
  have "\<not> active_source_event (s_id row) SummarizeSource r" if "r \<in> set (summary_events d)" for r
  proof
    assume a: "active_source_event (s_id row) SummarizeSource r"
    have "filter (active_source_event (s_id row) SummarizeSource) (summary_events d') =
        filter (active_source_event (s_id row) SummarizeSource) (summary_events d) @ [ev]" using act by (simp add: evs)
    moreover have "filter (active_source_event (s_id row) SummarizeSource) (summary_events d) \<noteq> []"
      using a that by (auto simp: filter_empty_conv)
    ultimately show False
      using unique_active_source [OF assms(2), of "s_id row"] by (auto split: option.splits simp: append_eq_Cons_conv)
  qed
  moreover have "s_id row \<in> source_ids d" using first_min_in [OF row] by (auto simp: source_ids_def)
  ultimately have "s_id row \<in> unqueued d" "s_id row \<notin> unqueued d'" using act by (auto simp: unqueued_def evs)
  moreover have "unqueued d' \<subseteq> unqueued d" by (auto simp: unqueued_def ids evs)
  ultimately show "unqueued d' \<subset> unqueued d" by blast
qed

text \<open>
  C35. A tick of the source scheduler ends, whatever statement, commit or rollback fails and
  whatever the clock reads: each round that goes on has queued an event for a source that had
  none active, so there are at most as many as such sources, and one more.
\<close>

theorem SourceDueScheduler_tick_ends:
  assumes E: "ext_laws (dep_ext D)" and "world_inv summary_events_unique w"
    and "card (unqueued (committed w)) < fuel"
  shows "\<exists>w' running'. tick D running fuel w = Some (w', running') \<and> world_inv summary_events_unique w'"
  using assms(2,3)
proof (induction fuel arbitrary: w running)
  case (Suc fuel)
  obtain r w1 where run: "ScheduleNextCumulative D w = (r, w1)" by (cases "ScheduleNextCumulative D w")
  have inv: "world_inv summary_events_unique w1" using keepsD [OF ScheduleNextCumulative_unique run Suc.prems(1)] .
  show ?case
  proof (cases "running 0 \<and> r = Inr True")
    case False
    then show ?thesis using run inv Suc.prems(1) by (cases r) auto
  next
    case True
    have "scheduled_effect True (committed w) (committed w1)"
      using ScheduleNextCumulative_effect [OF E, of w] run True by auto
    moreover have "summary_events_unique (committed w1)" using inv by (simp add: world_inv_def)
    ultimately have "card (unqueued (committed w1)) < card (unqueued (committed w))"
      using scheduled_takes psubset_card_mono by metis
    then show ?thesis using Suc.IH [OF inv] Suc.prems(2) run True by simp
  qed
qed simp

theorem SourceDueScheduler_tick_ends_witness:
  "\<exists>w' running'. tick sample_summary_deps (\<lambda>_. True) 2 due_world = Some (w', running')"
proof -
  have "card (unqueued (committed due_world)) \<le> card {9 :: uuid}"
    by (rule card_mono) (auto simp: unqueued_def due_world_def source_ids_def sample_source_def)
  then show ?thesis
    using SourceDueScheduler_tick_ends [of sample_summary_deps due_world 2 "\<lambda>_. True"]
    by (auto simp: sample_summary_deps_def due_world_def summary_events_unique_def empty_db_def)
qed

end
