(* ===== verification/Feed_Repo.thy ===== *)
theory Feed_Repo
  imports Score_Repo Summary_Repo
begin

text \<open>
  The ranked feed and the reactions: \<open>ListRanked\<close> of \<open>internal/data/score_repo.go\<close> with its
  page tokens, \<open>FeedUsecase\<close> (\<open>internal/biz/feed.go\<close>), \<open>reactionRepo\<close>
  (\<open>internal/data/reaction_repo.go\<close>) and \<open>ReactionUsecase\<close> (\<open>internal/biz/reaction.go\<close>).
\<close>

section \<open>The order of double precision columns\<close>

text \<open>PostgreSQL orders the values as numbers, with NaN above all of them and equal to itself.\<close>

fun pg_rank :: "float64 \<Rightarrow> nat" where
  "pg_rank NegInf = 0"
| "pg_rank (Finite _) = 1"
| "pg_rank PosInf = 2"
| "pg_rank NaN = 3"

fun finite_part :: "float64 \<Rightarrow> rat" where
  "finite_part (Finite x) = x"
| "finite_part _ = 0"

instantiation float64 :: linorder
begin

definition less_eq_float64 :: "float64 \<Rightarrow> float64 \<Rightarrow> bool" where
  "a \<le> b \<longleftrightarrow> pg_rank a < pg_rank b \<or> (pg_rank a = pg_rank b \<and> finite_part a \<le> finite_part b)"

definition less_float64 :: "float64 \<Rightarrow> float64 \<Rightarrow> bool" where
  "a < b \<longleftrightarrow> pg_rank a < pg_rank b \<or> (pg_rank a = pg_rank b \<and> finite_part a < finite_part b)"

lemma pg_key_inject: "pg_rank a = pg_rank b \<Longrightarrow> finite_part a = finite_part b \<Longrightarrow> a = b" for a b :: float64
  by (cases a; cases b) auto

instance
  by standard (auto simp: less_eq_float64_def less_float64_def intro: pg_key_inject)

end

lemma float64_le_simps [simp]:
  "Finite x \<le> Finite y \<longleftrightarrow> x \<le> y" "Finite x < Finite y \<longleftrightarrow> x < y"
  by (simp_all add: less_eq_float64_def less_float64_def)

section \<open>Page tokens of the feed\<close>

text \<open>
  The text of a \<open>float64\<close> (verb \<open>%v\<close>) and \<open>strconv.ParseFloat\<close>: the shortest decimal that
  reads back as the same number, without a bar.
\<close>

record float_text =
  format_float :: "float64 \<Rightarrow> string"
  parse_float :: "string \<Rightarrow> float64 option"

text \<open>The values of the type \<open>float64\<close>: a finite one is not changed by rounding.\<close>

definition representable :: "float64 \<Rightarrow> bool" where
  "representable v = (case v of Finite x \<Rightarrow> rnd x = Finite x | _ \<Rightarrow> True)"

definition float_laws :: "float_text \<Rightarrow> bool" where
  "float_laws F \<longleftrightarrow>
     (\<forall>v. representable v \<longrightarrow> parse_float F (format_float F v) = Some v \<and> CHR ''|'' \<notin> set (format_float F v))"

text \<open>The cursor comes before another in the order \<open>value DESC, id ASC\<close>.\<close>

datatype scoreToken = ScoreToken (tok_value: float64) (tok_id: uuid)

instantiation scoreToken :: linorder
begin

definition less_eq_scoreToken :: "scoreToken \<Rightarrow> scoreToken \<Rightarrow> bool" where
  "a \<le> b \<longleftrightarrow> tok_value b < tok_value a \<or> (tok_value a = tok_value b \<and> tok_id a \<le> tok_id b)"

definition less_scoreToken :: "scoreToken \<Rightarrow> scoreToken \<Rightarrow> bool" where
  "a < b \<longleftrightarrow> tok_value b < tok_value a \<or> (tok_value a = tok_value b \<and> tok_id a < tok_id b)"

instance
  by standard (auto simp: less_eq_scoreToken_def less_scoreToken_def intro: scoreToken.expand)

end

definition encodeScoreToken :: "float_text \<Rightarrow> float64 \<Rightarrow> string \<Rightarrow> string" where
  "encodeScoreToken F value postID = b64_encode (format_float F value @ ''|'' @ postID)"

definition decodeScoreToken :: "ext \<Rightarrow> float_text \<Rightarrow> string \<Rightarrow> error + scoreToken" where
  "decodeScoreToken E F token =
     (case b64_decode token of
        None \<Rightarrow> Inl (errorf_ctx ''decode token'' (Text ''illegal base64 data''))
      | Some decoded \<Rightarrow>
          (let parts = split_at (CHR ''|'') decoded in
           if length parts \<noteq> tokenParts then Inl (Text ''invalid token format'')
           else case parse_float F (parts ! 0) of
             None \<Rightarrow> Inl (errorf_ctx ''parse value'' (Text ''strconv.ParseFloat: invalid syntax''))
           | Some v \<Rightarrow>
               (case parse_uuid E (parts ! 1) of
                  None \<Rightarrow> Inl (errorf_ctx ''parse uuid'' (Text ''invalid UUID''))
                | Some i \<Rightarrow> Inr (ScoreToken v i))))"

lemma decode_encode_score_token:
  assumes "ext_laws E" and "float_laws F" and "representable v"
  shows "decodeScoreToken E F (encodeScoreToken F v (uuid_string E i)) = Inr (ScoreToken v i)"
  using assms(2,3)
  by (simp add: decodeScoreToken_def encodeScoreToken_def split_at_append split_at_no_sep
      ext_lawsD [OF assms(1)] tokenParts_def float_laws_def)

lemma encode_score_token_nonempty [simp]: "encodeScoreToken F v s \<noteq> []"
  by (simp add: encodeScoreToken_def)

section \<open>The query\<close>

record FeedItem =
  fi_Post :: Post
  fi_Score :: float64
  fi_URL :: string
  fi_Reaction :: string
  fi_Kind :: FeedItemKind

record FeedQuery =
  fq_From :: "time option"
  fq_To :: "time option"
  fq_MinScore :: float64
  fq_PageSize :: int
  fq_PageToken :: string

text \<open>A row of the union \<open>q\<close> of \<open>rankedFeedQueryHead\<close>.\<close>

record feed_row =
  q_id :: uuid
  q_source_id :: uuid
  q_author :: "string option"
  q_text :: string
  q_published_at :: time
  q_value :: float64
  q_meta_link :: string
  q_tg_username :: string
  q_external_id :: string
  q_reaction :: string
  q_effective_value :: float64
  q_kind :: FeedItemKind

text \<open>\<open>ORDER BY created_at DESC LIMIT 1\<close> over the summaries of a post.\<close>

definition newest_summary :: "uuid \<Rightarrow> database \<Rightarrow> summary_row option" where
  "newest_summary pid d =
     fold (\<lambda>m best. case best of None \<Rightarrow> Some m
                   | Some b \<Rightarrow> if m_created_at b < m_created_at m then Some m else Some b)
       (filter (\<lambda>m. m_post_id m = Some pid) (summaries d)) None"

text \<open>
  \<open>config->'k'->>'username'\<close>: a column value of the table holds numbers and strings under its
  keys, and a number or a string has no member \<open>username\<close>.
\<close>

definition config_member :: "string \<Rightarrow> json_object \<Rightarrow> string option" where
  "config_member k cfg = (case map_of cfg k of None \<Rightarrow> None | Some (JNum _) \<Rightarrow> None | Some (JStr _) \<Rightarrow> None)"

definition reaction_of :: "uuid \<Rightarrow> database \<Rightarrow> string option" where
  "reaction_of pid d = map_option x_signal (List.find (\<lambda>x. x_post_id x = pid) (post_reactions d))"

definition or_empty :: "string option \<Rightarrow> string" where
  "or_empty s = (case s of None \<Rightarrow> [] | Some t \<Rightarrow> t)"

definition effective_value :: "string option \<Rightarrow> float64 \<Rightarrow> float64" where
  "effective_value signal v = (if signal = Some ''like'' then fadd v (rnd (1 / 10)) else v)"

definition post_feed_row :: "database \<Rightarrow> score_row \<Rightarrow> post_row \<Rightarrow> feed_row" where
  "post_feed_row d s p =
     (let signal = reaction_of (p_id p) d;
          src = List.find (\<lambda>r. s_id r = p_source_id p) (sources d);
          username = (\<lambda>k. Option.bind src (\<lambda>r. config_member k (s_config r)))
      in \<lparr>q_id = p_id p, q_source_id = p_source_id p, q_author = p_author p,
          q_text = (case newest_summary (p_id p) d of Some m \<Rightarrow> m_text m | None \<Rightarrow> p_text p),
          q_published_at = p_published_at p, q_value = r_value s,
          q_meta_link = or_empty (map_of (p_metadata p) ''link''),
          q_tg_username = (case username ''telegramChannel'' of
              Some u \<Rightarrow> u | None \<Rightarrow> or_empty (username ''telegramGroup'')),
          q_external_id = p_external_id p, q_reaction = or_empty signal,
          q_effective_value = effective_value signal (r_value s), q_kind = FeedItemKindPost\<rparr>)"

definition digest_feed_row :: "score_row \<Rightarrow> summary_row \<Rightarrow> feed_row" where
  "digest_feed_row s m =
     \<lparr>q_id = m_id m, q_source_id = m_source_id m, q_author = None, q_text = m_text m,
      q_published_at = m_created_at m, q_value = r_value s, q_meta_link = [], q_tg_username = [],
      q_external_id = [], q_reaction = [], q_effective_value = r_value s, q_kind = FeedItemKindDigest\<rparr>"

definition post_feed_rows :: "database \<Rightarrow> feed_row list" where
  "post_feed_rows d =
     concat (map (\<lambda>s. map (post_feed_row d s)
       (filter (\<lambda>p. r_post_id s = Some (p_id p) \<and> or_empty (reaction_of (p_id p) d) \<noteq> ''dislike'') (posts d)))
       (scores d))"

definition digest_feed_rows :: "database \<Rightarrow> feed_row list" where
  "digest_feed_rows d =
     concat (map (\<lambda>s. map (digest_feed_row s)
       (filter (\<lambda>m. r_summary_id s = Some (m_id m) \<and> m_post_id m = None) (summaries d))) (scores d))"

definition feed_rows :: "database \<Rightarrow> feed_row list" where
  "feed_rows d = post_feed_rows d @ digest_feed_rows d"

text \<open>The conditions of the \<open>WHERE\<close> clause, and the cursor of a row.\<close>

definition feed_matches :: "FeedQuery \<Rightarrow> feed_row \<Rightarrow> bool" where
  "feed_matches f q \<longleftrightarrow>
     fq_MinScore f \<le> q_value q \<and>
     (case fq_From f of None \<Rightarrow> True | Some t \<Rightarrow> t \<le> q_published_at q) \<and>
     (case fq_To f of None \<Rightarrow> True | Some t \<Rightarrow> q_published_at q \<le> t)"

definition feed_cursor :: "feed_row \<Rightarrow> scoreToken" where
  "feed_cursor q = ScoreToken (q_value q) (q_id q)"

definition feed_rank :: "feed_row \<Rightarrow> scoreToken" where
  "feed_rank q = ScoreToken (q_effective_value q) (q_id q)"

definition ranked_rows :: "FeedQuery \<Rightarrow> scoreToken option \<Rightarrow> database \<Rightarrow> feed_row list" where
  "ranked_rows f cur d = sort_key feed_rank
     (filter (\<lambda>q. feed_matches f q \<and> (case cur of None \<Rightarrow> True | Some c \<Rightarrow>
         q_value q < tok_value c \<or> (q_value q = tok_value c \<and> tok_id c < q_id q))) (feed_rows d))"

definition ranked_query :: "FeedQuery \<Rightarrow> scoreToken option \<Rightarrow> feed_row list stmt" where
  "ranked_query f cur =
     (\<lambda>_ d. if fq_PageSize f + 1 < 0 then Inl (Pq ''2201W'' ''LIMIT must not be negative'')
            else Inr (take (nat (fq_PageSize f + 1)) (ranked_rows f cur d), d))"

definition feed_item :: "ext \<Rightarrow> feed_row \<Rightarrow> FeedItem" where
  "feed_item E q =
     \<lparr>fi_Post = \<lparr>post_ID = uuid_string E (q_id q), post_SourceID = uuid_string E (q_source_id q),
        post_Source = empty_source_info, post_ExternalID = [], post_PublishedAt = q_published_at q,
        post_Author = q_author q, post_Text = q_text q, post_Metadata = None,
        post_CreatedAt = zero_time, post_UpdatedAt = zero_time\<rparr>,
      fi_Score = q_value q,
      fi_URL = (if q_meta_link q = [] \<and> q_tg_username q \<noteq> [] \<and> q_external_id q \<noteq> []
                then ''https://t.me/'' @ q_tg_username q @ ''/'' @ q_external_id q else q_meta_link q),
      fi_Reaction = q_reaction q, fi_Kind = q_kind q\<rparr>"

text \<open>
  The page is cut from the fetched rows: a negative count does not slice, and the last row of
  an empty page does not exist; the use case never asks for such a page.
\<close>

definition ListRanked ::
  "ext \<Rightarrow> float_text \<Rightarrow> FeedQuery \<Rightarrow> world \<Rightarrow> FeedItem page result outcome \<times> world" where
  "ListRanked E F query w =
     (case (if fq_PageToken query = [] then Inr None
            else map_sum (\<lambda>_. errorf_detail ErrInvalidThreshold ''invalid page token'') Some
                   (decodeScoreToken E F (fq_PageToken query))) of
        Inl e \<Rightarrow> (Returns (Inl e), w)
      | Inr cur \<Rightarrow>
     (case exec_tx (ranked_query query cur) w of
        (Inl e, w) \<Rightarrow> (Returns (Inl (errorf_ctx ''list ranked feed'' e)), w)
      | (Inr rows, w) \<Rightarrow>
          (let its = map (feed_item E) rows; returnCount = min (int (length its)) (fq_PageSize query) in
           if returnCount < 0 then (Panics ''runtime error: slice bounds out of range'', w)
           else if int (length its) > fq_PageSize query then
             (if returnCount - 1 < 0 then (Panics ''runtime error: index out of range [-1]'', w)
              else let last = its ! nat (returnCount - 1) in
                (Returns (Inr \<lparr>Items = take (nat returnCount) its,
                   NextPageToken = encodeScoreToken F (fi_Score last) (post_ID (fi_Post last))\<rparr>), w))
           else (Returns (Inr \<lparr>Items = take (nat returnCount) its, NextPageToken = []\<rparr>), w))))"

section \<open>The use case\<close>

definition RankedFeed ::
  "ext \<Rightarrow> float_text \<Rightarrow> FeedQuery \<Rightarrow> world \<Rightarrow> FeedItem page result outcome \<times> world" where
  "RankedFeed E F query w =
     (if fless (fq_MinScore query) (Finite 0) \<or> fless (Finite 1) (fq_MinScore query)
      then (Returns (Inl (errorf_detail ErrInvalidThreshold ''min_score must be in [0,1]'')), w)
      else if (case (fq_From query, fq_To query) of (Some a, Some b) \<Rightarrow> b < a | _ \<Rightarrow> False)
      then (Returns (Inl (errorf_detail ErrInvalidThreshold ''from must be before to'')), w)
      else ListRanked E F (query\<lparr>fq_PageSize := clamp_page_size (fq_PageSize query)\<rparr>) w)"

section \<open>Reactions\<close>

text \<open>
  The identifier is generated by the database; the check of the column comes before the
  arbiter \<open>ON CONFLICT (post_id)\<close>, the reference after it.
\<close>

definition upsert_reaction :: "uuid \<Rightarrow> uuid \<Rightarrow> string \<Rightarrow> time \<Rightarrow> database \<Rightarrow> error + database" where
  "upsert_reaction i pid signal now d =
     (if signal \<notin> {''like'', ''dislike''} then Inl check_violation
      else if pid \<in> x_post_id ` set (post_reactions d)
      then Inr (d\<lparr>post_reactions := update_where (\<lambda>x. x_post_id x = pid)
                    (\<lambda>x. x\<lparr>x_signal := signal, x_updated_at := now\<rparr>) (post_reactions d)\<rparr>)
      else if i \<in> x_id ` set (post_reactions d) then Inl unique_violation
      else if pid \<notin> post_ids d then Inl foreign_key_violation
      else Inr (d\<lparr>post_reactions := post_reactions d @
                    [\<lparr>x_id = i, x_post_id = pid, x_signal = signal, x_created_at = now, x_updated_at = now\<rparr>]\<rparr>))"

definition reaction_repo_Upsert :: "ext \<Rightarrow> string \<Rightarrow> string \<Rightarrow> world \<Rightarrow> unit result \<times> world" where
  "reaction_repo_Upsert E postID signal w =
     (case parse_id E ''invalid post id'' postID of
        Inl e \<Rightarrow> (Inl e, w)
      | Inr pid \<Rightarrow>
          (let (i, w) = new_uuid w in
           case exec_direct (\<lambda>now. write_stmt (upsert_reaction i pid signal now) now) w of
             (Inl e, w) \<Rightarrow> (Inl (errorf_ctx ''upsert reaction'' e), w)
           | (Inr _, w) \<Rightarrow> (Inr (), w)))"

definition React :: "ext \<Rightarrow> string \<Rightarrow> string \<Rightarrow> world \<Rightarrow> unit result \<times> world" where
  "React E postID signal w =
     (if signal \<noteq> ''like'' \<and> signal \<noteq> ''dislike'' then (Inl (Sentinel ErrInvalidSignal), w)
      else reaction_repo_Upsert E postID signal w)"

end
