(* ===== verification/Schema.thy ===== *)
theory Schema
  imports Schedulers Feed_Repo Interest
begin

text \<open>
  The schema of \<open>migrations/\<close> as a predicate on databases: primary keys, unique indexes,
  references and checks of all nine tables. Every statement the repositories issue keeps it:
  the checks that \<open>Tables\<close> and the repositories' theories write into the statements are
  enough, cascades included. \<open>schema_statements\<close> collects the statements; \<open>Invariants\<close>
  lifts what they all keep to the operations of the program.
\<close>

section \<open>The constraints of the tables\<close>

text \<open>The two nullable keys of a score, a scoring event or an embedding: exactly one is set.\<close>

definition score_key :: "score_row \<Rightarrow> uuid option \<times> uuid option" where
  "score_key r = (r_post_id r, r_summary_id r)"

definition embedding_key :: "embedding_row \<Rightarrow> uuid option \<times> uuid option" where
  "embedding_key r = (v_post_id r, v_summary_id r)"

definition entity_keys :: "(uuid option \<times> uuid option) list \<Rightarrow> bool" where
  "entity_keys ks \<longleftrightarrow> distinct ks \<and> (\<forall>(p, m) \<in> set ks. one_key p m)"

definition refers :: "database \<Rightarrow> uuid option \<times> uuid option \<Rightarrow> bool" where
  "refers d k \<longleftrightarrow> opt_in (fst k) (post_ids d) \<and> opt_in (snd k) (summary_ids d)"

definition source_keys_ok :: "database \<Rightarrow> bool" where
  "source_keys_ok d \<longleftrightarrow> distinct (map s_id (sources d))"

definition posts_ok :: "database \<Rightarrow> bool" where
  "posts_ok d \<longleftrightarrow> distinct (map p_id (posts d)) \<and>
     distinct (map (\<lambda>p. (p_source_id p, p_external_id p)) (posts d)) \<and>
     (\<forall>p \<in> set (posts d). p_source_id p \<in> source_ids d)"

definition summaries_ok :: "database \<Rightarrow> bool" where
  "summaries_ok d \<longleftrightarrow> distinct (map m_id (summaries d)) \<and>
     (\<forall>m \<in> set (summaries d). m_source_id m \<in> source_ids d \<and> opt_in (m_post_id m) (post_ids d))"

definition summary_events_ok :: "database \<Rightarrow> bool" where
  "summary_events_ok d \<longleftrightarrow> summary_events_unique d \<and>
     (\<forall>e \<in> set (summary_events d). e_source_id e \<in> source_ids d \<and> opt_in (e_summary_id e) (summary_ids d))"

definition score_events_ok :: "database \<Rightarrow> bool" where
  "score_events_ok d \<longleftrightarrow> score_events_unique d \<and>
     (\<forall>e \<in> set (score_events d). refers d (c_post_id e, c_summary_id e))"

definition interests_ok :: "database \<Rightarrow> bool" where
  "interests_ok d \<longleftrightarrow> distinct (map i_id (interests d))"

definition scores_ok :: "database \<Rightarrow> bool" where
  "scores_ok d \<longleftrightarrow> distinct (map r_id (scores d)) \<and> entity_keys (map score_key (scores d)) \<and>
     (\<forall>r \<in> set (scores d). refers d (score_key r))"

definition embeddings_ok :: "database \<Rightarrow> bool" where
  "embeddings_ok d \<longleftrightarrow> distinct (map v_id (post_embeddings d)) \<and>
     entity_keys (map embedding_key (post_embeddings d)) \<and>
     (\<forall>r \<in> set (post_embeddings d). refers d (embedding_key r))"

definition reactions_ok :: "database \<Rightarrow> bool" where
  "reactions_ok d \<longleftrightarrow> distinct (map x_id (post_reactions d)) \<and> distinct (map x_post_id (post_reactions d)) \<and>
     (\<forall>x \<in> set (post_reactions d). x_post_id x \<in> post_ids d \<and> x_signal x \<in> {''like'', ''dislike''})"

definition schema_ok :: "database \<Rightarrow> bool" where
  "schema_ok d \<longleftrightarrow> source_keys_ok d \<and> posts_ok d \<and> summaries_ok d \<and> summary_events_ok d \<and>
     score_events_ok d \<and> interests_ok d \<and> scores_ok d \<and> embeddings_ok d \<and> reactions_ok d"

lemmas tables_ok_defs = source_keys_ok_def posts_ok_def summaries_ok_def summary_events_ok_def
  score_events_ok_def interests_ok_def scores_ok_def embeddings_ok_def reactions_ok_def

lemmas ids_defs = source_ids_def post_ids_def summary_ids_def

lemma schema_ok_empty: "schema_ok empty_db"
  by (simp add: schema_ok_def tables_ok_defs empty_db_def summary_events_unique_def score_events_unique_def
      entity_keys_def)

lemma schema_okD:
  assumes "schema_ok d"
  shows "distinct (map s_id (sources d))" "distinct (map p_id (posts d))" "posts_have_sources d"
    "summary_events_unique d" "score_events_unique d"
  using assms by (auto simp: schema_ok_def tables_ok_defs posts_have_sources_def)

text \<open>The tables that a statement leaves alone keep their constraints when no key disappears.\<close>

lemma summary_events_unique_cong:
  "summary_events d' = summary_events d \<Longrightarrow> summary_events_unique d' = summary_events_unique d"
  by (simp add: summary_events_unique_def)

lemma score_events_unique_cong:
  "score_events d' = score_events d \<Longrightarrow> score_events_unique d' = score_events_unique d"
  by (simp add: score_events_unique_def)

lemma opt_in_mono: "opt_in x A \<Longrightarrow> A \<subseteq> B \<Longrightarrow> opt_in x B"
  by (auto simp: opt_in_def split: option.splits)

lemma refers_mono: "refers d k \<Longrightarrow> post_ids d \<subseteq> post_ids d' \<Longrightarrow> summary_ids d \<subseteq> summary_ids d' \<Longrightarrow> refers d' k"
  by (auto simp: refers_def intro: opt_in_mono)

lemma tables_ok_mono:
  assumes s: "source_ids d \<subseteq> source_ids d'" and p: "post_ids d \<subseteq> post_ids d'" and m: "summary_ids d \<subseteq> summary_ids d'"
  shows "sources d' = sources d \<Longrightarrow> source_keys_ok d \<Longrightarrow> source_keys_ok d'"
    "posts d' = posts d \<Longrightarrow> posts_ok d \<Longrightarrow> posts_ok d'"
    "summaries d' = summaries d \<Longrightarrow> summaries_ok d \<Longrightarrow> summaries_ok d'"
    "summary_events d' = summary_events d \<Longrightarrow> summary_events_ok d \<Longrightarrow> summary_events_ok d'"
    "score_events d' = score_events d \<Longrightarrow> score_events_ok d \<Longrightarrow> score_events_ok d'"
    "interests d' = interests d \<Longrightarrow> interests_ok d \<Longrightarrow> interests_ok d'"
    "scores d' = scores d \<Longrightarrow> scores_ok d \<Longrightarrow> scores_ok d'"
    "post_embeddings d' = post_embeddings d \<Longrightarrow> embeddings_ok d \<Longrightarrow> embeddings_ok d'"
    "post_reactions d' = post_reactions d \<Longrightarrow> reactions_ok d \<Longrightarrow> reactions_ok d'"
  using s p m
  by (auto simp: tables_ok_defs cong: summary_events_unique_cong score_events_unique_cong
      intro: opt_in_mono refers_mono)

section \<open>Statements on sources, posts, summaries, interests and reactions\<close>

text \<open>
  A statement that keeps every row of a table under its key, or adds rows: what remains to be
  shown is the constraint of the table it changes.
\<close>

lemma schema_step:
  assumes "schema_ok d" and "source_ids d \<subseteq> source_ids d'" "post_ids d \<subseteq> post_ids d'" "summary_ids d \<subseteq> summary_ids d'"
    and "sources d' = sources d \<or> source_keys_ok d'" "posts d' = posts d \<or> posts_ok d'"
    "summaries d' = summaries d \<or> summaries_ok d'" "summary_events d' = summary_events d \<or> summary_events_ok d'"
    "score_events d' = score_events d \<or> score_events_ok d'" "interests d' = interests d \<or> interests_ok d'"
    "scores d' = scores d \<or> scores_ok d'" "post_embeddings d' = post_embeddings d \<or> embeddings_ok d'"
    "post_reactions d' = post_reactions d \<or> reactions_ok d'"
  shows "schema_ok d'"
proof -
  note mono = tables_ok_mono [OF assms(2-4)]
  from assms(1) have d: "source_keys_ok d" "posts_ok d" "summaries_ok d" "summary_events_ok d" "score_events_ok d"
    "interests_ok d" "scores_ok d" "embeddings_ok d" "reactions_ok d" by (simp_all add: schema_ok_def)
  show ?thesis
    unfolding schema_ok_def
  proof (intro conjI)
    show "source_keys_ok d'" using assms(5) mono(1) d(1) by blast
    show "posts_ok d'" using assms(6) mono(2) d(2) by blast
    show "summaries_ok d'" using assms(7) mono(3) d(3) by blast
    show "summary_events_ok d'" using assms(8) mono(4) d(4) by blast
    show "score_events_ok d'" using assms(9) mono(5) d(5) by blast
    show "interests_ok d'" using assms(10) mono(6) d(6) by blast
    show "scores_ok d'" using assms(11) mono(7) d(7) by blast
    show "embeddings_ok d'" using assms(12) mono(8) d(8) by blast
    show "reactions_ok d'" using assms(13) mono(9) d(9) by blast
  qed
qed

text \<open>Rows rewritten under their keys.\<close>

lemma update_where_cong: "(\<And>x. x \<in> set xs \<Longrightarrow> P x = Q x) \<Longrightarrow> update_where P f xs = update_where Q f xs"
  by (simp add: update_where_def)

lemma image_update_where: "(\<And>x. P x \<Longrightarrow> k (f x) = k x) \<Longrightarrow> k ` set (update_where P f xs) = k ` set xs"
  unfolding set_map [symmetric] by (simp add: map_update_where)

lemma insert_source_schema: "stmt_keeps schema_ok (write_stmt (insert_source r))"
proof (rule stmt_keeps_write)
  fix d d' assume d: "schema_ok d" and i: "insert_source r d = Inr d'"
  then have d': "d' = d\<lparr>sources := sources d @ [r]\<rparr>" and new: "s_id r \<notin> source_ids d"
    by (auto simp: insert_source_def split: if_splits)
  have "source_keys_ok d'" using d new by (auto simp: d' schema_ok_def source_keys_ok_def source_ids_def)
  then show "schema_ok d'" by (intro schema_step [OF d]) (auto simp: d' ids_defs)
qed

lemma update_source_schema:
  assumes "\<And>r. s_id (f r) = s_id r"
  shows "stmt_keeps schema_ok (update_source_stmt i f)"
  unfolding stmt_keeps_def
proof (intro allI impI)
  fix now d x d' assume d: "schema_ok d" and u: "update_source_stmt i f now d = Inr (x, d')"
  then have d': "d' = d \<or> d' = d\<lparr>sources := update_where (\<lambda>r. s_id r = i) f (sources d)\<rparr>"
    by (auto simp: update_source_stmt_def split: list.splits)
  then have "map s_id (sources d') = map s_id (sources d)" using assms by (auto simp: map_update_where)
  then have "source_keys_ok d'" "source_ids d' = source_ids d"
    using d by (simp_all add: schema_ok_def source_keys_ok_def source_ids_def flip: set_map)
  then show "schema_ok d'" using d' by (intro schema_step [OF d]) (auto simp: post_ids_def summary_ids_def)
qed

lemma bump_schema: "stmt_keeps schema_ok (bump_stmt i t)"
  unfolding stmt_keeps_def
proof (intro allI impI)
  fix now d x d' assume d: "schema_ok d" and u: "bump_stmt i t now d = Inr (x, d')"
  then have d': "d' = d\<lparr>sources := update_where (\<lambda>r. s_id r = i) (\<lambda>r. r\<lparr>s_next_summary_at := Some t\<rparr>) (sources d)\<rparr>"
    by (auto simp: bump_stmt_def guarded_update_def)
  then have "map s_id (sources d') = map s_id (sources d)" by (auto simp: map_update_where)
  then have "source_keys_ok d'" "source_ids d' = source_ids d"
    using d by (simp_all add: schema_ok_def source_keys_ok_def source_ids_def flip: set_map)
  then show "schema_ok d'" using d' by (intro schema_step [OF d]) (auto simp: post_ids_def summary_ids_def)
qed

lemma insert_post_schema: "stmt_keeps schema_ok (insert_post_stmt r)"
  unfolding stmt_keeps_def
proof (intro allI impI)
  fix now d x d' assume d: "schema_ok d" and i: "insert_post_stmt r now d = Inr (x, d')"
  then consider "d' = d" | "d' = d\<lparr>posts := posts d @ [r]\<rparr>" "p_id r \<notin> post_ids d" "p_source_id r \<in> source_ids d"
      "\<forall>q \<in> set (posts d). \<not> (p_source_id q = p_source_id r \<and> p_external_id q = p_external_id r)"
    by (auto simp: insert_post_stmt_def insert_post_def split: if_splits)
  then show "schema_ok d'"
  proof cases
    case 2
    then have "(p_source_id r, p_external_id r) \<notin> (\<lambda>p. (p_source_id p, p_external_id p)) ` set (posts d)" by force
    then have "posts_ok d'" using d 2(2,3) by (simp add: 2(1) schema_ok_def posts_ok_def ids_defs)
    then show ?thesis by (intro schema_step [OF d]) (auto simp: 2(1) ids_defs)
  qed (use d in simp)
qed

lemma distinct_update_where:
  assumes "distinct (map k xs)" and "distinct (map j xs)"
    and "\<And>x y. x \<in> set xs \<Longrightarrow> y \<in> set xs \<Longrightarrow> j x = i \<Longrightarrow> j y \<noteq> i \<Longrightarrow> k (f x) \<noteq> k y"
  shows "distinct (map k (update_where (\<lambda>x. j x = i) f xs))"
  using assms
proof (induction xs)
  case (Cons x xs)
  have IH: "distinct (map k (update_where (\<lambda>x. j x = i) f xs))"
    using Cons.prems by (intro Cons.IH) auto
  show ?case
  proof (cases "j x = i")
    case True
    have others: "j y \<noteq> i" if "y \<in> set xs" for y
    proof -
      have "i \<notin> j ` set xs" using Cons.prems(2) True by simp
      then show ?thesis using that by blast
    qed
    then have "update_where (\<lambda>x. j x = i) f xs = xs" by (intro update_where_none) simp
    moreover have "k (f x) \<notin> k ` set xs" using Cons.prems(3) [of x] others True by auto
    ultimately show ?thesis using True IH by simp
  next
    case False
    have "k x \<noteq> k (if j y = i then f y else y)" if "y \<in> set xs" for y
      using Cons.prems(1) Cons.prems(3) [of y x] False that by auto
    then have "k x \<notin> k ` set (update_where (\<lambda>x. j x = i) f xs)" unfolding set_update_where by blast
    then show ?thesis using False IH by simp
  qed
qed simp

lemma update_post_schema: "stmt_keeps schema_ok (update_post_stmt i p)"
  unfolding stmt_keeps_def
proof (intro allI impI)
  fix now d x d' assume d: "schema_ok d" and u: "update_post_stmt i p now d = Inr (x, d')"
  show "schema_ok d'"
  proof (cases "filter (\<lambda>r. p_id r = i) (posts d)")
    case Nil
    then show ?thesis using u d by (simp add: update_post_stmt_def)
  next
    case (Cons r rs)
    have r: "r \<in> set (posts d)" "p_id r = i"
      using arg_cong [OF Cons, of set] by auto
    have only: "y = r" if "y \<in> set (posts d)" "p_id y = i" for y
      using d that r by (auto simp: schema_ok_def posts_ok_def distinct_map inj_on_def)
    have d': "d' = d\<lparr>posts := update_where (\<lambda>r. p_id r = i) (update_post_row p) (posts d)\<rparr>"
      and free: "\<And>q. q \<in> set (posts d) \<Longrightarrow> p_id q \<noteq> i \<Longrightarrow>
        \<not> (p_source_id q = p_source_id r \<and> p_external_id q = post_ExternalID p)"
      using u Cons by (auto simp: update_post_stmt_def split: if_splits)
    have keep: "p_id (update_post_row p q) = p_id q" "p_source_id (update_post_row p q) = p_source_id q"
      "p_external_id (update_post_row p q) = post_ExternalID p" for q by (simp_all add: update_post_row_def)
    have "distinct (map (\<lambda>p. (p_source_id p, p_external_id p)) (posts d'))"
    proof -
      have "(p_source_id (update_post_row p x), p_external_id (update_post_row p x)) \<noteq> (p_source_id y, p_external_id y)"
        if "x \<in> set (posts d)" "y \<in> set (posts d)" "p_id x = i" "p_id y \<noteq> i" for x y
        using free [OF that(2,4)] only [OF that(1,3)] by (auto simp: keep)
      then have "distinct (map (\<lambda>p. (p_source_id p, p_external_id p))
          (update_where (\<lambda>r. p_id r = i) (update_post_row p) (posts d)))"
        using d by (intro distinct_update_where) (simp_all add: schema_ok_def posts_ok_def)
      then show ?thesis by (simp add: d')
    qed
    moreover have "map p_id (posts d') = map p_id (posts d)" by (simp add: d' map_update_where keep)
    moreover have "\<forall>q \<in> set (posts d'). p_source_id q \<in> source_ids d'"
      using d by (auto simp: d' schema_ok_def posts_ok_def source_ids_def set_update_where keep)
    ultimately have "posts_ok d'" using d by (auto simp: schema_ok_def posts_ok_def)
    moreover have "post_ids d' = post_ids d" by (simp add: d' post_ids_def image_update_where keep)
    ultimately show ?thesis by (intro schema_step [OF d]) (auto simp: d' source_ids_def summary_ids_def)
  qed
qed

lemma insert_summary_schema: "stmt_keeps schema_ok (write_stmt (insert_summary r))"
proof (rule stmt_keeps_write)
  fix d d' assume d: "schema_ok d" and i: "insert_summary r d = Inr d'"
  then have d': "d' = d\<lparr>summaries := summaries d @ [r]\<rparr>" and new: "m_id r \<notin> summary_ids d"
    "m_source_id r \<in> source_ids d" "opt_in (m_post_id r) (post_ids d)"
    by (auto simp: insert_summary_def split: if_splits)
  have "summaries_ok d'" using d new by (auto simp: d' schema_ok_def summaries_ok_def ids_defs)
  then show "schema_ok d'" by (intro schema_step [OF d]) (auto simp: d' ids_defs)
qed

lemma insert_interest_schema: "stmt_keeps schema_ok (write_stmt (insert_interest r))"
proof (rule stmt_keeps_write)
  fix d d' assume d: "schema_ok d" and i: "insert_interest r d = Inr d'"
  then have d': "d' = d\<lparr>interests := interests d @ [r]\<rparr>" and new: "i_id r \<notin> i_id ` set (interests d)"
    by (auto simp: insert_interest_def split: if_splits)
  have "interests_ok d'" using d new by (auto simp: d' schema_ok_def interests_ok_def)
  then show "schema_ok d'" by (intro schema_step [OF d]) (auto simp: d' ids_defs)
qed

lemma update_interest_schema:
  assumes "\<And>r. i_id (f r) = i_id r"
  shows "stmt_keeps schema_ok (update_interest_stmt i f)"
  unfolding stmt_keeps_def
proof (intro allI impI)
  fix now d x d' assume d: "schema_ok d" and u: "update_interest_stmt i f now d = Inr (x, d')"
  then have d': "d' = d \<or> d' = d\<lparr>interests := update_where (\<lambda>r. i_id r = i) f (interests d)\<rparr>"
    by (auto simp: update_interest_stmt_def split: list.splits)
  then have "map i_id (interests d') = map i_id (interests d)" using assms by (auto simp: map_update_where)
  then have "interests_ok d'" using d by (simp add: schema_ok_def interests_ok_def)
  then show "schema_ok d'" using d' by (intro schema_step [OF d]) (auto simp: ids_defs)
qed

lemma delete_interest_schema: "stmt_keeps schema_ok (delete_interest_stmt i)"
  unfolding stmt_keeps_def
proof (intro allI impI)
  fix now d x d' assume d: "schema_ok d" and u: "delete_interest_stmt i now d = Inr (x, d')"
  then have d': "d' = d\<lparr>interests := filter (\<lambda>r. i_id r \<noteq> i) (interests d)\<rparr>" by (simp add: delete_interest_stmt_def)
  have "interests_ok d'" using d by (simp add: d' schema_ok_def interests_ok_def distinct_map_filter)
  then show "schema_ok d'" by (intro schema_step [OF d]) (auto simp: d' ids_defs)
qed

lemma upsert_reaction_schema: "stmt_keeps schema_ok (\<lambda>now. write_stmt (upsert_reaction i pid signal now) now)"
  unfolding stmt_keeps_def
proof (intro allI impI)
  fix now d and x :: unit and d'
  assume d: "schema_ok d" and u: "write_stmt (upsert_reaction i pid signal now) now d = Inr (x, d')"
  let ?f = "\<lambda>x. x\<lparr>x_signal := signal, x_updated_at := now\<rparr>"
  let ?row = "\<lparr>x_id = i, x_post_id = pid, x_signal = signal, x_created_at = now, x_updated_at = now\<rparr>"
  have "upsert_reaction i pid signal now d = Inr d'" using u by (simp add: write_stmt_def split: sum.splits)
  then consider "signal \<in> {''like'', ''dislike''}"
      "d' = d\<lparr>post_reactions := update_where (\<lambda>x. x_post_id x = pid) ?f (post_reactions d)\<rparr>"
    | "signal \<in> {''like'', ''dislike''}" "pid \<in> post_ids d" "pid \<notin> x_post_id ` set (post_reactions d)"
      "i \<notin> x_id ` set (post_reactions d)" "d' = d\<lparr>post_reactions := post_reactions d @ [?row]\<rparr>"
    unfolding upsert_reaction_def by (simp split: if_split_asm)
  then show "schema_ok d'"
  proof cases
    case 1
    have "map x_id (post_reactions d') = map x_id (post_reactions d)"
      "map x_post_id (post_reactions d') = map x_post_id (post_reactions d)" by (simp_all add: 1 map_update_where)
    then have "reactions_ok d'"
      using d 1(1) by (auto simp: 1(2) schema_ok_def reactions_ok_def set_update_where post_ids_def)
    then show ?thesis by (intro schema_step [OF d]) (auto simp: 1 ids_defs)
  next
    case 2
    then have "reactions_ok d'" using d by (auto simp: schema_ok_def reactions_ok_def post_ids_def)
    then show ?thesis by (intro schema_step [OF d]) (auto simp: 2(5) ids_defs)
  qed
qed

section \<open>Statements on the outboxes\<close>

lemma insert_summary_event_schema: "stmt_keeps schema_ok (write_stmt (insert_summary_event r))"
proof (rule stmt_keeps_write)
  fix d d' assume d: "schema_ok d" and i: "insert_summary_event r d = Inr d'"
  then have d': "d' = d\<lparr>summary_events := summary_events d @ [r]\<rparr>"
    and new: "e_source_id r \<in> source_ids d" "opt_in (e_summary_id r) (summary_ids d)"
    by (auto simp: insert_summary_event_def split: if_splits)
  have "summary_events_unique d'"
    using insert_summary_event_unique [OF _ i] d by (simp add: schema_ok_def summary_events_ok_def)
  then have "summary_events_ok d'" using d new by (auto simp: d' schema_ok_def summary_events_ok_def ids_defs)
  then show "schema_ok d'" by (intro schema_step [OF d]) (auto simp: d' ids_defs)
qed

text \<open>Rewriting events: the keys that refer to sources are kept, a new summary exists.\<close>

lemma summary_events_rewritten:
  assumes d: "schema_ok d" and u: "stmt_keeps summary_events_unique s" "s now d = Inr (x, d')"
    and d': "d' = d \<or> d' = d\<lparr>summary_events := update_where P f (summary_events d)\<rparr>"
    and f: "\<And>r. P r \<Longrightarrow> e_source_id (f r) = e_source_id r"
      "\<And>r. r \<in> set (summary_events d) \<Longrightarrow> P r \<Longrightarrow> opt_in (e_summary_id r) (summary_ids d) \<Longrightarrow> opt_in (e_summary_id (f r)) (summary_ids d)"
  shows "schema_ok d'"
proof -
  have "summary_events_unique d'" using d u unfolding stmt_keeps_def schema_ok_def summary_events_ok_def by blast
  then have "summary_events_ok d'"
    using d d' f by (auto simp: schema_ok_def summary_events_ok_def set_update_where ids_defs)
  then show ?thesis using d' by (intro schema_step [OF d]) (auto simp: ids_defs)
qed

lemma claim_summary_schema: "stmt_keeps schema_ok (claim_summary_stmt locks v ttl)"
  unfolding stmt_keeps_def
proof (intro allI impI)
  fix now d x d' assume d: "schema_ok d" and u: "claim_summary_stmt locks v ttl now d = Inr (x, d')"
  from u have "\<exists>P. d' = d \<or> d' = d\<lparr>summary_events := update_where P (claim_row v ttl now) (summary_events d)\<rparr>"
    by (auto simp: claim_summary_stmt_def claim_rows_def split: option.splits)
  then obtain P where "d' = d \<or> d' = d\<lparr>summary_events := update_where P (claim_row v ttl now) (summary_events d)\<rparr>" ..
  then show "schema_ok d'"
    by (rule summary_events_rewritten [OF d claim_summary_stmt_unique u]) (simp_all add: claim_row_def)
qed

lemma update_summary_events_schema:
  assumes "\<And>now. keeps_summary_key (f now)" and "\<And>now r. e_summary_id (f now r) = e_summary_id r"
    and "\<And>now r. P now r \<Longrightarrow> l_status r = Processing"
  shows "stmt_keeps schema_ok (update_summary_events P f)"
  unfolding stmt_keeps_def
proof (intro allI impI)
  fix now d x d' assume d: "schema_ok d" and u: "update_summary_events P f now d = Inr (x, d')"
  have keep: "stmt_keeps summary_events_unique (update_summary_events P f)"
    using assms(1,3) by (rule update_summary_events_unique)
  from u have "d' = d \<or> d' = d\<lparr>summary_events := update_where (P now) (f now) (summary_events d)\<rparr>"
    by (auto simp: update_summary_events_def guarded_update_def)
  then show "schema_ok d'"
    by (rule summary_events_rewritten [OF d keep u])
      (use assms in \<open>auto simp: keeps_summary_key_def\<close>)
qed

lemma finalize_summary_schema: "stmt_keeps schema_ok (finalize_summary_stmt eid v st m x)"
  unfolding stmt_keeps_def
proof (intro allI impI)
  fix now d y d' assume d: "schema_ok d" and u: "finalize_summary_stmt eid v st m x now d = Inr (y, d')"
  let ?P = "owns_lease eid v now :: summary_event_row \<Rightarrow> bool" and ?f = "finalize_summary_row st m x now"
  have "d' = d \<or> d' = d\<lparr>summary_events := update_where ?P ?f (summary_events d)\<rparr>"
    using u by (auto simp: finalize_summary_stmt_def update_summary_events_def guarded_update_def split: if_splits)
  then show "schema_ok d'"
  proof (rule summary_events_rewritten [OF d finalize_summary_stmt_unique u])
    show "e_source_id (?f r) = e_source_id r" for r
      by (simp add: finalize_summary_row_def finalize_row_def)
    show "opt_in (e_summary_id (?f r)) (summary_ids d)"
      if "r \<in> set (summary_events d)" "?P r" "opt_in (e_summary_id r) (summary_ids d)" for r
      using that u by (auto simp: finalize_summary_row_def finalize_summary_stmt_def opt_in_def split: if_splits option.splits)
  qed
qed

text \<open>The unguarded update of a status checks the new row against the others.\<close>

lemma sorted_wrt_one_rewritten:
  assumes "sorted_wrt (\<lambda>a b. \<not> c a b) xs" and "distinct (map k xs)" and "r \<in> set xs" "k r = i"
    and sym: "\<And>a b. c a b = c b a" and "\<And>q. q \<in> set xs \<Longrightarrow> k q \<noteq> i \<Longrightarrow> \<not> c (f r) q"
  shows "sorted_wrt (\<lambda>a b. \<not> c a b) (update_where (\<lambda>x. k x = i) f xs)"
  unfolding sorted_wrt_iff_nth_less length_update_where
proof (intro allI impI)
  fix m n assume mn: "m < n" "n < length xs"
  then have mem: "xs ! m \<in> set xs" "xs ! n \<in> set xs" by simp_all
  have key: "k (xs ! m) \<noteq> k (xs ! n)"
    using nth_eq_iff_index_eq [OF assms(2), of m n] mn by simp
  have only: "q = r" if "q \<in> set xs" "k q = i" for q
    using assms(2-4) that by (auto simp: distinct_map inj_on_def)
  have old: "\<not> c (xs ! m) (xs ! n)" using assms(1) mn by (simp add: sorted_wrt_iff_nth_less)
  have "update_where (\<lambda>x. k x = i) f xs ! j = (if k (xs ! j) = i then f (xs ! j) else xs ! j)" if "j < length xs" for j
    using that by (simp add: update_where_def)
  then have row: "update_where (\<lambda>x. k x = i) f xs ! m = (if k (xs ! m) = i then f (xs ! m) else xs ! m)"
    "update_where (\<lambda>x. k x = i) f xs ! n = (if k (xs ! n) = i then f (xs ! n) else xs ! n)" using mn by simp_all
  show "\<not> c (update_where (\<lambda>x. k x = i) f xs ! m) (update_where (\<lambda>x. k x = i) f xs ! n)"
  proof (cases "k (xs ! m) = i")
    case True
    then show ?thesis using key assms(6) [OF mem(2)] only [OF mem(1)] by (simp add: row)
  next
    case False
    then show ?thesis using old assms(6) [OF mem(1)] only [OF mem(2)] sym by (auto simp: row)
  qed
qed

lemma update_status_schema: "stmt_keeps schema_ok (update_status_stmt i st m x t)"
  unfolding stmt_keeps_def
proof (intro allI impI)
  fix now d y d' assume d: "schema_ok d" and u: "update_status_stmt i st m x t now d = Inr (y, d')"
  let ?f = "update_status_row st m x t"
  show "schema_ok d'"
  proof (cases "filter (\<lambda>r. l_id r = i) (summary_events d)")
    case Nil
    then show ?thesis using u d by (simp add: update_status_stmt_def)
  next
    case (Cons r rs)
    have r: "r \<in> set (summary_events d)" "l_id r = i" using arg_cong [OF Cons, of set] by auto
    have d': "d' = d\<lparr>summary_events := update_where (\<lambda>r. l_id r = i) ?f (summary_events d)\<rparr>"
      and free: "\<And>q. q \<in> set (summary_events d) \<Longrightarrow> l_id q \<noteq> i \<Longrightarrow> \<not> summary_event_conflict (?f r) q"
      and m: "opt_in m (summary_ids d)"
      using u Cons by (auto simp: update_status_stmt_def Let_def split: if_splits)
    have f: "l_id (?f q) = l_id q" "e_source_id (?f q) = e_source_id q"
      "e_summary_id (?f q) = (case m of Some z \<Rightarrow> Some z | None \<Rightarrow> e_summary_id q)" for q
      by (simp_all add: update_status_row_def Let_def split: option.split)
    have ev: "summary_events_ok d" using d by (simp add: schema_ok_def)
    then have "sorted_wrt (\<lambda>a b. \<not> summary_event_conflict a b) (summary_events d')" unfolding d'
      using r free summary_event_conflict_sym
      by (auto simp: summary_events_ok_def summary_events_unique_def intro!: sorted_wrt_one_rewritten)
    moreover have "map l_id (summary_events d') = map l_id (summary_events d)" by (simp add: d' map_update_where f)
    ultimately have "summary_events_unique d'"
      using ev by (simp add: summary_events_ok_def summary_events_unique_def)
    then have "summary_events_ok d'"
      using ev m by (auto simp: d' summary_events_ok_def set_update_where ids_defs f split: option.split)
    then show ?thesis by (intro schema_step [OF d]) (auto simp: d' ids_defs)
  qed
qed

section \<open>Statements on the scoring events, the scores and the embeddings\<close>

lemma insert_score_event_schema:
  assumes "\<And>now d. s now d = insert_score_event (f now) d"
  shows "stmt_keeps schema_ok s"
  unfolding stmt_keeps_def
proof (intro allI impI)
  fix now d x d' assume d: "schema_ok d" and i: "s now d = Inr (x, d')"
  let ?r = "f now"
  have i: "insert_score_event ?r d = Inr (x, d')" using i by (simp add: assms)
  then consider "d' = d" | "d' = d\<lparr>score_events := score_events d @ [?r]\<rparr>"
      "opt_in (c_post_id ?r) (post_ids d)" "opt_in (c_summary_id ?r) (summary_ids d)"
    unfolding insert_score_event_def by (simp split: if_split_asm)
  then show "schema_ok d'"
  proof cases
    case 2
    have "score_events_unique d'"
      using insert_score_event_unique [OF _ i] d by (simp add: schema_ok_def score_events_ok_def)
    then have "score_events_ok d'"
      using d 2(2,3) by (auto simp: 2(1) schema_ok_def score_events_ok_def refers_def ids_defs)
    then show ?thesis by (intro schema_step [OF d]) (auto simp: 2(1) ids_defs)
  qed (use d in simp)
qed

lemma score_events_rewritten:
  assumes d: "schema_ok d" and f: "keeps_score_key f"
    and d': "d' = d\<lparr>score_events := update_where P f (score_events d)\<rparr>"
    and P: "\<And>r. P r \<Longrightarrow> active_status (l_status r)"
  shows "schema_ok d'"
proof -
  have "score_events_unique d'"
    unfolding d' using d f P by (intro score_events_unique_update) (auto simp: schema_ok_def score_events_ok_def)
  then have "score_events_ok d'"
    using d f by (auto simp: d' schema_ok_def score_events_ok_def set_update_where refers_def ids_defs keeps_score_key_def)
  then show ?thesis by (intro schema_step [OF d]) (auto simp: d' ids_defs)
qed

lemma update_score_events_schema:
  assumes "\<And>now. keeps_score_key (f now)" and "\<And>now r. P now r \<Longrightarrow> l_status r = Processing"
  shows "stmt_keeps schema_ok (update_score_events P f)"
  unfolding stmt_keeps_def
proof (intro allI impI)
  fix now d x d' assume d: "schema_ok d" and u: "update_score_events P f now d = Inr (x, d')"
  then have "d' = d\<lparr>score_events := update_where (P now) (f now) (score_events d)\<rparr>"
    by (auto simp: update_score_events_def guarded_update_def)
  then show "schema_ok d'"
    by (rule score_events_rewritten [OF d assms(1)]) (simp add: assms(2) active_status_def)
qed

lemma claim_score_schema: "stmt_keeps schema_ok (claim_score_stmt locks v ttl)"
  unfolding stmt_keeps_def
proof (intro allI impI)
  fix now d x d' assume d: "schema_ok d" and u: "claim_score_stmt locks v ttl now d = Inr (x, d')"
  show "schema_ok d'"
  proof (cases "first_min claim_key (filter (\<lambda>r. claimable now r \<and> l_id r \<notin> set locks) (score_events d))")
    case None
    then show ?thesis using u d by (simp add: claim_score_stmt_def claim_rows_def)
  next
    case (Some r)
    then have r: "r \<in> set (score_events d)" "claimable now r" using first_min_in by fastforce+
    have "d' = d\<lparr>score_events := update_where (\<lambda>q. l_id q = l_id r) (claim_row v ttl now) (score_events d)\<rparr>"
      using Some u by (auto simp: claim_score_stmt_def claim_rows_def)
    moreover have "update_where (\<lambda>q. l_id q = l_id r) (claim_row v ttl now) (score_events d) =
        update_where (\<lambda>q. q = r) (claim_row v ttl now) (score_events d)"
    proof (rule update_where_cong)
      fix q assume "q \<in> set (score_events d)"
      then show "(l_id q = l_id r) = (q = r)"
        using d r(1) by (auto simp: schema_ok_def score_events_ok_def score_events_unique_def distinct_map inj_on_def)
    qed
    ultimately show ?thesis
      using r(2) by (intro score_events_rewritten [OF d, where f = "claim_row v ttl now" and P = "\<lambda>q. q = r"])
        (auto simp: claimable_def active_status_def split: option.splits)
  qed
qed

text \<open>An upsert finds the one row of its entity.\<close>

lemma same_entity_key:
  "one_key p m \<Longrightarrow> one_key p' m' \<Longrightarrow> same_entity p m p' m' \<longleftrightarrow> (p', m') = (p, m)"
  by (auto simp: same_entity_def one_key_def)

lemma entity_keys_new:
  assumes "entity_keys (map k rows)" and "one_key p m" and "k row = (p, m)"
    and "filter (\<lambda>r. same_entity p m (fst (k r)) (snd (k r))) rows = []"
  shows "entity_keys (map k (rows @ [row]))"
proof -
  have "(p, m) \<notin> k ` set rows"
  proof
    assume "(p, m) \<in> k ` set rows"
    then obtain r where "r \<in> set rows" "k r = (p, m)" by auto
    then have "r \<in> set (filter (\<lambda>r. same_entity p m (fst (k r)) (snd (k r))) rows)"
      using assms(2) by (auto simp: same_entity_def one_key_def)
    then show False using assms(4) by simp
  qed
  then show ?thesis using assms(1-3) by (auto simp: entity_keys_def)
qed

lemma upsert_score_schema:
  assumes key: "one_key p m" shows "stmt_keeps schema_ok (upsert_score_stmt i p m v model)"
  unfolding stmt_keeps_def
proof (intro allI impI)
  fix now d x d' assume d: "schema_ok d" and u: "upsert_score_stmt i p m v model now d = Inr (x, d')"
  let ?f = "\<lambda>r. r\<lparr>r_value := v, r_model := model, r_updated_at := now\<rparr>"
  let ?row = "\<lparr>r_id = i, r_post_id = p, r_summary_id = m, r_value = v, r_model = model,
    r_created_at = now, r_updated_at = now\<rparr>"
  have sc: "scores_ok d" using d by (simp add: schema_ok_def)
  show "schema_ok d'"
  proof (cases "filter (score_for p m) (scores d)")
    case Nil
    then have d': "d' = d\<lparr>scores := scores d @ [?row]\<rparr>" "i \<notin> r_id ` set (scores d)" "refers d (p, m)"
      using u unfolding upsert_score_stmt_def by (auto simp: refers_def Let_def split: if_split_asm)
    have "entity_keys (map score_key (scores d @ [?row]))"
      using sc key Nil by (intro entity_keys_new) (simp_all add: scores_ok_def score_key_def score_for_def [abs_def])
    then have "scores_ok d'"
      using sc d'(2,3) by (auto simp: d'(1) scores_ok_def score_key_def refers_def ids_defs)
    then show ?thesis by (intro schema_step [OF d]) (auto simp: d'(1) ids_defs)
  next
    case (Cons r rs)
    then have d': "d' = d\<lparr>scores := update_where (score_for p m) ?f (scores d)\<rparr>"
      using u by (simp add: upsert_score_stmt_def)
    have "map r_id (scores d') = map r_id (scores d)" "map score_key (scores d') = map score_key (scores d)"
      by (simp_all add: d' map_update_where score_key_def)
    then have "scores_ok d'"
      using sc by (auto simp: d' scores_ok_def set_update_where refers_def ids_defs score_key_def)
    then show ?thesis by (intro schema_step [OF d]) (auto simp: d' ids_defs)
  qed
qed

lemma upsert_embedding_schema:
  assumes key: "one_key p m" shows "stmt_keeps schema_ok (upsert_embedding_stmt i p m v model h)"
  unfolding stmt_keeps_def
proof (intro allI impI)
  fix now d x d' assume d: "schema_ok d" and u: "upsert_embedding_stmt i p m v model h now d = Inr (x, d')"
  let ?f = "\<lambda>r. r\<lparr>v_vector := v, v_model := model, v_input_hash := h, v_updated_at := now\<rparr>"
  let ?row = "\<lparr>v_id = i, v_post_id = p, v_summary_id = m, v_vector = v, v_model = model, v_input_hash = h,
    v_created_at = now, v_updated_at = now\<rparr>"
  have em: "embeddings_ok d" using d by (simp add: schema_ok_def)
  show "schema_ok d'"
  proof (cases "filter (embedding_for p m) (post_embeddings d)")
    case Nil
    then have d': "d' = d\<lparr>post_embeddings := post_embeddings d @ [?row]\<rparr>" "i \<notin> v_id ` set (post_embeddings d)" "refers d (p, m)"
      using u unfolding upsert_embedding_stmt_def by (auto simp: refers_def Let_def split: if_split_asm)
    have "entity_keys (map embedding_key (post_embeddings d @ [?row]))"
      using em key Nil
      by (intro entity_keys_new) (simp_all add: embeddings_ok_def embedding_key_def embedding_for_def [abs_def])
    then have "embeddings_ok d'"
      using em d'(2,3) by (auto simp: d'(1) embeddings_ok_def embedding_key_def refers_def ids_defs)
    then show ?thesis by (intro schema_step [OF d]) (auto simp: d'(1) ids_defs)
  next
    case (Cons r rs)
    then have d': "d' = d\<lparr>post_embeddings := update_where (embedding_for p m) ?f (post_embeddings d)\<rparr>"
      using u by (simp add: upsert_embedding_stmt_def)
    have "map v_id (post_embeddings d') = map v_id (post_embeddings d)"
      "map embedding_key (post_embeddings d') = map embedding_key (post_embeddings d)"
      by (simp_all add: d' map_update_where embedding_key_def)
    then have "embeddings_ok d'"
      using em by (auto simp: d' embeddings_ok_def set_update_where refers_def ids_defs embedding_key_def)
    then show ?thesis by (intro schema_step [OF d]) (auto simp: d' ids_defs)
  qed
qed

section \<open>Deletes\<close>

lemma summary_events_unique_filter:
  "summary_events_unique d \<Longrightarrow> summary_events d' = filter P (summary_events d) \<Longrightarrow> summary_events_unique d'"
  by (simp add: summary_events_unique_def distinct_map_filter sorted_wrt_filter)

lemma score_events_unique_filter:
  "score_events_unique d \<Longrightarrow> score_events d' = filter P (score_events d) \<Longrightarrow> score_events_unique d'"
  by (simp add: score_events_unique_def distinct_map_filter sorted_wrt_filter)

lemma entity_keys_filter: "entity_keys (map k rows) \<Longrightarrow> entity_keys (map k (filter P rows))"
  by (auto simp: entity_keys_def distinct_map_filter)

text \<open>
  A database whose tables are parts of those of another keeps the constraints when its rows
  refer to rows that are still there.
\<close>

lemma schema_part:
  assumes d: "schema_ok d"
    and parts: "sources d' = filter keep_s (sources d)" "posts d' = filter keep_p (posts d)"
      "summaries d' = filter keep_m (summaries d)" "summary_events d' = filter keep_e (summary_events d)"
      "score_events d' = filter keep_c (score_events d)" "interests d' = interests d"
      "scores d' = filter keep_r (scores d)" "post_embeddings d' = filter keep_v (post_embeddings d)"
      "post_reactions d' = filter keep_x (post_reactions d)"
    and refs: "\<And>p. p \<in> set (posts d') \<Longrightarrow> p_source_id p \<in> source_ids d'"
      "\<And>m. m \<in> set (summaries d') \<Longrightarrow> m_source_id m \<in> source_ids d' \<and> opt_in (m_post_id m) (post_ids d')"
      "\<And>e. e \<in> set (summary_events d') \<Longrightarrow> e_source_id e \<in> source_ids d' \<and> opt_in (e_summary_id e) (summary_ids d')"
      "\<And>e. e \<in> set (score_events d') \<Longrightarrow> refers d' (c_post_id e, c_summary_id e)"
      "\<And>r. r \<in> set (scores d') \<Longrightarrow> refers d' (score_key r)"
      "\<And>r. r \<in> set (post_embeddings d') \<Longrightarrow> refers d' (embedding_key r)"
      "\<And>x. x \<in> set (post_reactions d') \<Longrightarrow> x_post_id x \<in> post_ids d'"
  shows "schema_ok d'"
proof -
  have "source_keys_ok d'" using d by (simp add: parts schema_ok_def source_keys_ok_def distinct_map_filter)
  moreover have "posts_ok d'" using d refs(1) by (simp add: parts schema_ok_def posts_ok_def distinct_map_filter)
  moreover have "summaries_ok d'" using d refs(2) by (simp add: parts schema_ok_def summaries_ok_def distinct_map_filter)
  moreover have "summary_events_ok d'"
    using d refs(3) summary_events_unique_filter [OF _ parts(4)] by (simp add: schema_ok_def summary_events_ok_def)
  moreover have "score_events_ok d'"
    using d refs(4) score_events_unique_filter [OF _ parts(5)] by (simp add: schema_ok_def score_events_ok_def)
  moreover have "interests_ok d'" using d by (simp add: parts schema_ok_def interests_ok_def)
  moreover have "scores_ok d'"
    using d refs(5) by (simp add: parts schema_ok_def scores_ok_def distinct_map_filter entity_keys_filter)
  moreover have "embeddings_ok d'"
    using d refs(6) by (simp add: parts schema_ok_def embeddings_ok_def distinct_map_filter entity_keys_filter)
  moreover have "reactions_ok d'"
    using d refs(7) by (simp add: parts schema_ok_def reactions_ok_def distinct_map_filter)
  ultimately show ?thesis by (simp add: schema_ok_def)
qed

text \<open>Dropping summaries from a part of a database in which only the dropped ones may dangle.\<close>

lemma drop_summaries_Inr:
  assumes "drop_summaries P d = Inr d'"
  defines "kept \<equiv> \<lambda>k. \<forall>a. k = Some a \<longrightarrow> a \<notin> m_id ` set (filter P (summaries d))"
  shows "d' = d\<lparr>summaries := filter (\<lambda>m. \<not> P m) (summaries d), scores := filter (\<lambda>r. kept (r_summary_id r)) (scores d),
      score_events := filter (\<lambda>r. kept (c_summary_id r)) (score_events d),
      post_embeddings := filter (\<lambda>r. kept (v_summary_id r)) (post_embeddings d)\<rparr>"
    "\<And>e. e \<in> set (summary_events d) \<Longrightarrow> kept (e_summary_id e)"
proof -
  have k: "kept = (\<lambda>k. case k of None \<Rightarrow> True | Some m \<Rightarrow> m \<notin> m_id ` set (filter P (summaries d)))"
    by (auto simp: kept_def fun_eq_iff split: option.split)
  show "d' = d\<lparr>summaries := filter (\<lambda>m. \<not> P m) (summaries d), scores := filter (\<lambda>r. kept (r_summary_id r)) (scores d),
      score_events := filter (\<lambda>r. kept (c_summary_id r)) (score_events d),
      post_embeddings := filter (\<lambda>r. kept (v_summary_id r)) (post_embeddings d)\<rparr>"
    "\<And>e. e \<in> set (summary_events d) \<Longrightarrow> kept (e_summary_id e)"
    using assms(1) unfolding k drop_summaries_def Let_def by (simp_all split: if_split_asm)
qed

text \<open>A reference that survives the dropping of summaries names one that stays.\<close>

lemma opt_in_kept:
  assumes "opt_in k (m_id ` set ms)" and "\<forall>a. k = Some a \<longrightarrow> a \<notin> m_id ` set (filter P ms)"
  shows "opt_in k (m_id ` set (filter (\<lambda>m. \<not> P m) ms))"
  using assms by (cases k) (auto simp: opt_in_def)

lemma drop_summaries_schema:
  assumes d: "schema_ok d" and drop: "drop_summaries P d1 = Inr d'"
    and parts: "sources d1 = filter keep_s (sources d)" "posts d1 = filter keep_p (posts d)"
      "summaries d1 = summaries d" "summary_events d1 = filter keep_e (summary_events d)"
      "score_events d1 = filter keep_c (score_events d)" "interests d1 = interests d"
      "scores d1 = filter keep_r (scores d)" "post_embeddings d1 = filter keep_v (post_embeddings d)"
      "post_reactions d1 = filter keep_x (post_reactions d)"
    and refs: "\<And>p. p \<in> set (posts d1) \<Longrightarrow> p_source_id p \<in> source_ids d1"
      "\<And>m. m \<in> set (summaries d) \<Longrightarrow> \<not> P m \<Longrightarrow> m_source_id m \<in> source_ids d1 \<and> opt_in (m_post_id m) (post_ids d1)"
      "\<And>e. e \<in> set (summary_events d1) \<Longrightarrow> e_source_id e \<in> source_ids d1"
      "\<And>e. e \<in> set (score_events d1) \<Longrightarrow> opt_in (c_post_id e) (post_ids d1)"
      "\<And>r. r \<in> set (scores d1) \<Longrightarrow> opt_in (r_post_id r) (post_ids d1)"
      "\<And>r. r \<in> set (post_embeddings d1) \<Longrightarrow> opt_in (v_post_id r) (post_ids d1)"
      "\<And>x. x \<in> set (post_reactions d1) \<Longrightarrow> x_post_id x \<in> post_ids d1"
  shows "schema_ok d'"
proof -
  define kept where "kept k \<longleftrightarrow> (\<forall>a. k = Some a \<longrightarrow> a \<notin> m_id ` set (filter P (summaries d)))" for k
  note D = drop_summaries_Inr [OF drop, unfolded parts(3), folded kept_def]
  have ids: "source_ids d' = source_ids d1" "post_ids d' = post_ids d1"
    "summary_ids d' = m_id ` set (filter (\<lambda>m. \<not> P m) (summaries d))" by (simp_all add: D(1) ids_defs)
  have stays: "opt_in k (summary_ids d')" if "opt_in k (summary_ids d)" "kept k" for k
    unfolding ids(3) using that by (intro opt_in_kept) (simp_all add: kept_def summary_ids_def)
  have "scores d' = filter (\<lambda>r. keep_r r \<and> kept (r_summary_id r)) (scores d)"
    "score_events d' = filter (\<lambda>r. keep_c r \<and> kept (c_summary_id r)) (score_events d)"
    "post_embeddings d' = filter (\<lambda>r. keep_v r \<and> kept (v_summary_id r)) (post_embeddings d)"
    "sources d' = filter keep_s (sources d)" "posts d' = filter keep_p (posts d)"
    "summaries d' = filter (\<lambda>m. \<not> P m) (summaries d)" "summary_events d' = filter keep_e (summary_events d)"
    "interests d' = interests d" "post_reactions d' = filter keep_x (post_reactions d)"
    by (simp_all add: D(1) parts conj_commute)
  note tables = this
  show ?thesis
  proof (rule schema_part [OF d tables(4-7,2,8,1,3,9)])
    show "p_source_id p \<in> source_ids d'" if "p \<in> set (posts d')" for p
      using that refs(1) by (simp add: ids tables parts)
    show "m_source_id m \<in> source_ids d' \<and> opt_in (m_post_id m) (post_ids d')" if "m \<in> set (summaries d')" for m
      using that refs(2) by (simp add: ids(1,2) tables)
    show "e_source_id e \<in> source_ids d' \<and> opt_in (e_summary_id e) (summary_ids d')" if "e \<in> set (summary_events d')" for e
      using that refs(3) [of e] D(2) [of e] d stays by (simp add: ids(1) tables parts schema_ok_def summary_events_ok_def)
    show "refers d' (c_post_id e, c_summary_id e)" if "e \<in> set (score_events d')" for e
      using that refs(4) [of e] d stays by (simp add: ids(2) tables parts refers_def schema_ok_def score_events_ok_def)
    show "refers d' (score_key r)" if "r \<in> set (scores d')" for r
      using that refs(5) [of r] d stays by (simp add: ids(2) tables parts refers_def score_key_def schema_ok_def scores_ok_def)
    show "refers d' (embedding_key r)" if "r \<in> set (post_embeddings d')" for r
      using that refs(6) [of r] d stays by (simp add: ids(2) tables parts refers_def embedding_key_def schema_ok_def embeddings_ok_def)
    show "x_post_id x \<in> post_ids d'" if "x \<in> set (post_reactions d')" for x
      using that refs(7) by (simp add: ids tables parts)
  qed
qed

lemma opt_in_filter:
  "opt_in x (k ` set xs) \<Longrightarrow> x \<noteq> Some i \<Longrightarrow> opt_in x (k ` set (filter (\<lambda>y. k y \<noteq> i) xs))"
  by (cases x) (auto simp: opt_in_def)

lemma delete_post_schema: "stmt_keeps schema_ok (delete_post_stmt i)"
  unfolding stmt_keeps_def
proof (intro allI impI)
  fix now d x d' assume d: "schema_ok d" and u: "delete_post_stmt i now d = Inr (x, d')"
  show "schema_ok d'"
  proof (cases "i \<in> post_ids d")
    case True
    let ?d1 = "d\<lparr>posts := filter (\<lambda>p. p_id p \<noteq> i) (posts d),
          scores := filter (\<lambda>r. r_post_id r \<noteq> Some i) (scores d),
          score_events := filter (\<lambda>r. c_post_id r \<noteq> Some i) (score_events d),
          post_embeddings := filter (\<lambda>r. v_post_id r \<noteq> Some i) (post_embeddings d),
          post_reactions := filter (\<lambda>r. x_post_id r \<noteq> i) (post_reactions d)\<rparr>"
    have drop: "drop_summaries (\<lambda>m. m_post_id m = Some i) ?d1 = Inr d'"
      using u True by (simp add: delete_post_stmt_def delete_post_def split: sum.splits)
    have t: "posts_ok d" "summaries_ok d" "summary_events_ok d" "score_events_ok d" "scores_ok d"
      "embeddings_ok d" "reactions_ok d" using d by (simp_all add: schema_ok_def)
    note opt = opt_in_filter [where k = p_id and xs = "posts d" and i = i, folded post_ids_def]
    have ids: "source_ids ?d1 = source_ids d" "post_ids ?d1 = p_id ` set (filter (\<lambda>p. p_id p \<noteq> i) (posts d))"
      by (simp_all add: ids_defs)
    show ?thesis
    proof (rule drop_summaries_schema [OF d drop, where keep_s = "\<lambda>_. True" and keep_e = "\<lambda>_. True"])
      show "p_source_id p \<in> source_ids ?d1" if "p \<in> set (posts ?d1)" for p
        using that t(1) by (simp add: ids posts_ok_def)
      show "m_source_id m \<in> source_ids ?d1 \<and> opt_in (m_post_id m) (post_ids ?d1)"
        if "m \<in> set (summaries d)" "\<not> m_post_id m = Some i" for m
        using that t(2) opt by (simp add: ids summaries_ok_def)
      show "e_source_id e \<in> source_ids ?d1" if "e \<in> set (summary_events ?d1)" for e
        using that t(3) by (simp add: ids summary_events_ok_def)
      show "opt_in (c_post_id e) (post_ids ?d1)" if "e \<in> set (score_events ?d1)" for e
        using that t(4) opt by (simp add: ids score_events_ok_def refers_def)
      show "opt_in (r_post_id r) (post_ids ?d1)" if "r \<in> set (scores ?d1)" for r
        using that t(5) opt by (simp add: ids scores_ok_def refers_def score_key_def)
      show "opt_in (v_post_id r) (post_ids ?d1)" if "r \<in> set (post_embeddings ?d1)" for r
        using that t(6) opt by (simp add: ids embeddings_ok_def refers_def embedding_key_def)
      show "x_post_id x \<in> post_ids ?d1" if "x \<in> set (post_reactions ?d1)" for x
        using that t(7) by (auto simp: ids reactions_ok_def post_ids_def)
    qed simp_all
  qed (use u d in \<open>simp add: delete_post_stmt_def\<close>)
qed

lemma delete_source_schema: "stmt_keeps schema_ok (delete_source_stmt i)"
  unfolding stmt_keeps_def
proof (intro allI impI)
  fix now d x d' assume d: "schema_ok d" and u: "delete_source_stmt i now d = Inr (x, d')"
  show "schema_ok d'"
  proof (cases "i \<in> source_ids d")
    case True
    let ?d1 = "d\<lparr>sources := filter (\<lambda>s. s_id s \<noteq> i) (sources d),
                summary_events := filter (\<lambda>e. e_source_id e \<noteq> i) (summary_events d)\<rparr>"
    have drop: "drop_summaries (\<lambda>m. m_source_id m = i) ?d1 = Inr d'" and none: "\<And>p. p \<in> set (posts d) \<Longrightarrow> p_source_id p \<noteq> i"
      using u True by (auto simp: delete_source_stmt_def delete_source_def split: sum.splits if_splits)
    have t: "posts_ok d" "summaries_ok d" "summary_events_ok d" "score_events_ok d" "scores_ok d"
      "embeddings_ok d" "reactions_ok d" using d by (simp_all add: schema_ok_def)
    have ids: "source_ids ?d1 = source_ids d - {i}" "post_ids ?d1 = post_ids d" by (auto simp: ids_defs)
    show ?thesis
    proof (rule drop_summaries_schema [OF d drop, where keep_p = "\<lambda>_. True" and keep_c = "\<lambda>_. True"
          and keep_r = "\<lambda>_. True" and keep_v = "\<lambda>_. True" and keep_x = "\<lambda>_. True"])
      show "p_source_id p \<in> source_ids ?d1" if "p \<in> set (posts ?d1)" for p
        using that t(1) none by (simp add: ids posts_ok_def)
      show "m_source_id m \<in> source_ids ?d1 \<and> opt_in (m_post_id m) (post_ids ?d1)"
        if "m \<in> set (summaries d)" "\<not> m_source_id m = i" for m
        using that t(2) by (simp add: ids summaries_ok_def)
      show "e_source_id e \<in> source_ids ?d1" if "e \<in> set (summary_events ?d1)" for e
        using that t(3) by (simp add: ids summary_events_ok_def)
      show "opt_in (c_post_id e) (post_ids ?d1)" if "e \<in> set (score_events ?d1)" for e
        using that t(4) by (simp add: ids score_events_ok_def refers_def)
      show "opt_in (r_post_id r) (post_ids ?d1)" if "r \<in> set (scores ?d1)" for r
        using that t(5) by (simp add: ids scores_ok_def refers_def score_key_def)
      show "opt_in (v_post_id r) (post_ids ?d1)" if "r \<in> set (post_embeddings ?d1)" for r
        using that t(6) by (simp add: ids embeddings_ok_def refers_def embedding_key_def)
      show "x_post_id x \<in> post_ids ?d1" if "x \<in> set (post_reactions ?d1)" for x
        using that t(7) by (simp add: ids reactions_ok_def)
    qed simp_all
  qed (use u d in \<open>simp add: delete_source_stmt_def\<close>)
qed

section \<open>What every statement keeps\<close>

text \<open>
  The statements of the repositories, all of them that write. A predicate that each of them
  keeps is kept by every operation of the program; the client of this interface is the
  theory \<open>Invariants\<close>, its provider the schema.
\<close>

locale kept_by_statements =
  fixes P :: "database \<Rightarrow> bool"
  assumes insert_source_kept: "stmt_keeps P (write_stmt (insert_source r1))"
    and update_source_kept: "(\<And>r. s_id (f1 r) = s_id r) \<Longrightarrow> stmt_keeps P (update_source_stmt i f1)"
    and delete_source_kept: "stmt_keeps P (delete_source_stmt i)"
    and bump_kept: "stmt_keeps P (bump_stmt i t)"
    and insert_post_kept: "stmt_keeps P (insert_post_stmt r2)"
    and update_post_kept: "stmt_keeps P (update_post_stmt i p)"
    and delete_post_kept: "stmt_keeps P (delete_post_stmt i)"
    and insert_summary_kept: "stmt_keeps P (write_stmt (insert_summary r3))"
    and insert_summary_event_kept: "stmt_keeps P (write_stmt (insert_summary_event r4))"
    and claim_summary_kept: "stmt_keeps P (claim_summary_stmt locks v ttl)"
    and update_summary_events_kept:
      "(\<And>now. keeps_summary_key (f2 now)) \<Longrightarrow> (\<And>now r. e_summary_id (f2 now r) = e_summary_id r) \<Longrightarrow>
       (\<And>now r. Q2 now r \<Longrightarrow> l_status r = Processing) \<Longrightarrow> stmt_keeps P (update_summary_events Q2 f2)"
    and finalize_summary_kept: "stmt_keeps P (finalize_summary_stmt i v st m x)"
    and update_status_kept: "stmt_keeps P (update_status_stmt i st m x t')"
    and insert_score_event_kept: "stmt_keeps P (scoreEventInsertQuery i k)"
    and insert_digest_event_kept: "stmt_keeps P (digestEventInsertQuery i k)"
    and claim_score_kept: "stmt_keeps P (claim_score_stmt locks v ttl)"
    and update_score_events_kept:
      "(\<And>now. keeps_score_key (f3 now)) \<Longrightarrow> (\<And>now r. Q3 now r \<Longrightarrow> l_status r = Processing) \<Longrightarrow>
       stmt_keeps P (update_score_events Q3 f3)"
    and insert_interest_kept: "stmt_keeps P (write_stmt (insert_interest r5))"
    and update_interest_kept: "(\<And>r. i_id (f4 r) = i_id r) \<Longrightarrow> stmt_keeps P (update_interest_stmt i f4)"
    and delete_interest_kept: "stmt_keeps P (delete_interest_stmt i)"
    and upsert_score_kept: "one_key q m \<Longrightarrow> stmt_keeps P (upsert_score_stmt i q m y model)"
    and upsert_embedding_kept: "one_key q m \<Longrightarrow> stmt_keeps P (upsert_embedding_stmt i q m vec model h)"
    and upsert_reaction_kept: "stmt_keeps P (\<lambda>now. write_stmt (upsert_reaction i k sig now) now)"

interpretation schema: kept_by_statements schema_ok
proof
  show "stmt_keeps schema_ok (scoreEventInsertQuery i k)" for i k
    by (rule insert_score_event_schema) (simp add: scoreEventInsertQuery_def)
  show "stmt_keeps schema_ok (digestEventInsertQuery i k)" for i k
    by (rule insert_score_event_schema) (simp add: digestEventInsertQuery_def)
qed (fact insert_source_schema update_source_schema delete_source_schema bump_schema insert_post_schema
    update_post_schema delete_post_schema insert_summary_schema insert_summary_event_schema claim_summary_schema
    update_summary_events_schema finalize_summary_schema update_status_schema claim_score_schema update_score_events_schema
    insert_interest_schema update_interest_schema delete_interest_schema upsert_score_schema
    upsert_embedding_schema upsert_reaction_schema)+

end
