(* ===== verification/Feed.thy ===== *)
theory Feed
  imports Feed_Repo
begin

text \<open>
  What the ranked feed and the reactions promise: the shape of every page, the completeness of
  the walk through the pages while nothing is liked, and how a like breaks it; the effect of a
  reaction.
\<close>

section \<open>Every page\<close>

lemma feed_rows_no_dislike: "q \<in> set (feed_rows d) \<Longrightarrow> q_reaction q \<noteq> ''dislike''"
  by (auto simp: feed_rows_def post_feed_rows_def digest_feed_rows_def post_feed_row_def digest_feed_row_def
      or_empty_def Let_def split: option.splits)

lemma RankedFeed_ok:
  assumes "fst (RankedFeed E F f w) = Returns (Inr page)"
  shows "\<not> fless (fq_MinScore f) (Finite 0) \<and> \<not> fless (Finite 1) (fq_MinScore f) \<and>
    RankedFeed E F f w = ListRanked E F (f\<lparr>fq_PageSize := clamp_page_size (fq_PageSize f)\<rparr>) w"
  using assms by (auto simp: RankedFeed_def split: if_splits)

lemma feed_matches_page_size [simp]: "feed_matches (f\<lparr>fq_PageSize := n\<rparr>) = feed_matches f"
  by (simp add: fun_eq_iff feed_matches_def)

text \<open>What one statement of the listing reads.\<close>

lemma set_ranked_rows: "q \<in> set (ranked_rows f cur d) \<Longrightarrow> q \<in> set (feed_rows d) \<and> feed_matches f q"
  by (simp add: ranked_rows_def)

lemma ranked_query_rows:
  assumes "ranked_query f cur now d = Inr (rows, d')"
  shows "d' = d \<and> sorted (map feed_rank rows) \<and> length rows \<le> nat (fq_PageSize f + 1) \<and>
    set rows \<subseteq> {q \<in> set (feed_rows d). feed_matches f q}"
proof -
  from assms have r: "d' = d" "rows = take (nat (fq_PageSize f + 1)) (ranked_rows f cur d)"
    by (auto simp: ranked_query_def split: if_splits)
  have "sorted (map feed_rank rows)" unfolding r(2) take_map [symmetric] by (intro sorted_wrt_take) (simp add: ranked_rows_def)
  then show ?thesis using r by (auto dest!: in_set_takeD set_ranked_rows)
qed

definition feed_page_ok :: "ext \<Rightarrow> FeedQuery \<Rightarrow> database \<Rightarrow> FeedItem page \<Rightarrow> bool" where
  "feed_page_ok E f d page \<longleftrightarrow>
     (\<exists>rows. Items page = map (feed_item E) rows \<and> sorted (map feed_rank rows) \<and>
        length rows \<le> nat (clamp_page_size (fq_PageSize f)) \<and>
        set rows \<subseteq> {q \<in> set (feed_rows d). feed_matches f q \<and> q_reaction q \<noteq> ''dislike''})"

lemma ListRanked_page:
  assumes o: "open_tx w = None" and n: "1 \<le> fq_PageSize f" and run: "ListRanked E F f w = (r, w')"
  shows "committed w' = committed w \<and> open_tx w' = None \<and> (\<exists>res. r = Returns res \<and>
     (\<forall>page. res = Inr page \<longrightarrow> (\<exists>rows. Items page = map (feed_item E) rows \<and> sorted (map feed_rank rows) \<and>
        length rows \<le> nat (fq_PageSize f) \<and> set rows \<subseteq> {q \<in> set (feed_rows (committed w)). feed_matches f q})))"
proof -
  define tok where "tok = (if fq_PageToken f = [] then Inr None
      else map_sum (\<lambda>_. errorf_detail ErrInvalidThreshold ''invalid page token'') Some
             (decodeScoreToken E F (fq_PageToken f)))"
  note run = run [unfolded ListRanked_def tok_def [symmetric]]
  show ?thesis
  proof (cases tok)
    case (Inl e)
    then show ?thesis using run o by auto
  next
    case (Inr cur)
    obtain x w1 where x: "exec_tx (ranked_query f cur) w = (x, w1)" by (cases "exec_tx (ranked_query f cur) w")
    note eff = exec_tx_outside [OF o x]
    have c: "committed w1 = committed w" using eff(2) ranked_query_rows by blast
    show ?thesis
    proof (cases x)
      case (Inl e)
      then show ?thesis using run \<open>tok = Inr cur\<close> x c eff(1) by auto
    next
      case (Inr rows)
      note rows = ranked_query_rows [OF eff(3) [OF Inr]]
      define k where "k = nat (min (int (length rows)) (fq_PageSize f))"
      have k: "k \<le> nat (fq_PageSize f)" "0 \<le> min (int (length rows)) (fq_PageSize f)" using n by (auto simp: k_def)
      have pos: "\<not> min (int (length rows)) (fq_PageSize f) - 1 < 0" if "int (length rows) > fq_PageSize f"
        using that n by simp
      have page: "\<exists>rs. map (feed_item E) (take k rows) = map (feed_item E) rs \<and> sorted (map feed_rank rs) \<and>
          length rs \<le> nat (fq_PageSize f) \<and> set rs \<subseteq> {q \<in> set (feed_rows (committed w)). feed_matches f q}"
      proof (intro exI conjI)
        show "sorted (map feed_rank (take k rows))" using rows by (simp add: take_map [symmetric] sorted_wrt_take)
        show "length (take k rows) \<le> nat (fq_PageSize f)" using k(1) by simp
        show "set (take k rows) \<subseteq> {q \<in> set (feed_rows (committed w)). feed_matches f q}"
          using rows by (auto dest!: in_set_takeD)
      qed (rule refl)
      have "\<exists>t. r = Returns (Inr \<lparr>Items = map (feed_item E) (take k rows), NextPageToken = t\<rparr>) \<and> w' = w1"
        using run \<open>tok = Inr cur\<close> x \<open>x = Inr rows\<close> k(2) pos
        by (cases "int (length rows) > fq_PageSize f") (auto simp: Let_def take_map k_def)
      then show ?thesis using c eff(1) page by auto
    qed
  qed
qed

text \<open>
  C19. Every page of the ranked feed, whatever fails and whatever token it was asked with: the
  call never panics and changes nothing, and the page holds at most as many items as the clamped
  page size allows, each of a scored row inside the filter and not disliked, in order of
  effective score. The threshold of an answered query lies in the unit interval or is no number.
\<close>

theorem RankedFeed_page:
  assumes "open_tx w = None" and "RankedFeed E F f w = (r, w')"
  shows "committed w' = committed w \<and> (\<exists>res. r = Returns res \<and>
     (\<forall>page. res = Inr page \<longrightarrow> feed_page_ok E f (committed w) page \<and>
        (fq_MinScore f = NaN \<or> (\<exists>x. fq_MinScore f = Finite x \<and> 0 \<le> x \<and> x \<le> 1))))"
proof -
  have t: "m = NaN \<or> (\<exists>x. m = Finite x \<and> 0 \<le> x \<and> x \<le> 1)" if "\<not> fless m (Finite 0)" "\<not> fless (Finite 1) m" for m
    using that by (cases m) auto
  show ?thesis
  proof (cases "RankedFeed E F f w = ListRanked E F (f\<lparr>fq_PageSize := clamp_page_size (fq_PageSize f)\<rparr>) w")
    case True
    have n: "1 \<le> fq_PageSize (f\<lparr>fq_PageSize := clamp_page_size (fq_PageSize f)\<rparr>)"
      using clamp_page_size_bounds by simp
    have L: "ListRanked E F (f\<lparr>fq_PageSize := clamp_page_size (fq_PageSize f)\<rparr>) w = (r, w')"
      using True assms(2) by simp
    note P = ListRanked_page [OF assms(1) n L]
    then obtain res where res: "r = Returns res" by blast
    have "feed_page_ok E f (committed w) page" if "res = Inr page" for page
    proof -
      from P res that obtain rows where rows: "Items page = map (feed_item E) rows" "sorted (map feed_rank rows)"
        "length rows \<le> nat (clamp_page_size (fq_PageSize f))"
        "set rows \<subseteq> {q \<in> set (feed_rows (committed w)). feed_matches f q}" by auto
      from rows(4) have "set rows \<subseteq> {q \<in> set (feed_rows (committed w)). feed_matches f q \<and> q_reaction q \<noteq> ''dislike''}"
        by (auto dest: feed_rows_no_dislike)
      with rows(1-3) show ?thesis unfolding feed_page_ok_def by blast
    qed
    moreover have "fq_MinScore f = NaN \<or> (\<exists>x. fq_MinScore f = Finite x \<and> 0 \<le> x \<and> x \<le> 1)" if "res = Inr page" for page
      using RankedFeed_ok [of E F f w page] assms(2) res that t [of "fq_MinScore f"] by simp
    ultimately show ?thesis using P res by blast
  next
    case False
    then show ?thesis using assms(2) by (auto simp: RankedFeed_def split: if_splits)
  qed
qed

section \<open>Walking the feed while nothing is liked\<close>

lemma distinct_joined:
  assumes "distinct (map k ys)" and "\<And>x. length (filter (\<lambda>s. f s = Some x) xs) \<le> 1"
  shows "distinct (concat (map (\<lambda>s. map k (filter (\<lambda>y. f s = Some (k y) \<and> P y) ys)) xs))"
  using assms(2)
proof (induction xs)
  case (Cons s xs)
  have "length (filter (\<lambda>s. f s = Some x) xs) \<le> 1" for x
    using Cons.prems [of x] by (simp split: if_splits)
  note IH = Cons.IH [OF this]
  have "filter (\<lambda>t. f t = Some x) xs = []" if "f s = Some x" for x
    using Cons.prems [of x] that by simp
  then have "x \<notin> set (concat (map (\<lambda>s. map k (filter (\<lambda>y. f s = Some (k y) \<and> P y) ys)) xs))" if "f s = Some x" for x
    using that by (auto simp: filter_empty_conv)
  then show ?case using IH assms(1) by (auto simp: distinct_map_filter)
qed simp

text \<open>
  The constraints of the tables the feed reads: primary keys, one score per entity, and no
  identifier that names both a post and a summary; the scores are values of the type.
\<close>

definition feed_db_ok :: "database \<Rightarrow> bool" where
  "feed_db_ok d \<longleftrightarrow>
     distinct (map p_id (posts d)) \<and> distinct (map m_id (summaries d)) \<and>
     post_ids d \<inter> summary_ids d = {} \<and> scores_unique d \<and>
     (\<forall>r \<in> set (scores d). representable (r_value r))"

definition nothing_liked :: "database \<Rightarrow> bool" where
  "nothing_liked d \<longleftrightarrow> (\<forall>x \<in> set (post_reactions d). x_signal x \<noteq> ''like'')"

lemma score_for_entity:
  "score_for (Some x) None = (\<lambda>s. r_post_id s = Some x)" "score_for None (Some x) = (\<lambda>s. r_summary_id s = Some x)"
  by (auto simp: fun_eq_iff score_for_def same_entity_def)

lemma distinct_feed_ids:
  assumes "feed_db_ok d"
  shows "distinct (map q_id (feed_rows d))"
proof -
  have u: "length (filter (score_for p m) (scores d)) \<le> 1" if "one_key p m" for p m
    using assms that by (simp add: feed_db_ok_def scores_unique_def)
  have P: "distinct (map q_id (post_feed_rows d))"
  proof -
    have "length (filter (\<lambda>s. r_post_id s = Some x) (scores d)) \<le> 1" for x
      using u [of "Some x" None] by (simp add: one_key_def score_for_entity)
    from distinct_joined [OF _ this, of p_id "posts d" "\<lambda>p. or_empty (reaction_of (p_id p) d) \<noteq> ''dislike''"]
    show ?thesis using assms
      by (simp add: feed_db_ok_def post_feed_rows_def post_feed_row_def map_concat comp_def Let_def)
  qed
  have D: "distinct (map q_id (digest_feed_rows d))"
  proof -
    have "length (filter (\<lambda>s. r_summary_id s = Some x) (scores d)) \<le> 1" for x
      using u [of None "Some x"] by (simp add: one_key_def score_for_entity)
    from distinct_joined [OF _ this, of m_id "summaries d" "\<lambda>m. m_post_id m = None"]
    show ?thesis using assms
      by (simp add: feed_db_ok_def digest_feed_rows_def digest_feed_row_def map_concat comp_def)
  qed
  have "q_id ` set (post_feed_rows d) \<subseteq> post_ids d" "q_id ` set (digest_feed_rows d) \<subseteq> summary_ids d"
    by (auto simp: post_feed_rows_def digest_feed_rows_def post_feed_row_def digest_feed_row_def
        post_ids_def summary_ids_def Let_def)
  then show ?thesis using P D assms by (auto simp: feed_rows_def feed_db_ok_def)
qed

lemma reaction_not_like: "nothing_liked d \<Longrightarrow> reaction_of p d \<noteq> Some ''like''"
  by (auto simp: reaction_of_def nothing_liked_def dest!: find_SomeD)

lemma feed_rank_cursor: "nothing_liked d \<Longrightarrow> q \<in> set (feed_rows d) \<Longrightarrow> feed_rank q = feed_cursor q"
  by (auto simp: feed_rows_def post_feed_rows_def digest_feed_rows_def post_feed_row_def digest_feed_row_def
      feed_rank_def feed_cursor_def effective_value_def reaction_not_like Let_def)

lemma feed_row_score: "q \<in> set (feed_rows d) \<Longrightarrow> \<exists>s \<in> set (scores d). q_value q = r_value s"
  by (auto simp: feed_rows_def post_feed_rows_def digest_feed_rows_def post_feed_row_def digest_feed_row_def Let_def)

text \<open>The listing as a function of the token, for a fixed question.\<close>

type_synonym feed_request = "ext \<times> float_text \<times> FeedQuery \<times> world"

definition feed_ok :: "feed_request \<Rightarrow> bool" where
  "feed_ok q = (case q of (E, F, f, w) \<Rightarrow>
     ext_laws E \<and> float_laws F \<and> fault_free w \<and> feed_db_ok (committed w) \<and> nothing_liked (committed w) \<and>
     \<not> fless (fq_MinScore f) (Finite 0) \<and> \<not> fless (Finite 1) (fq_MinScore f) \<and>
     (case (fq_From f, fq_To f) of (Some a, Some b) \<Rightarrow> a \<le> b | _ \<Rightarrow> True))"

definition feed_matching :: "feed_request \<Rightarrow> feed_row list" where
  "feed_matching q = (case q of (E, F, f, w) \<Rightarrow> filter (feed_matches f) (feed_rows (committed w)))"

definition feed_listing :: "feed_request \<Rightarrow> FeedItem list" where
  "feed_listing q = map (feed_item (fst q)) (sort_key feed_cursor (feed_matching q))"

definition feed_token :: "feed_request \<Rightarrow> FeedItem \<Rightarrow> string" where
  "feed_token q x = (case q of (E, F, f, w) \<Rightarrow> encodeScoreToken F (fi_Score x) (post_ID (fi_Post x)))"

definition feed_page :: "feed_request \<Rightarrow> string \<Rightarrow> FeedItem list \<times> string" where
  "feed_page q t = (case q of (E, F, f, w) \<Rightarrow>
     (case fst (RankedFeed E F (f\<lparr>fq_PageToken := t\<rparr>) w) of
        Returns (Inr p) \<Rightarrow> (Items p, NextPageToken p) | _ \<Rightarrow> ([], [])))"

definition feed_page_size :: "feed_request \<Rightarrow> nat" where
  "feed_page_size q = (case q of (E, F, f, w) \<Rightarrow> nat (clamp_page_size (fq_PageSize f)))"

lemma insort_key_agree:
  "f x = g x \<Longrightarrow> (\<And>y. y \<in> set ys \<Longrightarrow> f y = g y) \<Longrightarrow> insort_key f x ys = insort_key g x ys"
  by (induction ys) auto

lemma sort_key_agree: "(\<And>x. x \<in> set xs \<Longrightarrow> f x = g x) \<Longrightarrow> sort_key f xs = sort_key g xs"
  by (induction xs) (auto intro!: insort_key_agree)

lemma ranked_rows_keyset:
  assumes "nothing_liked d"
  shows "ranked_rows f cur d = keyset_rows False feed_cursor cur (filter (feed_matches f) (feed_rows d))"
proof -
  define P where "P = (\<lambda>q. feed_matches f q \<and> (case cur of None \<Rightarrow> True | Some c \<Rightarrow>
    q_value q < tok_value c \<or> (q_value q = tok_value c \<and> tok_id c < q_id q)))"
  have "filter P (feed_rows d) =
      filter (\<lambda>r. after_cursor False cur (feed_cursor r)) (filter (feed_matches f) (feed_rows d))"
    by (auto simp: P_def after_cursor_def feed_cursor_def less_scoreToken_def intro!: filter_cong split: option.splits)
  moreover have "sort_key feed_rank (filter P (feed_rows d)) = sort_key feed_cursor (filter P (feed_rows d))"
    by (rule sort_key_agree) (use feed_rank_cursor [OF assms(1)] in auto)
  ultimately show ?thesis by (simp add: ranked_rows_def P_def [symmetric] keyset_rows_def del: filter_filter)
qed

text \<open>One page, read off the ranked rows.\<close>

definition answered :: "feed_request \<Rightarrow> bool" where
  "answered q = (case q of (E, F, f, w) \<Rightarrow>
     ext_laws E \<and> float_laws F \<and> fault_free w \<and> feed_db_ok (committed w) \<and>
     \<not> fless (fq_MinScore f) (Finite 0) \<and> \<not> fless (Finite 1) (fq_MinScore f) \<and>
     (case (fq_From f, fq_To f) of (Some a, Some b) \<Rightarrow> a \<le> b | _ \<Rightarrow> True))"

definition cursor_code :: "ext \<Rightarrow> float_text \<Rightarrow> scoreToken \<Rightarrow> string" where
  "cursor_code E F c = encodeScoreToken F (tok_value c) (uuid_string E (tok_id c))"

lemma feed_page_ranked:
  assumes ok: "answered (E, F, f, w)"
    and t: "t = [] \<and> token = None \<or> decodeScoreToken E F t = Inr c \<and> t \<noteq> [] \<and> token = Some c"
  shows "feed_page (E, F, f, w) t =
    (let n = feed_page_size (E, F, f, w); R = take (Suc n) (ranked_rows f token (committed w))
     in (map (feed_item E) (take n R), if length R > n then cursor_code E F (feed_cursor (R ! (n - 1))) else []))"
proof -
  define n where "n = clamp_page_size (fq_PageSize f)"
  have n: "1 \<le> n" using clamp_page_size_bounds by (simp add: n_def)
  define g where "g = f\<lparr>fq_PageToken := t, fq_PageSize := n\<rparr>"
  have fr: "fault_free w" using ok by (simp add: answered_def)
  define R where "R = take (Suc (nat n)) (ranked_rows f token (committed w))"
  have "ranked_rows g = ranked_rows f" by (simp add: fun_eq_iff ranked_rows_def feed_matches_def g_def)
  moreover have "nat (n + 1) = Suc (nat n)" "\<not> n + 1 < 0" using n by auto
  ultimately have "ranked_query g token now (committed w) = Inr (R, committed w)" for now
    by (simp add: ranked_query_def R_def g_def)
  then have x: "exec_tx (ranked_query g token) w = (Inr R, after_read w)"
    using fr by (subst exec_tx_outside_fault_free) (simp_all add: fault_free_def after_read_def)
  have r: "RankedFeed E F (f\<lparr>fq_PageToken := t\<rparr>) w = ListRanked E F g w"
    using ok by (auto simp: RankedFeed_def answered_def g_def n_def split: option.splits)
  have k: "\<not> min (int (length R)) n < 0" "int (length R) > n \<Longrightarrow> \<not> min (int (length R)) n - 1 < 0"
    "int (length R) > n \<Longrightarrow> nat (min (int (length R)) n - 1) = nat n - 1"
    "take (nat (min (int (length R)) n)) R = take (nat n) R"
    "int (length R) > n \<longleftrightarrow> length R > nat n" "length R > nat n \<Longrightarrow> nat n - 1 < length R"
    using n by (auto simp: min_def)
  have "fst (ListRanked E F g w) = Returns (Inr \<lparr>Items = map (feed_item E) (take (nat n) R),
      NextPageToken = (if length R > nat n then cursor_code E F (feed_cursor (R ! (nat n - 1))) else [])\<rparr>)"
    using t x k by (auto simp: ListRanked_def g_def Let_def take_map feed_item_def cursor_code_def feed_cursor_def)
  then show ?thesis
    by (simp add: feed_page_def r feed_page_size_def n_def [symmetric] R_def Let_def)
qed

lemma feed_ok_iff: "feed_ok (E, F, f, w) \<longleftrightarrow> answered (E, F, f, w) \<and> nothing_liked (committed w)"
  by (auto simp: feed_ok_def answered_def)

lemma feed_page_keyset:
  assumes ok: "feed_ok (E, F, f, w)"
    and t: "t = [] \<and> token = None \<or> decodeScoreToken E F t = Inr c \<and> t \<noteq> [] \<and> token = Some c"
  shows "feed_page (E, F, f, w) t =
    (let p = keyset_page False feed_cursor (\<lambda>r. cursor_code E F (feed_cursor r))
               (feed_page_size (E, F, f, w)) token (feed_matching (E, F, f, w))
     in (map (feed_item E) (fst p), snd p))"
proof -
  have a: "answered (E, F, f, w)" and nl: "nothing_liked (committed w)" using ok by (simp_all add: feed_ok_iff)
  show ?thesis
    unfolding feed_page_ranked [OF a t] ranked_rows_keyset [OF nl] keyset_page_def feed_matching_def prod.case Let_def
    by (simp add: min_def)
qed

lemma decode_cursor_code:
  assumes "answered (E, F, f, w)" and "r \<in> set (feed_rows (committed w))"
  shows "decodeScoreToken E F (cursor_code E F (feed_cursor r)) = Inr (feed_cursor r)"
proof -
  obtain s where "s \<in> set (scores (committed w))" "q_value r = r_value s" using feed_row_score [OF assms(2)] by blast
  with assms(1) have "representable (q_value r)" by (simp add: answered_def feed_db_ok_def)
  then show ?thesis using assms(1)
    by (simp add: cursor_code_def decode_encode_score_token feed_cursor_def answered_def)
qed

lemma feed_page_from:
  assumes ok: "feed_ok (E, F, f, w)"
    and t: "t = [] \<and> i = 0 \<or> (\<exists>j < length (feed_matching (E, F, f, w)).
      t = feed_token (E, F, f, w) (feed_listing (E, F, f, w) ! j) \<and> i = Suc j)"
  shows "feed_page (E, F, f, w) t = page_from (feed_listing (E, F, f, w)) (feed_token (E, F, f, w))
    (feed_page_size (E, F, f, w)) i"
proof -
  let ?q = "(E, F, f, w)"
  have a: "answered ?q" and d: "feed_db_ok (committed w)" using ok by (simp_all add: feed_ok_iff answered_def)
  have "distinct (map feed_cursor (feed_matching ?q))"
    using distinct_map_filter [OF distinct_feed_ids [OF d]]
    by (auto simp: feed_matching_def feed_cursor_def distinct_map inj_on_def)
  moreover have "0 < feed_page_size ?q" using clamp_page_size_bounds(1) [of "fq_PageSize f"] by (simp add: feed_page_size_def)
  moreover have "decodeScoreToken E F (cursor_code E F (feed_cursor r)) = Inr (feed_cursor r) \<and>
      cursor_code E F (feed_cursor r) \<noteq> []" if "r \<in> set (feed_matching ?q)" for r
    using that decode_cursor_code [OF a, of r] by (simp add: feed_matching_def) (simp add: cursor_code_def)
  moreover have "feed_page ?q t = (let p = keyset_page False feed_cursor (\<lambda>r. cursor_code E F (feed_cursor r))
      (feed_page_size ?q) token (feed_matching ?q) in (map (feed_item E) (fst p), snd p))"
    if "t = [] \<and> token = None \<or> (\<exists>c. decodeScoreToken E F t = Inr c \<and> t \<noteq> [] \<and> token = Some c)" for t token
    using feed_page_keyset [OF ok, of t token] that by auto
  moreover have "feed_token ?q (feed_item E r) = cursor_code E F (feed_cursor r)" for r
    by (simp add: feed_token_def feed_item_def feed_cursor_def cursor_code_def)
  moreover have all: "keyset_rows False feed_cursor None (feed_matching ?q) = sort_key feed_cursor (feed_matching ?q)"
    by (simp add: keyset_rows_def after_cursor_def)
  ultimately have "feed_page ?q t = page_from (map (feed_item E) (keyset_rows False feed_cursor None (feed_matching ?q)))
      (feed_token ?q) (feed_page_size ?q) i"
    using t by (intro coded_page_from [where dec = "decodeScoreToken E F" and enc = "cursor_code E F" and mk = "feed_item E"])
      (auto simp: feed_listing_def)
  then show ?thesis by (simp add: feed_listing_def all)
qed

interpretation feed_paging: paged_listing feed_ok feed_listing feed_token feed_page_size feed_page
proof unfold_locales
  fix q :: feed_request and i x
  obtain E F f w where q: "q = (E, F, f, w)" by (cases q)
  assume ok: "feed_ok q"
  show "0 < feed_page_size q" using clamp_page_size_bounds(1) [of "fq_PageSize f"] by (simp add: q feed_page_size_def)
  show "feed_token q x \<noteq> []" by (simp add: q feed_token_def)
  show "feed_page q [] = page_from (feed_listing q) (feed_token q) (feed_page_size q) 0"
    using ok by (simp add: q feed_page_from)
  assume "i < length (feed_listing q)"
  then have "i < length (feed_matching q)" by (simp add: feed_listing_def)
  then show "feed_page q (feed_token q (feed_listing q ! i)) =
      page_from (feed_listing q) (feed_token q) (feed_page_size q) (Suc i)"
    using feed_page_from [OF ok [unfolded q], of "feed_token q (feed_listing q ! i)" "Suc i"] by (auto simp: q)
qed

text \<open>
  C18. While nothing is liked, walking the feed page by page from the empty token yields every
  scored post that is not disliked and every scored digest inside the filter exactly once, by
  descending score and ascending identifier, whatever the page size.
\<close>

theorem feed_listing_complete:
  assumes "feed_ok (E, F, f, w)" and "length (feed_rows (committed w)) \<le> fuel"
  shows "walk_pages (\<lambda>t. case fst (RankedFeed E F (f\<lparr>fq_PageToken := t\<rparr>) w) of
             Returns (Inr p) \<Rightarrow> (Items p, NextPageToken p) | _ \<Rightarrow> ([], [])) (Suc fuel) [] =
         map (feed_item E) (sort_key feed_cursor (filter (feed_matches f) (feed_rows (committed w))))"
proof -
  have "length (feed_listing (E, F, f, w)) \<le> fuel"
    using le_trans [OF length_filter_le assms(2)] by (simp add: feed_listing_def feed_matching_def)
  with feed_paging.walk_complete [OF assms(1)] show ?thesis
    by (simp add: feed_page_def [abs_def] feed_listing_def feed_matching_def)
qed

section \<open>A like hides what comes after it\<close>

text \<open>
  The pages are cut at the base score of their last row but ordered by the effective score, which
  a like raises: what follows the liked row with a higher base score falls between the pages.
\<close>

lemma page_after:
  assumes a: "answered (E, F, f, w)" and t: "decodeScoreToken E F t = Inr c" "t \<noteq> []"
  shows "\<forall>x \<in> set (fst (feed_page (E, F, f, w) t)). fi_Score x \<le> tok_value c"
    and "snd (feed_page (E, F, f, w) t) \<noteq> [] \<Longrightarrow>
      \<exists>c'. decodeScoreToken E F (snd (feed_page (E, F, f, w) t)) = Inr c' \<and> tok_value c' \<le> tok_value c"
proof -
  define n where "n = feed_page_size (E, F, f, w)"
  define R where "R = take (Suc n) (ranked_rows f (Some c) (committed w))"
  have p: "feed_page (E, F, f, w) t = (map (feed_item E) (take n R),
      if length R > n then cursor_code E F (feed_cursor (R ! (n - 1))) else [])"
    using feed_page_ranked [OF a, of t "Some c" c] t by (simp add: n_def R_def Let_def)
  have R: "r \<in> set (feed_rows (committed w)) \<and> q_value r \<le> tok_value c" if "r \<in> set R" for r
    using that by (auto simp: R_def ranked_rows_def dest!: in_set_takeD)
  then show "\<forall>x \<in> set (fst (feed_page (E, F, f, w) t)). fi_Score x \<le> tok_value c"
    by (auto simp: p feed_item_def dest!: in_set_takeD)
  assume "snd (feed_page (E, F, f, w) t) \<noteq> []"
  then have "length R > n" by (simp add: p split: if_splits)
  moreover from this have "R ! (n - 1) \<in> set R" by (intro nth_mem) simp
  ultimately show "\<exists>c'. decodeScoreToken E F (snd (feed_page (E, F, f, w) t)) = Inr c' \<and> tok_value c' \<le> tok_value c"
    using R decode_cursor_code [OF a, of "R ! (n - 1)"] by (auto simp: p) (simp add: feed_cursor_def)
qed

lemma walk_after:
  assumes a: "answered (E, F, f, w)" and "decodeScoreToken E F t = Inr c" and "t \<noteq> []"
  shows "\<forall>x \<in> set (walk_pages (feed_page (E, F, f, w)) fuel t). fi_Score x \<le> tok_value c"
  using assms(2,3)
proof (induction fuel arbitrary: t c)
  case (Suc fuel)
  obtain xs t' where p: "feed_page (E, F, f, w) t = (xs, t')" by (cases "feed_page (E, F, f, w) t")
  show ?case
  proof (cases "t' = []")
    case True
    then show ?thesis using page_after(1) [OF a Suc.prems] by (simp add: p)
  next
    case False
    then obtain c' where c': "decodeScoreToken E F t' = Inr c'" "tok_value c' \<le> tok_value c"
      using page_after(2) [OF a Suc.prems] by (auto simp: p)
    from Suc.IH [OF c'(1) False] have "\<forall>x \<in> set (walk_pages (feed_page (E, F, f, w)) fuel t'). fi_Score x \<le> tok_value c"
      using c'(2) by (auto intro: order_trans)
    then show ?thesis using page_after(1) [OF a Suc.prems] False by (auto simp: p)
  qed
qed simp

text \<open>
  A like breaks the walk. Let the first page end with a row whose base score is below that of
  a row ranked behind the page, which happens when a like lifted the former: then the latter,
  although it matches the filter, is on no page of the walk.
\<close>

lemma feed_like_hides:
  assumes a: "answered (E, F, f, w)"
    and R: "R = ranked_rows f None (committed w)" and n: "n = feed_page_size (E, F, f, w)"
    and y: "y \<in> set (drop n R)" and less: "q_value (R ! (n - 1)) < q_value y"
  shows "feed_matches f y \<and> y \<in> set (feed_rows (committed w)) \<and>
    feed_item E y \<notin> set (walk_pages (feed_page (E, F, f, w)) fuel [])"
proof -
  have m: "y \<in> set (feed_rows (committed w)) \<and> feed_matches f y"
    using in_set_dropD [OF y] set_ranked_rows unfolding R by blast
  have npos: "0 < n" using clamp_page_size_bounds(1) [of "fq_PageSize f"] by (simp add: n feed_page_size_def)
  have len: "n < length R" using y by (cases "n < length R") auto
  have ids: "distinct (map q_id (feed_rows (committed w)))" using a by (intro distinct_feed_ids) (simp add: answered_def)
  then have dR: "distinct R" by (simp add: R ranked_rows_def distinct_map)
  have p: "feed_page (E, F, f, w) [] = (map (feed_item E) (take n R), cursor_code E F (feed_cursor (R ! (n - 1))))"
    using feed_page_ranked [OF a, of "[]" None] len npos by (simp add: n [symmetric] R [symmetric] Let_def nth_append)
  have "feed_item E y \<notin> set (map (feed_item E) (take n R))"
  proof
    assume "feed_item E y \<in> set (map (feed_item E) (take n R))"
    then obtain z where z: "z \<in> set (take n R)" "feed_item E y = feed_item E z" by auto
    then have "q_id y = q_id z" using a by (simp add: feed_item_def uuid_string_inject answered_def)
    moreover have "z \<in> set (feed_rows (committed w))"
      using in_set_takeD [OF z(1)] set_ranked_rows unfolding R by blast
    ultimately have "y = z" using distinct_key_unique [OF ids] m by blast
    then show False using z(1) y dR by (metis append_take_drop_id disjoint_iff distinct_append)
  qed
  moreover have "feed_item E y \<notin> set (walk_pages (feed_page (E, F, f, w)) k (cursor_code E F (feed_cursor (R ! (n - 1)))))" for k
  proof -
    have "R ! (n - 1) \<in> set (feed_rows (committed w))"
      using set_ranked_rows [of "R ! (n - 1)" f None "committed w"] len by (simp add: R)
    from walk_after [OF a decode_cursor_code [OF a this]]
    show ?thesis using less by (force simp: cursor_code_def feed_cursor_def feed_item_def)
  qed
  ultimately show ?thesis using m p by (cases fuel) (auto simp: cursor_code_def)
qed

section \<open>Reactions\<close>

text \<open>The constraints of the table: one reaction per post, of a post that exists.\<close>

definition reactions_ok :: "database \<Rightarrow> bool" where
  "reactions_ok d \<longleftrightarrow> distinct (map x_post_id (post_reactions d)) \<and> x_post_id ` set (post_reactions d) \<subseteq> post_ids d"

definition reacted :: "uuid \<Rightarrow> string \<Rightarrow> database \<Rightarrow> database \<Rightarrow> bool" where
  "reacted pid signal d d' \<longleftrightarrow>
     pid \<in> post_ids d \<and> d' = d\<lparr>post_reactions := post_reactions d'\<rparr> \<and>
     reaction_of pid d' = Some signal \<and> (\<forall>q. q \<noteq> pid \<longrightarrow> reaction_of q d' = reaction_of q d)"

lemma find_update_where_key:
  assumes "\<And>x. k (f x) = k x"
  shows "List.find (\<lambda>x. k x = a) (update_where (\<lambda>x. k x = b) f xs) =
    map_option (\<lambda>x. if a = b then f x else x) (List.find (\<lambda>x. k x = a) xs)"
  using assms by (induction xs) auto

lemma find_append_one: "List.find P (xs @ [y]) = (case List.find P xs of None \<Rightarrow> if P y then Some y else None | Some x \<Rightarrow> Some x)"
  by (induction xs) auto

lemma upsert_reaction_effect:
  assumes ok: "reactions_ok d" and run: "upsert_reaction i pid signal now d = Inr d'"
  shows "reacted pid signal d d' \<and> reactions_ok d' \<and> signal \<in> {''like'', ''dislike''}"
proof -
  have s: "signal \<in> {''like'', ''dislike''}" using run by (auto simp: upsert_reaction_def split: if_splits)
  show ?thesis
  proof (cases "pid \<in> x_post_id ` set (post_reactions d)")
    case True
    define f where "f = (\<lambda>x::reaction_row. x\<lparr>x_signal := signal, x_updated_at := now\<rparr>)"
    have f: "x_post_id (f x) = x_post_id x" "x_signal (f x) = signal" for x by (simp_all add: f_def)
    have d': "d' = d\<lparr>post_reactions := update_where (\<lambda>x. x_post_id x = pid) f (post_reactions d)\<rparr>"
      using run s True by (auto simp: upsert_reaction_def f_def split: if_splits)
    obtain z where z: "List.find (\<lambda>x. x_post_id x = pid) (post_reactions d) = Some z"
      using True find_None_key [of x_post_id pid "post_reactions d"] by (cases "List.find (\<lambda>x. x_post_id x = pid) (post_reactions d)") auto
    have "reacted pid signal d d'"
      using ok True z by (auto simp: reacted_def d' reaction_of_def find_update_where_key [of x_post_id f, OF f(1)] f(2)
          reactions_ok_def option.map_ident)
    moreover have "reactions_ok d'"
      using ok map_update_where [of "\<lambda>x. x_post_id x = pid" x_post_id f "post_reactions d"] f(1)
      by (auto simp: reactions_ok_def d' post_ids_def set_update_where split: if_splits)
    ultimately show ?thesis using s by blast
  next
    case False
    then have d': "d' = d\<lparr>post_reactions := post_reactions d @
        [\<lparr>x_id = i, x_post_id = pid, x_signal = signal, x_created_at = now, x_updated_at = now\<rparr>]\<rparr>" "pid \<in> post_ids d"
      using run s by (auto simp: upsert_reaction_def split: if_splits)
    have "List.find (\<lambda>x. x_post_id x = pid) (post_reactions d) = None" using False find_None_key by metis
    then have "reacted pid signal d d'"
      using d'(2) by (auto simp: reacted_def d'(1) reaction_of_def find_append_one split: option.splits)
    moreover have "reactions_ok d'" using ok False d'(2) by (auto simp: reactions_ok_def d'(1) post_ids_def)
    ultimately show ?thesis using s by blast
  qed
qed

lemma React_attempted:
  assumes o: "open_tx w = None" and ok: "reactions_ok (committed w)" and run: "React E postID signal w = (r, w')"
    and pid: "parse_uuid E postID = Some pid" and sig: "signal = ''like'' \<or> signal = ''dislike''"
  shows "reactions_ok (committed w') \<and>
    (committed w' = committed w \<and> r \<noteq> Inr () \<or> reacted pid signal (committed w) (committed w'))"
proof -
  define w1 where "w1 = w\<lparr>fresh_ids := advance (fresh_ids w)\<rparr>"
  define st where "st = (\<lambda>now. write_stmt (upsert_reaction (fresh_ids w 0) pid signal now) now)"
  have w1: "open_tx w1 = None" "committed w1 = committed w" using o by (simp_all add: w1_def)
  obtain u w2 where u: "exec_tx st w1 = (u, w2)" by (cases "exec_tx st w1")
  have eff: "reacted pid signal (committed w) d \<and> reactions_ok d" if "st now (committed w1) = Inr (x, d)" for now x d
    using that upsert_reaction_effect [OF ok] w1(2) by (auto simp: st_def write_stmt_def split: sum.splits)
  have r: "(r, w') = (case u of Inl e \<Rightarrow> (Inl (errorf_ctx ''upsert reaction'' e), w2) | Inr _ \<Rightarrow> (Inr (), w2))"
    using run sig pid u
    by (auto simp: React_def reaction_repo_Upsert_def parse_id_def new_uuid_def w1_def [symmetric] st_def
        exec_direct_outside [OF w1(1)] split: sum.splits)
  then have w': "w' = w2" by (cases u) auto
  note x = exec_tx_outside [OF w1(1) u]
  show ?thesis
  proof (cases u)
    case (Inl e)
    then have "r \<noteq> Inr ()" using r by simp
    from x(2) consider "committed w2 = committed w1" | y where "st (clock w1 0) (committed w1) = Inr (y, committed w2)" by blast
    then show ?thesis
      by cases (use ok w1(2) \<open>r \<noteq> Inr ()\<close> w' eff in auto)
  next
    case (Inr y)
    then show ?thesis using x(3) [OF Inr] eff unfolding w' by blast
  qed
qed

text \<open>
  C23. The last reaction wins: whatever fails, a reaction changes nothing (then no success is
  reported), or leaves exactly the asked-for signal on exactly that post, replacing whatever was
  there; one reaction per post of an existing post remains. An unknown signal never reaches the
  table.
\<close>

theorem React_last_write_wins:
  assumes o: "open_tx w = None" and ok: "reactions_ok (committed w)" and run: "React E postID signal w = (r, w')"
  shows "reactions_ok (committed w') \<and>
    (committed w' = committed w \<and> r \<noteq> Inr () \<or>
     (\<exists>pid. parse_uuid E postID = Some pid \<and> signal \<in> {''like'', ''dislike''} \<and>
        reacted pid signal (committed w) (committed w')))"
proof -
  consider (attempted) pid where "parse_uuid E postID = Some pid" "signal = ''like'' \<or> signal = ''dislike''"
    | (refused) "parse_uuid E postID = None \<or> \<not> (signal = ''like'' \<or> signal = ''dislike'')"
    by (metis option.exhaust)
  then show ?thesis
  proof cases
    case attempted
    then show ?thesis using React_attempted [OF o ok run] by auto
  next
    case refused
    then have "w' = w \<and> (\<exists>e. r = Inl e)"
      using run by (auto simp: React_def reaction_repo_Upsert_def parse_id_def split: if_splits)
    then show ?thesis using ok by auto
  qed
qed

text \<open>
  An instance of the texts of numbers: the fraction, written in decimal. A sample feed: two posts
  of one source, and the scores and reactions the samples choose.
\<close>

definition fraction_text :: float_text where
  "fraction_text = \<lparr>
     format_float = (\<lambda>v. case v of Finite x \<Rightarrow> (let (p, q) = quotient_of x in itoa p @ ''/'' @ itoa q)
        | PosInf \<Rightarrow> ''+Inf'' | NegInf \<Rightarrow> ''-Inf'' | NaN \<Rightarrow> ''NaN''),
     parse_float = (\<lambda>s. if s = ''+Inf'' then Some PosInf else if s = ''-Inf'' then Some NegInf else if s = ''NaN'' then Some NaN
        else case split_at (CHR ''/'') s of
          [a, b] \<Rightarrow> (case (atoi a, atoi b) of (Some p, Some q) \<Rightarrow> Some (Finite (of_int p / of_int q)) | _ \<Rightarrow> None)
        | _ \<Rightarrow> None)\<rparr>"

lemma sign_digits: "c \<in> set (itoa i) \<Longrightarrow> c = CHR ''-'' \<or> is_digit c"
  using nat_text_digits by (auto simp: itoa_def list_all_iff split: if_splits)

lemma slash_not_in_itoa: "CHR ''/'' \<notin> set (itoa i)"
  using sign_digits [of "CHR ''/''" i] by (auto simp: is_digit_def)

lemma fraction_text_laws [simp]: "float_laws fraction_text"
proof -
  have "parse_float fraction_text (format_float fraction_text (Finite x)) = Some (Finite x) \<and>
      CHR ''|'' \<notin> set (format_float fraction_text (Finite x))" for x
  proof -
    obtain p q where x: "quotient_of x = (p, q)" by (cases "quotient_of x")
    have "s \<notin> {''+Inf'', ''-Inf'', ''NaN''}" if "CHR ''/'' \<in> set s" for s using that by auto
    from this [of "itoa p @ ''/'' @ itoa q"] have "itoa p @ ''/'' @ itoa q \<notin> {''+Inf'', ''-Inf'', ''NaN''}" by simp
    moreover have "of_int p / of_int q = x" using quotient_of_div [OF x] by simp
    ultimately show ?thesis
      by (simp add: fraction_text_def x split_at_append split_at_no_sep slash_not_in_itoa bar_not_in_itoa)
  qed
  moreover have "parse_float fraction_text (format_float fraction_text v) = Some v \<and>
      CHR ''|'' \<notin> set (format_float fraction_text v)" if "v \<in> {PosInf, NegInf, NaN}" for v
    using that by (auto simp: fraction_text_def)
  ultimately show ?thesis unfolding float_laws_def by (metis float64.exhaust insertCI)
qed

text \<open>Numbers the samples need, rounded.\<close>

lemma quotient_of_coprime:
  assumes "coprime p q" and "0 < q"
  shows "quotient_of (of_int p / of_int q) = (p, q)"
  using quotient_of_unique [of "of_int p / of_int q"] assms
  by (metis Fract_of_int_quotient quotient_of_Fract Rat.normalize_stable)

lemma rnd_tenth: "rnd (1/10) = Finite (3602879701896397/36028797018963968)"
proof -
  have q: "quotient_of (1/10) = (1, 10)" using quotient_of_coprime [of 1 10] by simp
  have f: "floor_log2 (1/10) = -4" by (simp add: floor_log2_def q bitlen.simps pow2_def)
  have g: "\<lfloor>36028797018963968 / 5 :: rat\<rfloor> = 7205759403792793" by (rule floor_unique) simp_all
  show ?thesis by (simp add: rnd_def f pow2_def round_half_even_def Let_def g)
qed

lemma rnd_tenth_again: "rnd (3602879701896397/36028797018963968) = Finite (3602879701896397/36028797018963968)"
proof -
  have "coprime (3602879701896397::int) (2 ^ 55)"
    by (simp only: coprime_power_right_iff) (simp add: coprime_right_2_iff_odd)
  then have q: "quotient_of (3602879701896397 / 36028797018963968) = (3602879701896397, 36028797018963968)"
    using quotient_of_coprime [of 3602879701896397 36028797018963968] by simp
  have "bitlen 3602879701896397 = 52" "bitlen 36028797018963968 = 56"
    using bitlen_eq [of 51 3602879701896397] bitlen_eq [of 55 36028797018963968] by simp_all
  then have f: "floor_log2 (3602879701896397 / 36028797018963968) = - 4"
    by (simp add: floor_log2_def q pow2_def)
  show ?thesis by (rule rnd_exact [where m = 7205759403792794]) (simp_all add: f pow2_def)
qed

lemma rnd_sixteenth: "rnd (1/16) = Finite (1/16)"
proof -
  have q: "quotient_of (1 / 16) = (1, 16)"
    using quotient_of_coprime [of 1 16] by simp
  have f: "floor_log2 (1 / 16) = - 4" by (simp add: floor_log2_def q pow2_def bitlen.simps)
  show ?thesis by (rule rnd_exact [where m = 4503599627370496]) (simp_all add: f pow2_def)
qed

definition feed_score :: "uuid \<Rightarrow> uuid option \<Rightarrow> uuid option \<Rightarrow> rat \<Rightarrow> score_row" where
  "feed_score i p m v = \<lparr>r_id = i, r_post_id = p, r_summary_id = m, r_value = Finite v, r_model = ''m'',
     r_created_at = 0, r_updated_at = 0\<rparr>"

definition feed_db :: "rat \<Rightarrow> rat \<Rightarrow> reaction_row list \<Rightarrow> database" where
  "feed_db v3 v5 rs = empty_db\<lparr>posts := [sample_post 3, sample_post 5], summaries := [sample_summary 7 None],
     scores := [feed_score 1 (Some 3) None v3, feed_score 2 (Some 5) None v5, feed_score 4 None (Some 7) 1],
     post_reactions := rs\<rparr>"

definition like_of :: "uuid \<Rightarrow> reaction_row" where
  "like_of p = \<lparr>x_id = 1, x_post_id = p, x_signal = ''like'', x_created_at = 0, x_updated_at = 0\<rparr>"

definition any_feed :: "int \<Rightarrow> FeedQuery" where
  "any_feed n = \<lparr>fq_From = None, fq_To = None, fq_MinScore = Finite 0, fq_PageSize = n, fq_PageToken = []\<rparr>"

lemma feed_db_ok_sample:
  assumes "representable (Finite v3)" and "representable (Finite v5)"
  shows "feed_db_ok (feed_db v3 v5 rs)"
proof -
  have "representable (Finite 1)" using rnd_of_int [of 1] by (simp add: representable_def)
  then show ?thesis using assms
    by (auto simp: feed_db_ok_def feed_db_def empty_db_def sample_post_def sample_summary_def feed_score_def
        post_ids_def summary_ids_def scores_unique_def one_key_def score_for_def same_entity_def)
qed

theorem RankedFeed_page_witness:
  "let (r, w') = RankedFeed decimal_ext fraction_text (any_feed 2) (quiet_world (feed_db 1 0 []))
   in committed w' = feed_db 1 0 [] \<and> (\<exists>res. r = Returns res)"
proof -
  obtain r w' where run: "RankedFeed decimal_ext fraction_text (any_feed 2) (quiet_world (feed_db 1 0 [])) = (r, w')"
    by (cases "RankedFeed decimal_ext fraction_text (any_feed 2) (quiet_world (feed_db 1 0 []))")
  from RankedFeed_page [OF _ run] show ?thesis by (auto simp: run)
qed

theorem feed_listing_complete_witness:
  "map (\<lambda>x. post_ID (fi_Post x)) (walk_pages (\<lambda>t. case fst (RankedFeed decimal_ext fraction_text (any_feed 1\<lparr>fq_PageToken := t\<rparr>)
       (quiet_world (feed_db 1 0 []))) of Returns (Inr p) \<Rightarrow> (Items p, NextPageToken p) | _ \<Rightarrow> ([], [])) (Suc 3) []) =
   [''3'', ''7'', ''5'']"
proof -
  have i: "uuid_string decimal_ext 3 = ''3''" "uuid_string decimal_ext 7 = ''7''" "uuid_string decimal_ext 5 = ''5''"
    by code_simp+
  have "representable (Finite 1)" "representable (Finite 0)"
    using rnd_of_int [of 1] rnd_of_int [of 0] by (simp_all add: representable_def)
  then have ok: "feed_ok (decimal_ext, fraction_text, any_feed 1, quiet_world (feed_db 1 0 []))"
    by (simp add: feed_ok_def feed_db_ok_sample any_feed_def) (simp add: nothing_liked_def feed_db_def)
  have rows: "feed_rows (feed_db 1 0 []) = [post_feed_row (feed_db 1 0 []) (feed_score 1 (Some 3) None 1) (sample_post 3),
      post_feed_row (feed_db 1 0 []) (feed_score 2 (Some 5) None 0) (sample_post 5),
      digest_feed_row (feed_score 4 None (Some 7) 1) (sample_summary 7 None)]"
    by (simp add: feed_rows_def post_feed_rows_def digest_feed_rows_def feed_db_def empty_db_def feed_score_def
        sample_post_def sample_summary_def reaction_of_def or_empty_def)
  show ?thesis
    by (subst feed_listing_complete [OF ok])
      (simp_all add: rows feed_matches_def any_feed_def post_feed_row_def digest_feed_row_def feed_score_def sample_post_def
        sample_summary_def feed_cursor_def less_eq_scoreToken_def feed_item_def i Let_def)
qed

text \<open>A liked post of score 0 is lifted to 1/10, above one of score 1/16; the page of two ends with it.\<close>

lemma feed_like_hides_example:
  "let d = feed_db 0 (1 / 16) [like_of 3];
       y = post_feed_row d (feed_score 2 (Some 5) None (1 / 16)) (sample_post 5)
   in feed_matches (any_feed 2) y \<and> y \<in> set (feed_rows d) \<and>
      feed_item decimal_ext y \<notin> set (walk_pages (feed_page (decimal_ext, fraction_text, any_feed 2, quiet_world d)) 9 [])"
proof -
  define d where "d = feed_db 0 (1 / 16) [like_of 3]"
  define r3 where "r3 = post_feed_row d (feed_score 1 (Some 3) None 0) (sample_post 3)"
  define r5 where "r5 = post_feed_row d (feed_score 2 (Some 5) None (1 / 16)) (sample_post 5)"
  define r7 where "r7 = digest_feed_row (feed_score 4 None (Some 7) 1) (sample_summary 7 None)"
  have repr: "representable (Finite 0)" "representable (Finite (1 / 16))"
    by (simp_all add: representable_def rnd_sixteenth) (simp add: rnd_def)
  have boost: "fadd (Finite 0) (rnd (1 / 10)) = Finite (3602879701896397 / 36028797018963968)"
    by (simp add: rnd_tenth rnd_tenth_again)
  have a: "answered (decimal_ext, fraction_text, any_feed 2, quiet_world d)"
    using repr by (simp add: answered_def d_def feed_db_ok_sample any_feed_def)
  have sel: "q_id r3 = 3" "q_id r5 = 5" "q_id r7 = 7" "q_value r3 = Finite 0" "q_value r5 = Finite (1 / 16)"
    "q_value r7 = Finite 1" "q_effective_value r3 = Finite (3602879701896397 / 36028797018963968)"
    "q_effective_value r5 = Finite (1 / 16)" "q_effective_value r7 = Finite 1"
    by (simp_all add: r3_def r5_def r7_def post_feed_row_def digest_feed_row_def feed_score_def sample_post_def
        sample_summary_def effective_value_def reaction_of_def d_def feed_db_def like_of_def boost Let_def)
  have rows: "feed_rows d = [r3, r5, r7]"
    by (simp add: feed_rows_def post_feed_rows_def digest_feed_rows_def r3_def r5_def r7_def) 
      (simp add: d_def feed_db_def empty_db_def feed_score_def sample_post_def sample_summary_def reaction_of_def
        or_empty_def like_of_def)
  have "ranked_rows (any_feed 2) None d = [r7, r3, r5]"
    by (simp add: ranked_rows_def rows feed_matches_def any_feed_def sel feed_rank_def less_eq_scoreToken_def)
  then have "feed_matches (any_feed 2) r5 \<and> r5 \<in> set (feed_rows (committed (quiet_world d))) \<and>
      feed_item decimal_ext r5 \<notin> set (walk_pages (feed_page (decimal_ext, fraction_text, any_feed 2, quiet_world d)) 9 [])"
    by (intro feed_like_hides [OF a refl refl])
      (simp_all add: feed_page_size_def any_feed_def clamp_page_size_def minPageSize_def maxPageSize_def sel)
  then show ?thesis by (simp add: Let_def d_def [symmetric] r5_def [symmetric])
qed

theorem React_last_write_wins_witness:
  "let (r, w') = React decimal_ext ''3'' ''dislike'' (quiet_world (feed_db 1 0 [like_of 3]))
   in r = Inr () \<and> reaction_of 3 (committed w') = Some ''dislike'' \<and> reactions_ok (committed w')"
proof -
  have three: "parse_uuid decimal_ext ''3'' = Some 3" by code_simp
  obtain r w' where run: "React decimal_ext ''3'' ''dislike'' (quiet_world (feed_db 1 0 [like_of 3])) = (r, w')"
    by (cases "React decimal_ext ''3'' ''dislike'' (quiet_world (feed_db 1 0 [like_of 3]))")
  have ok: "reactions_ok (feed_db 1 0 [like_of 3])"
    by (simp add: reactions_ok_def feed_db_def like_of_def post_ids_def sample_post_def)
  have r: "r = Inr ()"
    using run by (auto simp: React_def reaction_repo_Upsert_def parse_id_def three new_uuid_def exec_direct_outside
        exec_tx_outside_fault_free write_stmt_def upsert_reaction_def feed_db_def like_of_def Let_def)
  from React_last_write_wins [OF _ _ run] ok r three show ?thesis by (auto simp: run reacted_def)
qed

end
