(* ===== verification/Api_Base.thy ===== *)
theory Api_Base
  imports Summary_Scheduling Interest Feed
begin

text \<open>
  The ground of the gRPC services (\<open>internal/service/*\<close>): the messages of \<open>api/feedium\<close>, the
  status errors, and the two conversions every handler makes, of a use case's result and of its
  error. Enumerations are open: a client may send any number.
\<close>

section \<open>Status errors\<close>

text \<open>The codes of gRPC. The handlers use a few of them, the transport any.\<close>

datatype code =
    OK | Canceled | Unknown | InvalidArgument | DeadlineExceeded | NotFound | AlreadyExists
  | PermissionDenied | ResourceExhausted | FailedPrecondition | Aborted | OutOfRange
  | Unimplemented | Internal | Unavailable | DataLoss | Unauthenticated

record status =
  status_code :: code
  status_message :: string

datatype ErrorReason =
    SOURCE_NOT_FOUND | SOURCE_INVALID_TYPE | SOURCE_INVALID_CONFIG | SOURCE_TYPE_IMMUTABLE
  | POST_NOT_FOUND | POST_INVALID_ARGUMENT | POST_SOURCE_NOT_FOUND | POST_ALREADY_EXISTS
  | SUMMARIZE_SELF_CONTAINED_SOURCE | SUMMARY_NOT_FOUND | SUMMARY_EVENT_NOT_FOUND
  | INTEREST_NOT_FOUND | INTEREST_INVALID_ARGUMENT | INVALID_THRESHOLD

fun reason_name :: "ErrorReason \<Rightarrow> string" where
  "reason_name SOURCE_NOT_FOUND = ''ERROR_REASON_SOURCE_NOT_FOUND''"
| "reason_name SOURCE_INVALID_TYPE = ''ERROR_REASON_SOURCE_INVALID_TYPE''"
| "reason_name SOURCE_INVALID_CONFIG = ''ERROR_REASON_SOURCE_INVALID_CONFIG''"
| "reason_name SOURCE_TYPE_IMMUTABLE = ''ERROR_REASON_SOURCE_TYPE_IMMUTABLE''"
| "reason_name POST_NOT_FOUND = ''ERROR_REASON_POST_NOT_FOUND''"
| "reason_name POST_INVALID_ARGUMENT = ''ERROR_REASON_POST_INVALID_ARGUMENT''"
| "reason_name POST_SOURCE_NOT_FOUND = ''ERROR_REASON_POST_SOURCE_NOT_FOUND''"
| "reason_name POST_ALREADY_EXISTS = ''ERROR_REASON_POST_ALREADY_EXISTS''"
| "reason_name SUMMARIZE_SELF_CONTAINED_SOURCE = ''ERROR_REASON_SUMMARIZE_SELF_CONTAINED_SOURCE''"
| "reason_name SUMMARY_NOT_FOUND = ''ERROR_REASON_SUMMARY_NOT_FOUND''"
| "reason_name SUMMARY_EVENT_NOT_FOUND = ''ERROR_REASON_SUMMARY_EVENT_NOT_FOUND''"
| "reason_name INTEREST_NOT_FOUND = ''ERROR_REASON_INTEREST_NOT_FOUND''"
| "reason_name INTEREST_INVALID_ARGUMENT = ''ERROR_REASON_INTEREST_INVALID_ARGUMENT''"
| "reason_name INVALID_THRESHOLD = ''ERROR_REASON_INVALID_THRESHOLD''"

declare reason_name.simps [simp del]

definition reason_status :: "code \<Rightarrow> ErrorReason \<Rightarrow> status" where
  "reason_status c r = \<lparr>status_code = c, status_message = reason_name r\<rparr>"

definition internal_error :: status where
  "internal_error = \<lparr>status_code = Internal, status_message = ''internal error''\<rparr>"

text \<open>A handler answers with a status error or a message.\<close>

type_synonym 'a reply = "status + 'a"

definition reply :: "(error \<Rightarrow> status) \<Rightarrow> ('a \<Rightarrow> 'b) \<Rightarrow> 'a result \<times> world \<Rightarrow> 'b reply \<times> world" where
  "reply on_error on_value r =
     (case r of (Inl e, w) \<Rightarrow> (Inl (on_error e), w) | (Inr x, w) \<Rightarrow> (Inr (on_value x), w))"

section \<open>Timestamps\<close>

text \<open>
  \<open>timestamppb.New\<close> and \<open>Timestamp.AsTime\<close> of the protobuf library: seconds and nanoseconds of
  an instant. The documented behaviour the services rely on: the instant comes back, and an
  absent message reads as the Unix epoch.
\<close>

record timestamp =
  ts_Seconds :: "64 word"
  ts_Nanos :: "32 word"

record pb =
  timestamp_New :: "time \<Rightarrow> timestamp"
  AsTime :: "timestamp option \<Rightarrow> time"

definition go_instant :: "time \<Rightarrow> bool" where
  "go_instant t \<longleftrightarrow> \<bar>t\<bar> < 2 ^ 62 * second"

definition pb_laws :: "pb \<Rightarrow> bool" where
  "pb_laws B \<longleftrightarrow> (\<forall>t. go_instant t \<longrightarrow> AsTime B (Some (timestamp_New B t)) = t) \<and> AsTime B None = 0"

definition seconds_nanos :: pb where
  "seconds_nanos = \<lparr>
     timestamp_New = (\<lambda>t. \<lparr>ts_Seconds = word_of_int (t div second), ts_Nanos = word_of_int (t mod second)\<rparr>),
     AsTime = (\<lambda>x. case x of None \<Rightarrow> 0 | Some ts \<Rightarrow> sint (ts_Seconds ts) * second + sint (ts_Nanos ts))\<rparr>"

lemma seconds_nanos_laws [simp]: "pb_laws seconds_nanos"
proof -
  have "sint (word_of_int (t div second) :: 64 word) * second + sint (word_of_int (t mod second) :: 32 word) = t"
    if "go_instant t" for t
  proof -
    have b: "- (2 ^ 63) \<le> t div second" "t div second < 2 ^ 63" using that by (auto simp: go_instant_def abs_less_iff)
    have "0 \<le> t mod second" "t mod second < second" by simp_all
    moreover have "(2::int) ^ 31 = 2147483648" by simp
    ultimately have "- (2 ^ 31) \<le> t mod second" "t mod second < 2 ^ 31" by linarith+
    moreover note b
    ultimately have "sint (word_of_int (t div second) :: 64 word) = t div second"
      "sint (word_of_int (t mod second) :: 32 word) = t mod second"
      by (simp_all add: sint_sbintrunc' signed_take_bit_int_eq_self)
    then show ?thesis by simp
  qed
  then show ?thesis by (simp add: pb_laws_def seconds_nanos_def)
qed

section \<open>Enumerations of the interface\<close>

datatype PbSourceType =
    SOURCE_TYPE_UNSPECIFIED | SOURCE_TYPE_TELEGRAM_CHANNEL | SOURCE_TYPE_TELEGRAM_GROUP
  | SOURCE_TYPE_RSS | SOURCE_TYPE_HTML | SOURCE_TYPE_OTHER "32 word"

datatype PbProcessingMode =
    PROCESSING_MODE_UNSPECIFIED | PROCESSING_MODE_SELF_CONTAINED | PROCESSING_MODE_CUMULATIVE

datatype PbSortField =
    POST_SORT_FIELD_UNSPECIFIED | POST_SORT_FIELD_PUBLISHED_AT | POST_SORT_FIELD_CREATED_AT
  | POST_SORT_FIELD_OTHER "32 word"

datatype PbSortDirection =
    SORT_DIRECTION_UNSPECIFIED | SORT_DIRECTION_DESC | SORT_DIRECTION_ASC | SORT_DIRECTION_OTHER "32 word"

datatype PbEventType =
    SUMMARY_EVENT_TYPE_UNSPECIFIED | SUMMARY_EVENT_TYPE_SUMMARIZE_POST | SUMMARY_EVENT_TYPE_SUMMARIZE_SOURCE

datatype PbEventStatus =
    SUMMARY_EVENT_STATUS_UNSPECIFIED | SUMMARY_EVENT_STATUS_PENDING | SUMMARY_EVENT_STATUS_PROCESSING
  | SUMMARY_EVENT_STATUS_COMPLETED | SUMMARY_EVENT_STATUS_FAILED | SUMMARY_EVENT_STATUS_EXPIRED

datatype PbFeedItemKind = FEED_ITEM_KIND_UNSPECIFIED | FEED_ITEM_KIND_POST | FEED_ITEM_KIND_DIGEST

section \<open>Errors of a service\<close>

text \<open>
  The contract of every \<open>mapDomainErrorToStatus\<close>: an error is never answered with \<open>OK\<close>, the
  message is one of the fixed texts of the interface, never a text of the error, and an error
  that wraps no sentinel of the domain is an internal one.
\<close>

definition signal_message :: string where
  "signal_message = ''signal must be '' @ [CHR 0x27] @ ''like'' @ [CHR 0x27] @ '' or '' @ [CHR 0x27] @ ''dislike'' @ [CHR 0x27]"

definition public_messages :: "string set" where
  "public_messages = range reason_name \<union>
     {''internal error'', ''failed to map response'', signal_message, ''unavailable''}"

definition no_sentinel :: "error \<Rightarrow> bool" where
  "no_sentinel e \<longleftrightarrow> (\<forall>s. \<not> errors_is e s)"

definition discreet :: "'a reply \<Rightarrow> bool" where
  "discreet r \<longleftrightarrow> (\<forall>s. r = Inl s \<longrightarrow> status_code s \<noteq> OK \<and> status_message s \<in> public_messages)"

locale service_errors =
  fixes on_error :: "error \<Rightarrow> status"
  assumes never_OK: "status_code (on_error e) \<noteq> OK"
    and fixed_text: "status_message (on_error e) \<in> public_messages"
    and unknown_internal: "no_sentinel e \<Longrightarrow> on_error e = internal_error"
begin

lemma reply_discreet: "discreet (fst (reply on_error f r))"
  by (auto simp: reply_def discreet_def never_OK fixed_text split: prod.split sum.split)

lemma reply_internal: "no_sentinel e \<Longrightarrow> fst (reply on_error f (Inl e, w)) = Inl internal_error"
  by (simp add: reply_def unknown_internal)

lemma reply_world: "snd (reply on_error f r) = snd r"
  by (auto simp: reply_def split: prod.split sum.split)

end

lemma reason_status_simps [simp]:
  "status_code (reason_status c r) = c" "status_message (reason_status c r) = reason_name r"
  "reason_name r \<in> public_messages"
  by (simp_all add: reason_status_def public_messages_def)

lemma internal_error_simps [simp]:
  "status_code internal_error = Internal" "status_message internal_error = ''internal error''"
  "''internal error'' \<in> public_messages" "''failed to map response'' \<in> public_messages"
  by (simp_all add: internal_error_def public_messages_def)

end
