(* ===== verification/Source_Service.thy ===== *)
theory Source_Service
  imports Api_Base
begin

text \<open>
  \<open>SourceService\<close> (\<open>internal/service/source/source.go\<close>): conversion of messages to calls of
  \<open>SourceUsecase\<close> and back.
\<close>

section \<open>Messages\<close>

text \<open>
  The members of the \<open>oneof\<close>; a member may hold a nil message, whose getters return zero
  values. The \<open>oneof\<close> itself may be unset.
\<close>

datatype PbConfig =
    SourceConfig_TelegramChannel "(64 word \<times> string) option"
  | SourceConfig_TelegramGroup "(64 word \<times> string) option"
  | SourceConfig_Rss "string option"
  | SourceConfig_Html "string option"

record PbSource =
  pbs_Id :: string
  pbs_Type :: PbSourceType
  pbs_ProcessingMode :: PbProcessingMode
  pbs_Config :: "PbConfig option"
  pbs_CreatedAt :: timestamp
  pbs_UpdatedAt :: timestamp

record ListSourcesRequest =
  lsr_PageSize :: "32 word"
  lsr_PageToken :: string
  lsr_Type :: PbSourceType

section \<open>Conversions\<close>

fun source_mapProtoTypeToDomain :: "PbSourceType \<Rightarrow> SourceType" where
  "source_mapProtoTypeToDomain SOURCE_TYPE_TELEGRAM_CHANNEL = SourceTypeTelegramChannel"
| "source_mapProtoTypeToDomain SOURCE_TYPE_TELEGRAM_GROUP = SourceTypeTelegramGroup"
| "source_mapProtoTypeToDomain SOURCE_TYPE_RSS = SourceTypeRSS"
| "source_mapProtoTypeToDomain SOURCE_TYPE_HTML = SourceTypeHTML"
| "source_mapProtoTypeToDomain SOURCE_TYPE_UNSPECIFIED = SourceTypeOther []"
| "source_mapProtoTypeToDomain (SOURCE_TYPE_OTHER _) = SourceTypeOther []"

fun source_mapDomainTypeToProto :: "SourceType \<Rightarrow> PbSourceType" where
  "source_mapDomainTypeToProto SourceTypeTelegramChannel = SOURCE_TYPE_TELEGRAM_CHANNEL"
| "source_mapDomainTypeToProto SourceTypeTelegramGroup = SOURCE_TYPE_TELEGRAM_GROUP"
| "source_mapDomainTypeToProto SourceTypeRSS = SOURCE_TYPE_RSS"
| "source_mapDomainTypeToProto SourceTypeHTML = SOURCE_TYPE_HTML"
| "source_mapDomainTypeToProto (SourceTypeOther _) = SOURCE_TYPE_UNSPECIFIED"

fun source_mapDomainModeToProto :: "ProcessingMode \<Rightarrow> PbProcessingMode" where
  "source_mapDomainModeToProto ProcessingModeSelfContained = PROCESSING_MODE_SELF_CONTAINED"
| "source_mapDomainModeToProto ProcessingModeCumulative = PROCESSING_MODE_CUMULATIVE"
| "source_mapDomainModeToProto (ProcessingModeOther _) = PROCESSING_MODE_UNSPECIFIED"

text \<open>The getters of a possibly nil member message.\<close>

definition tg_parts :: "(64 word \<times> string) option \<Rightarrow> 64 word \<times> string" where
  "tg_parts m = (case m of None \<Rightarrow> (0, []) | Some p \<Rightarrow> p)"

text \<open>The first option is the nil message, the second the unset \<open>oneof\<close>.\<close>

definition source_mapProtoConfigToDomain :: "SourceType \<Rightarrow> PbConfig option option \<Rightarrow> error + SourceConfig" where
  "source_mapProtoConfigToDomain sourceType protoConfig =
     (case protoConfig of
        None \<Rightarrow> Inl (Text ''config is nil'')
      | Some cfg \<Rightarrow>
     (case sourceType of
        SourceTypeTelegramChannel \<Rightarrow>
          (case cfg of Some (SourceConfig_TelegramChannel m) \<Rightarrow>
             Inr (TelegramChannelConfig (fst (tg_parts m)) (snd (tg_parts m)))
           | _ \<Rightarrow> Inl (Text ''expected telegram_channel config''))
      | SourceTypeTelegramGroup \<Rightarrow>
          (case cfg of Some (SourceConfig_TelegramGroup m) \<Rightarrow>
             Inr (TelegramGroupConfig (fst (tg_parts m)) (snd (tg_parts m)))
           | _ \<Rightarrow> Inl (Text ''expected telegram_group config''))
      | SourceTypeRSS \<Rightarrow>
          (case cfg of Some (SourceConfig_Rss u) \<Rightarrow> Inr (RSSConfig (or_empty u))
           | _ \<Rightarrow> Inl (Text ''expected rss config''))
      | SourceTypeHTML \<Rightarrow>
          (case cfg of Some (SourceConfig_Html u) \<Rightarrow> Inr (HTMLConfig (or_empty u))
           | _ \<Rightarrow> Inl (Text ''expected html config''))
      | SourceTypeOther s \<Rightarrow> Inl (Text (''unknown source type: '' @ s))))"

definition source_mapDomainConfigToProto :: "SourceType \<Rightarrow> SourceConfig option \<Rightarrow> error + PbConfig option" where
  "source_mapDomainConfigToProto sourceType domainConfig =
     (case sourceType of
        SourceTypeTelegramChannel \<Rightarrow>
          (case domainConfig of Some (TelegramChannelConfig tg u) \<Rightarrow>
             Inr (Some (SourceConfig_TelegramChannel (Some (tg, u))))
           | _ \<Rightarrow> Inl (Text ''expected TelegramChannelConfig''))
      | SourceTypeTelegramGroup \<Rightarrow>
          (case domainConfig of Some (TelegramGroupConfig tg u) \<Rightarrow>
             Inr (Some (SourceConfig_TelegramGroup (Some (tg, u))))
           | _ \<Rightarrow> Inl (Text ''expected TelegramGroupConfig''))
      | SourceTypeRSS \<Rightarrow>
          (case domainConfig of Some (RSSConfig u) \<Rightarrow> Inr (Some (SourceConfig_Rss (Some u)))
           | _ \<Rightarrow> Inl (Text ''expected RSSConfig''))
      | SourceTypeHTML \<Rightarrow>
          (case domainConfig of Some (HTMLConfig u) \<Rightarrow> Inr (Some (SourceConfig_Html (Some u)))
           | _ \<Rightarrow> Inl (Text ''expected HTMLConfig''))
      | SourceTypeOther s \<Rightarrow> Inl (Text (''unknown source type: '' @ s)))"

definition source_mapDomainToProto :: "pb \<Rightarrow> Source \<Rightarrow> error + PbSource" where
  "source_mapDomainToProto B s =
     (case source_mapDomainConfigToProto (src_Type s) (src_Config s) of
        Inl e \<Rightarrow> Inl (errorf_ctx ''map config'' e)
      | Inr cfg \<Rightarrow>
          Inr \<lparr>pbs_Id = src_ID s, pbs_Type = source_mapDomainTypeToProto (src_Type s),
               pbs_ProcessingMode = source_mapDomainModeToProto (src_ProcessingMode s), pbs_Config = cfg,
               pbs_CreatedAt = timestamp_New B (src_CreatedAt s), pbs_UpdatedAt = timestamp_New B (src_UpdatedAt s)\<rparr>)"

definition source_mapDomainErrorToStatus :: "error \<Rightarrow> status" where
  "source_mapDomainErrorToStatus e =
     (if errors_is e ErrSourceNotFound then reason_status NotFound SOURCE_NOT_FOUND
      else if errors_is e ErrInvalidSourceType then reason_status InvalidArgument SOURCE_INVALID_TYPE
      else if errors_is e ErrInvalidConfig then reason_status InvalidArgument SOURCE_INVALID_CONFIG
      else if errors_is e ErrTypeImmutable then reason_status InvalidArgument SOURCE_TYPE_IMMUTABLE
      else internal_error)"

interpretation source_errors: service_errors source_mapDomainErrorToStatus
  by unfold_locales (auto simp: source_mapDomainErrorToStatus_def no_sentinel_def)

section \<open>Handlers\<close>

definition failed_response :: status where
  "failed_response = \<lparr>status_code = Internal, status_message = ''failed to map response''\<rparr>"

text \<open>The tail every handler with a source in its answer has.\<close>

definition source_reply :: "pb \<Rightarrow> Source result \<times> world \<Rightarrow> PbSource reply \<times> world" where
  "source_reply B r =
     (case r of
        (Inl e, w) \<Rightarrow> (Inl (source_mapDomainErrorToStatus e), w)
      | (Inr s, w) \<Rightarrow>
          (case source_mapDomainToProto B s of
             Inl _ \<Rightarrow> (Inl failed_response, w)
           | Inr p \<Rightarrow> (Inr p, w)))"

definition V1CreateSource ::
  "pb \<Rightarrow> ext \<Rightarrow> PbSourceType \<Rightarrow> PbConfig option option \<Rightarrow> world \<Rightarrow> PbSource reply \<times> world" where
  "V1CreateSource B E reqType reqConfig w =
     (let sourceType = source_mapProtoTypeToDomain reqType in
      case source_mapProtoConfigToDomain sourceType reqConfig of
        Inl _ \<Rightarrow> (Inl (reason_status InvalidArgument SOURCE_INVALID_CONFIG), w)
      | Inr cfg \<Rightarrow> source_reply B (SourceUsecase_Create E sourceType (Some cfg) w))"

definition V1UpdateSource ::
  "pb \<Rightarrow> ext \<Rightarrow> string \<Rightarrow> PbSourceType \<Rightarrow> PbConfig option option \<Rightarrow> world \<Rightarrow> PbSource reply \<times> world" where
  "V1UpdateSource B E ident reqType reqConfig w =
     (let sourceType = source_mapProtoTypeToDomain reqType in
      case source_mapProtoConfigToDomain sourceType reqConfig of
        Inl _ \<Rightarrow> (Inl (reason_status InvalidArgument SOURCE_INVALID_CONFIG), w)
      | Inr cfg \<Rightarrow> source_reply B (SourceUsecase_Update E ident sourceType (Some cfg) w))"

definition V1DeleteSource :: "ext \<Rightarrow> string \<Rightarrow> world \<Rightarrow> unit reply \<times> world" where
  "V1DeleteSource E ident w = reply source_mapDomainErrorToStatus id (SourceUsecase_Delete E ident w)"

definition V1GetSource :: "pb \<Rightarrow> ext \<Rightarrow> string \<Rightarrow> world \<Rightarrow> PbSource reply \<times> world" where
  "V1GetSource B E ident w = source_reply B (SourceUsecase_Get E ident w)"

definition V1ListSources ::
  "pb \<Rightarrow> ext \<Rightarrow> ListSourcesRequest \<Rightarrow> world \<Rightarrow> PbSource page reply \<times> world" where
  "V1ListSources B E req w =
     (let f = \<lparr>lsf_Type = (if lsr_Type req \<noteq> SOURCE_TYPE_UNSPECIFIED
                 then source_mapProtoTypeToDomain (lsr_Type req) else SourceTypeOther []),
               lsf_PageSize = sint (lsr_PageSize req), lsf_PageToken = lsr_PageToken req, lsf_ProcessingMode = None\<rparr>
      in case SourceUsecase_List E f w of
           (Inl e, w) \<Rightarrow> (Inl (source_mapDomainErrorToStatus e), w)
         | (Inr result, w) \<Rightarrow>
             (case map_results (source_mapDomainToProto B) (Items result) of
                Inl _ \<Rightarrow> (Inl failed_response, w)
              | Inr its \<Rightarrow> (Inr \<lparr>Items = its, NextPageToken = NextPageToken result\<rparr>, w)))"

section \<open>A created source is the one that is read\<close>

lemma failed_response_simps [simp]:
  "status_code failed_response = Internal" "status_message failed_response = ''failed to map response''"
  by (simp_all add: failed_response_def)

lemma source_reply_discreet: "discreet (fst (source_reply B r))"
  by (auto simp: source_reply_def discreet_def source_errors.never_OK source_errors.fixed_text
      split: prod.split sum.split)

lemma source_types_inverse:
  "ValidateSourceType t = None \<Longrightarrow> source_mapProtoTypeToDomain (source_mapDomainTypeToProto t) = t"
  by (cases t) (auto simp: ValidateSourceType_def)

text \<open>The message of a configuration, and back; a message with a nil member reads as one with zero fields.\<close>

fun filled :: "PbConfig \<Rightarrow> PbConfig" where
  "filled (SourceConfig_TelegramChannel m) = SourceConfig_TelegramChannel (Some (tg_parts m))"
| "filled (SourceConfig_TelegramGroup m) = SourceConfig_TelegramGroup (Some (tg_parts m))"
| "filled (SourceConfig_Rss u) = SourceConfig_Rss (Some (or_empty u))"
| "filled (SourceConfig_Html u) = SourceConfig_Html (Some (or_empty u))"

lemma config_messages_inverse:
  assumes "source_mapProtoConfigToDomain t (Some (Some p)) = Inr c"
  shows "source_mapDomainConfigToProto t (Some c) = Inr (Some (filled p))"
  using assms by (cases t; cases p) (auto simp: source_mapProtoConfigToDomain_def source_mapDomainConfigToProto_def)

lemma config_message_set: "source_mapProtoConfigToDomain t q = Inr c \<Longrightarrow> \<exists>p. q = Some (Some p)"
  by (auto simp: source_mapProtoConfigToDomain_def split: option.splits SourceType.splits)

text \<open>
  A source created through the interface is the one that is read back: a request whose
  type and configuration are valid (and whose Telegram identifier has at most 53 bits) is
  answered with a source of that type and configuration under a fresh identifier, and reading
  that identifier gives the same message.
\<close>

lemma V1CreateSource_V1GetSource:
  assumes "ext_laws E" and "fault_free w"
    and "source_mapProtoConfigToDomain (source_mapProtoTypeToDomain ty) (Some (Some p)) = Inr c"
    and "ValidateSourceConfig E (source_mapProtoTypeToDomain ty) (Some c) = None" and "exact_tg c"
    and "fresh_ids w 0 \<notin> source_ids (committed w)"
  shows "\<exists>s w'. V1CreateSource B E ty (Some (Some p)) w = (Inr s, w') \<and>
    pbs_Id s = uuid_string E (fresh_ids w 0) \<and> pbs_Type s = ty \<and> pbs_Config s = Some (filled p) \<and>
    fst (V1GetSource B E (pbs_Id s) w') = Inr s"
proof -
  let ?t = "source_mapProtoTypeToDomain ty"
  have t: "ValidateSourceType ?t = None" "source_mapDomainTypeToProto ?t = ty"
    using assms(3) by (cases ty; simp add: source_mapProtoConfigToDomain_def ValidateSourceType_def)+
  from SourceUsecase_Create_Get [OF assms(1,2) t(1) assms(4-6)] obtain s w' where
    s: "SourceUsecase_Create E ?t (Some c) w = (Inr s, w')" "src_ID s = uuid_string E (fresh_ids w 0)"
      "src_Type s = ?t" "src_Config s = Some c" "fst (SourceUsecase_Get E (src_ID s) w') = Inr s" by blast
  obtain w2 where g: "SourceUsecase_Get E (src_ID s) w' = (Inr s, w2)"
    using s(5) by (metis prod.collapse)
  have p: "source_mapDomainConfigToProto ?t (Some c) = Inr (Some (filled p))"
    by (rule config_messages_inverse [OF assms(3)])
  then obtain m where m: "source_mapDomainToProto B s = Inr m" "pbs_Id m = src_ID s" "pbs_Type m = ty"
    "pbs_Config m = Some (filled p)"
    using s(3,4) t(2) by (simp add: source_mapDomainToProto_def)
  show ?thesis
    using s(1,2) g m assms(3) by (auto simp: V1CreateSource_def V1GetSource_def source_reply_def Let_def)
qed

lemma V1CreateSource_V1GetSource_example:
  "\<exists>s w'. V1CreateSource seconds_nanos decimal_ext SOURCE_TYPE_TELEGRAM_GROUP
       (Some (Some (SourceConfig_TelegramGroup (Some (4242, ''golang''))))) (quiet_world empty_db) = (Inr s, w') \<and>
    pbs_Id s = uuid_string decimal_ext (fresh_ids (quiet_world empty_db) 0) \<and>
    pbs_Type s = SOURCE_TYPE_TELEGRAM_GROUP \<and>
    pbs_Config s = Some (filled (SourceConfig_TelegramGroup (Some (4242, ''golang'')))) \<and>
    fst (V1GetSource seconds_nanos decimal_ext (pbs_Id s) w') = Inr s"
  by (rule V1CreateSource_V1GetSource [where c = "TelegramGroupConfig 4242 ''golang''"])
    (simp_all add: fault_free_def source_mapProtoConfigToDomain_def tg_parts_def ValidateSourceConfig_def
      source_ids_def empty_db_def)

end
