(* ===== verification/Services.thy ===== *)
theory Services
  imports Source_Service
begin

text \<open>
  The remaining gRPC services: posts (\<open>internal/service/post/post.go\<close>), summaries
  (\<open>internal/service/summary/summary.go\<close>), interests (\<open>internal/service/interest/interest.go\<close>)
  and the feed (\<open>internal/service/feed/feed.go\<close>).
\<close>

section \<open>Posts\<close>

record PbPost =
  pbp_Id :: string
  pbp_SourceId :: string
  pbp_SourceType :: PbSourceType
  pbp_ExternalId :: string
  pbp_PublishedAt :: timestamp
  pbp_Author :: "string option"
  pbp_Text :: string
  pbp_Metadata :: metadata
  pbp_CreatedAt :: timestamp
  pbp_UpdatedAt :: timestamp

record PostRequest =
  pr_ExternalId :: string
  pr_Text :: string
  pr_PublishedAt :: "timestamp option"
  pr_Author :: "string option"
  pr_Metadata :: metadata

record ListPostsRequest =
  lpr_SourceId :: string
  lpr_PageSize :: "32 word"
  lpr_PageToken :: string
  lpr_OrderBy :: PbSortField
  lpr_OrderDir :: PbSortDirection

fun post_mapDomainTypeToProto :: "SourceType \<Rightarrow> PbSourceType" where
  "post_mapDomainTypeToProto SourceTypeTelegramChannel = SOURCE_TYPE_TELEGRAM_CHANNEL"
| "post_mapDomainTypeToProto SourceTypeTelegramGroup = SOURCE_TYPE_TELEGRAM_GROUP"
| "post_mapDomainTypeToProto SourceTypeRSS = SOURCE_TYPE_RSS"
| "post_mapDomainTypeToProto SourceTypeHTML = SOURCE_TYPE_HTML"
| "post_mapDomainTypeToProto (SourceTypeOther _) = SOURCE_TYPE_UNSPECIFIED"

fun mapProtoSortFieldToDomain :: "PbSortField \<Rightarrow> SortField" where
  "mapProtoSortFieldToDomain POST_SORT_FIELD_PUBLISHED_AT = SortByPublishedAt"
| "mapProtoSortFieldToDomain POST_SORT_FIELD_CREATED_AT = SortByCreatedAt"
| "mapProtoSortFieldToDomain POST_SORT_FIELD_UNSPECIFIED = SortByPublishedAt"
| "mapProtoSortFieldToDomain (POST_SORT_FIELD_OTHER _) = SortByPublishedAt"

fun mapProtoSortDirectionToDomain :: "PbSortDirection \<Rightarrow> SortDirection" where
  "mapProtoSortDirectionToDomain SORT_DIRECTION_ASC = SortAsc"
| "mapProtoSortDirectionToDomain SORT_DIRECTION_DESC = SortDesc"
| "mapProtoSortDirectionToDomain SORT_DIRECTION_UNSPECIFIED = SortDesc"
| "mapProtoSortDirectionToDomain (SORT_DIRECTION_OTHER _) = SortDesc"

definition post_mapDomainToProto :: "pb \<Rightarrow> Post \<Rightarrow> PbPost" where
  "post_mapDomainToProto B p =
     \<lparr>pbp_Id = post_ID p, pbp_SourceId = si_ID (post_Source p),
      pbp_SourceType = post_mapDomainTypeToProto (si_Type (post_Source p)), pbp_ExternalId = post_ExternalID p,
      pbp_PublishedAt = timestamp_New B (post_PublishedAt p), pbp_Author = post_Author p, pbp_Text = post_Text p,
      pbp_Metadata = post_Metadata p, pbp_CreatedAt = timestamp_New B (post_CreatedAt p),
      pbp_UpdatedAt = timestamp_New B (post_UpdatedAt p)\<rparr>"

definition post_mapDomainErrorToStatus :: "error \<Rightarrow> status" where
  "post_mapDomainErrorToStatus e =
     (if errors_is e ErrPostNotFound then reason_status NotFound POST_NOT_FOUND
      else if errors_is e ErrPostInvalidArgument then reason_status InvalidArgument POST_INVALID_ARGUMENT
      else if errors_is e ErrPostSourceNotFound then reason_status NotFound POST_SOURCE_NOT_FOUND
      else if errors_is e ErrPostAlreadyExists then reason_status AlreadyExists POST_ALREADY_EXISTS
      else internal_error)"

interpretation post_errors: service_errors post_mapDomainErrorToStatus
  by unfold_locales (auto simp: post_mapDomainErrorToStatus_def no_sentinel_def)

text \<open>A nil map becomes an empty one.\<close>

definition default_metadata :: "metadata \<Rightarrow> metadata" where
  "default_metadata m = (case m of None \<Rightarrow> Some [] | Some kvs \<Rightarrow> Some kvs)"

definition V1CreatePost :: "pb \<Rightarrow> ext \<Rightarrow> string \<Rightarrow> PostRequest \<Rightarrow> world \<Rightarrow> PbPost reply \<times> world" where
  "V1CreatePost B E sourceId req w =
     reply post_mapDomainErrorToStatus (post_mapDomainToProto B)
       (PostUsecase_Create E sourceId (pr_ExternalId req) (pr_Text req) (AsTime B (pr_PublishedAt req))
          (pr_Author req) (default_metadata (pr_Metadata req)) w)"

definition V1UpdatePost :: "pb \<Rightarrow> ext \<Rightarrow> string \<Rightarrow> PostRequest \<Rightarrow> world \<Rightarrow> PbPost reply \<times> world" where
  "V1UpdatePost B E ident req w =
     reply post_mapDomainErrorToStatus (post_mapDomainToProto B)
       (PostUsecase_Update E ident (pr_ExternalId req) (pr_Text req) (AsTime B (pr_PublishedAt req))
          (pr_Author req) (default_metadata (pr_Metadata req)) w)"

definition V1DeletePost :: "ext \<Rightarrow> string \<Rightarrow> world \<Rightarrow> unit reply \<times> world" where
  "V1DeletePost E ident w = reply post_mapDomainErrorToStatus id (PostUsecase_Delete E ident w)"

definition V1GetPost :: "pb \<Rightarrow> ext \<Rightarrow> string \<Rightarrow> world \<Rightarrow> PbPost reply \<times> world" where
  "V1GetPost B E ident w = reply post_mapDomainErrorToStatus (post_mapDomainToProto B) (PostUsecase_Get E ident w)"

definition list_posts_filter :: "ListPostsRequest \<Rightarrow> ListPostsFilter" where
  "list_posts_filter req =
     \<lparr>lpf_SourceID = lpr_SourceId req, lpf_PageSize = sint (lpr_PageSize req), lpf_PageToken = lpr_PageToken req,
      lpf_OrderBy = mapProtoSortFieldToDomain (lpr_OrderBy req),
      lpf_OrderDir = mapProtoSortDirectionToDomain (lpr_OrderDir req),
      lpf_CreatedAfter = None, lpf_CreatedBefore = None\<rparr>"

definition map_page :: "('a \<Rightarrow> 'b) \<Rightarrow> 'a page \<Rightarrow> 'b page" where
  "map_page f p = \<lparr>Items = map f (Items p), NextPageToken = NextPageToken p\<rparr>"

definition V1ListPosts :: "pb \<Rightarrow> ext \<Rightarrow> ListPostsRequest \<Rightarrow> world \<Rightarrow> PbPost page reply \<times> world" where
  "V1ListPosts B E req w =
     reply post_mapDomainErrorToStatus (map_page (post_mapDomainToProto B)) (PostUsecase_List E (list_posts_filter req) w)"

section \<open>Summaries\<close>

record PbSummary =
  pbm_Id :: string
  pbm_PostId :: "string option"
  pbm_SourceId :: string
  pbm_Text :: string
  pbm_WordCount :: "32 word"
  pbm_CreatedAt :: timestamp

record PbSummaryEvent =
  pbe_Id :: string
  pbe_PostId :: "string option"
  pbe_SourceId :: string
  pbe_EventType :: PbEventType
  pbe_Status :: PbEventStatus
  pbe_SummaryId :: "string option"
  pbe_Error :: "string option"
  pbe_CreatedAt :: timestamp
  pbe_ProcessedAt :: "timestamp option"

fun mapEventTypeToProto :: "SummaryEventType \<Rightarrow> PbEventType" where
  "mapEventTypeToProto SummarizePost = SUMMARY_EVENT_TYPE_SUMMARIZE_POST"
| "mapEventTypeToProto SummarizeSource = SUMMARY_EVENT_TYPE_SUMMARIZE_SOURCE"

fun mapEventStatusToProto :: "EventStatus \<Rightarrow> PbEventStatus" where
  "mapEventStatusToProto Pending = SUMMARY_EVENT_STATUS_PENDING"
| "mapEventStatusToProto Processing = SUMMARY_EVENT_STATUS_PROCESSING"
| "mapEventStatusToProto Completed = SUMMARY_EVENT_STATUS_COMPLETED"
| "mapEventStatusToProto Failed = SUMMARY_EVENT_STATUS_FAILED"
| "mapEventStatusToProto Expired = SUMMARY_EVENT_STATUS_EXPIRED"

definition mapSummaryToProto :: "pb \<Rightarrow> Summary \<Rightarrow> PbSummary" where
  "mapSummaryToProto B m =
     \<lparr>pbm_Id = sum_ID m, pbm_PostId = sum_PostID m, pbm_SourceId = sum_SourceID m, pbm_Text = sum_Text m,
      pbm_WordCount = word_of_int (sum_WordCount m), pbm_CreatedAt = timestamp_New B (sum_CreatedAt m)\<rparr>"

definition mapSummaryEventToProto :: "pb \<Rightarrow> SummaryEvent \<Rightarrow> PbSummaryEvent" where
  "mapSummaryEventToProto B e =
     \<lparr>pbe_Id = se_ID e, pbe_PostId = se_PostID e, pbe_SourceId = se_SourceID e,
      pbe_EventType = mapEventTypeToProto (se_EventType e), pbe_Status = mapEventStatusToProto (se_Status e),
      pbe_SummaryId = se_SummaryID e, pbe_Error = se_Error e, pbe_CreatedAt = timestamp_New B (se_CreatedAt e),
      pbe_ProcessedAt = map_option (timestamp_New B) (se_ProcessedAt e)\<rparr>"

definition summary_mapDomainErrorToStatus :: "error \<Rightarrow> status" where
  "summary_mapDomainErrorToStatus e =
     (if errors_is e ErrSourceNotFound then reason_status NotFound SOURCE_NOT_FOUND
      else if errors_is e ErrSummaryNotFound then reason_status NotFound SUMMARY_NOT_FOUND
      else if errors_is e ErrSummaryEventNotFound then reason_status NotFound SUMMARY_EVENT_NOT_FOUND
      else if errors_is e ErrSummarizeSelfContainedSrc then reason_status InvalidArgument SUMMARIZE_SELF_CONTAINED_SOURCE
      else internal_error)"

interpretation summary_errors: service_errors summary_mapDomainErrorToStatus
  by unfold_locales (auto simp: summary_mapDomainErrorToStatus_def no_sentinel_def)

definition V1SummarizeSource :: "SummaryDeps \<Rightarrow> string \<Rightarrow> world \<Rightarrow> (string \<times> bool) reply \<times> world" where
  "V1SummarizeSource D sourceId w = reply summary_mapDomainErrorToStatus id (TriggerSourceSummarize D sourceId w)"

definition V1GetSummaryEvent :: "pb \<Rightarrow> SummaryDeps \<Rightarrow> string \<Rightarrow> world \<Rightarrow> PbSummaryEvent reply \<times> world" where
  "V1GetSummaryEvent B D ident w =
     reply summary_mapDomainErrorToStatus (mapSummaryEventToProto B) (SummaryUsecase_GetSummaryEvent D ident w)"

definition V1ListPostSummaries :: "pb \<Rightarrow> SummaryDeps \<Rightarrow> string \<Rightarrow> world \<Rightarrow> PbSummary list reply \<times> world" where
  "V1ListPostSummaries B D postId w =
     reply summary_mapDomainErrorToStatus (map (mapSummaryToProto B)) (SummaryUsecase_ListPostSummaries D postId w)"

text \<open>The page size goes through as it comes; the listing may panic on it.\<close>

definition V1ListSourceSummaries ::
  "pb \<Rightarrow> SummaryDeps \<Rightarrow> string \<Rightarrow> 32 word \<Rightarrow> string \<Rightarrow> world \<Rightarrow> PbSummary page reply outcome \<times> world" where
  "V1ListSourceSummaries B D sourceId pageSize pageToken w =
     (case SummaryUsecase_ListSourceSummaries D sourceId (sint pageSize) pageToken w of
        (Panics msg, w) \<Rightarrow> (Panics msg, w)
      | (Returns r, w) \<Rightarrow>
          (let (a, w) = reply summary_mapDomainErrorToStatus (map_page (mapSummaryToProto B)) (r, w) in (Returns a, w)))"

definition V1GetSummary :: "pb \<Rightarrow> SummaryDeps \<Rightarrow> string \<Rightarrow> world \<Rightarrow> PbSummary reply \<times> world" where
  "V1GetSummary B D ident w =
     reply summary_mapDomainErrorToStatus (mapSummaryToProto B) (SummaryUsecase_GetSummary D ident w)"

section \<open>Interests\<close>

record PbInterest =
  pbi_Id :: string
  pbi_Topic :: string
  pbi_Model :: string
  pbi_CreatedAt :: timestamp
  pbi_UpdatedAt :: timestamp

definition interest_mapDomainToProto :: "pb \<Rightarrow> Interest \<Rightarrow> PbInterest" where
  "interest_mapDomainToProto B v =
     \<lparr>pbi_Id = int_ID v, pbi_Topic = int_Topic v, pbi_Model = int_Model v,
      pbi_CreatedAt = timestamp_New B (int_CreatedAt v), pbi_UpdatedAt = timestamp_New B (int_UpdatedAt v)\<rparr>"

definition interest_mapDomainErrorToStatus :: "error \<Rightarrow> status" where
  "interest_mapDomainErrorToStatus e =
     (if errors_is e ErrInterestNotFound then reason_status NotFound INTEREST_NOT_FOUND
      else if errors_is e ErrInterestValidation then reason_status InvalidArgument INTEREST_INVALID_ARGUMENT
      else internal_error)"

interpretation interest_errors: service_errors interest_mapDomainErrorToStatus
  by unfold_locales (auto simp: interest_mapDomainErrorToStatus_def no_sentinel_def)

definition V1CreateInterest :: "pb \<Rightarrow> ext \<Rightarrow> string \<Rightarrow> string \<Rightarrow> world \<Rightarrow> PbInterest reply \<times> world" where
  "V1CreateInterest B E model topic w =
     reply interest_mapDomainErrorToStatus (interest_mapDomainToProto B) (InterestUsecase_Create E model topic w)"

definition V1UpdateInterest :: "pb \<Rightarrow> ext \<Rightarrow> string \<Rightarrow> string \<Rightarrow> string \<Rightarrow> world \<Rightarrow> PbInterest reply \<times> world" where
  "V1UpdateInterest B E model ident topic w =
     reply interest_mapDomainErrorToStatus (interest_mapDomainToProto B) (InterestUsecase_Update E model ident topic w)"

definition V1DeleteInterest :: "ext \<Rightarrow> string \<Rightarrow> world \<Rightarrow> unit reply \<times> world" where
  "V1DeleteInterest E ident w = reply interest_mapDomainErrorToStatus id (InterestUsecase_Delete E ident w)"

definition V1GetInterest :: "pb \<Rightarrow> ext \<Rightarrow> string \<Rightarrow> world \<Rightarrow> PbInterest reply \<times> world" where
  "V1GetInterest B E ident w =
     reply interest_mapDomainErrorToStatus (interest_mapDomainToProto B) (InterestUsecase_Get E ident w)"

definition V1ListInterests :: "pb \<Rightarrow> ext \<Rightarrow> 32 word \<Rightarrow> string \<Rightarrow> world \<Rightarrow> PbInterest page reply \<times> world" where
  "V1ListInterests B E pageSize pageToken w =
     reply interest_mapDomainErrorToStatus (map_page (interest_mapDomainToProto B))
       (InterestUsecase_List E \<lparr>lif_PageSize = sint pageSize, lif_PageToken = pageToken\<rparr> w)"

section \<open>The feed\<close>

record PbFeedItem =
  pbf_PostId :: string
  pbf_SourceId :: string
  pbf_Author :: string
  pbf_Text :: string
  pbf_PublishedAt :: timestamp
  pbf_Score :: float64
  pbf_Url :: string
  pbf_Reaction :: string
  pbf_Kind :: PbFeedItemKind

record ListFeedRequest =
  lfr_From :: "timestamp option"
  lfr_To :: "timestamp option"
  lfr_MinScore :: float64
  lfr_PageSize :: "32 word"
  lfr_PageToken :: string

fun mapFeedItemKind :: "FeedItemKind \<Rightarrow> PbFeedItemKind" where
  "mapFeedItemKind FeedItemKindPost = FEED_ITEM_KIND_POST"
| "mapFeedItemKind FeedItemKindDigest = FEED_ITEM_KIND_DIGEST"

definition feed_mapDomainErrorToStatus :: "error \<Rightarrow> status" where
  "feed_mapDomainErrorToStatus e =
     (if errors_is e ErrInvalidThreshold then reason_status InvalidArgument INVALID_THRESHOLD else internal_error)"

interpretation feed_errors: service_errors feed_mapDomainErrorToStatus
  by unfold_locales (auto simp: feed_mapDomainErrorToStatus_def no_sentinel_def)

definition feed_query :: "pb \<Rightarrow> ListFeedRequest \<Rightarrow> FeedQuery" where
  "feed_query B req =
     \<lparr>fq_From = (case lfr_From req of None \<Rightarrow> None | Some t \<Rightarrow> Some (AsTime B (Some t))),
      fq_To = (case lfr_To req of None \<Rightarrow> None | Some t \<Rightarrow> Some (AsTime B (Some t))),
      fq_MinScore = lfr_MinScore req, fq_PageSize = sint (lfr_PageSize req), fq_PageToken = lfr_PageToken req\<rparr>"

definition feed_item_message :: "pb \<Rightarrow> FeedItem \<Rightarrow> PbFeedItem" where
  "feed_item_message B x =
     \<lparr>pbf_PostId = post_ID (fi_Post x), pbf_SourceId = post_SourceID (fi_Post x),
      pbf_Author = or_empty (post_Author (fi_Post x)), pbf_Text = post_Text (fi_Post x),
      pbf_PublishedAt = timestamp_New B (post_PublishedAt (fi_Post x)), pbf_Score = fi_Score x,
      pbf_Url = fi_URL x, pbf_Reaction = fi_Reaction x, pbf_Kind = mapFeedItemKind (fi_Kind x)\<rparr>"

definition V1ListFeed ::
  "pb \<Rightarrow> ext \<Rightarrow> float_text \<Rightarrow> ListFeedRequest \<Rightarrow> world \<Rightarrow> PbFeedItem page reply outcome \<times> world" where
  "V1ListFeed B E F req w =
     (case RankedFeed E F (feed_query B req) w of
        (Panics msg, w) \<Rightarrow> (Panics msg, w)
      | (Returns r, w) \<Rightarrow>
          (let (a, w) = reply feed_mapDomainErrorToStatus (map_page (feed_item_message B)) (r, w) in (Returns a, w)))"

definition react_mapDomainErrorToStatus :: "error \<Rightarrow> status" where
  "react_mapDomainErrorToStatus e =
     (if errors_is e ErrInvalidSignal then \<lparr>status_code = InvalidArgument, status_message = signal_message\<rparr>
      else internal_error)"

interpretation react_errors: service_errors react_mapDomainErrorToStatus
  by unfold_locales (auto simp: react_mapDomainErrorToStatus_def no_sentinel_def public_messages_def)

definition V1ReactToPost :: "ext \<Rightarrow> string \<Rightarrow> string \<Rightarrow> world \<Rightarrow> unit reply \<times> world" where
  "V1ReactToPost E postId signal w = reply react_mapDomainErrorToStatus id (React E postId signal w)"

end
