(* ===== verification/Api.thy ===== *)
theory Api
  imports Services
begin

text \<open>
  The interface as a whole: every request the server registers (\<open>NewGRPCServer\<close> of
  \<open>internal/server/grpc.go\<close>) and its answer, and what holds of all of them.
\<close>

datatype api_request =
    CreateSource PbSourceType "PbConfig option option"
  | UpdateSource string PbSourceType "PbConfig option option"
  | DeleteSource string
  | GetSource string
  | ListSources ListSourcesRequest
  | CreatePost string PostRequest
  | UpdatePost string PostRequest
  | DeletePost string
  | GetPost string
  | ListPosts ListPostsRequest
  | SummarizeSourceNow string
  | GetSummaryEvent string
  | ListPostSummaries string
  | ListSourceSummaries string "32 word" string
  | GetSummary string
  | CreateInterest string
  | UpdateInterest string string
  | DeleteInterest string
  | GetInterest string
  | ListInterests "32 word" string
  | ListFeed ListFeedRequest
  | ReactToPost string string

datatype api_response =
    Done
  | SourceMsg PbSource | SourcesMsg "PbSource page"
  | PostMsg PbPost | PostsMsg "PbPost page"
  | TaskMsg "string \<times> bool" | EventMsg PbSummaryEvent
  | SummaryMsg PbSummary | SummaryListMsg "PbSummary list" | SummariesMsg "PbSummary page"
  | InterestMsg PbInterest | InterestsMsg "PbInterest page"
  | FeedMsg "PbFeedItem page"

text \<open>What the server was built with: libraries, use case dependencies, the embedding model.\<close>

record server =
  srv_pb :: pb
  srv_floats :: float_text
  srv_deps :: SummaryDeps
  srv_model :: string

definition answer :: "('a \<Rightarrow> api_response) \<Rightarrow> 'a reply \<times> world \<Rightarrow> api_response reply outcome \<times> world" where
  "answer c r = (case r of (x, w) \<Rightarrow> (Returns (map_sum id c x), w))"

definition answer_outcome :: "('a \<Rightarrow> api_response) \<Rightarrow> 'a reply outcome \<times> world \<Rightarrow> api_response reply outcome \<times> world" where
  "answer_outcome c r =
     (case r of (Panics m, w) \<Rightarrow> (Panics m, w) | (Returns x, w) \<Rightarrow> (Returns (map_sum id c x), w))"

fun serve :: "server \<Rightarrow> api_request \<Rightarrow> world \<Rightarrow> api_response reply outcome \<times> world" where
  "serve S (CreateSource t c) w = answer SourceMsg (V1CreateSource (srv_pb S) (dep_ext (srv_deps S)) t c w)"
| "serve S (UpdateSource i t c) w = answer SourceMsg (V1UpdateSource (srv_pb S) (dep_ext (srv_deps S)) i t c w)"
| "serve S (DeleteSource i) w = answer (\<lambda>_. Done) (V1DeleteSource (dep_ext (srv_deps S)) i w)"
| "serve S (GetSource i) w = answer SourceMsg (V1GetSource (srv_pb S) (dep_ext (srv_deps S)) i w)"
| "serve S (ListSources r) w = answer SourcesMsg (V1ListSources (srv_pb S) (dep_ext (srv_deps S)) r w)"
| "serve S (CreatePost s r) w = answer PostMsg (V1CreatePost (srv_pb S) (dep_ext (srv_deps S)) s r w)"
| "serve S (UpdatePost i r) w = answer PostMsg (V1UpdatePost (srv_pb S) (dep_ext (srv_deps S)) i r w)"
| "serve S (DeletePost i) w = answer (\<lambda>_. Done) (V1DeletePost (dep_ext (srv_deps S)) i w)"
| "serve S (GetPost i) w = answer PostMsg (V1GetPost (srv_pb S) (dep_ext (srv_deps S)) i w)"
| "serve S (ListPosts r) w = answer PostsMsg (V1ListPosts (srv_pb S) (dep_ext (srv_deps S)) r w)"
| "serve S (SummarizeSourceNow s) w = answer TaskMsg (V1SummarizeSource (srv_deps S) s w)"
| "serve S (GetSummaryEvent i) w = answer EventMsg (V1GetSummaryEvent (srv_pb S) (srv_deps S) i w)"
| "serve S (ListPostSummaries p) w = answer SummaryListMsg (V1ListPostSummaries (srv_pb S) (srv_deps S) p w)"
| "serve S (ListSourceSummaries s n t) w = answer_outcome SummariesMsg (V1ListSourceSummaries (srv_pb S) (srv_deps S) s n t w)"
| "serve S (GetSummary i) w = answer SummaryMsg (V1GetSummary (srv_pb S) (srv_deps S) i w)"
| "serve S (CreateInterest t) w = answer InterestMsg (V1CreateInterest (srv_pb S) (dep_ext (srv_deps S)) (srv_model S) t w)"
| "serve S (UpdateInterest i t) w = answer InterestMsg (V1UpdateInterest (srv_pb S) (dep_ext (srv_deps S)) (srv_model S) i t w)"
| "serve S (DeleteInterest i) w = answer (\<lambda>_. Done) (V1DeleteInterest (dep_ext (srv_deps S)) i w)"
| "serve S (GetInterest i) w = answer InterestMsg (V1GetInterest (srv_pb S) (dep_ext (srv_deps S)) i w)"
| "serve S (ListInterests n t) w = answer InterestsMsg (V1ListInterests (srv_pb S) (dep_ext (srv_deps S)) n t w)"
| "serve S (ListFeed r) w = answer_outcome FeedMsg (V1ListFeed (srv_pb S) (dep_ext (srv_deps S)) (srv_floats S) r w)"
| "serve S (ReactToPost p s) w = answer (\<lambda>_. Done) (V1ReactToPost (dep_ext (srv_deps S)) p s w)"

section \<open>Errors stay inside\<close>

lemma discreet_map: "discreet x \<Longrightarrow> discreet (map_sum id c x)"
  by (cases x) (auto simp: discreet_def)

lemma answer_discreet: "discreet (fst r) \<Longrightarrow> answer c r = (a, w) \<Longrightarrow> \<exists>x. a = Returns x \<and> discreet x"
  by (auto simp: answer_def discreet_map split: prod.splits)

text \<open>An answer that may panic, when the use case did not.\<close>

lemma answer_outcome_discreet:
  "(\<And>x. fst r = Returns x \<Longrightarrow> discreet x) \<Longrightarrow> answer_outcome c r = (Returns a, w) \<Longrightarrow> discreet a"
  by (auto simp: answer_outcome_def discreet_map split: prod.splits outcome.splits)

lemma source_handlers_discreet:
  "discreet (fst (V1CreateSource B E t c w))" "discreet (fst (V1UpdateSource B E i t c w))"
  "discreet (fst (V1DeleteSource E i w))" "discreet (fst (V1GetSource B E i w))" "discreet (fst (V1ListSources B E r w))"
proof -
  show "discreet (fst (V1CreateSource B E t c w))" "discreet (fst (V1UpdateSource B E i t c w))"
    by (auto simp: V1CreateSource_def V1UpdateSource_def source_reply_discreet Let_def split: sum.split)
      (auto simp: discreet_def)
  show "discreet (fst (V1DeleteSource E i w))" "discreet (fst (V1GetSource B E i w))"
    by (simp_all add: V1DeleteSource_def V1GetSource_def source_reply_discreet source_errors.reply_discreet)
  show "discreet (fst (V1ListSources B E r w))"
    by (auto simp: V1ListSources_def discreet_def source_errors.never_OK source_errors.fixed_text Let_def
        split: prod.split sum.split)
qed

lemma reply_handlers_discreet:
  "discreet (fst (V1CreatePost B E s pr w))" "discreet (fst (V1UpdatePost B E s pr w))" "discreet (fst (V1DeletePost E s w))"
  "discreet (fst (V1GetPost B E s w))" "discreet (fst (V1ListPosts B E lr w))"
  "discreet (fst (V1SummarizeSource D s w))" "discreet (fst (V1GetSummaryEvent B D s w))"
  "discreet (fst (V1ListPostSummaries B D s w))" "discreet (fst (V1GetSummary B D s w))"
  "discreet (fst (V1CreateInterest B E m s w))" "discreet (fst (V1UpdateInterest B E m s t w))"
  "discreet (fst (V1DeleteInterest E s w))" "discreet (fst (V1GetInterest B E s w))"
  "discreet (fst (V1ListInterests B E n s w))" "discreet (fst (V1ReactToPost E s t w))"
  by (simp_all add: V1CreatePost_def V1UpdatePost_def V1DeletePost_def V1GetPost_def V1ListPosts_def
      V1SummarizeSource_def V1GetSummaryEvent_def V1ListPostSummaries_def V1GetSummary_def V1CreateInterest_def
      V1UpdateInterest_def V1DeleteInterest_def V1GetInterest_def V1ListInterests_def V1ReactToPost_def
      post_errors.reply_discreet summary_errors.reply_discreet interest_errors.reply_discreet react_errors.reply_discreet)

lemma listing_handlers_discreet:
  "fst (V1ListSourceSummaries B D s n t w) = Returns x \<Longrightarrow> discreet x"
  "fst (V1ListFeed B E F r w) = Returns y \<Longrightarrow> discreet y"
proof -
  assume *: "fst (V1ListSourceSummaries B D s n t w) = Returns x"
  obtain u w1 where "SummaryUsecase_ListSourceSummaries D s (sint n) t w = (u, w1)" by fastforce
  with * show "discreet x"
    using summary_errors.reply_discreet [of "map_page (mapSummaryToProto B)" "(case u of Returns r \<Rightarrow> r, w1)"]
    by (cases u) (auto simp: V1ListSourceSummaries_def Let_def split: prod.splits)
next
  assume *: "fst (V1ListFeed B E F r w) = Returns y"
  obtain u w1 where "RankedFeed E F (feed_query B r) w = (u, w1)" by fastforce
  with * show "discreet y"
    using feed_errors.reply_discreet [of "map_page (feed_item_message B)" "(case u of Returns r \<Rightarrow> r, w1)"]
    by (cases u) (auto simp: V1ListFeed_def Let_def split: prod.splits)
qed

text \<open>The feed's page size is clamped, so that listing never panics.\<close>

lemma ListRanked_returns:
  assumes "1 \<le> fq_PageSize f"
  shows "\<exists>x. fst (ListRanked E F f w) = Returns x"
  using assms by (auto simp: ListRanked_def Let_def split: sum.split prod.split)

lemma V1ListFeed_returns: "\<exists>x. fst (V1ListFeed B E F r w) = Returns x"
proof -
  have "1 \<le> fq_PageSize (feed_query B r\<lparr>fq_PageSize := clamp_page_size (fq_PageSize (feed_query B r))\<rparr>)"
    using clamp_page_size_bounds by simp
  from ListRanked_returns [OF this, of E F w]
  have "\<exists>x. fst (RankedFeed E F (feed_query B r) w) = Returns x" by (auto simp: RankedFeed_def)
  then show ?thesis by (auto simp: V1ListFeed_def Let_def split: prod.split)
qed


section \<open>Walking a listing through the interface\<close>

lemma walk_pages_map:
  "walk_pages (\<lambda>t. (map f (fst (page t)), snd (page t))) n t = map f (walk_pages page n t)"
  by (induction n arbitrary: t) (auto split: prod.split)

text \<open>The pages a client sees: an error ends the walk.\<close>

definition api_page :: "'a page reply \<Rightarrow> 'a list \<times> string" where
  "api_page r = (case r of Inl _ \<Rightarrow> ([], []) | Inr p \<Rightarrow> (Items p, NextPageToken p))"

definition clamped_filter :: "ListPostsRequest \<Rightarrow> ListPostsFilter" where
  "clamped_filter req =
     (list_posts_filter req)\<lparr>lpf_PageSize := clamp_page_size (sint (lpr_PageSize req)), lpf_PageToken := []\<rparr>"

lemma V1ListPosts_page:
  assumes src: "lpr_SourceId req = [] \<or> parse_uuid E (lpr_SourceId req) \<noteq> None"
  shows "api_page (fst (V1ListPosts B E (req\<lparr>lpr_PageToken := t\<rparr>) w)) =
    (map (post_mapDomainToProto B) (fst (post_page (E, clamped_filter req, w) t)),
     snd (post_page (E, clamped_filter req, w) t))"
proof -
  have f: "(list_posts_filter (req\<lparr>lpr_PageToken := t\<rparr>))\<lparr>lpf_PageSize :=
      clamp_page_size (lpf_PageSize (list_posts_filter (req\<lparr>lpr_PageToken := t\<rparr>)))\<rparr> =
      (clamped_filter req)\<lparr>lpf_PageToken := t\<rparr>"
    by (simp add: list_posts_filter_def clamped_filter_def)
  have "mapProtoSortFieldToDomain (lpr_OrderBy req) \<in> {SortByPublishedAt, SortByCreatedAt}"
    "mapProtoSortDirectionToDomain (lpr_OrderDir req) \<in> {SortDesc, SortAsc}"
    by (cases "lpr_OrderBy req"; cases "lpr_OrderDir req"; simp)+
  then have "ValidateListPostsFilter E ((clamped_filter req)\<lparr>lpf_PageToken := t\<rparr>) = None"
    using src by (auto simp: ValidateListPostsFilter_def clamped_filter_def list_posts_filter_def)
  then have "PostUsecase_List E (list_posts_filter (req\<lparr>lpr_PageToken := t\<rparr>)) w =
      post_repo_List E ((clamped_filter req)\<lparr>lpf_PageToken := t\<rparr>) w"
    unfolding PostUsecase_List_def f Let_def by simp
  then show ?thesis
    by (auto simp: V1ListPosts_def reply_def api_page_def post_page_def map_page_def split: prod.split sum.split)
qed

text \<open>
  Walking the pages of \<open>V1ListPosts\<close> from the empty token, with any page size (it is
  clamped), any order field and direction, yields the message of every stored post of the
  source asked for (of every post, when none is), each exactly once and in the order asked for.
\<close>

lemma V1ListPosts_walk:
  assumes "ext_laws E" and "fault_free w"
    and "lpr_SourceId req = [] \<or> parse_uuid E (lpr_SourceId req) \<noteq> None"
    and "distinct (map p_id (posts (committed w)))" and "posts_have_sources (committed w)"
    and "length (posts (committed w)) \<le> fuel"
  shows "walk_pages (\<lambda>t. api_page (fst (V1ListPosts B E (req\<lparr>lpr_PageToken := t\<rparr>) w))) (Suc fuel) [] =
    map (post_mapDomainToProto B \<circ> post_value E (sources (committed w)))
      ((if mapProtoSortDirectionToDomain (lpr_OrderDir req) = SortDesc then rev else id)
        (sort_key (post_cursor (mapProtoSortFieldToDomain (lpr_OrderBy req)))
          (filter (\<lambda>p. lpr_SourceId req = [] \<or> Some (p_source_id p) = parse_uuid E (lpr_SourceId req))
            (posts (committed w)))))"
proof -
  let ?f = "clamped_filter req"
  have ok: "post_paging_ok (E, ?f, w)"
    using assms clamp_page_size_bounds by (simp add: post_paging_ok_def clamped_filter_def list_posts_filter_def)
  have sort: "getSortParams ?f =
      (mapProtoSortFieldToDomain (lpr_OrderBy req), mapProtoSortDirectionToDomain (lpr_OrderDir req) = SortDesc)"
    by (cases "lpr_OrderBy req") (simp_all add: getSortParams_def clamped_filter_def list_posts_filter_def)
  have match: "post_matches (filter_source E ?f) ?f =
      (\<lambda>p. lpr_SourceId req = [] \<or> Some (p_source_id p) = parse_uuid E (lpr_SourceId req))"
    using assms(3) by (auto simp: fun_eq_iff post_matches_def filter_source_def clamped_filter_def list_posts_filter_def)
  have "length (map (post_value E (sources (committed w))) (post_listing (E, ?f, w))) \<le> fuel"
    using le_trans [OF length_filter_le assms(6)] by (simp add: post_listing_def sort)
  from post_paging.walk_complete [OF ok, of fuel] this
  have "walk_pages (post_page (E, ?f, w)) (Suc fuel) [] =
      map (post_value E (sources (committed w))) (post_listing (E, ?f, w))" by simp
  then show ?thesis
    unfolding V1ListPosts_page [OF assms(3)] walk_pages_map
    by (simp add: post_listing_def sort keyset_rows_def after_cursor_def match del: walk_pages.simps)
qed

lemma V1ListPosts_walk_example:
  "walk_pages (\<lambda>t. api_page (fst (V1ListPosts seconds_nanos decimal_ext
       (\<lparr>lpr_SourceId = ''9'', lpr_PageSize = 0, lpr_PageToken = [], lpr_OrderBy = POST_SORT_FIELD_UNSPECIFIED,
         lpr_OrderDir = SORT_DIRECTION_ASC\<rparr>\<lparr>lpr_PageToken := t\<rparr>)
       (quiet_world (empty_db\<lparr>sources := [sample_source 9 SourceTypeRSS],
          posts := [listed_post 2 20, listed_post 1 10]\<rparr>))))) (Suc 2) [] =
   map (post_mapDomainToProto seconds_nanos \<circ> post_value decimal_ext [sample_source 9 SourceTypeRSS])
     [listed_post 1 10, listed_post 2 20]"
proof -
  have nine: "parse_uuid decimal_ext ''9'' = Some 9" by code_simp
  show ?thesis
    by (subst V1ListPosts_walk)
      (simp_all add: fault_free_def nine sample_source_def empty_db_def listed_post_def sample_post_def
        posts_have_sources_def source_ids_def post_cursor_def less_eq_cursor_def post_sort_value_def)
qed

end
