(* ===== verification/Collect.thy ===== *)
theory Collect
  imports Post_Usecase
begin

text \<open>
  \<open>CollectUsecase\<close> of \<open>internal/biz/collect.go\<close>: turning fetched material into posts through
  \<open>PostUsecase.Create\<close>. The fetcher of a source type is a parameter.
\<close>

definition create_item :: "ext \<Rightarrow> string \<Rightarrow> CollectedItem \<Rightarrow> world \<Rightarrow> Post result \<times> world" where
  "create_item E sourceID item w =
     PostUsecase_Create E sourceID (ci_ExternalID item) (ci_Text item) (ci_PublishedAt item)
       (ci_Author item) (ci_Metadata item) w"

fun collect_loop :: "ext \<Rightarrow> string \<Rightarrow> CollectedItem list \<Rightarrow> world \<Rightarrow> unit result \<times> world" where
  "collect_loop E sourceID [] w = (Inr (), w)"
| "collect_loop E sourceID (item # items) w =
     (case create_item E sourceID item w of
        (Inr _, w) \<Rightarrow> collect_loop E sourceID items w
      | (Inl createErr, w) \<Rightarrow>
          (if errors_is createErr ErrPostSourceNotFound then collect_loop E sourceID items w
           else (Inl (Wrap (''create post for source '' @ sourceID @ '' item '' @ ci_ExternalID item @ '': '')
                        createErr []), w)))"

definition CollectItems :: "ext \<Rightarrow> Source \<Rightarrow> CollectedItem list \<Rightarrow> world \<Rightarrow> unit result \<times> world" where
  "CollectItems E source items w = collect_loop E (src_ID source) (FilterTextItems items) w"

definition CollectSource ::
  "ext \<Rightarrow> (Source \<Rightarrow> world \<Rightarrow> CollectedItem list result \<times> world) \<Rightarrow> Source \<Rightarrow> world \<Rightarrow> unit result \<times> world" where
  "CollectSource E fetch source w =
     (case fetch source w of
        (Inl e, w) \<Rightarrow> (Inl (errorf_ctx (''fetch source '' @ src_ID source) e), w)
      | (Inr items, w) \<Rightarrow> CollectItems E source items w)"

section \<open>One item\<close>

lemma PostUsecase_Create_outside:
  assumes "open_tx w = None" and "PostUsecase_Create E s x text pub a m w = (r, w')"
  shows "open_tx w' = None"
proof -
  obtain g w1 where g: "source_repo_Get E s w = (g, w1)" by (cases "source_repo_Get E s w")
  have o: "open_tx w1 = None" using source_repo_Get_effect(1) [OF assms(1) g] .
  show ?thesis
  proof (cases "ValidateCreatePost E s x text pub = None \<and> (\<exists>src. g = Inr src)")
    case False
    then show ?thesis using assms g o
      by (cases g) (auto simp: PostUsecase_Create_def split: option.splits)
  next
    case True
    then obtain f w2 where "PostUsecase_Create E s x text pub a m w = InTx f w2" "open_tx w2 = None"
      using g o by (auto simp: PostUsecase_Create_def time_now_def new_uuid_def Let_def)
    with InTx_closes [of w2 f] assms(2) show ?thesis by (metis snd_conv)
  qed
qed

text \<open>What one creation does to the table of posts.\<close>

lemma create_item_effect:
  assumes E: "ext_laws E" and w: "open_tx w = None" and c: "create_item E sourceID item w = (r, w')"
  shows "open_tx w' = None"
    and "\<exists>new. posts (committed w') = posts (committed w) @ new \<and>
      (\<forall>p \<in> set new. parse_uuid E sourceID = Some (p_source_id p) \<and>
         p_external_id p = ci_ExternalID item \<and> p_text p = ci_Text item)"
    and "r = Inr saved \<Longrightarrow> \<exists>sid. parse_uuid E sourceID = Some sid \<and>
      (\<exists>p \<in> set (posts (committed w')). post_key sid (ci_ExternalID item) p)"
    and "parse_uuid E sourceID = Some sid \<Longrightarrow> \<exists>p \<in> set (posts (committed w)). post_key sid (ci_ExternalID item) p \<Longrightarrow>
      committed w' = committed w"
proof -
  note c' = c [unfolded create_item_def]
  show "open_tx w' = None" by (rule PostUsecase_Create_outside [OF w c'])
  note e = PostUsecase_Create_effect [OF E w c']
  show "\<exists>new. posts (committed w') = posts (committed w) @ new \<and>
      (\<forall>p \<in> set new. parse_uuid E sourceID = Some (p_source_id p) \<and>
         p_external_id p = ci_ExternalID item \<and> p_text p = ci_Text item)"
    using e
  proof
    assume "committed w' = committed w \<and> (\<forall>s. r \<noteq> Inr s)"
    then show ?thesis by (intro exI [of _ "[]"]) simp
  next
    assume "\<exists>sid src saved. parse_uuid E sourceID = Some sid \<and> src \<in> set (sources (committed w)) \<and> s_id src = sid \<and>
       create_effect E (ProcessingModeForType (s_type src)) sid (ci_ExternalID item) (ci_Text item)
         (committed w) saved (committed w') \<and> (\<forall>y. r = Inr y \<longrightarrow> y = saved)"
    then obtain sid mode row where s: "parse_uuid E sourceID = Some sid"
      and row: "filter (post_key sid (ci_ExternalID item)) (posts (committed w')) = [row]"
      and alt: "committed w' = committed w \<or>
        p_text row = ci_Text item \<and> posts (committed w') = posts (committed w) @ [row]"
      unfolding create_effect_def by (auto split: if_splits)
    from alt show ?thesis
    proof
      assume "committed w' = committed w"
      then show ?thesis by (intro exI [of _ "[]"]) simp
    next
      assume "p_text row = ci_Text item \<and> posts (committed w') = posts (committed w) @ [row]"
      then show ?thesis using s filter_one [OF row] by (intro exI [of _ "[row]"]) (simp add: post_key_def)
    qed
  qed
  show "\<exists>sid. parse_uuid E sourceID = Some sid \<and>
      (\<exists>p \<in> set (posts (committed w')). post_key sid (ci_ExternalID item) p)" if "r = Inr saved"
    using e that unfolding create_effect_def by (auto dest!: filter_one)
  show "committed w' = committed w" if "parse_uuid E sourceID = Some sid"
    "\<exists>p \<in> set (posts (committed w)). post_key sid (ci_ExternalID item) p"
    using e that unfolding create_effect_def by auto
qed

section \<open>A batch\<close>

lemma collect_loop_effect:
  assumes E: "ext_laws E"
  shows "open_tx w = None \<Longrightarrow> collect_loop E sourceID items w = (r, w') \<Longrightarrow>
    open_tx w' = None \<and>
    (\<exists>new. posts (committed w') = posts (committed w) @ new \<and>
      (\<forall>p \<in> set new. parse_uuid E sourceID = Some (p_source_id p) \<and>
         (\<exists>item \<in> set items. p_external_id p = ci_ExternalID item \<and> p_text p = ci_Text item))) \<and>
    (r = Inr () \<longrightarrow> (\<forall>item \<in> set items.
       (\<exists>sid. parse_uuid E sourceID = Some sid \<and>
          (\<exists>p \<in> set (posts (committed w')). post_key sid (ci_ExternalID item) p)) \<or>
       (\<exists>w1 e. fst (create_item E sourceID item w1) = Inl e \<and> errors_is e ErrPostSourceNotFound)))"
proof (induction items arbitrary: w)
  case Nil
  then show ?case by auto
next
  case (Cons item items)
  obtain c w1 where c: "create_item E sourceID item w = (c, w1)" by (cases "create_item E sourceID item w")
  note eff = create_item_effect [OF E Cons.prems(1) c]
  from eff(2) obtain new1 where new1: "posts (committed w1) = posts (committed w) @ new1"
    "\<forall>p \<in> set new1. parse_uuid E sourceID = Some (p_source_id p) \<and>
       p_external_id p = ci_ExternalID item \<and> p_text p = ci_Text item" by blast
  show ?case
  proof (cases "collect_loop E sourceID (item # items) w = collect_loop E sourceID items w1")
    case False
    then obtain e where "c = Inl e" "r \<noteq> Inr ()" "w' = w1"
      using c Cons.prems(2) by (cases c) (auto split: if_splits)
    then show ?thesis using eff(1) new1 by (auto intro!: exI [of _ new1])
  next
    case True
    from Cons.IH [OF eff(1)] Cons.prems(2) True obtain new2 where
      o: "open_tx w' = None" and new2: "posts (committed w') = posts (committed w1) @ new2"
      "\<forall>p \<in> set new2. parse_uuid E sourceID = Some (p_source_id p) \<and>
         (\<exists>item \<in> set items. p_external_id p = ci_ExternalID item \<and> p_text p = ci_Text item)"
      and all: "r = Inr () \<Longrightarrow> \<forall>item \<in> set items.
       (\<exists>sid. parse_uuid E sourceID = Some sid \<and>
          (\<exists>p \<in> set (posts (committed w')). post_key sid (ci_ExternalID item) p)) \<or>
       (\<exists>w1 e. fst (create_item E sourceID item w1) = Inl e \<and> errors_is e ErrPostSourceNotFound)"
      by metis
    have first: "(\<exists>sid. parse_uuid E sourceID = Some sid \<and>
          (\<exists>p \<in> set (posts (committed w')). post_key sid (ci_ExternalID item) p)) \<or>
       (\<exists>w1 e. fst (create_item E sourceID item w1) = Inl e \<and> errors_is e ErrPostSourceNotFound)"
      if "r = Inr ()"
    proof (cases c)
      case (Inr saved)
      from eff(3) [OF Inr] show ?thesis unfolding new2(1) by auto
    next
      case (Inl e)
      show ?thesis
      proof (cases "errors_is e ErrPostSourceNotFound")
        case True
        then have "fst (create_item E sourceID item w) = Inl e \<and> errors_is e ErrPostSourceNotFound"
          using c Inl by simp
        then show ?thesis by blast
      next
        case False
        then show ?thesis using that c Inl Cons.prems(2) by simp
      qed
    qed
    have "posts (committed w') = posts (committed w) @ (new1 @ new2)" using new1(1) new2(1) by simp
    moreover have "\<forall>p \<in> set (new1 @ new2). parse_uuid E sourceID = Some (p_source_id p) \<and>
       (\<exists>item \<in> set (item # items). p_external_id p = ci_ExternalID item \<and> p_text p = ci_Text item)"
      using new1(2) new2(2) by auto
    ultimately show ?thesis using o first all by auto
  qed
qed


definition sample_item :: "string \<Rightarrow> string \<Rightarrow> CollectedItem" where
  "sample_item x t = \<lparr>ci_ExternalID = x, ci_PublishedAt = 7, ci_Author = None, ci_Text = t, ci_Metadata = None\<rparr>"

definition sample_domain_source :: "string \<Rightarrow> Source" where
  "sample_domain_source i = \<lparr>src_ID = i, src_Type = SourceTypeRSS,
     src_ProcessingMode = ProcessingModeSelfContained, src_Config = Some (RSSConfig ''u''),
     src_CreatedAt = 5, src_UpdatedAt = 5\<rparr>"


lemma collect_loop_stored:
  assumes E: "ext_laws E" and sid: "parse_uuid E sourceID = Some sid"
  shows "open_tx w = None \<Longrightarrow>
    \<forall>item \<in> set items. \<exists>p \<in> set (posts (committed w)). post_key sid (ci_ExternalID item) p \<Longrightarrow>
    committed (snd (collect_loop E sourceID items w)) = committed w"
proof (induction items arbitrary: w)
  case (Cons item items)
  obtain c w1 where c: "create_item E sourceID item w = (c, w1)" by (cases "create_item E sourceID item w")
  note eff = create_item_effect [OF E Cons.prems(1) c]
  have same: "committed w1 = committed w" using eff(4) [OF sid] Cons.prems(2) by simp
  then show ?case using Cons.IH [OF eff(1)] Cons.prems(2) c
    by (cases c) simp_all
qed simp

text \<open>
  Collecting again is harmless: when every item with a text is stored already, a
  collection leaves the database exactly as it was, whatever fails. In particular no second
  summarization event is enqueued.
\<close>

lemma CollectItems_idempotent:
  assumes "ext_laws E" and "open_tx w = None" and "parse_uuid E (src_ID source) = Some sid"
    and "\<forall>item \<in> set items. trim_space (ci_Text item) \<noteq> [] \<longrightarrow>
      (\<exists>p \<in> set (posts (committed w)). post_key sid (ci_ExternalID item) p)"
  shows "committed (snd (CollectItems E source items w)) = committed w"
  unfolding CollectItems_def FilterTextItems_filter
  by (rule collect_loop_stored [OF assms(1,3,2)]) (use assms(4) in auto)

lemma CollectItems_idempotent_example:
  "committed (snd (CollectItems decimal_ext (sample_domain_source ''9'') [sample_item ''a'' ''hi'', sample_item ''b'' '' '']
      ((quiet_world (empty_db\<lparr>sources := [sample_source 9 SourceTypeRSS],
          posts := [(listed_post 4 6)\<lparr>p_external_id := ''a''\<rparr>]\<rparr>))\<lparr>faults := (\<lambda>n. Lost (Text ''gone''))\<rparr>))) =
   committed ((quiet_world (empty_db\<lparr>sources := [sample_source 9 SourceTypeRSS],
          posts := [(listed_post 4 6)\<lparr>p_external_id := ''a''\<rparr>]\<rparr>))\<lparr>faults := (\<lambda>n. Lost (Text ''gone''))\<rparr>)"
proof -
  have nine: "parse_uuid decimal_ext ''9'' = Some 9" by code_simp
  have blank: "trim_space '' '' = []" by code_simp
  show ?thesis
    by (rule CollectItems_idempotent [where sid = 9])
      (simp_all add: sample_domain_source_def nine blank sample_item_def listed_post_def sample_post_def post_key_def)
qed

text \<open>
  A source that is gone stops the collection: the comment on \<open>CollectItems\<close> promises that
  an item whose source is missing is skipped, but \<open>Create\<close> reports a missing source with
  \<open>ErrSourceNotFound\<close> (from reading the source), never reaching the insert that would report
  \<open>ErrPostSourceNotFound\<close>; the batch is aborted with an error at its first item.
\<close>

lemma CollectItems_missing_source:
  assumes "fault_free w" and "FilterTextItems items = item # rest"
    and "parse_uuid E (src_ID source) = Some sid" and "sid \<notin> source_ids (committed w)"
    and "ValidateCreatePost E (src_ID source) (ci_ExternalID item) (ci_Text item) (ci_PublishedAt item) = None"
  shows "\<exists>e w'. CollectItems E source items w = (Inl e, w') \<and> errors_is e ErrSourceNotFound \<and>
    \<not> errors_is e ErrPostSourceNotFound \<and> committed w' = committed w"
proof -
  have none: "filter (\<lambda>r. s_id r = sid) (sources (committed w)) = []"
    using assms(4) by (auto simp: source_ids_def filter_empty_conv)
  have "source_repo_Get E (src_ID source) w = (Inl (Sentinel ErrSourceNotFound), after_read w)"
    by (simp add: source_repo_Get_def parse_id_def assms(3) fault_free_read(2) [OF assms(1)] none ent_only_def)
  then have "create_item E (src_ID source) item w = (Inl (Sentinel ErrSourceNotFound), after_read w)"
    by (simp add: create_item_def PostUsecase_Create_def assms(5))
  then show ?thesis by (simp add: CollectItems_def assms(2))
qed

lemma CollectItems_missing_source_example:
  "\<exists>e w'. CollectItems decimal_ext (sample_domain_source ''9'') [sample_item ''a'' ''hi''] (quiet_world empty_db) = (Inl e, w') \<and>
    errors_is e ErrSourceNotFound \<and> \<not> errors_is e ErrPostSourceNotFound \<and>
    committed w' = committed (quiet_world empty_db)"
proof -
  have nine: "parse_uuid decimal_ext ''9'' = Some 9" by code_simp
  have hi: "trim_space ''hi'' \<noteq> []" by code_simp
  show ?thesis
    by (rule CollectItems_missing_source [where item = "sample_item ''a'' ''hi''" and rest = "[]" and sid = 9])
      (simp_all add: fault_free_def sample_item_def sample_domain_source_def nine hi ValidateCreatePost_None
        source_ids_def empty_db_def zero_time_def)
qed

end
