(* ===== verification/Fetchers.thy ===== *)
theory Fetchers
  imports Collect
begin

text \<open>
  Where material comes from: \<open>rssFetcher\<close> (\<open>internal/data/rss_fetcher.go\<close>), \<open>webFetcher\<close>
  (\<open>internal/data/web_fetcher.go\<close>) and the messages of the Telegram session
  (\<open>internal/data/telegram_session.go\<close>). The network, the HTML parser, the tokenizer of
  \<open>encoding/xml\<close> and \<open>time.Parse\<close> are functions of the model; what the program does with
  their results is defined here, the reading of feeds by \<open>xml.Unmarshal\<close> included.
\<close>

section \<open>The outside world\<close>

text \<open>A tree of elements, by local names.\<close>

datatype xml_node =
    XmlElement string "(string \<times> string) list" "xml_node list"
  | XmlText string

datatype html_node =
    ElementNode string "(string \<times> string) list" "html_node list"
  | TextNode string
  | OtherNode "html_node list"

text \<open>The answer of a server; reading its body may fail.\<close>

record response =
  resp_StatusCode :: int
  resp_Body :: "error + string"

text \<open>
  What a server answers may differ from moment to moment: a request happens at a reading of
  the clock.
\<close>

record internet =
  new_request :: "string \<Rightarrow> error option"
  http_get :: "string \<Rightarrow> time \<Rightarrow> error + response"
  xml_root :: "string \<Rightarrow> error + xml_node"
  html_root :: "string \<Rightarrow> error + html_node"
  time_parse :: "string \<Rightarrow> string \<Rightarrow> time option"

definition maxFeedBytes :: nat where
  "maxFeedBytes = 8388608"

definition config_type_name :: "SourceConfig option \<Rightarrow> string" where
  "config_type_name c = (case c of
     None \<Rightarrow> ''<nil>''
   | Some (TelegramChannelConfig _ _) \<Rightarrow> ''*biz.TelegramChannelConfig''
   | Some (TelegramGroupConfig _ _) \<Rightarrow> ''*biz.TelegramGroupConfig''
   | Some (RSSConfig _) \<Rightarrow> ''*biz.RSSConfig''
   | Some (HTMLConfig _) \<Rightarrow> ''*biz.HTMLConfig'')"

text \<open>The request of both fetchers: the body of an answer with status 200, unread.\<close>

definition request :: "internet \<Rightarrow> string \<Rightarrow> string \<Rightarrow> string \<Rightarrow> world \<Rightarrow> (error + string) result \<times> world" where
  "request X name what url w =
     (case new_request X url of
        Some e \<Rightarrow> (Inl (errorf_ctx (name @ '' fetcher: new request'') e), w)
      | None \<Rightarrow>
          (let (t, w) = time_now w in
           case http_get X url t of
             Inl e \<Rightarrow> (Inl (errorf_ctx (name @ '' fetcher: get '' @ what) e), w)
           | Inr resp \<Rightarrow>
               (if resp_StatusCode resp \<noteq> 200
                then (Inl (Text (name @ '' fetcher: '' @ what @ '' returned status '' @ itoa (resp_StatusCode resp))), w)
                else (Inr (resp_Body resp), w))))"

section \<open>Feeds\<close>

subsection \<open>Reading a feed into records\<close>

text \<open>
  \<open>xml.Unmarshal\<close> into a string field: the character data directly inside the matching child;
  a repeated child overwrites the value of the one before.
\<close>

fun direct_text :: "xml_node list \<Rightarrow> string" where
  "direct_text [] = []"
| "direct_text (XmlText s # ks) = s @ direct_text ks"
| "direct_text (XmlElement _ _ _ # ks) = direct_text ks"

fun children_named :: "string \<Rightarrow> xml_node list \<Rightarrow> ((string \<times> string) list \<times> xml_node list) list" where
  "children_named name [] = []"
| "children_named name (XmlText _ # ks) = children_named name ks"
| "children_named name (XmlElement n attrs kids # ks) =
     (if n = name then (attrs, kids) # children_named name ks else children_named name ks)"

definition last_or_empty :: "string list \<Rightarrow> string" where
  "last_or_empty xs = (if xs = [] then [] else last xs)"

definition string_field :: "string \<Rightarrow> xml_node list \<Rightarrow> string" where
  "string_field name kids = last_or_empty (map (\<lambda>(_, ks). direct_text ks) (children_named name kids))"

record rssItem =
  rss_GUID :: string
  rss_Link :: string
  rss_Title :: string
  rss_Description :: string
  rss_Author :: string
  rss_Creator :: string
  rss_PubDate :: string

record atomEntry =
  atom_ID :: string
  atom_Href :: string
  atom_Title :: string
  atom_Summary :: string
  atom_Content :: string
  atom_Updated :: string
  atom_Published :: string
  atom_AuthorName :: string

definition unmarshal_item :: "xml_node list \<Rightarrow> rssItem" where
  "unmarshal_item kids =
     \<lparr>rss_GUID = string_field ''guid'' kids, rss_Link = string_field ''link'' kids,
      rss_Title = string_field ''title'' kids, rss_Description = string_field ''description'' kids,
      rss_Author = string_field ''author'' kids, rss_Creator = string_field ''creator'' kids,
      rss_PubDate = string_field ''pubDate'' kids\<rparr>"

text \<open>The nested structs keep what an earlier child set when a later one does not set it.\<close>

definition unmarshal_entry :: "xml_node list \<Rightarrow> atomEntry" where
  "unmarshal_entry kids =
     \<lparr>atom_ID = string_field ''id'' kids,
      atom_Href = last_or_empty (concat (map (\<lambda>(attrs, _). map snd (filter (\<lambda>(k, _). k = ''href'') attrs))
                                            (children_named ''link'' kids))),
      atom_Title = string_field ''title'' kids, atom_Summary = string_field ''summary'' kids,
      atom_Content = string_field ''content'' kids, atom_Updated = string_field ''updated'' kids,
      atom_Published = string_field ''published'' kids,
      atom_AuthorName = string_field ''name'' (concat (map snd (children_named ''author'' kids)))\<rparr>"

definition unmarshal_rss :: "xml_node \<Rightarrow> rssItem list option" where
  "unmarshal_rss doc =
     (case doc of
        XmlElement n _ kids \<Rightarrow>
          (if n = ''rss''
           then Some (map (\<lambda>(_, ks). unmarshal_item ks)
                  (concat (map (\<lambda>(_, ks). children_named ''item'' ks) (children_named ''channel'' kids))))
           else None)
      | XmlText _ \<Rightarrow> None)"

definition unmarshal_atom :: "xml_node \<Rightarrow> atomEntry list option" where
  "unmarshal_atom doc =
     (case doc of
        XmlElement n _ kids \<Rightarrow>
          (if n = ''feed'' then Some (map (\<lambda>(_, ks). unmarshal_entry ks) (children_named ''entry'' kids)) else None)
      | XmlText _ \<Rightarrow> None)"

subsection \<open>Entries as collected items\<close>

fun firstNonEmpty :: "string list \<Rightarrow> string" where
  "firstNonEmpty [] = []"
| "firstNonEmpty (v # vs) = (if trim_space v \<noteq> [] then trim_space v else firstNonEmpty vs)"

definition optionalAuthor :: "string \<Rightarrow> string option" where
  "optionalAuthor name = (if trim_space name = [] then None else Some (trim_space name))"

definition feedMetadata :: "string \<Rightarrow> string \<Rightarrow> metadata" where
  "feedMetadata title link =
     Some ((if trim_space title \<noteq> [] then [(''title'', trim_space title)] else []) @
           (if trim_space link \<noteq> [] then [(''link'', trim_space link)] else []))"

definition feed_layouts :: "string list" where
  "feed_layouts =
     [''Mon, 02 Jan 2006 15:04:05 -0700'', ''Mon, 02 Jan 2006 15:04:05 MST'', ''2006-01-02T15:04:05Z07:00'',
      ''02 Jan 06 15:04 -0700'', ''02 Jan 06 15:04 MST'']"

fun first_parsed :: "internet \<Rightarrow> string list \<Rightarrow> string \<Rightarrow> time option" where
  "first_parsed X [] s = None"
| "first_parsed X (layout # layouts) s =
     (case time_parse X layout s of Some t \<Rightarrow> Some t | None \<Rightarrow> first_parsed X layouts s)"

definition parseFeedTime :: "internet \<Rightarrow> string \<Rightarrow> world \<Rightarrow> time \<times> world" where
  "parseFeedTime X s w =
     (if trim_space s = [] then time_now w
      else case first_parsed X feed_layouts (trim_space s) of Some t \<Rightarrow> (t, w) | None \<Rightarrow> time_now w)"

fun mapRSSItems :: "internet \<Rightarrow> rssItem list \<Rightarrow> world \<Rightarrow> CollectedItem list \<times> world" where
  "mapRSSItems X [] w = ([], w)"
| "mapRSSItems X (it # its) w =
     (let externalID = firstNonEmpty [rss_GUID it, rss_Link it, rss_Title it] in
      if externalID = [] then mapRSSItems X its w
      else
        (let (publishedAt, w) = parseFeedTime X (rss_PubDate it) w;
             (rest, w) = mapRSSItems X its w
         in (\<lparr>ci_ExternalID = externalID, ci_PublishedAt = publishedAt,
              ci_Author = optionalAuthor (firstNonEmpty [rss_Creator it, rss_Author it]),
              ci_Text = firstNonEmpty [rss_Description it, rss_Title it],
              ci_Metadata = feedMetadata (rss_Title it) (rss_Link it)\<rparr> # rest, w)))"

fun mapAtomEntries :: "internet \<Rightarrow> atomEntry list \<Rightarrow> world \<Rightarrow> CollectedItem list \<times> world" where
  "mapAtomEntries X [] w = ([], w)"
| "mapAtomEntries X (e # es) w =
     (let externalID = firstNonEmpty [atom_ID e, atom_Href e, atom_Title e] in
      if externalID = [] then mapAtomEntries X es w
      else
        (let (publishedAt, w) = parseFeedTime X (firstNonEmpty [atom_Published e, atom_Updated e]) w;
             (rest, w) = mapAtomEntries X es w
         in (\<lparr>ci_ExternalID = externalID, ci_PublishedAt = publishedAt,
              ci_Author = optionalAuthor (atom_AuthorName e),
              ci_Text = firstNonEmpty [atom_Content e, atom_Summary e, atom_Title e],
              ci_Metadata = feedMetadata (atom_Title e) (atom_Href e)\<rparr> # rest, w)))"

definition parseFeed :: "internet \<Rightarrow> string \<Rightarrow> world \<Rightarrow> CollectedItem list result \<times> world" where
  "parseFeed X body w =
     (let unrecognized = (Inl (Text ''unrecognized feed format''), w) in
      case xml_root X body of
        Inl _ \<Rightarrow> unrecognized
      | Inr doc \<Rightarrow>
          (case unmarshal_rss doc of
             Some items \<Rightarrow> (let (out, w) = mapRSSItems X items w in (Inr out, w))
           | None \<Rightarrow>
               (case unmarshal_atom doc of
                  Some entries \<Rightarrow> (let (out, w) = mapAtomEntries X entries w in (Inr out, w))
                | None \<Rightarrow> unrecognized)))"

definition rss_Fetch :: "internet \<Rightarrow> Source \<Rightarrow> world \<Rightarrow> CollectedItem list result \<times> world" where
  "rss_Fetch X source w =
     (case src_Config source of
        Some (RSSConfig url) \<Rightarrow>
          (case request X ''rss'' ''feed'' url w of
             (Inl e, w) \<Rightarrow> (Inl e, w)
           | (Inr (Inl e), w) \<Rightarrow> (Inl (errorf_ctx ''rss fetcher: read feed'' e), w)
           | (Inr (Inr body), w) \<Rightarrow>
               (case parseFeed X (take maxFeedBytes body) w of
                  (Inl e, w) \<Rightarrow> (Inl (errorf_ctx (''rss fetcher: parse feed for source '' @ src_ID source) e), w)
                | (Inr items, w) \<Rightarrow> (Inr items, w)))
      | c \<Rightarrow> (Inl (Text (''rss fetcher: unexpected config type '' @ config_type_name c @
                         '' for source '' @ src_ID source)), w))"

section \<open>Pages\<close>

text \<open>
  \<open>strings.ToLower\<close>, as far as a comparison with an ASCII text can tell: the letters A to Z, and
  the two runes beyond ASCII whose lower case is an ASCII letter, U+0130 and U+212A.
\<close>

definition lower_char :: "char \<Rightarrow> char" where
  "lower_char c = (if CHR ''A'' \<le> c \<and> c \<le> CHR ''Z'' then char_of (of_char c + 32 :: nat) else c)"

fun to_lower :: "string \<Rightarrow> string" where
  "to_lower [] = []"
| "to_lower (a # s) =
     (case s of
        [] \<Rightarrow> [lower_char a]
      | b # s' \<Rightarrow>
          (if [a, b] = [CHR 0xC4, CHR 0xB0] then CHR ''i'' # to_lower s'
           else (case s' of
               [] \<Rightarrow> lower_char a # to_lower s
             | c # s'' \<Rightarrow>
                 (if [a, b, c] = [CHR 0xE2, CHR 0x84, CHR 0xAA] then CHR ''k'' # to_lower s''
                  else lower_char a # to_lower s))))"

fun descendant_text :: "html_node \<Rightarrow> string" where
  "descendant_text (TextNode s) = s"
| "descendant_text (ElementNode _ _ kids) = concat (map descendant_text kids)"
| "descendant_text (OtherNode kids) = concat (map descendant_text kids)"

definition nodeText :: "html_node \<Rightarrow> string" where
  "nodeText n = trim_space (descendant_text n)"

record extractedArticle =
  art_title :: string
  art_author :: string
  art_publishedAt :: time
  art_text :: string

text \<open>The attributes of a \<open>meta\<close> element: name, property and content, the last of each.\<close>

fun meta_parts :: "(string \<times> string) list \<Rightarrow> string \<times> string \<times> string \<Rightarrow> string \<times> string \<times> string" where
  "meta_parts [] parts = parts"
| "meta_parts ((k, v) # attrs) (name, property, content) =
     (if to_lower k = ''name'' then meta_parts attrs (to_lower v, property, content)
      else if to_lower k = ''property'' then meta_parts attrs (name, to_lower v, content)
      else if to_lower k = ''content'' then meta_parts attrs (name, property, v)
      else meta_parts attrs (name, property, content))"

definition rfc3339 :: string where
  "rfc3339 = ''2006-01-02T15:04:05Z07:00''"

definition applyMeta :: "internet \<Rightarrow> (string \<times> string) list \<Rightarrow> extractedArticle \<Rightarrow> extractedArticle" where
  "applyMeta X attrs result =
     (case meta_parts attrs ([], [], []) of (name, property, content) \<Rightarrow>
        if content = [] then result
        else
          (let result = (if name = ''author'' \<and> art_author result = []
                         then result\<lparr>art_author := content\<rparr> else result)
           in if property = ''article:published_time''
              then (case time_parse X rfc3339 content of
                      Some t \<Rightarrow> result\<lparr>art_publishedAt := t\<rparr> | None \<Rightarrow> result)
              else result))"

text \<open>The closure \<open>visit\<close>, with the two variables it changes.\<close>

fun visit :: "internet \<Rightarrow> html_node \<Rightarrow> extractedArticle \<times> string list \<Rightarrow> extractedArticle \<times> string list"
and visit_all :: "internet \<Rightarrow> html_node list \<Rightarrow> extractedArticle \<times> string list \<Rightarrow> extractedArticle \<times> string list" where
  "visit X (TextNode s) st = st"
| "visit X (OtherNode kids) st = visit_all X kids st"
| "visit X (ElementNode tag attrs kids) (result, paragraphs) =
     (if tag = ''p''
      then (result,
            let t = trim_space (nodeText (ElementNode tag attrs kids))
            in if t \<noteq> [] then paragraphs @ [t] else paragraphs)
      else visit_all X kids
        (if tag = ''title'' \<and> art_title result = []
         then result\<lparr>art_title := trim_space (nodeText (ElementNode tag attrs kids))\<rparr>
         else if tag = ''meta'' then applyMeta X attrs result
         else result, paragraphs))"
| "visit_all X [] st = st"
| "visit_all X (n # ns) st = visit_all X ns (visit X n st)"

definition extractArticle :: "internet \<Rightarrow> html_node \<Rightarrow> world \<Rightarrow> extractedArticle \<times> world" where
  "extractArticle X doc w =
     (let (now, w) = time_now w;
          (result, paragraphs) = visit X doc
            (\<lparr>art_title = [], art_author = [], art_publishedAt = now, art_text = []\<rparr>, [])
      in (result\<lparr>art_text := join [CHR 0x0A, CHR 0x0A] paragraphs\<rparr>, w))"

definition web_Fetch :: "internet \<Rightarrow> Source \<Rightarrow> world \<Rightarrow> CollectedItem list result \<times> world" where
  "web_Fetch X source w =
     (case src_Config source of
        Some (HTMLConfig url) \<Rightarrow>
          (case request X ''web'' ''page'' url w of
             (Inl e, w) \<Rightarrow> (Inl e, w)
           | (Inr body, w) \<Rightarrow>
               (case (case body of Inl e \<Rightarrow> Inl e | Inr b \<Rightarrow> html_root X (take maxFeedBytes b)) of
                  Inl e \<Rightarrow> (Inl (errorf_ctx (''web fetcher: parse html for source '' @ src_ID source) e), w)
                | Inr doc \<Rightarrow>
                    (let (article, w) = extractArticle X doc w in
                     if trim_space (art_text article) = []
                     then (Inl (Text (''web fetcher: no extractable text for source '' @ src_ID source @
                                      '' (markup may have changed)'')), w)
                     else
                       (Inr [\<lparr>ci_ExternalID = url, ci_PublishedAt = art_publishedAt article,
                              ci_Author = optionalAuthor (art_author article), ci_Text = art_text article,
                              ci_Metadata = Some ([(''url'', url)] @
                                (if art_title article \<noteq> [] then [(''title'', art_title article)] else []))\<rparr>], w))))
      | c \<Rightarrow> (Inl (Text (''web fetcher: unexpected config type '' @ config_type_name c @
                         '' for source '' @ src_ID source)), w))"

section \<open>Messages\<close>

text \<open>
  What the session reads of an update of the Telegram client: the message (none when the
  update holds another kind of message), and the users, channels and chats it mentions.
\<close>

datatype tg_peer = PeerUser "64 word" | PeerChat "64 word" | PeerChannel "64 word"

record tg_message =
  tgm_ID :: "64 word"
  tgm_Out :: bool
  tgm_FromID :: "tg_peer option"
  tgm_PeerID :: "tg_peer option"
  tgm_Date :: "64 word"
  tgm_Message :: string

record tg_user =
  tgu_Username :: string
  tgu_FirstName :: string
  tgu_LastName :: string

record tg_entities =
  ent_Users :: "64 word \<Rightarrow> tg_user option"
  ent_Channels :: "64 word \<Rightarrow> string option"
  ent_Chats :: "64 word \<Rightarrow> string option"

datatype tg_update = UpdateNewChannelMessage "tg_message option" | UpdateNewMessage "tg_message option"

record TelegramMessage =
  tm_TgID :: "64 word"
  tm_Item :: CollectedItem

definition authorFrom :: "tg_message \<Rightarrow> tg_entities \<Rightarrow> string option" where
  "authorFrom m e =
     (case tgm_FromID m of
        Some (PeerUser i) \<Rightarrow>
          (case ent_Users e i of
             None \<Rightarrow> None
           | Some user \<Rightarrow>
               (let name = trim_space (tgu_Username user) in
                if name \<noteq> [] then Some name
                else (let name = trim_space (trim_space (tgu_FirstName user) @ '' '' @ trim_space (tgu_LastName user))
                      in if name = [] then None else Some name)))
      | _ \<Rightarrow> None)"

definition chatTitleFrom :: "64 word \<Rightarrow> tg_entities \<Rightarrow> string" where
  "chatTitleFrom peerID e =
     (case ent_Channels e peerID of
        Some title \<Rightarrow> title
      | None \<Rightarrow> (case ent_Chats e peerID of Some title \<Rightarrow> title | None \<Rightarrow> []))"

definition emit :: "64 word \<Rightarrow> tg_message \<Rightarrow> tg_entities \<Rightarrow> TelegramMessage option" where
  "emit peerID m ents =
     (if tgm_Out m then None
      else Some \<lparr>tm_TgID = peerID,
        tm_Item = \<lparr>ci_ExternalID = itoa (sint (tgm_ID m)), ci_PublishedAt = sint (tgm_Date m) * second,
          ci_Author = authorFrom m ents, ci_Text = tgm_Message m,
          ci_Metadata = Some [(''chat_title'', chatTitleFrom peerID ents)]\<rparr>\<rparr>)"

definition dispatch_update :: "tg_entities \<Rightarrow> tg_update \<Rightarrow> TelegramMessage option" where
  "dispatch_update ents u =
     (case u of
        UpdateNewChannelMessage (Some m) \<Rightarrow>
          (case tgm_PeerID m of Some (PeerChannel i) \<Rightarrow> emit i m ents | _ \<Rightarrow> None)
      | UpdateNewMessage (Some m) \<Rightarrow>
          (case tgm_PeerID m of Some (PeerChat i) \<Rightarrow> emit i m ents | _ \<Rightarrow> None)
      | _ \<Rightarrow> None)"

section \<open>What an article is made of\<close>

text \<open>
  The elements of a page in document order, without what is inside a paragraph, and among
  them those with a given tag.
\<close>

fun outside :: "html_node \<Rightarrow> html_node list" where
  "outside (TextNode s) = []"
| "outside (OtherNode kids) = concat (map outside kids)"
| "outside (ElementNode tag attrs kids) =
     ElementNode tag attrs kids # (if tag = ''p'' then [] else concat (map outside kids))"

definition has_tag :: "string \<Rightarrow> html_node \<Rightarrow> bool" where
  "has_tag t n = (case n of ElementNode tag _ _ \<Rightarrow> tag = t | _ \<Rightarrow> False)"

definition tagged :: "string \<Rightarrow> html_node \<Rightarrow> html_node list" where
  "tagged t n = filter (has_tag t) (outside n)"

definition meta_of :: "html_node \<Rightarrow> string \<times> string \<times> string" where
  "meta_of n = (case n of ElementNode _ attrs _ \<Rightarrow> meta_parts attrs ([], [], []) | _ \<Rightarrow> ([], [], []))"

definition meta_author :: "html_node \<Rightarrow> string" where
  "meta_author n = (case meta_of n of (name, _, content) \<Rightarrow> if name = ''author'' then content else [])"

definition meta_time :: "internet \<Rightarrow> html_node \<Rightarrow> time option" where
  "meta_time X n = (case meta_of n of (_, property, content) \<Rightarrow>
     if property = ''article:published_time'' \<and> content \<noteq> [] then time_parse X rfc3339 content else None)"

definition first_set :: "string list \<Rightarrow> string" where
  "first_set xs = (case filter (\<lambda>x. x \<noteq> []) xs of [] \<Rightarrow> [] | x # _ \<Rightarrow> x)"

definition element_effect :: "internet \<Rightarrow> html_node \<Rightarrow> extractedArticle \<times> string list \<Rightarrow> extractedArticle \<times> string list" where
  "element_effect X n st = (case st of (result, paragraphs) \<Rightarrow>
     (if has_tag ''title'' n \<and> art_title result = [] then result\<lparr>art_title := trim_space (nodeText n)\<rparr>
      else if has_tag ''meta'' n then
        result\<lparr>art_author := (if art_author result = [] then meta_author n else art_author result),
               art_publishedAt := (case meta_time X n of Some t \<Rightarrow> t | None \<Rightarrow> art_publishedAt result)\<rparr>
      else result,
      if has_tag ''p'' n \<and> trim_space (nodeText n) \<noteq> [] then paragraphs @ [trim_space (nodeText n)] else paragraphs))"

lemma applyMeta_effect:
  "applyMeta X attrs r =
     r\<lparr>art_author := (if art_author r = [] then meta_author (ElementNode t attrs ks) else art_author r),
       art_publishedAt := (case meta_time X (ElementNode t attrs ks) of Some t \<Rightarrow> t | None \<Rightarrow> art_publishedAt r)\<rparr>"
  by (auto simp: applyMeta_def meta_author_def meta_time_def meta_of_def Let_def split: prod.split option.split)

lemma visit_outside:
  "visit X n st = fold (element_effect X) (outside n) st"
  "visit_all X ns st = fold (element_effect X) (concat (map outside ns)) st"
proof (induction X n st and X ns st rule: visit_visit_all.induct)
  case (3 X tag attrs kids result paragraphs)
  then show ?case
    by (simp add: element_effect_def has_tag_def applyMeta_effect [of X attrs result tag kids] Let_def)
qed simp_all

lemma fold_paragraphs:
  "snd (fold (element_effect X) ns st) =
     snd st @ filter (\<lambda>t. t \<noteq> []) (map (\<lambda>n. trim_space (nodeText n)) (filter (has_tag ''p'') ns))"
  by (induction ns arbitrary: st) (auto simp: element_effect_def split: prod.split)

lemma title_not_meta: "has_tag ''title'' n \<Longrightarrow> \<not> has_tag ''meta'' n"
  by (simp add: has_tag_def split: html_node.splits)

lemma element_effect_meta:
  "art_author (fst (element_effect X n st)) =
     (if has_tag ''meta'' n \<and> art_author (fst st) = [] then meta_author n else art_author (fst st))"
  "art_publishedAt (fst (element_effect X n st)) =
     (if has_tag ''meta'' n then (case meta_time X n of Some t \<Rightarrow> t | None \<Rightarrow> art_publishedAt (fst st))
      else art_publishedAt (fst st))"
  using title_not_meta [of n] by (cases st, simp add: element_effect_def)
    (use title_not_meta [of n] in \<open>cases st, simp add: element_effect_def split: option.split\<close>)

lemma fold_title:
  "art_title (fst (fold (element_effect X) ns st)) =
     (if art_title (fst st) \<noteq> [] then art_title (fst st)
      else firstNonEmpty (map nodeText (filter (has_tag ''title'') ns)))"
  by (induction ns arbitrary: st) (auto simp: element_effect_def split: prod.split)

lemma fold_author:
  "art_author (fst (fold (element_effect X) ns st)) =
     (if art_author (fst st) \<noteq> [] then art_author (fst st)
      else first_set (map meta_author (filter (has_tag ''meta'') ns)))"
  by (induction ns arbitrary: st) (auto simp: element_effect_meta first_set_def)

lemma fold_publishedAt:
  "art_publishedAt (fst (fold (element_effect X) ns st)) =
     last (art_publishedAt (fst st) # List.map_filter (meta_time X) (filter (has_tag ''meta'') ns))"
  by (induction ns arbitrary: st) (auto simp: element_effect_meta map_filter_simps split: option.split)

lemma fold_text: "art_text (fst (fold (element_effect X) ns st)) = art_text (fst st)"
  by (induction ns arbitrary: st) (simp_all add: element_effect_def split: prod.split)

text \<open>
  C30. The article extracted from a page: its text is the non-blank paragraphs in document
  order, two line breaks between them; its title is the first non-blank one; its author the first
  author named by a meta element with a content; its date the last readable publication
  time, or the moment of the reading.
\<close>

theorem extractArticle_reads:
  "fst (extractArticle X doc w) =
     \<lparr>art_title = firstNonEmpty (map nodeText (tagged ''title'' doc)),
      art_author = first_set (map meta_author (tagged ''meta'' doc)),
      art_publishedAt = last (clock w 0 # List.map_filter (meta_time X) (tagged ''meta'' doc)),
      art_text = join [CHR 0x0A, CHR 0x0A]
        (filter (\<lambda>t. t \<noteq> []) (map (\<lambda>n. trim_space (nodeText n)) (tagged ''p'' doc)))\<rparr>"
proof -
  define st where "st = (\<lparr>art_title = [], art_author = [], art_publishedAt = clock w 0, art_text = []\<rparr>, [] :: string list)"
  have "fst (extractArticle X doc w) = (fst (visit X doc st))\<lparr>art_text := join [CHR 0x0A, CHR 0x0A] (snd (visit X doc st))\<rparr>"
    by (simp add: extractArticle_def time_now_def st_def split: prod.split)
  then show ?thesis
    by (simp add: visit_outside fold_paragraphs tagged_def st_def fold_title fold_author fold_publishedAt fold_text)
qed

section \<open>What a fetch does to the world\<close>

text \<open>A fetch reads the clock and touches nothing else.\<close>

definition clock_moves :: "world \<Rightarrow> world \<Rightarrow> bool" where
  "clock_moves w w' \<longleftrightarrow> (\<exists>k. w' = w\<lparr>clock := (\<lambda>n. clock w (n + k))\<rparr>)"

lemma clock_moves_refl [simp]: "clock_moves w w"
  unfolding clock_moves_def by (rule exI [of _ 0]) simp

lemma clock_moves_trans: "clock_moves w w1 \<Longrightarrow> clock_moves w1 w2 \<Longrightarrow> clock_moves w w2"
proof -
  assume "clock_moves w w1" "clock_moves w1 w2"
  then obtain k k' where "w1 = w\<lparr>clock := (\<lambda>n. clock w (n + k))\<rparr>" "w2 = w1\<lparr>clock := (\<lambda>n. clock w1 (n + k'))\<rparr>"
    by (auto simp: clock_moves_def)
  then show ?thesis unfolding clock_moves_def by (intro exI [of _ "k' + k"]) (simp add: add.assoc)
qed

lemma clock_moves_time_now: "time_now w = (t, w') \<Longrightarrow> clock_moves w w' \<and> t \<in> range (clock w)"
  unfolding clock_moves_def time_now_def by (auto simp: advance_def intro!: exI [of _ 1])

lemma clock_moves_range: "clock_moves w w' \<Longrightarrow> range (clock w') \<subseteq> range (clock w)"
  by (auto simp: clock_moves_def)

lemma clock_moves_same:
  "clock_moves w w' \<Longrightarrow> committed w' = committed w" "clock_moves w w' \<Longrightarrow> open_tx w' = open_tx w"
  "clock_moves w w' \<Longrightarrow> faults w' = faults w" "clock_moves w w' \<Longrightarrow> fresh_ids w' = fresh_ids w"
  by (auto simp: clock_moves_def)

lemma request_clock: "request X name what url w = (r, w') \<Longrightarrow> clock_moves w w'"
  by (auto simp: request_def clock_moves_time_now Let_def split: option.splits sum.splits prod.splits if_splits)

text \<open>An instant that a feed names, or a reading of the clock.\<close>

definition readable_time :: "internet \<Rightarrow> world \<Rightarrow> time \<Rightarrow> bool" where
  "readable_time X w t \<longleftrightarrow> t \<in> range (clock w) \<or> (\<exists>layout s. time_parse X layout s = Some t)"

lemma readable_time_moves: "clock_moves w w' \<Longrightarrow> readable_time X w' t \<Longrightarrow> readable_time X w t"
  using clock_moves_range by (fastforce simp: readable_time_def)

lemma first_parsed_readable: "first_parsed X layouts s = Some t \<Longrightarrow> \<exists>layout. time_parse X layout s = Some t"
  by (induction layouts) (auto split: option.splits)

lemma parseFeedTime_readable: "parseFeedTime X s w = (t, w') \<Longrightarrow> clock_moves w w' \<and> readable_time X w t"
  by (auto simp: parseFeedTime_def readable_time_def dest: clock_moves_time_now first_parsed_readable
      split: if_splits option.splits)

text \<open>The entries that have an identity become items, in order.\<close>

definition rss_identity :: "rssItem \<Rightarrow> string" where
  "rss_identity it = firstNonEmpty [rss_GUID it, rss_Link it, rss_Title it]"

definition atom_identity :: "atomEntry \<Rightarrow> string" where
  "atom_identity e = firstNonEmpty [atom_ID e, atom_Href e, atom_Title e]"

definition items_of :: "internet \<Rightarrow> world \<Rightarrow> string list \<Rightarrow> CollectedItem list \<Rightarrow> world \<Rightarrow> bool" where
  "items_of X w ids out w' \<longleftrightarrow> clock_moves w w' \<and> map ci_ExternalID out = filter (\<lambda>x. x \<noteq> []) ids \<and>
     (\<forall>i \<in> set out. readable_time X w (ci_PublishedAt i))"

lemma items_of_Cons:
  assumes "parseFeedTime X s w = (t, w1)" and "items_of X w1 ids out w'" and "ident \<noteq> []"
    and "ci_ExternalID i = ident" and "ci_PublishedAt i = t"
  shows "items_of X w (ident # ids) (i # out) w'"
  using assms parseFeedTime_readable [OF assms(1)]
  by (auto simp: items_of_def intro: clock_moves_trans readable_time_moves)

lemma items_of_skip: "items_of X w ids out w' \<Longrightarrow> items_of X w ([] # ids) out w'"
  by (simp add: items_of_def)

lemma mapRSSItems_items: "mapRSSItems X its w = (out, w') \<Longrightarrow> items_of X w (map rss_identity its) out w'"
proof (induction its arbitrary: w out)
  case (Cons it its)
  then show ?case
    by (cases "rss_identity it = []")
      (auto simp: rss_identity_def items_of_skip items_of_Cons Let_def simp del: firstNonEmpty.simps split: prod.splits)
qed (simp add: items_of_def)

lemma mapAtomEntries_items: "mapAtomEntries X es w = (out, w') \<Longrightarrow> items_of X w (map atom_identity es) out w'"
proof (induction es arbitrary: w out)
  case (Cons e es)
  then show ?case
    by (cases "atom_identity e = []")
      (auto simp: atom_identity_def items_of_skip items_of_Cons Let_def simp del: firstNonEmpty.simps split: prod.splits)
qed (simp add: items_of_def)

definition feed_identities :: "xml_node \<Rightarrow> string list option" where
  "feed_identities doc =
     (case unmarshal_rss doc of
        Some items \<Rightarrow> Some (map rss_identity items)
      | None \<Rightarrow> map_option (map atom_identity) (unmarshal_atom doc))"

lemma parseFeed_items:
  assumes "parseFeed X body w = (r, w')"
  shows "clock_moves w w'"
    and "r = Inr items \<Longrightarrow> \<exists>doc ids. xml_root X body = Inr doc \<and> feed_identities doc = Some ids \<and> items_of X w ids items w'"
  using assms mapRSSItems_items mapAtomEntries_items
  by (auto simp: parseFeed_def Let_def feed_identities_def items_of_def split: sum.splits option.splits prod.splits)

lemma rss_Fetch_items:
  assumes "rss_Fetch X source w = (r, w')"
  shows "clock_moves w w'"
    and "r = Inr items \<Longrightarrow> \<exists>body doc ids w1. xml_root X body = Inr doc \<and> feed_identities doc = Some ids \<and>
      clock_moves w w1 \<and> items_of X w1 ids items w'"
proof -
  have "clock_moves w w' \<and> (r = Inr items \<longrightarrow> (\<exists>body doc ids w1. xml_root X body = Inr doc \<and>
      feed_identities doc = Some ids \<and> clock_moves w w1 \<and> items_of X w1 ids items w'))" for items
  proof (cases "\<exists>url. src_Config source = Some (RSSConfig url)")
    case False
    then show ?thesis using assms by (auto simp: rss_Fetch_def split: option.splits SourceConfig.splits)
  next
    case True
    then obtain url where url: "src_Config source = Some (RSSConfig url)" by blast
    obtain q w1 where q: "request X ''rss'' ''feed'' url w = (q, w1)" by fastforce
    note w1 = request_clock [OF q]
    show ?thesis
    proof (cases "\<exists>body. q = Inr (Inr body)")
      case False
      then show ?thesis using assms w1 by (auto simp: rss_Fetch_def url q split: sum.splits)
    next
      case True
      then obtain body where body: "q = Inr (Inr body)" by blast
      obtain p w2 where p: "parseFeed X (take maxFeedBytes body) w1 = (p, w2)" by fastforce
      have "w' = w2" and r: "r = Inr items \<longrightarrow> p = Inr items"
        using assms by (auto simp: rss_Fetch_def url q body p split: sum.splits)
      then show ?thesis using parseFeed_items [OF p] w1 clock_moves_trans by blast
    qed
  qed
  then show "clock_moves w w'" and "r = Inr items \<Longrightarrow> \<exists>body doc ids w1. xml_root X body = Inr doc \<and>
      feed_identities doc = Some ids \<and> clock_moves w w1 \<and> items_of X w1 ids items w'" by blast+
qed

lemma extractArticle_clock: "extractArticle X doc w = (a, w') \<Longrightarrow> clock_moves w w'"
  by (auto simp: extractArticle_def clock_moves_time_now split: prod.splits)

lemma web_Fetch_clock:
  assumes "web_Fetch X source w = (r, w')" shows "clock_moves w w'"
proof (cases "\<exists>url. src_Config source = Some (HTMLConfig url)")
  case False
  then show ?thesis using assms by (auto simp: web_Fetch_def split: option.splits SourceConfig.splits)
next
  case True
  then obtain url where url: "src_Config source = Some (HTMLConfig url)" by blast
  obtain q w1 where q: "request X ''web'' ''page'' url w = (q, w1)" by fastforce
  have "w' = w1 \<or> (\<exists>doc a. extractArticle X doc w1 = (a, w'))"
    using assms by (auto simp: web_Fetch_def url q Let_def split: sum.splits prod.splits if_splits)
  then show ?thesis using request_clock [OF q] extractArticle_clock clock_moves_trans by blast
qed


definition one_feed :: internet where
  "one_feed =
     \<lparr>new_request = (\<lambda>_. None), http_get = (\<lambda>_ _. Inr \<lparr>resp_StatusCode = 200, resp_Body = Inr ''feed''\<rparr>),
      xml_root = (\<lambda>_. Inr (XmlElement ''rss'' [] [XmlElement ''channel'' []
        [XmlElement ''item'' [] [XmlElement ''guid'' [] [XmlText ''a''], XmlElement ''title'' [] [XmlText ''hi'']],
         XmlElement ''item'' [] [XmlElement ''author'' [] [XmlText ''b'']]]])),
      html_root = (\<lambda>_. Inr (OtherNode [])), time_parse = (\<lambda>_ _. None)\<rparr>"

lemma rss_Fetch_one_feed:
  "rss_Fetch one_feed (sample_domain_source i) w =
     (Inr [\<lparr>ci_ExternalID = ''a'', ci_PublishedAt = clock w 1, ci_Author = None, ci_Text = ''hi'',
            ci_Metadata = Some [(''title'', ''hi'')]\<rparr>],
      w\<lparr>clock := advance (advance (clock w))\<rparr>)"
proof -
  have t: "trim_space ''a'' = ''a''" "trim_space ''hi'' = ''hi''" by code_simp+
  show ?thesis
    by (simp add: rss_Fetch_def sample_domain_source_def request_def one_feed_def parseFeed_def unmarshal_rss_def
        unmarshal_item_def string_field_def last_or_empty_def parseFeedTime_def time_now_def t
        optionalAuthor_def feedMetadata_def Let_def advance_def)
qed


end
