(* ===== verification/Collectors.thy ===== *)
theory Collectors
  imports Fetchers Schedulers
begin

text \<open>
  The collectors of \<open>internal/task\<close>: \<open>rss_collector.go\<close>, \<open>web_collector.go\<close> and
  \<open>telegram_collector.go\<close>. A listing that goes on for ever is the value \<open>None\<close>: fuel counts the
  pages read. What the collectors log is not modelled.
\<close>

section \<open>Polling\<close>

definition collectorPageSize :: int where
  "collectorPageSize = 100"

definition of_type :: "SourceType \<Rightarrow> string \<Rightarrow> ListSourcesFilter" where
  "of_type t token =
     \<lparr>lsf_Type = t, lsf_PageSize = collectorPageSize, lsf_PageToken = token, lsf_ProcessingMode = None\<rparr>"

text \<open>The sources of a page, one after the other; a failure is logged and passed over.\<close>

fun collect_each :: "(Source \<Rightarrow> world \<Rightarrow> unit result \<times> world) \<Rightarrow> Source list \<Rightarrow> world \<Rightarrow> world" where
  "collect_each collectOne [] w = w"
| "collect_each collectOne (src # srcs) w =
     (case collectOne src w of (_, w) \<Rightarrow> collect_each collectOne srcs w)"

fun collect_all_pages ::
  "ext \<Rightarrow> SourceType \<Rightarrow> (Source \<Rightarrow> world \<Rightarrow> unit result \<times> world) \<Rightarrow> nat \<Rightarrow> string \<Rightarrow> world \<Rightarrow> world option" where
  "collect_all_pages E t collectOne 0 token w = None"
| "collect_all_pages E t collectOne (Suc fuel) token w =
     (case SourceUsecase_List E (of_type t token) w of
        (Inl err, w) \<Rightarrow> Some w
      | (Inr res, w) \<Rightarrow>
          (let w = collect_each collectOne (Items res) w in
           if NextPageToken res = [] then Some w
           else collect_all_pages E t collectOne fuel (NextPageToken res) w))"

definition collectAllOfType ::
  "ext \<Rightarrow> SourceType \<Rightarrow> (Source \<Rightarrow> world \<Rightarrow> unit result \<times> world) \<Rightarrow> nat \<Rightarrow> world \<Rightarrow> world option" where
  "collectAllOfType E t collectOne fuel w = collect_all_pages E t collectOne fuel [] w"

definition RSSCollector_tick :: "ext \<Rightarrow> internet \<Rightarrow> nat \<Rightarrow> world \<Rightarrow> world option" where
  "RSSCollector_tick E X fuel w = collectAllOfType E SourceTypeRSS (CollectSource E (rss_Fetch X)) fuel w"

definition collectWithRetry :: "ext \<Rightarrow> internet \<Rightarrow> Source \<Rightarrow> world \<Rightarrow> unit result \<times> world" where
  "collectWithRetry E X src w =
     (case CollectSource E (web_Fetch X) src w of
        (Inr _, w) \<Rightarrow> (Inr (), w)
      | (Inl err, w) \<Rightarrow>
          (case take_ctx_done w of
             (Some _, w) \<Rightarrow> (Inl err, w)
           | (None, w) \<Rightarrow> CollectSource E (web_Fetch X) src w))"

definition WebCollector_tick :: "ext \<Rightarrow> internet \<Rightarrow> nat \<Rightarrow> world \<Rightarrow> world option" where
  "WebCollector_tick E X fuel w = collectAllOfType E SourceTypeHTML (collectWithRetry E X) fuel w"

text \<open>
  The loop of a polling collector; \<open>running\<close> holds what it finds each time it looks at its
  context and its stop channel. The flag tells whether it has stopped within the rounds.
\<close>

fun runCollectLoop :: "(world \<Rightarrow> world option) \<Rightarrow> bool stream \<Rightarrow> nat \<Rightarrow> world \<Rightarrow> (bool \<times> world) option" where
  "runCollectLoop job running 0 w = Some (False, w)"
| "runCollectLoop job running (Suc k) w =
     (if \<not> running 0 then Some (True, w)
      else case job w of
        None \<Rightarrow> None
      | Some w \<Rightarrow>
          (if \<not> running 1 then Some (True, w) else runCollectLoop job (advance (advance running)) k w))"

definition defaultCollectorPoll :: duration where
  "defaultCollectorPoll = 300000000000"

text \<open>The interval of \<open>Start\<close>.\<close>

definition poll_interval :: "duration \<Rightarrow> duration" where
  "poll_interval configured = (if sint configured \<le> 0 then defaultCollectorPoll else configured)"

section \<open>Telegram\<close>

definition tgIDOf :: "Source \<Rightarrow> 64 word option" where
  "tgIDOf s = (case src_Config s of
     Some (TelegramChannelConfig tg _) \<Rightarrow> Some tg
   | Some (TelegramGroupConfig tg _) \<Rightarrow> Some tg
   | _ \<Rightarrow> None)"

fun resolve_pages ::
  "ext \<Rightarrow> SourceType \<Rightarrow> 64 word \<Rightarrow> nat \<Rightarrow> string \<Rightarrow> world \<Rightarrow> (Source option result \<times> world) option" where
  "resolve_pages E t tgID 0 token w = None"
| "resolve_pages E t tgID (Suc fuel) token w =
     (case SourceUsecase_List E (of_type t token) w of
        (Inl err, w) \<Rightarrow> Some (Inl err, w)
      | (Inr res, w) \<Rightarrow>
          (case List.find (\<lambda>s. tgIDOf s = Some tgID) (Items res) of
             Some s \<Rightarrow> Some (Inr (Some s), w)
           | None \<Rightarrow>
               (if NextPageToken res = [] then Some (Inr None, w)
                else resolve_pages E t tgID fuel (NextPageToken res) w)))"

fun resolve_types ::
  "ext \<Rightarrow> SourceType list \<Rightarrow> 64 word \<Rightarrow> nat \<Rightarrow> world \<Rightarrow> (Source option result \<times> world) option" where
  "resolve_types E [] tgID fuel w = Some (Inr None, w)"
| "resolve_types E (st # sts) tgID fuel w =
     (case resolve_pages E st tgID fuel [] w of
        None \<Rightarrow> None
      | Some (Inl err, w) \<Rightarrow> Some (Inl err, w)
      | Some (Inr (Some s), w) \<Rightarrow> Some (Inr (Some s), w)
      | Some (Inr None, w) \<Rightarrow> resolve_types E sts tgID fuel w)"

definition resolve :: "ext \<Rightarrow> 64 word \<Rightarrow> nat \<Rightarrow> world \<Rightarrow> (Source option result \<times> world) option" where
  "resolve E tgID fuel w = resolve_types E [SourceTypeTelegramChannel, SourceTypeTelegramGroup] tgID fuel w"

text \<open>\<open>handle\<close> always returns nil; an error of either step is logged.\<close>

definition handle :: "ext \<Rightarrow> nat \<Rightarrow> TelegramMessage \<Rightarrow> world \<Rightarrow> (unit result \<times> world) option" where
  "handle E fuel msg w =
     (case resolve E (tm_TgID msg) fuel w of
        None \<Rightarrow> None
      | Some (Inl err, w) \<Rightarrow> Some (Inr (), w)
      | Some (Inr None, w) \<Rightarrow> Some (Inr (), w)
      | Some (Inr (Some src), w) \<Rightarrow>
          (case CollectItems E src [tm_Item msg] w of (_, w) \<Rightarrow> Some (Inr (), w)))"

text \<open>An update of the Telegram client, up to the handler of the collector.\<close>

definition on_update :: "ext \<Rightarrow> nat \<Rightarrow> tg_entities \<Rightarrow> tg_update \<Rightarrow> world \<Rightarrow> (unit result \<times> world) option" where
  "on_update E fuel ents u w =
     (case dispatch_update ents u of None \<Rightarrow> Some (Inr (), w) | Some msg \<Rightarrow> handle E fuel msg w)"

section \<open>What a collection may change\<close>

text \<open>Whatever fails: sources stay, posts are only added, and only such as \<open>A\<close> allows.\<close>

definition grown :: "(post_row \<Rightarrow> bool) \<Rightarrow> world \<Rightarrow> world \<Rightarrow> bool" where
  "grown A w w' \<longleftrightarrow> open_tx w' = None \<and> sources (committed w') = sources (committed w) \<and>
     (\<exists>new. posts (committed w') = posts (committed w) @ new \<and> (\<forall>p \<in> set new. A p))"

lemma grown_refl: "open_tx w = None \<Longrightarrow> committed w' = committed w \<Longrightarrow> open_tx w' = None \<Longrightarrow> grown A w w'"
  by (simp add: grown_def)

lemma grown_trans: "grown A w w1 \<Longrightarrow> grown A w1 w2 \<Longrightarrow> grown A w w2"
  by (auto simp: grown_def)

lemma grown_mono: "grown A w w' \<Longrightarrow> (\<And>p. A p \<Longrightarrow> B p) \<Longrightarrow> grown B w w'"
  unfolding grown_def by blast

lemma grown_outside: "grown A w w' \<Longrightarrow> open_tx w' = None"
  by (simp add: grown_def)

lemma grown_sources: "grown A w w' \<Longrightarrow> sources (committed w') = sources (committed w)"
  by (simp add: grown_def)

lemma create_item_grown:
  assumes E: "ext_laws E" and w: "open_tx w = None" and c: "create_item E sourceID item w = (r, w')"
  shows "grown (\<lambda>p. parse_uuid E sourceID = Some (p_source_id p) \<and> p_external_id p = ci_ExternalID item \<and>
    p_text p = ci_Text item) w w'"
proof -
  have "sources (committed w') = sources (committed w)"
    using PostUsecase_Create_effect [OF E w c [unfolded create_item_def]]
    by (auto simp: create_effect_def split: if_splits)
  then show ?thesis using create_item_effect(1,2) [OF E w c] by (simp add: grown_def)
qed

lemma CollectItems_grown:
  assumes E: "ext_laws E" and w: "open_tx w = None" and c: "CollectItems E source items w = (r, w')"
  shows "grown (\<lambda>p. parse_uuid E (src_ID source) = Some (p_source_id p) \<and> trim_space (p_text p) \<noteq> [] \<and>
    (\<exists>item \<in> set items. p_external_id p = ci_ExternalID item \<and> p_text p = ci_Text item)) w w'"
proof -
  have batch: "set is \<subseteq> {i \<in> set items. trim_space (ci_Text i) \<noteq> []} \<Longrightarrow> open_tx w = None \<Longrightarrow>
      collect_loop E (src_ID source) is w = (r, w') \<Longrightarrow>
      grown (\<lambda>p. parse_uuid E (src_ID source) = Some (p_source_id p) \<and> trim_space (p_text p) \<noteq> [] \<and>
        (\<exists>item \<in> set items. p_external_id p = ci_ExternalID item \<and> p_text p = ci_Text item)) w w'" for "is" w
  proof (induction "is" arbitrary: w)
    case Nil
    then show ?case by (simp add: grown_refl)
  next
    case (Cons i "is")
    obtain q w1 where q: "create_item E (src_ID source) i w = (q, w1)" by fastforce
    have "grown (\<lambda>p. parse_uuid E (src_ID source) = Some (p_source_id p) \<and> trim_space (p_text p) \<noteq> [] \<and>
        (\<exists>item \<in> set items. p_external_id p = ci_ExternalID item \<and> p_text p = ci_Text item)) w w1"
      using Cons.prems(1) by (intro grown_mono [OF create_item_grown [OF E Cons.prems(2) q]]) auto
    moreover have "w' = w1 \<or> collect_loop E (src_ID source) is w1 = (r, w')"
      using Cons.prems(3) q by (cases q) (auto split: if_splits)
    moreover have "set is \<subseteq> {i \<in> set items. trim_space (ci_Text i) \<noteq> []}" using Cons.prems(1) by simp
    ultimately show ?case using Cons.IH grown_outside grown_trans by blast
  qed
  show ?thesis
    by (rule batch [OF _ w c [unfolded CollectItems_def FilterTextItems_filter]]) auto
qed

text \<open>
  An item with a text whose date is the zero instant, as a feed can name it, stops the
  collection at this item: the ones after it are not reached.
\<close>

lemma CollectItems_zero_date:
  assumes "ci_PublishedAt i = zero_time" and "trim_space (ci_Text i) \<noteq> []"
  shows "\<exists>e. CollectItems E s (i # items) w = (Inl e, w)"
proof -
  have "ValidateCreatePost E (src_ID s) (ci_ExternalID i) (ci_Text i) (ci_PublishedAt i) \<noteq> None"
    using assms(1) by (simp add: ValidateCreatePost_None)
  then obtain d where "ValidateCreatePost E (src_ID s) (ci_ExternalID i) (ci_Text i) (ci_PublishedAt i) =
      Some (errorf_detail ErrPostInvalidArgument d)"
    by (auto simp: ValidateCreatePost_def Let_def split: if_splits)
  then show ?thesis
    using assms(2) by (simp add: CollectItems_def create_item_def PostUsecase_Create_def)
qed

section \<open>Fetchers\<close>

text \<open>
  What a collector relies on in a fetcher: it reads the clock and leaves everything else
  alone. Both fetchers of the program provide it.
\<close>

locale fetcher =
  fixes fetch :: "Source \<Rightarrow> world \<Rightarrow> CollectedItem list result \<times> world"
  assumes only_reads: "fetch s w = (r, w') \<Longrightarrow> clock_moves w w'"
begin

lemma CollectSource_grown:
  assumes E: "ext_laws E" and w: "open_tx w = None" and run: "CollectSource E fetch s w = (r, w')"
  shows "grown (\<lambda>p. parse_uuid E (src_ID s) = Some (p_source_id p) \<and> trim_space (p_text p) \<noteq> []) w w'"
proof -
  obtain q w1 where f: "fetch s w = (q, w1)" by fastforce
  note w1 = only_reads [OF f]
  have g: "grown A w w1" for A using w clock_moves_same(1,2) [OF w1] by (simp add: grown_refl)
  show ?thesis
  proof (cases q)
    case (Inl e)
    then show ?thesis using run f g by (simp add: CollectSource_def)
  next
    case (Inr items)
    then have "CollectItems E s items w1 = (r, w')" using run f by (simp add: CollectSource_def)
    moreover have "open_tx w1 = None" using g grown_outside by blast
    ultimately have "grown (\<lambda>p. parse_uuid E (src_ID s) = Some (p_source_id p) \<and> trim_space (p_text p) \<noteq> []) w1 w'"
      by (intro grown_mono [OF CollectItems_grown [OF E]]) auto
    then show ?thesis using g grown_trans by blast
  qed
qed

end

interpretation rss: fetcher "rss_Fetch X" for X
  by unfold_locales (rule rss_Fetch_items)

interpretation web: fetcher "web_Fetch X" for X
  by unfold_locales (rule web_Fetch_clock)

section \<open>Ticks touch only their own sources\<close>

text \<open>The posts of sources of a type.\<close>

definition of_sources :: "source_row list \<Rightarrow> SourceType \<Rightarrow> post_row \<Rightarrow> bool" where
  "of_sources S t p \<longleftrightarrow> trim_space (p_text p) \<noteq> [] \<and> (\<exists>r \<in> set S. s_id r = p_source_id p \<and> s_type r = t)"

lemma map_results_in: "map_results f xs = Inr ys \<Longrightarrow> y \<in> set ys \<Longrightarrow> \<exists>x \<in> set xs. f x = Inr y"
  by (induction xs arbitrary: ys) (auto split: sum.splits)

text \<open>A listing lists matching sources and changes nothing, whatever fails.\<close>

lemma source_repo_List_effect:
  assumes w: "open_tx w = None" and run: "source_repo_List E f w = (r, w')"
  shows "open_tx w' = None \<and> committed w' = committed w"
    and "r = Inr page \<Longrightarrow> \<forall>s \<in> set (Items page). \<exists>row \<in> set (sources (committed w)).
      source_to_domain E row = Inr s \<and> source_matches f row"
proof -
  define dec where "dec = (if lsf_PageToken f = [] then Inr None
     else map_sum (\<lambda>_. errorf_detail ErrInvalidConfig ''invalid page token'') Some (decodePageToken E (lsf_PageToken f)))"
  have "(open_tx w' = None \<and> committed w' = committed w) \<and> (\<forall>page. r = Inr page \<longrightarrow>
      (\<forall>s \<in> set (Items page). \<exists>row \<in> set (sources (committed w)). source_to_domain E row = Inr s \<and> source_matches f row))"
  proof (cases dec)
    case (Inl e)
    then show ?thesis using run w by (auto simp: source_repo_List_def dec_def [symmetric])
  next
    case (Inr tok)
    define q where "q = select (\<lambda>_ d. take (nat (lsf_PageSize f) + 1)
        (keyset_rows False source_cursor tok (filter (source_matches f) (sources d))))"
    obtain x w1 where x: "exec_direct q w = (x, w1)" by fastforce
    note eff = exec_direct_outside_effect [OF w x]
    have w1: "open_tx w1 = None \<and> committed w1 = committed w" using eff(1,2) by (auto simp: q_def select_def)
    have rows: "x = Inr rows \<Longrightarrow> set rows \<subseteq> {r \<in> set (sources (committed w)). source_matches f r}" for rows
      using eff(3) by (auto simp: q_def select_def keyset_rows_def Let_def dest!: in_set_takeD split: if_splits)
    show ?thesis
    proof (cases x)
      case (Inl e)
      then show ?thesis using run x w1 Inr by (auto simp: source_repo_List_def dec_def [symmetric] q_def Let_def)
    next
      case r: (Inr rs)
      then have "w' = w1" and "r = Inr page \<Longrightarrow> \<exists>n. map_results (source_to_domain E) (take n rs) = Inr (Items page)" for page
        using run x Inr by (auto simp: source_repo_List_def dec_def [symmetric] q_def Let_def split: sum.splits)
      then show ?thesis using w1 rows [OF r] by (fastforce dest!: map_results_in in_set_takeD)
    qed
  qed
  then show "open_tx w' = None \<and> committed w' = committed w"
    and "r = Inr page \<Longrightarrow> \<forall>s \<in> set (Items page). \<exists>row \<in> set (sources (committed w)).
      source_to_domain E row = Inr s \<and> source_matches f row" by blast+
qed

lemma SourceUsecase_List_of_type:
  assumes t: "t \<noteq> SourceTypeOther []" and w: "open_tx w = None"
    and run: "SourceUsecase_List E (of_type t token) w = (r, w')"
  shows "open_tx w' = None \<and> committed w' = committed w"
    and "r = Inr page \<Longrightarrow> \<forall>s \<in> set (Items page). \<exists>row \<in> set (sources (committed w)).
      source_to_domain E row = Inr s \<and> s_type row = t"
proof -
  define f where "f = (of_type t token)\<lparr>lsf_PageSize := clamp_page_size (lsf_PageSize (of_type t token))\<rparr>"
  have m: "source_matches f row \<Longrightarrow> s_type row = t" for row
    using t by (simp add: f_def of_type_def source_matches_def)
  have alt: "(\<exists>e. r = Inl e \<and> w' = w) \<or> source_repo_List E f w = (r, w')"
    using run t by (auto simp: SourceUsecase_List_def f_def [symmetric] Let_def split: option.splits if_splits)
  then show "open_tx w' = None \<and> committed w' = committed w"
    using w source_repo_List_effect(1) by blast
  show "\<forall>s \<in> set (Items page). \<exists>row \<in> set (sources (committed w)). source_to_domain E row = Inr s \<and> s_type row = t"
    if "r = Inr page"
    using alt that source_repo_List_effect(2) [OF w] m by blast
qed

text \<open>A page of sources, each collected in its turn by a program that adds posts of its source.\<close>

lemma collect_each_grown:
  assumes one: "\<And>s w r w'. open_tx w = None \<Longrightarrow> collectOne s w = (r, w') \<Longrightarrow>
      grown (\<lambda>p. parse_uuid E (src_ID s) = Some (p_source_id p) \<and> trim_space (p_text p) \<noteq> []) w w'"
    and E: "ext_laws E"
  shows "open_tx w = None \<Longrightarrow> \<forall>s \<in> set srcs. \<exists>row \<in> set S. source_to_domain E row = Inr s \<and> s_type row = t \<Longrightarrow>
    grown (of_sources S t) w (collect_each collectOne srcs w)"
proof (induction srcs arbitrary: w)
  case Nil
  then show ?case by (simp add: grown_refl)
next
  case (Cons s srcs)
  obtain r w1 where r: "collectOne s w = (r, w1)" by fastforce
  from Cons.prems(2) obtain row where row: "row \<in> set S" "source_to_domain E row = Inr s" "s_type row = t" by auto
  have "grown (of_sources S t) w w1"
    using row source_to_domain_fields [OF row(2)] E
    by (intro grown_mono [OF one [OF Cons.prems(1) r]]) (auto simp: of_sources_def ext_lawsD)
  moreover have "grown (of_sources S t) w1 (collect_each collectOne srcs w1)"
    using Cons.prems(2) calculation by (intro Cons.IH) (auto dest: grown_outside)
  ultimately show ?case using r grown_trans by simp
qed

lemma collect_all_pages_grown:
  assumes one: "\<And>s w r w'. open_tx w = None \<Longrightarrow> collectOne s w = (r, w') \<Longrightarrow>
      grown (\<lambda>p. parse_uuid E (src_ID s) = Some (p_source_id p) \<and> trim_space (p_text p) \<noteq> []) w w'"
    and E: "ext_laws E" and t: "t \<noteq> SourceTypeOther []"
  shows "open_tx w = None \<Longrightarrow> sources (committed w) = S \<Longrightarrow>
    collect_all_pages E t collectOne fuel token w = Some w' \<Longrightarrow> grown (of_sources S t) w w'"
proof (induction fuel arbitrary: token w)
  case (Suc fuel)
  obtain r w1 where r: "SourceUsecase_List E (of_type t token) w = (r, w1)" by fastforce
  note l = SourceUsecase_List_of_type [OF t Suc.prems(1) r]
  have g1: "grown (of_sources S t) w w1" using l(1) Suc.prems(1) by (simp add: grown_refl)
  show ?case
  proof (cases r)
    case (Inl e)
    then show ?thesis using Suc.prems r g1 by simp
  next
    case (Inr page)
    define w2 where "w2 = collect_each collectOne (Items page) w1"
    have "grown (of_sources S t) w1 w2"
      using l Inr Suc.prems(2) unfolding w2_def by (intro collect_each_grown [OF one E]) auto
    then have g2: "grown (of_sources S t) w w2" using g1 grown_trans by blast
    then have "open_tx w2 = None" "sources (committed w2) = S"
      using Suc.prems(2) by (simp_all add: grown_def)
    then show ?thesis
      using Suc.prems(3) Suc.IH [of w2 "NextPageToken page"] r Inr g2 grown_trans
      by (auto simp: w2_def [symmetric] Let_def split: if_splits)
  qed
qed simp

lemma collectWithRetry_grown:
  assumes E: "ext_laws E" and w: "open_tx w = None" and run: "collectWithRetry E X s w = (r, w')"
  shows "grown (\<lambda>p. parse_uuid E (src_ID s) = Some (p_source_id p) \<and> trim_space (p_text p) \<noteq> []) w w'"
proof -
  obtain q w1 where q: "CollectSource E (web_Fetch X) s w = (q, w1)" by fastforce
  note g = web.CollectSource_grown [OF E w q]
  define w2 where "w2 = w1\<lparr>ctx_done := advance (ctx_done w1)\<rparr>"
  have g2: "grown (\<lambda>p. parse_uuid E (src_ID s) = Some (p_source_id p) \<and> trim_space (p_text p) \<noteq> []) w w2"
    using g by (simp add: grown_def w2_def)
  consider "w' = w1" | "w' = w2" | "CollectSource E (web_Fetch X) s w2 = (r, w')"
    using run q by (auto simp: collectWithRetry_def take_ctx_done_def w2_def split: sum.splits option.splits)
  then show ?thesis
    by cases (use g g2 web.CollectSource_grown [OF E grown_outside [OF g2]] grown_trans in blast)+
qed


end
