(* ===== verification/Collector_Runs.thy ===== *)
theory Collector_Runs
  imports Collectors
begin

text \<open>
  What the collectors achieve when nothing fails in the database: a tick ends, whatever the
  servers answer, and leaves every offered item of every source of its type stored; a message
  reaches its source. Identifiers are fresh as far as a tick uses them.
\<close>

section \<open>One creation\<close>

definition used_ids :: "database \<Rightarrow> uuid set" where
  "used_ids d = post_ids d \<union> l_id ` set (summary_events d) \<union> {p. \<exists>e \<in> set (summary_events d). e_post_id e = Some p}"

definition post_keys :: "database \<Rightarrow> (uuid \<times> string) list" where
  "post_keys d = map (\<lambda>p. (p_source_id p, p_external_id p)) (posts d)"

definition collect_ready :: "ext \<Rightarrow> source_row list \<Rightarrow> nat \<Rightarrow> world \<Rightarrow> bool" where
  "collect_ready E S n w \<longleftrightarrow>
     ext_laws E \<and> fault_free w \<and> sources (committed w) = S \<and> sources_ok (committed w) \<and>
     distinct (post_keys (committed w)) \<and> ids_fresh w n (used_ids (committed w)) \<and>
     (\<forall>k. clock w k \<noteq> zero_time)"

definition stored :: "uuid \<Rightarrow> string \<Rightarrow> world \<Rightarrow> bool" where
  "stored sid x w \<longleftrightarrow> (\<exists>p \<in> set (posts (committed w)). post_key sid x p)"

definition valid_item :: "CollectedItem \<Rightarrow> bool" where
  "valid_item i \<longleftrightarrow> ci_ExternalID i \<noteq> [] \<and> trim_space (ci_Text i) \<noteq> [] \<and> ci_PublishedAt i \<noteq> zero_time"

lemma collect_ready_less: "collect_ready E S n w \<Longrightarrow> m \<le> n \<Longrightarrow> collect_ready E S m w"
  by (auto simp: collect_ready_def intro: ids_fresh_mono)

lemma collect_ready_same:
  assumes "collect_ready E S n w" and "committed w' = committed w" and "open_tx w' = open_tx w"
    and "\<forall>k. faults w' k = Healthy" and "fresh_ids w' = fresh_ids w" and "range (clock w') \<subseteq> range (clock w)"
  shows "collect_ready E S n w'"
proof -
  have "clock w' k \<noteq> zero_time" for k
    using assms(1,6) unfolding collect_ready_def by (metis rangeE range_subsetD)
  then show ?thesis using assms by (auto simp: collect_ready_def fault_free_def ids_fresh_def)
qed

lemma collect_ready_clock: "collect_ready E S n w \<Longrightarrow> clock_moves w w' \<Longrightarrow> collect_ready E S n w'"
  using clock_moves_range [of w w']
  by (intro collect_ready_same [of E S n w w']) (simp_all add: clock_moves_same collect_ready_def fault_free_def)

lemma collect_ready_after_read [simp]: "collect_ready E S n w \<Longrightarrow> collect_ready E S n (after_read w)"
  by (rule collect_ready_same) (auto simp: collect_ready_def fault_free_def advance_def)

lemma ids_fresh_created:
  assumes "created_rows (fresh_ids w) sid x (committed w) (committed w') (fresh_ids w')"
    and "ids_fresh w (n + 2) (used_ids (committed w))"
  shows "ids_fresh w' n (used_ids (committed w'))"
proof -
  let ?U = "used_ids (committed w)"
  obtain k where k: "fresh_ids w' = (\<lambda>i. fresh_ids w (i + k))" "k \<le> 2"
    and U: "used_ids (committed w') \<subseteq> ?U \<union> fresh_ids w ` {..<k}"
  proof -
    from assms(1) consider "committed w' = committed w" "fresh_ids w' = advance (fresh_ids w)"
      | row where "p_id row = fresh_ids w 0" "committed w' = (committed w)\<lparr>posts := posts (committed w) @ [row]\<rparr>"
          "fresh_ids w' = advance (fresh_ids w)"
      | row ev where "p_id row = fresh_ids w 0" "l_id ev = fresh_ids w 1" "e_post_id ev = Some (fresh_ids w 0)"
          "committed w' = (committed w)\<lparr>posts := posts (committed w) @ [row], summary_events := summary_events (committed w) @ [ev]\<rparr>"
          "fresh_ids w' = advance (advance (fresh_ids w))"
      unfolding created_rows_def by blast
    then show ?thesis
    proof cases
      case 1
      then show ?thesis by (intro that [of 1]) (auto simp: advance_def)
    next
      case 2
      then show ?thesis by (intro that [of 1]) (auto simp: advance_def used_ids_def post_ids_def)
    next
      case 3
      then show ?thesis by (intro that [of 2]) (auto simp: advance_def used_ids_def post_ids_def)
    qed
  qed
  have inj: "inj_on (fresh_ids w) {..<n + 2}" and out: "\<forall>i < n + 2. fresh_ids w i \<notin> ?U"
    using assms(2) by (auto simp: ids_fresh_def)
  have "inj_on (fresh_ids w') {..<n}"
  proof (rule inj_onI)
    fix x y assume "x \<in> {..<n}" "y \<in> {..<n}" "fresh_ids w' x = fresh_ids w' y"
    then have "x + k = y + k" using k by (intro inj_onD [OF inj]) auto
    then show "x = y" by simp
  qed
  moreover have "fresh_ids w' i \<notin> used_ids (committed w')" if "i < n" for i
  proof
    assume "fresh_ids w' i \<in> used_ids (committed w')"
    with U k(1) consider "fresh_ids w (i + k) \<in> ?U" | j where "j < k" "fresh_ids w (i + k) = fresh_ids w j" by auto
    then show False
    proof cases
      case 1
      then show ?thesis using out that k(2) by auto
    next
      case 2
      then have "i + k = j" using inj that k(2) by (intro inj_onD [OF inj]) auto
      then show ?thesis using 2 by simp
    qed
  qed
  ultimately show ?thesis by (simp add: ids_fresh_def)
qed

lemma created_rows_posts:
  assumes "created_rows ids sid x d d' ids'"
  shows "sources d' = sources d" and "set (posts d) \<subseteq> set (posts d')" and "\<exists>p \<in> set (posts d'). post_key sid x p"
    and "distinct (post_keys d) \<Longrightarrow> distinct (post_keys d')"
  using assms by (force simp: created_rows_def post_keys_def post_key_def)+

lemma create_item_ready:
  assumes r: "collect_ready E S (n + 2) w" and row: "row \<in> set S" "source_to_domain E row = Inr s"
    and c: "create_item E (src_ID s) item w = (q, w')"
  shows "collect_ready E S n w' \<and> set (posts (committed w)) \<subseteq> set (posts (committed w')) \<and>
    (valid_item item \<longrightarrow> (\<exists>saved. q = Inr saved) \<and> stored (s_id row) (ci_ExternalID item) w')"
proof -
  have E: "ext_laws E" and w: "fault_free w" and S: "sources (committed w) = S" "sources_ok (committed w)"
    and keys: "distinct (post_keys (committed w))" and ids: "ids_fresh w (n + 2) (used_ids (committed w))"
    and clk: "\<forall>k. clock w k \<noteq> zero_time"
    using r by (auto simp: collect_ready_def)
  have sid: "parse_uuid E (src_ID s) = Some (s_id row)"
    using source_to_domain_fields [OF row(2)] E by (simp add: ext_lawsD)
  have v: "ValidateCreatePost E (src_ID s) (ci_ExternalID item) (ci_Text item) (ci_PublishedAt item) = None \<longleftrightarrow> valid_item item"
    by (auto simp: ValidateCreatePost_None valid_item_def sid)
  show ?thesis
  proof (cases "valid_item item")
    case False
    then obtain e where "ValidateCreatePost E (src_ID s) (ci_ExternalID item) (ci_Text item) (ci_PublishedAt item) = Some e"
      using v by (cases "ValidateCreatePost E (src_ID s) (ci_ExternalID item) (ci_Text item) (ci_PublishedAt item)") auto
    then have "w' = w" using c by (simp add: create_item_def PostUsecase_Create_def)
    then show ?thesis using False collect_ready_less [OF r, of n] by simp
  next
    case True
    have row_one: "filter (\<lambda>x. s_id x = s_id row) (sources (committed w)) = [row]"
      using S row(1) by (intro filter_key_one) (auto simp: sources_ok_def)
    have row_ok: "source_row_ok row" using S row(1) by (auto simp: sources_ok_def)
    have fresh: "fresh_ids w 0 \<notin> used_ids (committed w)" "fresh_ids w 1 \<notin> used_ids (committed w)"
      using ids by (auto simp: ids_fresh_def)
    have "\<exists>saved w'. PostUsecase_Create E (src_ID s) (ci_ExternalID item) (ci_Text item) (ci_PublishedAt item)
        (ci_Author item) (ci_Metadata item) w = (Inr saved, w') \<and>
      fault_free w' \<and> clock_suffix w w' \<and>
      created_rows (fresh_ids w) (s_id row) (ci_ExternalID item) (committed w) (committed w') (fresh_ids w') \<and>
      create_effect E (ProcessingModeForType (s_type row)) (s_id row) (ci_ExternalID item) (ci_Text item)
        (committed w) saved (committed w')"
      using True v fresh keys
      by (intro PostUsecase_Create_succeeds [OF E w _ sid row_one row_ok]) (auto simp: used_ids_def post_keys_def)
    then obtain saved where q: "q = Inr saved" and w': "fault_free w'" "clock_suffix w w'"
      and cr: "created_rows (fresh_ids w) (s_id row) (ci_ExternalID item) (committed w) (committed w') (fresh_ids w')"
      using c by (auto simp: create_item_def)
    note p = created_rows_posts [OF cr]
    have "collect_ready E S n w'"
      using E w' S p(1) p(4) [OF keys] ids_fresh_created [OF cr ids] clk
      by (auto simp: collect_ready_def sources_ok_def clock_suffix_def)
    then show ?thesis using q p(2,3) by (auto simp: stored_def)
  qed
qed

section \<open>One source\<close>

lemma stored_mono: "stored sid x w \<Longrightarrow> set (posts (committed w)) \<subseteq> set (posts (committed w')) \<Longrightarrow> stored sid x w'"
  by (auto simp: stored_def)

lemma collect_loop_ready:
  assumes row: "row \<in> set S" "source_to_domain E row = Inr s"
  shows "collect_ready E S (n + 2 * length items) w \<Longrightarrow> collect_loop E (src_ID s) items w = (q, w') \<Longrightarrow>
    collect_ready E S n w' \<and> set (posts (committed w)) \<subseteq> set (posts (committed w')) \<and>
    (list_all valid_item items \<longrightarrow> q = Inr () \<and> list_all (\<lambda>i. stored (s_id row) (ci_ExternalID i) w') items)"
proof (induction items arbitrary: w)
  case (Cons i items)
  obtain q1 w1 where c: "create_item E (src_ID s) i w = (q1, w1)" by fastforce
  have "collect_ready E S (n + 2 * length items + 2) w" using Cons.prems(1) by simp
  note one = create_item_ready [OF this row c]
  show ?case
  proof (cases "collect_loop E (src_ID s) (i # items) w = collect_loop E (src_ID s) items w1")
    case True
    then have "collect_loop E (src_ID s) items w1 = (q, w')" using Cons.prems(2) by simp
    from Cons.IH [OF conjunct1 [OF one] this] one show ?thesis by (auto intro: stored_mono)
  next
    case False
    then have "\<exists>e. q1 = Inl e" "w' = w1" using c Cons.prems(2) by (cases q1; auto split: if_splits)+
    then show ?thesis using one collect_ready_less [of E S "n + 2 * length items" w1 n] by auto
  qed
qed simp

text \<open>
  What a source offers: whenever it is fetched (and the clock is set), the items with a text
  can all become posts, and one of them has the identifier.
\<close>

definition offers :: "(Source \<Rightarrow> world \<Rightarrow> CollectedItem list result \<times> world) \<Rightarrow> Source \<Rightarrow> string \<Rightarrow> bool" where
  "offers fetch s x \<longleftrightarrow> (\<forall>w. (\<forall>k. clock w k \<noteq> zero_time) \<longrightarrow>
     (\<exists>items. fst (fetch s w) = Inr items \<and> list_all valid_item (FilterTextItems items) \<and>
        x \<in> ci_ExternalID ` set (FilterTextItems items)))"

definition at_most :: "nat \<Rightarrow> (Source \<Rightarrow> world \<Rightarrow> CollectedItem list result \<times> world) \<Rightarrow> bool" where
  "at_most m fetch \<longleftrightarrow> (\<forall>s w items. fst (fetch s w) = Inr items \<longrightarrow> length items \<le> m)"

context fetcher begin

lemma CollectSource_ready:
  assumes m: "at_most m fetch" and r: "collect_ready E S (n + 2 * m) w"
    and row: "row \<in> set S" "source_to_domain E row = Inr s" and run: "CollectSource E fetch s w = (q, w')"
  shows "collect_ready E S n w' \<and> set (posts (committed w)) \<subseteq> set (posts (committed w')) \<and>
    (\<forall>x. offers fetch s x \<longrightarrow> q = Inr () \<and> stored (s_id row) x w')"
proof -
  obtain p w1 where f: "fetch s w = (p, w1)" by fastforce
  note w1 = only_reads [OF f]
  have r1: "collect_ready E S (n + 2 * m) w1" by (rule collect_ready_clock [OF r w1])
  have clk: "\<forall>k. clock w k \<noteq> zero_time" using r by (simp add: collect_ready_def)
  show ?thesis
  proof (cases p)
    case (Inl e)
    then have "w' = w1" using run f by (simp add: CollectSource_def)
    moreover have "\<not> offers fetch s x" for x
    proof
      assume "offers fetch s x"
      then obtain items where "fst (fetch s w) = Inr items" using clk unfolding offers_def by blast
      then show False using f Inl by simp
    qed
    ultimately show ?thesis using clock_moves_same(1) [OF w1] collect_ready_less [OF r1, of n] by simp
  next
    case (Inr items)
    then have run1: "collect_loop E (src_ID s) (FilterTextItems items) w1 = (q, w')"
      using run f by (simp add: CollectSource_def CollectItems_def)
    have "length items \<le> m" using m f Inr unfolding at_most_def by (metis fst_conv)
    then have "length (FilterTextItems items) \<le> m"
      unfolding FilterTextItems_filter by (rule le_trans [OF length_filter_le])
    then have "collect_ready E S (n + 2 * length (FilterTextItems items)) w1"
      by (intro collect_ready_less [OF r1]) simp
    from collect_loop_ready [OF row this run1] have
      *: "collect_ready E S n w'" "set (posts (committed w)) \<subseteq> set (posts (committed w'))"
        "list_all valid_item (FilterTextItems items) \<Longrightarrow> q = Inr () \<and>
           list_all (\<lambda>i. stored (s_id row) (ci_ExternalID i) w') (FilterTextItems items)"
      using clock_moves_same(1) [OF w1] by simp_all
    have "q = Inr () \<and> stored (s_id row) x w'" if "offers fetch s x" for x
    proof -
      from that clk obtain items' where "fst (fetch s w) = Inr items'" "list_all valid_item (FilterTextItems items')"
        "x \<in> ci_ExternalID ` set (FilterTextItems items')" unfolding offers_def by blast
      then show ?thesis using f Inr * (3) by (auto simp: list_all_iff)
    qed
    then show ?thesis using * by blast
  qed
qed

end

section \<open>Pages of sources\<close>

definition typed_sources :: "source_row list \<Rightarrow> SourceType \<Rightarrow> source_row list" where
  "typed_sources S t = sort_key source_cursor (filter (\<lambda>r. s_type r = t) S)"

definition source_tok :: "ext \<Rightarrow> Source \<Rightarrow> string" where
  "source_tok E s = encodePageToken E (src_CreatedAt s) (the (parse_uuid E (src_ID s)))"

text \<open>A token of the walk over the sources of a type, and the position it stands for.\<close>

definition at_position :: "ext \<Rightarrow> source_row list \<Rightarrow> string \<Rightarrow> nat \<Rightarrow> bool" where
  "at_position E L token i \<longleftrightarrow> token = [] \<and> i = 0 \<or>
     (\<exists>j < length L. token = source_tok E (source_value E (L ! j)) \<and> i = Suc j)"

lemma source_tok_nonempty [simp]: "source_tok E s \<noteq> []"
  by (simp add: source_tok_def)

lemma typed_sources_row: "row \<in> set (typed_sources S t) \<longleftrightarrow> row \<in> set S \<and> s_type row = t"
  by (simp add: typed_sources_def)

lemma collect_ready_decodes: "collect_ready E S n w \<Longrightarrow> row \<in> set S \<Longrightarrow> source_to_domain E row = Inr (source_value E row)"
  using source_row_ok_to_domain [of row E] by (auto simp: collect_ready_def sources_ok_def source_value_def)

lemma list_page:
  assumes r: "collect_ready E S n w" and t: "ValidateSourceType t = None"
    and pos: "at_position E (typed_sources S t) token i"
  shows "SourceUsecase_List E (of_type t token) w =
    (Inr \<lparr>Items = map (source_value E) (take 100 (drop i (typed_sources S t))),
          NextPageToken = (if i + 100 < length (typed_sources S t)
            then source_tok E (source_value E (typed_sources S t ! (i + 99))) else [])\<rparr>, after_read w)"
proof -
  let ?L = "typed_sources S t" and ?f = "of_type t []"
  have t': "t \<noteq> SourceTypeOther []" using t by (auto simp: ValidateSourceType_def)
  have S: "sources (committed w) = S" using r by (simp add: collect_ready_def)
  have q: "source_paging_ok (E, ?f, w)"
    using r source_row_ok_to_domain by (auto simp: source_paging_ok_def of_type_def collectorPageSize_def collect_ready_def sources_ok_def)
  have m: "source_matches ?f = (\<lambda>r. s_type r = t)"
    using t' by (simp add: fun_eq_iff source_matches_def of_type_def)
  have L: "source_listing (E, ?f, w) = ?L"
    by (simp add: source_listing_def keyset_rows_def after_cursor_def m S typed_sources_def)
  have tok: "source_token (E, ?f, w) = source_tok E"
    by (simp add: fun_eq_iff source_token_def source_tok_def)
  have size: "nat (lsf_PageSize ?f) = 100" by (simp add: of_type_def collectorPageSize_def)
  have f: "(of_type t token)\<lparr>lsf_PageSize := clamp_page_size (lsf_PageSize (of_type t token))\<rparr> = ?f\<lparr>lsf_PageToken := token\<rparr>"
    by (simp add: of_type_def collectorPageSize_def clamp_page_size_def minPageSize_def maxPageSize_def)
  have "token = [] \<and> i = 0 \<or> (\<exists>j < length (source_listing (E, ?f, w)).
      token = source_token (E, ?f, w) (source_value E (source_listing (E, ?f, w) ! j)) \<and> i = Suc j)"
    using pos by (simp add: L tok at_position_def)
  from source_repo_List_from [OF q this]
  have "source_repo_List E (?f\<lparr>lsf_PageToken := token\<rparr>) w =
    (let p = page_from (map (source_value E) ?L) (source_tok E) 100 i
     in (Inr \<lparr>Items = fst p, NextPageToken = snd p\<rparr>, after_read w))" by (simp add: L tok size)
  moreover have "SourceUsecase_List E (of_type t token) w = source_repo_List E (?f\<lparr>lsf_PageToken := token\<rparr>) w"
    unfolding SourceUsecase_List_def f Let_def using t t' by (simp add: of_type_def)
  moreover have "i + 100 - 1 = i + 99" by simp
  ultimately show ?thesis by (simp add: page_from_def take_map drop_map Let_def add.commute)
qed

text \<open>
  What a polling collector needs of its way to collect a source: it keeps the world ready,
  uses at most so many identifiers, loses no post, and leaves what the source offers stored.
\<close>

locale collecting =
  fixes E :: ext and t :: SourceType and S :: "source_row list" and budget :: nat and limited :: bool
    and collectOne :: "Source \<Rightarrow> world \<Rightarrow> unit result \<times> world" and offered :: "Source \<Rightarrow> string \<Rightarrow> bool"
  assumes known_type: "ValidateSourceType t = None"
    and one: "limited \<Longrightarrow> collect_ready E S (n + budget) w \<Longrightarrow> row \<in> set S \<Longrightarrow> source_to_domain E row = Inr s \<Longrightarrow>
      collectOne s w = (q, w') \<Longrightarrow>
      collect_ready E S n w' \<and> set (posts (committed w)) \<subseteq> set (posts (committed w')) \<and>
      (\<forall>x. offered s x \<longrightarrow> stored (s_id row) x w')"
begin

lemma collect_each_ready:
  assumes limited
  shows "set rows \<subseteq> set S \<Longrightarrow> collect_ready E S (n + budget * length rows) w \<Longrightarrow>
    collect_ready E S n (collect_each collectOne (map (source_value E) rows) w) \<and>
    set (posts (committed w)) \<subseteq> set (posts (committed (collect_each collectOne (map (source_value E) rows) w))) \<and>
    (\<forall>row \<in> set rows. \<forall>x. offered (source_value E row) x \<longrightarrow>
       stored (s_id row) x (collect_each collectOne (map (source_value E) rows) w))"
proof (induction rows arbitrary: w)
  case (Cons row rows)
  obtain q w1 where q: "collectOne (source_value E row) w = (q, w1)" by fastforce
  have r: "collect_ready E S (n + budget * length rows + budget) w" using Cons.prems(2) by (simp add: algebra_simps)
  have row: "row \<in> set S" "source_to_domain E row = Inr (source_value E row)"
    using Cons.prems(1) collect_ready_decodes [OF r] by simp_all
  note first = one [OF assms r row q]
  have rest: "set rows \<subseteq> set S" using Cons.prems(1) by simp
  from Cons.IH [OF rest conjunct1 [OF first]] first q show ?case by (auto intro: stored_mono)
qed simp

lemma collect_all_pages_ready:
  assumes limited
  shows "collect_ready E S (budget * (length (typed_sources S t) - i)) w \<Longrightarrow> at_position E (typed_sources S t) token i \<Longrightarrow>
    length (typed_sources S t) - i \<le> fuel \<Longrightarrow>
    \<exists>w'. collect_all_pages E t collectOne (Suc fuel) token w = Some w' \<and> collect_ready E S 0 w' \<and>
      set (posts (committed w)) \<subseteq> set (posts (committed w')) \<and>
      (\<forall>row \<in> set (drop i (typed_sources S t)). \<forall>x. offered (source_value E row) x \<longrightarrow> stored (s_id row) x w')"
proof (induction fuel arbitrary: token i w)
  case 0
  then have "drop i (typed_sources S t) = []" by simp
  then show ?case using 0 list_page [OF 0(1) known_type 0(2)] by (simp add: collect_ready_less)
next
  case (Suc fuel)
  let ?L = "typed_sources S t"
  define rows where "rows = take 100 (drop i ?L)"
  define w2 where "w2 = collect_each collectOne (map (source_value E) rows) (after_read w)"
  note page = list_page [OF Suc.prems(1) known_type Suc.prems(2), folded rows_def]
  have sub: "set rows \<subseteq> set S" by (auto simp: rows_def typed_sources_def dest!: in_set_takeD in_set_dropD)
  have "length ?L - i = (length ?L - (i + 100)) + length rows" by (simp add: rows_def)
  then have "collect_ready E S (budget * (length ?L - (i + 100)) + budget * length rows) (after_read w)"
    using Suc.prems(1) by (simp only: distrib_left [symmetric] collect_ready_after_read)
  note here = collect_each_ready [OF assms sub this, folded w2_def]
  show ?case
  proof (cases "i + 100 < length ?L")
    case False
    then have "rows = drop i ?L" by (simp add: rows_def)
    moreover have "collect_all_pages E t collectOne (Suc (Suc fuel)) token w = Some w2"
      using page False by (simp add: w2_def)
    ultimately show ?thesis using here collect_ready_less [of E S _ w2 0] by auto
  next
    case True
    let ?next = "source_tok E (source_value E (?L ! (i + 99)))"
    have "at_position E ?L ?next (i + 100)"
      unfolding at_position_def using True by (intro disjI2 exI [of _ "i + 99"]) simp
    moreover have "length ?L - (i + 100) \<le> fuel" using Suc.prems(3) True by linarith
    ultimately obtain w' where
      w': "collect_all_pages E t collectOne (Suc fuel) ?next w2 = Some w'" "collect_ready E S 0 w'"
        "set (posts (committed w2)) \<subseteq> set (posts (committed w'))"
        "\<forall>row \<in> set (drop (i + 100) ?L). \<forall>x. offered (source_value E row) x \<longrightarrow> stored (s_id row) x w'"
      using Suc.IH [OF conjunct1 [OF here]] by blast
    have "collect_all_pages E t collectOne (Suc (Suc fuel)) token w = Some w'"
      using page True w'(1) by (simp add: w2_def)
    moreover have "set (drop i ?L) = set rows \<union> set (drop (i + 100) ?L)"
      by (metis append_take_drop_id drop_drop add.commute rows_def set_append)
    moreover have "stored (s_id row) x w'" if "row \<in> set rows" "offered (source_value E row) x" for row x
      using here that stored_mono w'(3) by blast
    ultimately show ?thesis using w'(2-) here by auto
  qed
qed

lemma tick_ready:
  assumes limited and "collect_ready E S (budget * length S) w" and "length S \<le> fuel"
  shows "\<exists>w'. collectAllOfType E t collectOne (Suc fuel) w = Some w' \<and> collect_ready E S 0 w' \<and>
    set (posts (committed w)) \<subseteq> set (posts (committed w')) \<and>
    (\<forall>row \<in> set S. s_type row = t \<longrightarrow> (\<forall>x. offered (source_value E row) x \<longrightarrow> stored (s_id row) x w'))"
proof -
  have len: "length (typed_sources S t) \<le> length S" by (simp add: typed_sources_def)
  have r: "collect_ready E S (budget * (length (typed_sources S t) - 0)) w"
    by (rule collect_ready_less [OF assms(2)]) (simp add: len)
  from collect_all_pages_ready [OF assms(1) r, of "[]" fuel] len assms(3)
  show ?thesis by (auto simp: collectAllOfType_def at_position_def typed_sources_row)
qed

end

interpretation rss_run: collecting E SourceTypeRSS S "2 * m" "at_most m (rss_Fetch X)" "CollectSource E (rss_Fetch X)"
    "offers (rss_Fetch X)" for E S m X
  by unfold_locales (auto simp: ValidateSourceType_def dest!: rss.CollectSource_ready)

section \<open>Web sources\<close>

lemma at_most_web: "at_most 1 (web_Fetch X)"
  unfolding at_most_def
proof (intro allI impI)
  fix s w items assume f: "fst (web_Fetch X s w) = Inr items"
  show "length items \<le> 1"
  proof (cases "\<exists>url. src_Config s = Some (HTMLConfig url)")
    case False
    then show ?thesis using f by (auto simp: web_Fetch_def split: option.splits SourceConfig.splits)
  next
    case True
    then obtain url where url: "src_Config s = Some (HTMLConfig url)" by blast
    obtain q w1 where q: "request X ''web'' ''page'' url w = (q, w1)" by fastforce
    show ?thesis using f by (auto simp: web_Fetch_def url q Let_def split: sum.splits prod.splits if_splits)
  qed
qed

lemma collectWithRetry_ready:
  assumes r: "collect_ready E S (n + 4) w" and row: "row \<in> set S" "source_to_domain E row = Inr s"
    and run: "collectWithRetry E X s w = (q, w')"
  shows "collect_ready E S n w' \<and> set (posts (committed w)) \<subseteq> set (posts (committed w')) \<and>
    (\<forall>x. offers (web_Fetch X) s x \<longrightarrow> stored (s_id row) x w')"
proof -
  obtain q1 w1 where 1: "CollectSource E (web_Fetch X) s w = (q1, w1)" by fastforce
  have "collect_ready E S (n + 2 + 2 * 1) w" by (rule collect_ready_less [OF r]) simp
  note one = web.CollectSource_ready [OF at_most_web this row 1]
  define w2 where "w2 = w1\<lparr>ctx_done := advance (ctx_done w1)\<rparr>"
  have r2: "collect_ready E S (n + 2 * 1) w2" using one by (simp add: collect_ready_def w2_def fault_free_def ids_fresh_def)
  show ?thesis
  proof (cases "q1 = Inr () \<or> w' = w1 \<or> w' = w2")
    case True
    then have "w' = w1 \<or> (\<exists>e. q1 = Inl e) \<and> w' = w2"
      using run 1 by (cases q1) (auto simp: collectWithRetry_def)
    moreover have "stored sid x w2 = stored sid x w1" for sid x by (simp add: stored_def w2_def)
    ultimately show ?thesis
      using one collect_ready_less [of E S "n + 2" w1 n] collect_ready_less [OF r2, of n] by (auto simp: w2_def)
  next
    case False
    then have "CollectSource E (web_Fetch X) s w2 = (q, w')"
      using run 1 by (auto simp: collectWithRetry_def take_ctx_done_def w2_def split: sum.splits option.splits)
    from web.CollectSource_ready [OF at_most_web r2 row this] one show ?thesis
      by (auto simp: w2_def)
  qed
qed

interpretation web_run: collecting E SourceTypeHTML S 4 True "collectWithRetry E X" "offers (web_Fetch X)" for E S X
  by unfold_locales (auto simp: ValidateSourceType_def dest!: collectWithRetry_ready)

section \<open>Ticks\<close>


text \<open>The same of the collector of pages, whose retry costs identifiers, not results.\<close>

lemma WebCollector_tick_collects:
  assumes "collect_ready E S (4 * length S) w" and "length S \<le> fuel"
  shows "\<exists>w'. WebCollector_tick E X (Suc fuel) w = Some w' \<and>
    set (posts (committed w)) \<subseteq> set (posts (committed w')) \<and>
    (\<forall>row \<in> set S. s_type row = SourceTypeHTML \<longrightarrow>
       (\<forall>x. offers (web_Fetch X) (source_value E row) x \<longrightarrow> stored (s_id row) x w'))"
  using web_run.tick_ready [OF _ assms] unfolding WebCollector_tick_def by blast

section \<open>Messages\<close>

text \<open>The source a message belongs to: the first of the channels, then of the groups.\<close>

definition telegram_sources :: "source_row list \<Rightarrow> source_row list" where
  "telegram_sources S = typed_sources S SourceTypeTelegramChannel @ typed_sources S SourceTypeTelegramGroup"

definition source_of :: "ext \<Rightarrow> source_row list \<Rightarrow> 64 word \<Rightarrow> source_row option" where
  "source_of E S tg = List.find (\<lambda>row. tgIDOf (source_value E row) = Some tg) (telegram_sources S)"

lemma find_map: "List.find P (map f xs) = map_option f (List.find (P \<circ> f) xs)"
  by (induction xs) auto

lemma find_append_case:
  "List.find P (xs @ ys) = (case List.find P xs of None \<Rightarrow> List.find P ys | Some x \<Rightarrow> Some x)"
  by (induction xs) auto

lemma resolve_pages_ready:
  assumes t: "ValidateSourceType t = None"
  shows "collect_ready E S n w \<Longrightarrow> at_position E (typed_sources S t) token i \<Longrightarrow>
    length (typed_sources S t) - i \<le> fuel \<Longrightarrow>
    \<exists>w'. resolve_pages E t tg (Suc fuel) token w =
        Some (Inr (map_option (source_value E)
          (List.find (\<lambda>row. tgIDOf (source_value E row) = Some tg) (drop i (typed_sources S t)))), w') \<and>
      collect_ready E S n w' \<and> committed w' = committed w"
proof (induction fuel arbitrary: token i w)
  case 0
  then have "drop i (typed_sources S t) = []" by simp
  then show ?case using 0 list_page [OF 0(1) t 0(2)] by simp
next
  case (Suc fuel)
  let ?L = "typed_sources S t" and ?P = "\<lambda>row. tgIDOf (source_value E row) = Some tg"
  note page = list_page [OF Suc.prems(1) t Suc.prems(2)]
  have here: "collect_ready E S n (after_read w)" using Suc.prems(1) by simp
  have split: "drop i ?L = take 100 (drop i ?L) @ drop (i + 100) ?L"
    by (metis append_take_drop_id drop_drop add.commute)
  show ?case
  proof (cases "List.find ?P (take 100 (drop i ?L))")
    case (Some row)
    then have "List.find ?P (drop i ?L) = Some row"
      by (subst split) (simp add: find_append_case)
    moreover have "resolve_pages E t tg (Suc (Suc fuel)) token w = Some (Inr (Some (source_value E row)), after_read w)"
      using page Some by (simp add: find_map comp_def)
    ultimately show ?thesis using here by simp
  next
    case None
    then have rest: "List.find ?P (drop i ?L) = List.find ?P (drop (i + 100) ?L)"
      by (subst split) (simp add: find_append_case)
    show ?thesis
    proof (cases "i + 100 < length ?L")
      case False
      then have "resolve_pages E t tg (Suc (Suc fuel)) token w = Some (Inr None, after_read w)"
        using page None by (simp add: find_map comp_def)
      then show ?thesis using here rest False by simp
    next
      case True
      let ?next = "source_tok E (source_value E (?L ! (i + 99)))"
      have "at_position E ?L ?next (i + 100)"
        unfolding at_position_def using True by (intro disjI2 exI [of _ "i + 99"]) simp
      moreover have "length ?L - (i + 100) \<le> fuel" using Suc.prems(3) True by linarith
      moreover have "resolve_pages E t tg (Suc (Suc fuel)) token w = resolve_pages E t tg (Suc fuel) ?next (after_read w)"
        using page None True by (simp add: find_map comp_def)
      ultimately show ?thesis using Suc.IH [OF here, of ?next "i + 100"] rest by simp
    qed
  qed
qed

lemma resolve_ready:
  assumes "collect_ready E S n w" and "length S \<le> fuel"
  shows "\<exists>w'. resolve E tg (Suc fuel) w = Some (Inr (map_option (source_value E) (source_of E S tg)), w') \<and>
    collect_ready E S n w' \<and> committed w' = committed w"
proof -
  have len: "length (typed_sources S t) - 0 \<le> fuel" for t
    using le_trans [OF length_filter_le assms(2)] by (simp add: typed_sources_def)
  have pos: "at_position E L [] 0" for L by (simp add: at_position_def)
  have t: "ValidateSourceType SourceTypeTelegramChannel = None" "ValidateSourceType SourceTypeTelegramGroup = None"
    by (simp_all add: ValidateSourceType_def)
  from resolve_pages_ready [OF t(1) assms(1) pos len] obtain w1 where
    1: "resolve_pages E SourceTypeTelegramChannel tg (Suc fuel) [] w =
        Some (Inr (map_option (source_value E) (List.find (\<lambda>row. tgIDOf (source_value E row) = Some tg)
          (drop 0 (typed_sources S SourceTypeTelegramChannel)))), w1)"
      "collect_ready E S n w1" "committed w1 = committed w" by blast
  from resolve_pages_ready [OF t(2) 1(2) pos len] obtain w2 where
    2: "resolve_pages E SourceTypeTelegramGroup tg (Suc fuel) [] w1 =
        Some (Inr (map_option (source_value E) (List.find (\<lambda>row. tgIDOf (source_value E row) = Some tg)
          (drop 0 (typed_sources S SourceTypeTelegramGroup)))), w2)"
      "collect_ready E S n w2" "committed w2 = committed w1" by blast
  show ?thesis
    using 1 2
    by (cases "List.find (\<lambda>row. tgIDOf (source_value E row) = Some tg) (typed_sources S SourceTypeTelegramChannel)";
      cases "List.find (\<lambda>row. tgIDOf (source_value E row) = Some tg) (typed_sources S SourceTypeTelegramGroup)")
      (simp_all add: resolve_def source_of_def telegram_sources_def find_append_case del: resolve_pages.simps)
qed


text \<open>With faults: whatever \<open>handle\<close> does, it does to the source of the message.\<close>

lemma resolve_pages_effect:
  assumes t: "t \<noteq> SourceTypeOther []"
  shows "open_tx w = None \<Longrightarrow> resolve_pages E t tg fuel token w = Some (r, w') \<Longrightarrow>
    open_tx w' = None \<and> committed w' = committed w \<and>
    (\<forall>s. r = Inr (Some s) \<longrightarrow> tgIDOf s = Some tg \<and>
       (\<exists>row \<in> set (sources (committed w)). source_to_domain E row = Inr s \<and> s_type row = t))"
proof (induction fuel arbitrary: token w)
  case (Suc fuel)
  obtain q w1 where q: "SourceUsecase_List E (of_type t token) w = (q, w1)" by fastforce
  note l = SourceUsecase_List_of_type [OF t Suc.prems(1) q]
  show ?case
  proof (cases q)
    case (Inl e)
    then show ?thesis using Suc.prems(2) q l(1) by auto
  next
    case (Inr page)
    note rows = l(2) [OF Inr]
    show ?thesis
    proof (cases "List.find (\<lambda>s. tgIDOf s = Some tg) (Items page)")
      case (Some s)
      then show ?thesis using Suc.prems(2) q l(1) rows Inr find_SomeD [OF Some] by auto
    next
      case None
      then have "r = Inr None \<and> w' = w1 \<or> resolve_pages E t tg fuel (NextPageToken page) w1 = Some (r, w')"
        using Suc.prems(2) q Inr by (auto split: if_splits)
      then show ?thesis using Suc.IH [of w1 "NextPageToken page"] l(1) by auto
    qed
  qed
qed simp

lemma resolve_effect:
  assumes "open_tx w = None" and "resolve E tg fuel w = Some (r, w')"
  shows "open_tx w' = None \<and> committed w' = committed w \<and>
    (\<forall>s. r = Inr (Some s) \<longrightarrow> tgIDOf s = Some tg \<and> (\<exists>row \<in> set (sources (committed w)). source_to_domain E row = Inr s))"
proof -
  obtain x w1 where 1: "resolve_pages E SourceTypeTelegramChannel tg fuel [] w = Some (x, w1)"
    using assms(2) by (auto simp: resolve_def split: option.splits prod.splits)
  note c = resolve_pages_effect [OF _ assms(1) 1]
  show ?thesis
  proof (cases "x = Inr None")
    case False
    then have "r = x" "w' = w1" using assms(2) 1
      by (cases x; cases "projr x"; simp add: resolve_def split: option.splits)+
    then show ?thesis using c by auto
  next
    case True
    then obtain y w2 where 2: "resolve_pages E SourceTypeTelegramGroup tg fuel [] w1 = Some (y, w2)"
      and "r = y" "w' = w2"
      using assms(2) 1 by (auto simp: resolve_def split: option.splits prod.splits sum.splits)
    then show ?thesis using c resolve_pages_effect [OF _ _ 2] by auto
  qed
qed

text \<open>
  Whatever fails while a message is handled, the stream goes on: the handler reports no
  error, no source changes, no post is lost, and a new post has the identifier and the text of
  the message and belongs to a source configured with the peer the message came from.
\<close>

lemma handle_routes:
  assumes E: "ext_laws E" and w: "open_tx w = None" and run: "handle E fuel msg w = Some (r, w')"
  shows "r = Inr () \<and>
    grown (\<lambda>p. p_external_id p = ci_ExternalID (tm_Item msg) \<and> p_text p = ci_Text (tm_Item msg) \<and>
      (\<exists>row \<in> set (sources (committed w)). s_id row = p_source_id p \<and>
         tgIDOf (source_value E row) = Some (tm_TgID msg))) w w'"
proof -
  obtain q w1 where q: "resolve E (tm_TgID msg) fuel w = Some (q, w1)"
    using run by (auto simp: handle_def split: option.splits)
  note res = resolve_effect [OF w q]
  have g: "grown A w w1" for A using w res by (simp add: grown_refl)
  show ?thesis
  proof (cases "\<exists>s. q = Inr (Some s)")
    case False
    then have "r = Inr ()" "w' = w1" using run q by (auto simp: handle_def split: sum.splits option.splits)
    then show ?thesis using g by simp
  next
    case True
    then obtain s where s: "q = Inr (Some s)" by blast
    then obtain row where row: "row \<in> set (sources (committed w))" "source_to_domain E row = Inr s"
      "tgIDOf s = Some (tm_TgID msg)" using res by blast
    have v: "source_value E row = s" using row(2) by (simp add: source_value_def)
    have sid: "parse_uuid E (src_ID s) = Some (s_id row)"
      using source_to_domain_fields [OF row(2)] E by (simp add: ext_lawsD)
    obtain x w2 where x: "CollectItems E s [tm_Item msg] w1 = (x, w2)" by fastforce
    then have "r = Inr ()" "w' = w2" using run q s by (auto simp: handle_def)
    moreover have "grown (\<lambda>p. p_external_id p = ci_ExternalID (tm_Item msg) \<and> p_text p = ci_Text (tm_Item msg) \<and>
      (\<exists>row \<in> set (sources (committed w)). s_id row = p_source_id p \<and>
         tgIDOf (source_value E row) = Some (tm_TgID msg))) w1 w2"
      using row(1,3) v sid
      by (intro grown_mono [OF CollectItems_grown [OF E grown_outside [OF g] x]]) auto
    ultimately show ?thesis using g grown_trans by blast
  qed
qed

section \<open>Samples\<close>

definition one_source_world :: "SourceType \<Rightarrow> world" where
  "one_source_world t = quiet_world (empty_db\<lparr>sources := [sample_source 9 t]\<rparr>)"

lemma source_value_sample:
  "source_value decimal_ext (sample_source 9 SourceTypeRSS) = sample_domain_source ''9''"
  "tgIDOf (source_value decimal_ext (sample_source 9 SourceTypeTelegramChannel)) = Some 0"
proof -
  have nine: "uuid_string decimal_ext 9 = ''9''" by code_simp
  show "source_value decimal_ext (sample_source 9 SourceTypeRSS) = sample_domain_source ''9''"
    "tgIDOf (source_value decimal_ext (sample_source 9 SourceTypeTelegramChannel)) = Some 0"
    by (simp_all add: source_value_def source_to_domain_def sample_source_def ValidateSourceType_def
        deserializeConfig_def json_string_def json_int64_def decode_tg_def nine sample_domain_source_def
        ProcessingModeForType_def tgIDOf_def)
qed

lemma one_source_ready:
  assumes "t = SourceTypeRSS \<or> t = SourceTypeTelegramChannel"
  shows "collect_ready decimal_ext [sample_source 9 t] 2 (one_source_world t)"
  using assms
  by (auto simp: collect_ready_def one_source_world_def fault_free_def sources_ok_def source_row_ok_def
      sample_source_def ValidateSourceType_def deserializeConfig_def json_string_def json_int64_def decode_tg_def
      post_keys_def ids_fresh_def used_ids_def post_ids_def empty_db_def zero_time_def numeral_2_eq_2 lessThan_Suc)

lemma at_most_one_feed: "at_most 1 (rss_Fetch one_feed)"
  unfolding at_most_def
proof (intro allI impI)
  fix s w items assume "fst (rss_Fetch one_feed s w) = Inr items"
  then have "rss_Fetch one_feed s w = (Inr items, snd (rss_Fetch one_feed s w))" by (simp add: prod_eq_iff)
  from rss_Fetch_items(2) [OF this refl] obtain doc body ids w1 where
    "xml_root one_feed body = Inr doc" "feed_identities doc = Some ids" and its: "items_of one_feed w1 ids items (snd (rss_Fetch one_feed s w))"
    by blast
  then have "ids = [rss_identity (unmarshal_item [XmlElement ''guid'' [] [XmlText ''a''], XmlElement ''title'' [] [XmlText ''hi'']]),
      rss_identity (unmarshal_item [XmlElement ''author'' [] [XmlText ''b'']])]"
    by (auto simp: one_feed_def feed_identities_def unmarshal_rss_def)
  moreover have "rss_identity (unmarshal_item [XmlElement ''author'' [] [XmlText ''b'']]) = []"
    by (simp add: rss_identity_def unmarshal_item_def string_field_def last_or_empty_def)
  ultimately have "length (filter (\<lambda>x. x \<noteq> []) ids) \<le> 1" by simp
  moreover have "length items = length (filter (\<lambda>x. x \<noteq> []) ids)"
    using its unfolding items_of_def by (metis length_map)
  ultimately show "length items \<le> 1" by simp
qed

lemma offers_one_feed: "offers (rss_Fetch one_feed) (sample_domain_source ''9'') ''a''"
proof -
  have "trim_space ''hi'' \<noteq> []" by code_simp
  then show ?thesis by (simp add: offers_def rss_Fetch_one_feed valid_item_def)
qed



definition sample_message :: TelegramMessage where
  "sample_message = \<lparr>tm_TgID = 0, tm_Item = sample_item ''5'' ''hi''\<rparr>"


lemma handle_routes_example:
  "\<exists>w'. handle decimal_ext (Suc 1) sample_message (one_source_world SourceTypeTelegramChannel) = Some (Inr (), w') \<and>
     grown (\<lambda>p. p_external_id p = ''5'' \<and> p_text p = ''hi'' \<and>
       (\<exists>row \<in> {sample_source 9 SourceTypeTelegramChannel}. s_id row = p_source_id p \<and>
          tgIDOf (source_value decimal_ext row) = Some 0)) (one_source_world SourceTypeTelegramChannel) w'"
proof -
  let ?w = "one_source_world SourceTypeTelegramChannel"
  from resolve_ready [OF one_source_ready [of SourceTypeTelegramChannel], of 1 0] obtain q w1 where
    "resolve decimal_ext 0 (Suc 1) ?w = Some (Inr q, w1)" by auto
  then obtain r w' where run: "handle decimal_ext (Suc 1) sample_message ?w = Some (r, w')"
    by (cases q; cases "CollectItems decimal_ext (the q) [tm_Item sample_message] w1")
      (auto simp: handle_def sample_message_def)
  have "open_tx ?w = None" by (simp add: one_source_world_def)
  from handle_routes [OF decimal_ext_laws this run] run show ?thesis
    by (simp add: one_source_world_def sample_message_def sample_item_def)
qed

end
