(* ===== verification/Score_Processing.thy ===== *)
theory Score_Processing
  imports Score_Usecase
begin

text \<open>
  What scoring one event does, whatever statement or provider call fails: only the row of the
  entity in \<open>scores\<close> and its cached embedding change, the stored number is the relevance of the
  entity's text, and a cached embedding is used instead of a provider call.
\<close>

section \<open>Reads\<close>

definition read_frame :: "world \<Rightarrow> world \<Rightarrow> bool" where
  "read_frame w w' \<longleftrightarrow> open_tx w' = None \<and> committed w' = committed w \<and>
     embed_replies w' = embed_replies w \<and> embed_calls w' = embed_calls w"

lemma read_frame_trans: "read_frame a b \<Longrightarrow> read_frame b c \<Longrightarrow> read_frame a c"
  by (simp add: read_frame_def)

lemma exec_tx_embed [simp]:
  "embed_replies (snd (exec_tx s w)) = embed_replies w" "embed_calls (snd (exec_tx s w)) = embed_calls w"
  by (auto simp: exec_tx_def autocommit_def take_fault_def time_now_def Let_def
      split: fault.split sum.split option.split prod.split)

lemma exec_tx_read_frame:
  assumes "open_tx w = None" and "exec_tx (select q) w = (r, w')"
  shows "read_frame w w'" "r = Inr x \<Longrightarrow> x = q (clock w 0) (committed w)"
  using exec_tx_read_outside [OF assms] exec_tx_embed [of "select q" w] assms(2)
  by (simp_all add: read_frame_def)

text \<open>The entity of an event and the texts it may be scored on.\<close>

definition event_entity :: "ext \<Rightarrow> ScoreEvent \<Rightarrow> uuid option \<times> uuid option" where
  "event_entity E event =
     (case sc_SummaryID event of
        Some m \<Rightarrow> (None, parse_uuid E m)
      | None \<Rightarrow> (Option.bind (sc_PostID event) (parse_uuid E), None))"

definition event_text :: "ext \<Rightarrow> ScoreEvent \<Rightarrow> database \<Rightarrow> string option" where
  "event_text E event d =
     (case event_entity E event of
        (None, Some m) \<Rightarrow> map_option m_text (List.find (\<lambda>r. m_id r = m) (summaries d))
      | (Some p, _) \<Rightarrow> (case newest_first (filter (\<lambda>r. m_post_id r = Some p) (summaries d)) of
            [] \<Rightarrow> None | r # _ \<Rightarrow> Some (m_text r))
      | _ \<Rightarrow> None)"

lemma find_of_filter: "filter P xs = y # ys \<Longrightarrow> List.find P xs = Some y"
  by (induction xs) (auto split: if_splits)

lemma summary_repo_Get_reads:
  assumes o: "open_tx w = None" and run: "summary_repo_Get E ident w = (r, w')"
  shows "read_frame w w' \<and> (\<forall>s. r = Inr s \<longrightarrow> (\<exists>u m. parse_uuid E ident = Some u \<and>
    List.find (\<lambda>r. m_id r = u) (summaries (committed w)) = Some m \<and> s = summary_to_domain E m))"
proof (cases "parse_uuid E ident")
  case None
  then show ?thesis using run o by (auto simp: summary_repo_Get_def parse_id_def read_frame_def)
next
  case (Some u)
  obtain q v where e: "exec_tx (select (\<lambda>_ d. filter (\<lambda>r. m_id r = u) (summaries d))) w = (q, v)"
    by (cases "exec_tx (select (\<lambda>_ d. filter (\<lambda>r. m_id r = u) (summaries d))) w")
  note rd = exec_tx_read_frame [OF o e]
  show ?thesis
  proof (cases q)
    case (Inl x)
    then show ?thesis using run e Some rd(1) by (auto simp: summary_repo_Get_def parse_id_def)
  next
    case (Inr rows)
    have "w' = v" using run e Some Inr
      by (auto simp: summary_repo_Get_def parse_id_def split: sum.splits if_splits)
    moreover have "\<exists>m. List.find (\<lambda>r. m_id r = u) (summaries (committed w)) = Some m \<and> s = summary_to_domain E m"
      if "r = Inr s" for s
    proof -
      have "\<exists>m. rows = [m] \<and> s = summary_to_domain E m"
        using run e Some Inr that
        by (auto simp: summary_repo_Get_def parse_id_def ent_only_def split: sum.splits if_splits list.splits)
      then show ?thesis using rd(2) [OF Inr] find_of_filter by metis
    qed
    ultimately show ?thesis using rd(1) Some by simp
  qed
qed

lemma ListByPost_reads:
  assumes o: "open_tx w = None" and run: "summary_repo_ListByPost E ident w = (r, w')"
  shows "read_frame w w' \<and> (\<forall>xs. r = Inr xs \<longrightarrow> (\<exists>u. parse_uuid E ident = Some u \<and>
    xs = map (summary_to_domain E) (newest_first (filter (\<lambda>m. m_post_id m = Some u) (summaries (committed w))))))"
proof (cases "parse_uuid E ident")
  case None
  then show ?thesis using run o by (auto simp: summary_repo_ListByPost_def parse_id_def read_frame_def)
next
  case (Some u)
  obtain q v where e: "exec_tx (select (\<lambda>_ d. newest_first (filter (\<lambda>m. m_post_id m = Some u) (summaries d)))) w = (q, v)"
    by (cases "exec_tx (select (\<lambda>_ d. newest_first (filter (\<lambda>m. m_post_id m = Some u) (summaries d)))) w")
  note rd = exec_tx_read_frame [OF o e]
  show ?thesis using run e Some rd(1) rd(2)
    by (cases q) (auto simp: summary_repo_ListByPost_def parse_id_def)
qed

lemma ListInterestVectors_reads:
  assumes o: "open_tx w = None" and run: "ListInterestVectors w = (r, w')"
  shows "read_frame w w' \<and> (\<forall>vs. r = Inr vs \<longrightarrow>
    vs = map (\<lambda>r. \<lparr>iv_Embedding = i_embedding r, iv_Model = i_model r\<rparr>) (interests (committed w)))"
proof -
  obtain q v where e: "exec_tx (select (\<lambda>_ d. interests d)) w = (q, v)"
    by (cases "exec_tx (select (\<lambda>_ d. interests d)) w")
  note rd = exec_tx_read_frame [OF o e]
  show ?thesis using run e rd by (cases q) (auto simp: ListInterestVectors_def exec_direct_outside [OF o])
qed

lemma resolveScoreInput_reads:
  assumes o: "open_tx w = None" and run: "resolveScoreInput E event w = (r, w')"
  shows "read_frame w w'"
    and "r = Inr (key, body) \<Longrightarrow> event_text E event (committed w) = Some body \<and>
      (case sk_PostID key of
         Some x \<Rightarrow> sk_SummaryID key = None \<and> (\<exists>u. parse_uuid E x = Some u \<and> event_entity E event = (Some u, None))
       | None \<Rightarrow> (\<exists>x u. sk_SummaryID key = Some x \<and> parse_uuid E x = Some u \<and> event_entity E event = (None, Some u)))"
proof -
  have "read_frame w w' \<and> (\<forall>key body. r = Inr (key, body) \<longrightarrow> event_text E event (committed w) = Some body \<and>
      (case sk_PostID key of
         Some x \<Rightarrow> sk_SummaryID key = None \<and> (\<exists>u. parse_uuid E x = Some u \<and> event_entity E event = (Some u, None))
       | None \<Rightarrow> (\<exists>x u. sk_SummaryID key = Some x \<and> parse_uuid E x = Some u \<and> event_entity E event = (None, Some u))))"
  proof (cases "sc_SummaryID event")
    case (Some m)
    obtain q v where g: "summary_repo_Get E m w = (q, v)" by (cases "summary_repo_Get E m w")
    show ?thesis using run g Some summary_repo_Get_reads [OF o g]
      by (cases q) (auto simp: resolveScoreInput_def event_text_def event_entity_def summary_to_domain_def)
  next
    case None
    show ?thesis
    proof (cases "sc_PostID event")
      case n: None
      then show ?thesis using run None o by (auto simp: resolveScoreInput_def read_frame_def)
    next
      case (Some p)
      obtain q v where g: "summary_repo_ListByPost E p w = (q, v)" by (cases "summary_repo_ListByPost E p w")
      note rd = ListByPost_reads [OF o g]
      show ?thesis
      proof (cases "\<exists>s xs. q = Inr (s # xs)")
        case False
        then show ?thesis using run g Some None rd
          by (cases q) (auto simp: resolveScoreInput_def split: list.splits)
      next
        case True
        then obtain s xs where q: "q = Inr (s # xs)" by blast
        have "\<exists>u. parse_uuid E p = Some u \<and>
            s # xs = map (summary_to_domain E) (newest_first (filter (\<lambda>m. m_post_id m = Some u) (summaries (committed w))))"
          using conjunct2 [OF rd, rule_format, OF q] .
        then obtain u where u: "parse_uuid E p = Some u" and
          "s # xs = map (summary_to_domain E) (newest_first (filter (\<lambda>m. m_post_id m = Some u) (summaries (committed w))))"
          by (elim exE conjE) (rule that)
        from this(2) obtain m ms where m: "newest_first (filter (\<lambda>m. m_post_id m = Some u) (summaries (committed w))) = m # ms"
          and s: "s = summary_to_domain E m"
          by (auto simp: Cons_eq_map_conv)
        have "r = Inr (\<lparr>sk_PostID = Some p, sk_SummaryID = None\<rparr>, sum_Text s) \<and> w' = v"
          using run g Some None q by (simp add: resolveScoreInput_def)
        moreover have "event_entity E event = (Some u, None)" using Some None u by (simp add: event_entity_def)
        moreover from this have "event_text E event (committed w) = Some (sum_Text s)"
          using m s by (simp add: event_text_def summary_to_domain_def)
        ultimately show ?thesis using rd u by auto
      qed
    qed
  qed
  then show "read_frame w w'" "r = Inr (key, body) \<Longrightarrow> event_text E event (committed w) = Some body \<and>
      (case sk_PostID key of
         Some x \<Rightarrow> sk_SummaryID key = None \<and> (\<exists>u. parse_uuid E x = Some u \<and> event_entity E event = (Some u, None))
       | None \<Rightarrow> (\<exists>x u. sk_SummaryID key = Some x \<and> parse_uuid E x = Some u \<and> event_entity E event = (None, Some u)))"
    by blast+
qed

section \<open>The cached embedding\<close>

definition key_ids :: "ext \<Rightarrow> ScoreKey \<Rightarrow> uuid option \<times> uuid option" where
  "key_ids E key =
     (case sk_PostID key of
        Some x \<Rightarrow> (parse_uuid E x, None)
      | None \<Rightarrow> (None, Option.bind (sk_SummaryID key) (parse_uuid E)))"

definition proper_key :: "ScoreKey \<Rightarrow> bool" where
  "proper_key key \<longleftrightarrow> (sk_PostID key = None) \<noteq> (sk_SummaryID key = None)"

definition cached :: "uuid option \<times> uuid option \<Rightarrow> string \<Rightarrow> string \<Rightarrow> float64 list \<Rightarrow> database \<Rightarrow> bool" where
  "cached k model body v d \<longleftrightarrow>
     (\<exists>x. List.find (embedding_for (fst k) (snd k)) (post_embeddings d) = Some x \<and>
       v_model x = model \<and> v_input_hash x = hashInput body \<and> v_vector x = v)"

lemma find_update_where:
  "(\<And>x. P (f x) = P x) \<Longrightarrow> List.find P (update_where P f xs) = map_option f (List.find P xs)"
  by (induction xs) auto

lemma find_append_new: "filter P xs = [] \<Longrightarrow> P y \<Longrightarrow> List.find P (xs @ [y]) = Some y"
  by (induction xs) (auto split: if_splits)

lemma upsert_embedding_effect:
  assumes "one_key p m" and u: "upsert_embedding_stmt i p m v model h now d = Inr (r, d')"
  shows "d' = d\<lparr>post_embeddings := post_embeddings d'\<rparr>"
    "\<exists>x. List.find (embedding_for p m) (post_embeddings d') = Some x \<and> v_model x = model \<and> v_input_hash x = h \<and> v_vector x = v"
    "filter (\<lambda>x. \<not> embedding_for p m x) (post_embeddings d') = filter (\<lambda>x. \<not> embedding_for p m x) (post_embeddings d)"
proof -
  define f where "f = (\<lambda>r::embedding_row. r\<lparr>v_vector := v, v_model := model, v_input_hash := h, v_updated_at := now\<rparr>)"
  have fk: "embedding_for a b (f x) = embedding_for a b x" for a b x by (simp add: f_def embedding_for_def)
  have "d' = d\<lparr>post_embeddings := post_embeddings d'\<rparr> \<and>
    (\<exists>x. List.find (embedding_for p m) (post_embeddings d') = Some x \<and> v_model x = model \<and> v_input_hash x = h \<and> v_vector x = v) \<and>
    filter (\<lambda>x. \<not> embedding_for p m x) (post_embeddings d') = filter (\<lambda>x. \<not> embedding_for p m x) (post_embeddings d)"
  proof (cases "filter (embedding_for p m) (post_embeddings d)")
    case (Cons q qs)
    have d': "d' = d\<lparr>post_embeddings := update_where (embedding_for p m) f (post_embeddings d)\<rparr>"
      using u Cons by (simp add: upsert_embedding_stmt_def f_def)
    have "List.find (embedding_for p m) (post_embeddings d') = Some (f q)"
      using find_of_filter [OF Cons] by (simp add: d' find_update_where fk)
    moreover have "update_where (embedding_for p m) f (filter (\<lambda>x. \<not> embedding_for p m x) (post_embeddings d)) =
      filter (\<lambda>x. \<not> embedding_for p m x) (post_embeddings d)"
      by (rule update_where_none) simp
    ultimately show ?thesis by (simp add: d' filter_update_where fk) (simp add: f_def)
  next
    case Nil
    define row where "row = \<lparr>v_id = i, v_post_id = p, v_summary_id = m, v_vector = v, v_model = model, v_input_hash = h,
                 v_created_at = now, v_updated_at = now\<rparr>"
    have d': "d' = d\<lparr>post_embeddings := post_embeddings d @ [row]\<rparr>"
      using u Nil by (auto simp: upsert_embedding_stmt_def row_def Let_def split: if_splits)
    have own: "embedding_for p m row" using assms(1) by (auto simp: embedding_for_def same_entity_def row_def one_key_def)
    have "List.find (embedding_for p m) (post_embeddings d') = Some row"
      using find_append_new [of "embedding_for p m", OF Nil own] by (simp add: d')
    then show ?thesis using own by (simp add: d') (simp add: row_def)
  qed
  then show "d' = d\<lparr>post_embeddings := post_embeddings d'\<rparr>"
    "\<exists>x. List.find (embedding_for p m) (post_embeddings d') = Some x \<and> v_model x = model \<and> v_input_hash x = h \<and> v_vector x = v"
    "filter (\<lambda>x. \<not> embedding_for p m x) (post_embeddings d') = filter (\<lambda>x. \<not> embedding_for p m x) (post_embeddings d)"
    by blast+
qed

lemma encode_vector_same: "encode_vector v = Inr x \<Longrightarrow> x = v"
  by (simp add: encode_vector_def split: if_splits)

lemma embedding_Get_reads:
  assumes o: "open_tx w = None" and run: "embedding_repo_Get E key w = (r, w')" and k: "key_ids E key = (p, m)"
    and key: "proper_key key"
  shows "read_frame w w'"
    and "r = Inr pe \<Longrightarrow> one_key p m \<and> (\<exists>x. List.find (embedding_for p m) (post_embeddings (committed w)) = Some x \<and>
      pe = embedding_to_domain E x)"
proof -
  have "read_frame w w' \<and> (\<forall>pe. r = Inr pe \<longrightarrow> one_key p m \<and>
    (\<exists>x. List.find (embedding_for p m) (post_embeddings (committed w)) = Some x \<and> pe = embedding_to_domain E x))"
  proof (cases "one_key p m")
    case False
    then have "r \<noteq> Inr pe \<and> w' = w" for pe
      using run k key by (auto simp: embedding_repo_Get_def embeddingKeyColumn_def key_ids_def proper_key_def
          parse_id_def one_key_def split: option.splits)
    then show ?thesis using o by (simp add: read_frame_def)
  next
    case True
    obtain q v where e: "exec_tx (select (\<lambda>_ d. List.find (embedding_for p m) (post_embeddings d))) w = (q, v)"
      by (cases "exec_tx (select (\<lambda>_ d. List.find (embedding_for p m) (post_embeddings d))) w")
    note rd = exec_tx_read_frame [OF o e]
    have r: "(r, w') = (case query_row q of
         Inl e \<Rightarrow> (if errors_is e SqlErrNoRows then (Inl (Sentinel ErrPostEmbeddingNotFound), v)
              else (Inl (errorf_ctx ''get post embedding'' e), v))
       | Inr row \<Rightarrow> (Inr (embedding_to_domain E row), v))"
      using run k key True e
      by (auto simp: embedding_repo_Get_def embeddingKeyColumn_def key_ids_def proper_key_def
          parse_id_def one_key_def split: option.splits)
    show ?thesis
    proof (cases "query_row q")
      case (Inl e)
      then show ?thesis using r rd(1) by (auto split: if_splits)
    next
      case (Inr row)
      then have "q = Inr (Some row)" by (auto simp: query_row_def split: sum.splits option.splits)
      from rd(2) [OF this, symmetric] r rd(1) True Inr show ?thesis by simp
    qed
  qed
  then show "read_frame w w'" "r = Inr pe \<Longrightarrow> one_key p m \<and> (\<exists>x. List.find (embedding_for p m) (post_embeddings (committed w)) = Some x \<and>
      pe = embedding_to_domain E x)" by blast+
qed

lemma embedding_Upsert_run:
  assumes "key_ids E key = (p, m)" and "one_key p m" and "proper_key key"
    and "key = \<lparr>sk_PostID = pe_PostID pe, sk_SummaryID = pe_SummaryID pe\<rparr>"
    and "encode_vector (pe_Vector pe) = Inr v"
  shows "embedding_repo_Upsert E pe w =
    (case exec_tx (upsert_embedding_stmt (fresh_ids w 0) p m v (pe_Model pe) (pe_InputHash pe)) (w\<lparr>fresh_ids := advance (fresh_ids w)\<rparr>) of
       (Inl e, w) \<Rightarrow> (Inl (errorf_ctx ''upsert post embedding'' e), w)
     | (Inr r, w) \<Rightarrow> (Inr (embedding_to_domain E r), w))"
proof (cases "pe_PostID pe")
  case None
  with assms obtain x u where "pe_SummaryID pe = Some x" "parse_uuid E x = Some u" "p = None" "m = Some u"
    by (auto simp: key_ids_def proper_key_def one_key_def)
  then show ?thesis using None assms(5)
    by (simp add: embedding_repo_Upsert_def embeddingKeyColumn_def parse_id_def new_uuid_def)
next
  case (Some x)
  with assms obtain u where "pe_SummaryID pe = None" "parse_uuid E x = Some u" "p = Some u" "m = None"
    by (auto simp: key_ids_def proper_key_def one_key_def)
  then show ?thesis using Some assms(5)
    by (simp add: embedding_repo_Upsert_def embeddingKeyColumn_def parse_id_def new_uuid_def)
qed

lemma embedding_Upsert_effect:
  assumes o: "open_tx w = None" and run: "embedding_repo_Upsert E pe w = (r, w')"
    and ky: "key = \<lparr>sk_PostID = pe_PostID pe, sk_SummaryID = pe_SummaryID pe\<rparr>" and k: "key_ids E key = (p, m)"
    and key: "proper_key key"
  shows "open_tx w' = None"
    "committed w' = (committed w)\<lparr>post_embeddings := post_embeddings (committed w')\<rparr>"
    "filter (\<lambda>x. \<not> embedding_for p m x) (post_embeddings (committed w')) =
     filter (\<lambda>x. \<not> embedding_for p m x) (post_embeddings (committed w))"
    "r = Inr y \<Longrightarrow> \<exists>x. List.find (embedding_for p m) (post_embeddings (committed w')) = Some x \<and>
      v_model x = pe_Model pe \<and> v_input_hash x = pe_InputHash pe \<and> v_vector x = pe_Vector pe"
    "embed_calls w' = embed_calls w"
proof -
  let ?find = "\<lambda>d. \<exists>x. List.find (embedding_for p m) (post_embeddings d) = Some x \<and>
      v_model x = pe_Model pe \<and> v_input_hash x = pe_InputHash pe \<and> v_vector x = pe_Vector pe"
  let ?frame = "\<lambda>d. d = (committed w)\<lparr>post_embeddings := post_embeddings d\<rparr> \<and>
    filter (\<lambda>x. \<not> embedding_for p m x) (post_embeddings d) =
    filter (\<lambda>x. \<not> embedding_for p m x) (post_embeddings (committed w))"
  have "open_tx w' = None \<and> ?frame (committed w') \<and> (\<forall>y. r = Inr y \<longrightarrow> ?find (committed w')) \<and> embed_calls w' = embed_calls w"
  proof (cases "one_key p m \<and> (\<exists>x. encode_vector (pe_Vector pe) = Inr x)")
    case False
    then have "(\<forall>y. r \<noteq> Inr y) \<and> w' = w"
      using run k key ky by (auto simp: embedding_repo_Upsert_def embeddingKeyColumn_def key_ids_def proper_key_def
          parse_id_def one_key_def split: option.splits sum.splits)
    then show ?thesis using o by simp
  next
    case True
    then have enc: "encode_vector (pe_Vector pe) = Inr (pe_Vector pe)" and one: "one_key p m"
      using encode_vector_same by auto
    define s where "s = upsert_embedding_stmt (fresh_ids w 0) p m (pe_Vector pe) (pe_Model pe) (pe_InputHash pe)"
    define w1 where "w1 = w\<lparr>fresh_ids := advance (fresh_ids w)\<rparr>"
    have w1: "open_tx w1 = None" "committed w1 = committed w" "embed_calls w1 = embed_calls w" by (simp_all add: w1_def o)
    obtain q v where e: "exec_tx s w1 = (q, v)" by (cases "exec_tx s w1")
    have "w' = v \<and> (\<forall>y. r = Inr y \<longrightarrow> (\<exists>x. q = Inr x))"
      using embedding_Upsert_run [OF k one key ky enc, of w] run e by (cases q) (auto simp: s_def w1_def)
    note eff = exec_tx_outside [OF w1(1) e]
    have frame: "?frame (committed v)" using eff(2) upsert_embedding_effect(1,3) [OF one] w1(2) by (auto simp: s_def)
    have "?find (committed v)" if "q = Inr x" for x
      using eff(3) [OF that] upsert_embedding_effect(2) [OF one] unfolding s_def by blast
    moreover have "embed_calls v = embed_calls w" using exec_tx_embed(2) [of s w1] e w1(3) by simp
    ultimately show ?thesis using \<open>w' = v \<and> _\<close> eff(1) frame by blast
  qed
  then show "open_tx w' = None"
    "committed w' = (committed w)\<lparr>post_embeddings := post_embeddings (committed w')\<rparr>"
    "filter (\<lambda>x. \<not> embedding_for p m x) (post_embeddings (committed w')) =
     filter (\<lambda>x. \<not> embedding_for p m x) (post_embeddings (committed w))"
    "r = Inr y \<Longrightarrow> \<exists>x. List.find (embedding_for p m) (post_embeddings (committed w')) = Some x \<and>
      v_model x = pe_Model pe \<and> v_input_hash x = pe_InputHash pe \<and> v_vector x = pe_Vector pe"
    "embed_calls w' = embed_calls w"
    by blast+
qed

text \<open>What one resolution does: the cache is used, or filled by one call of the provider.\<close>

definition resolved :: "uuid option \<times> uuid option \<Rightarrow> string \<Rightarrow> string \<Rightarrow> float64 list result \<Rightarrow> world \<Rightarrow> world \<Rightarrow> bool" where
  "resolved k model body r w w' \<longleftrightarrow>
     open_tx w' = None \<and> committed w' = (committed w)\<lparr>post_embeddings := post_embeddings (committed w')\<rparr> \<and>
     filter (\<lambda>x. \<not> embedding_for (fst k) (snd k) x) (post_embeddings (committed w')) =
       filter (\<lambda>x. \<not> embedding_for (fst k) (snd k) x) (post_embeddings (committed w)) \<and>
     (\<forall>v. r = Inr v \<longrightarrow> one_key (fst k) (snd k) \<and> cached k model body v (committed w') \<and>
        (cached k model body v (committed w) \<and> embed_calls w' = embed_calls w \<or>
         embed_replies w 0 = Inr v \<and> embed_calls w' = embed_calls w @ [body]))"

lemma resolved_failed:
  "open_tx w' = None \<Longrightarrow> committed w' = committed w \<Longrightarrow> resolved k model body (Inl e) w w'"
  by (simp add: resolved_def)

lemma resolveVector_resolved:
  assumes o: "open_tx w = None" and run: "resolveVector E model key body w = (r, w')" and key: "proper_key key"
  shows "resolved (key_ids E key) model body r w w'"
proof -
  obtain p m where k: "key_ids E key = (p, m)" by (cases "key_ids E key")
  obtain g w1 where get: "embedding_repo_Get E key w = (g, w1)" by (cases "embedding_repo_Get E key w")
  note G = embedding_Get_reads [OF o get k key]
  have f1: "open_tx w1 = None" "committed w1 = committed w" "embed_replies w1 = embed_replies w" "embed_calls w1 = embed_calls w"
    using G(1) by (simp_all add: read_frame_def)
  define w2 where "w2 = w1\<lparr>embed_replies := advance (embed_replies w1), embed_calls := embed_calls w1 @ [body]\<rparr>"
  have f2: "open_tx w2 = None" "committed w2 = committed w" "embed_calls w2 = embed_calls w @ [body]"
    using f1 by (simp_all add: w2_def)
  define pe where "pe vec = \<lparr>pe_PostID = sk_PostID key, pe_SummaryID = sk_SummaryID key, pe_Vector = vec,
    pe_Model = model, pe_InputHash = hashInput body, pe_CreatedAt = zero_time, pe_UpdatedAt = zero_time\<rparr>" for vec
  define compute where "compute = (case embed_replies w 0 of
       Inl e \<Rightarrow> (Inl (errorf_ctx ''embed summary'' e), w2)
     | Inr vec \<Rightarrow> (case embedding_repo_Upsert E (pe vec) w2 of
           (Inl e, w) \<Rightarrow> (Inl (errorf_ctx ''persist embedding'' e), w) | (Inr _, w) \<Rightarrow> (Inr vec, w)))"
  have split: "(r, w') = (case g of
      Inr stored \<Rightarrow> (if pe_Model stored = model \<and> pe_InputHash stored = hashInput body then (Inr (pe_Vector stored), w1) else compute)
    | Inl e \<Rightarrow> (if \<not> errors_is e ErrPostEmbeddingNotFound then (Inl (errorf_ctx ''get embedding'' e), w1) else compute))"
    unfolding run [symmetric] compute_def w2_def pe_def
    by (cases g) (simp_all add: resolveVector_def Let_def get scorer_Embed_def f1(3))
  have computed: "resolved (p, m) model body r w w'" if c: "(r, w') = compute"
  proof (cases "embed_replies w 0")
    case (Inl e)
    then show ?thesis using c f2 resolved_failed by (simp add: compute_def)
  next
    case (Inr vec)
    obtain u w3 where up: "embedding_repo_Upsert E (pe vec) w2 = (u, w3)" by (cases "embedding_repo_Upsert E (pe vec) w2")
    have ky: "key = \<lparr>sk_PostID = pe_PostID (pe vec), sk_SummaryID = pe_SummaryID (pe vec)\<rparr>" by (simp add: pe_def)
    note U = embedding_Upsert_effect [OF f2(1) up ky k key]
    have r: "w' = w3 \<and> (\<forall>v. r = Inr v \<longrightarrow> v = vec \<and> (\<exists>y. u = Inr y))"
      using c Inr up by (cases u) (auto simp: compute_def)
    have one: "u = Inr y \<Longrightarrow> one_key p m" for y
      using up k key ky by (auto simp: embedding_repo_Upsert_def embeddingKeyColumn_def key_ids_def proper_key_def
          parse_id_def one_key_def split: option.splits sum.splits)
    have "u = Inr y \<Longrightarrow> cached (p, m) model body vec (committed w3)" for y
      using U(4) by (auto simp: cached_def pe_def)
    then show ?thesis using U(1,2,3,5) f2 Inr r one unfolding resolved_def fst_conv snd_conv by metis
  qed
  show ?thesis
  proof (cases "(r, w') = compute")
    case True
    then show ?thesis using computed k by simp
  next
    case False
    then consider (hit) pe where "g = Inr pe" "pe_Model pe = model" "pe_InputHash pe = hashInput body" "r = Inr (pe_Vector pe)" "w' = w1"
      | (err) e where "r = Inl e" "w' = w1"
      using split by (auto split: sum.splits if_splits)
    then show ?thesis
    proof cases
      case hit
      from G(2) [OF hit(1)] have "one_key p m" "cached (p, m) model body (pe_Vector pe) (committed w)"
        using hit(2,3) by (auto simp: cached_def embedding_to_domain_def)
      then show ?thesis using hit(4,5) f1 k by (simp add: resolved_def)
    next
      case err
      then show ?thesis using f1 resolved_failed by simp
    qed
  qed
qed

text \<open>
  The cached vector: once a resolution succeeded for an entity, every later one on the same
  stored data, for the same text and model, returns the same vector from the database and does
  not call the provider.
\<close>

lemma resolveVector_cached:
  assumes "open_tx w = None" and "resolveVector E model key body w = (Inr v, w1)" and key: "proper_key key"
    and w2: "fault_free w2" "committed w2 = committed w1"
  shows "resolveVector E model key body w2 = (Inr v, after_read w2) \<and> embed_calls (after_read w2) = embed_calls w2"
proof -
  obtain p m where k: "key_ids E key = (p, m)" by (cases "key_ids E key")
  from resolveVector_resolved [OF assms(1-3)] have one: "one_key p m" and c: "cached (p, m) model body v (committed w2)"
    using w2(2) k by (auto simp: resolved_def)
  from c obtain x where x: "List.find (embedding_for p m) (post_embeddings (committed w2)) = Some x" "v_model x = model"
    "v_input_hash x = hashInput body" "v_vector x = v" by (auto simp: cached_def)
  note rd = fault_free_read(1) [OF w2(1), of "\<lambda>_ d. List.find (embedding_for p m) (post_embeddings d)"]
  have "embedding_repo_Get E key w2 = (Inr (embedding_to_domain E x), after_read w2)"
    using k key one rd x(1)
    by (auto simp: embedding_repo_Get_def embeddingKeyColumn_def key_ids_def proper_key_def query_row_def
        parse_id_def one_key_def split: option.splits)
  then show ?thesis using x by (simp add: resolveVector_def embedding_to_domain_def after_read_def)
qed

section \<open>The score\<close>

lemma score_Upsert_run:
  assumes "parse_id E ''invalid score id'' (sco_ID sc) = Inr i"
    and "(case sco_PostID sc of
        Some x \<Rightarrow> map_sum id (\<lambda>u. (Some u, None)) (parse_id E ''invalid post id'' x)
      | None \<Rightarrow> (case sco_SummaryID sc of
          Some x \<Rightarrow> map_sum id (\<lambda>u. (None, Some u)) (parse_id E ''invalid summary id'' x)
        | None \<Rightarrow> Inl (Text ''score has neither post_id nor summary_id''))) = Inr (p, m)"
  shows "score_repo_Upsert E sc w = (case exec_tx (upsert_score_stmt i p m (sco_Value sc) (sco_Model sc)) w of
       (Inl e, w) \<Rightarrow> (Inl (errorf_ctx ''upsert score'' e), w) | (Inr r, w) \<Rightarrow> (Inr (score_to_domain E r), w))"
  unfolding score_repo_Upsert_def assms(1) sum.case assms(2) prod.case by (rule refl)

lemma upsert_value_effect:
  assumes E: "ext_laws E" and o: "open_tx w = None" and k: "key_ids E key = (p, m)" and key: "proper_key key"
    and one: "one_key p m" and u: "scores_unique (committed w)" and run: "upsert_value E model key v w = (r, w')"
  shows "open_tx w' = None" "embed_calls w' = embed_calls w"
    "committed w' = committed w \<and> (\<forall>sid. r \<noteq> Inr sid) \<or>
     (\<exists>x. filter (score_for p m) (scores (committed w')) = [x] \<and> r_value x = v \<and> r_model x = model \<and>
        filter (\<lambda>x. \<not> score_for p m x) (scores (committed w')) = filter (\<lambda>x. \<not> score_for p m x) (scores (committed w)) \<and>
        committed w' = (committed w)\<lparr>scores := scores (committed w')\<rparr> \<and> scores_unique (committed w') \<and>
        (\<forall>sid. r = Inr sid \<longrightarrow> sid = uuid_string E (r_id x)))"
proof -
  define i where "i = fresh_ids w 0"
  define s where "s = upsert_score_stmt i p m v model"
  define w1 where "w1 = w\<lparr>clock := advance (clock w), fresh_ids := advance (fresh_ids w)\<rparr>"
  have w1: "open_tx w1 = None" "committed w1 = committed w" "embed_calls w1 = embed_calls w" by (simp_all add: w1_def o)
  obtain q w2 where e: "exec_tx s w1 = (q, w2)" by (cases "exec_tx s w1")
  have pid: "parse_id E l (uuid_string E i) = Inr i" for l by (simp add: parse_id_def ext_lawsD(1) [OF E])
  define sc where "sc = \<lparr>sco_ID = uuid_string E i, sco_PostID = sk_PostID key, sco_SummaryID = sk_SummaryID key,
    sco_Value = v, sco_Model = model, sco_CreatedAt = clock w 0, sco_UpdatedAt = clock w 0\<rparr>"
  have ids: "(case sco_PostID sc of
        Some x \<Rightarrow> map_sum id (\<lambda>u. (Some u, None)) (parse_id E ''invalid post id'' x)
      | None \<Rightarrow> (case sco_SummaryID sc of
          Some x \<Rightarrow> map_sum id (\<lambda>u. (None, Some u)) (parse_id E ''invalid summary id'' x)
        | None \<Rightarrow> Inl (Text ''score has neither post_id nor summary_id''))) = Inr (p, m)"
    using k key one by (auto simp: sc_def key_ids_def proper_key_def one_key_def parse_id_def split: option.splits)
  have "upsert_value E model key v w = (case score_repo_Upsert E sc w1 of
      (Inl e, w) \<Rightarrow> (Inl (errorf_ctx ''upsert score'' e), w) | (Inr saved, w) \<Rightarrow> (Inr (sco_ID saved), w))"
    by (simp add: upsert_value_def time_now_def new_uuid_def sc_def w1_def i_def)
  then have r: "(r, w') = (case q of Inl x \<Rightarrow> (Inl (errorf_ctx ''upsert score'' (errorf_ctx ''upsert score'' x)), w2)
      | Inr row \<Rightarrow> (Inr (uuid_string E (r_id row)), w2))"
    using score_Upsert_run [OF _ ids, where i = i and w = w1] pid e run
    by (cases q) (simp_all add: sc_def s_def score_to_domain_def)
  note eff = exec_tx_outside [OF w1(1) e]
  show "open_tx w' = None" using r eff(1) by (cases q) auto
  show "embed_calls w' = embed_calls w" using r exec_tx_embed(2) [of s w1] e w1(3) by (cases q) auto
  have up: "filter (score_for p m) (scores d) = [x] \<and> r_value x = v \<and> r_model x = model \<and>
        filter (\<lambda>x. \<not> score_for p m x) (scores d) = filter (\<lambda>x. \<not> score_for p m x) (scores (committed w)) \<and>
        d = (committed w)\<lparr>scores := scores d\<rparr> \<and> scores_unique d" if "s now (committed w) = Inr (x, d)" for now x d
    using upsert_score_effect [OF u one that [unfolded s_def]] by blast
  show "committed w' = committed w \<and> (\<forall>sid. r \<noteq> Inr sid) \<or>
     (\<exists>x. filter (score_for p m) (scores (committed w')) = [x] \<and> r_value x = v \<and> r_model x = model \<and>
        filter (\<lambda>x. \<not> score_for p m x) (scores (committed w')) = filter (\<lambda>x. \<not> score_for p m x) (scores (committed w)) \<and>
        committed w' = (committed w)\<lparr>scores := scores (committed w')\<rparr> \<and> scores_unique (committed w') \<and>
        (\<forall>sid. r = Inr sid \<longrightarrow> sid = uuid_string E (r_id x)))"
  proof (cases q)
    case (Inl x)
    with r have "w' = w2" "\<And>sid. r \<noteq> Inr sid" by auto
    then show ?thesis using eff(2) up w1(2) by metis
  next
    case (Inr x)
    with r have "w' = w2" "r = Inr (uuid_string E (r_id x))" by auto
    moreover note up [OF eff(3) [OF Inr, unfolded w1(2)]]
    ultimately show ?thesis by blast
  qed
qed

lemma map_results_check_vector:
  "map_results (check_vector model) (map (\<lambda>r. \<lparr>iv_Embedding = i_embedding r, iv_Model = i_model r\<rparr>) rows) = Inr es \<Longrightarrow>
   es = map i_embedding rows \<and> (\<forall>r \<in> set rows. i_model r = model)"
  by (induction rows arbitrary: es) (auto simp: check_vector_def split: sum.splits if_splits)

text \<open>What scoring an event may do to the stored data, and what a success means.\<close>

definition scored :: "ext \<Rightarrow> string \<Rightarrow> ScoreEvent \<Rightarrow> string result \<Rightarrow> world \<Rightarrow> world \<Rightarrow> bool" where
  "scored E model event r w w' \<longleftrightarrow>
     (case event_entity E event of (p, m) \<Rightarrow>
        open_tx w' = None \<and> scores_unique (committed w') \<and>
        committed w' = (committed w)\<lparr>scores := scores (committed w'), post_embeddings := post_embeddings (committed w')\<rparr> \<and>
        filter (\<lambda>x. \<not> score_for p m x) (scores (committed w')) = filter (\<lambda>x. \<not> score_for p m x) (scores (committed w)) \<and>
        filter (\<lambda>x. \<not> embedding_for p m x) (post_embeddings (committed w')) =
          filter (\<lambda>x. \<not> embedding_for p m x) (post_embeddings (committed w)) \<and>
        (scores (committed w') = scores (committed w) \<and> (\<forall>sid. r \<noteq> Inr sid) \<or>
         (\<exists>x body vec. filter (score_for p m) (scores (committed w')) = [x] \<and> r_model x = model \<and>
            event_text E event (committed w) = Some body \<and>
            (\<forall>i \<in> set (interests (committed w)). i_model i = model) \<and>
            (if interests (committed w) = [] then r_value x = Finite 0 \<and> embed_calls w' = embed_calls w
             else cached (p, m) model body vec (committed w') \<and>
               is_relevance vec (i_embedding ` set (interests (committed w))) (r_value x)) \<and>
            (\<forall>sid. r = Inr sid \<longrightarrow> sid = uuid_string E (r_id x)))))"

lemma scored_unchanged:
  assumes "event_entity E event = (p, m)" and "scores_unique (committed w)" and "open_tx v = None"
    and c: "committed v = (committed w)\<lparr>post_embeddings := post_embeddings (committed v)\<rparr>"
    and "filter (\<lambda>x. \<not> embedding_for p m x) (post_embeddings (committed v)) =
      filter (\<lambda>x. \<not> embedding_for p m x) (post_embeddings (committed w))"
  shows "scored E model event (Inl e) w v"
proof -
  have "scores (committed v) = scores (committed w)" using arg_cong [OF c, of scores] by simp
  moreover from this have "scores_unique (committed v)" using assms(2) by (simp add: scores_unique_def)
  ultimately show ?thesis using assms by (simp add: scored_def)
qed

text \<open>The last step: the value found is stored.\<close>

lemma scored_upserted:
  assumes E: "ext_laws E" and ent: "event_entity E event = (p, m)" and u: "scores_unique (committed w)"
    and k: "key_ids E key = (p, m)" and key: "proper_key key" and one: "one_key p m"
    and body: "event_text E event (committed w) = Some body"
    and models: "\<forall>i \<in> set (interests (committed w)). i_model i = model"
    and up: "upsert_value E model key v w3 = (r, w')" and o3: "open_tx w3 = None"
    and c3: "committed w3 = (committed w)\<lparr>post_embeddings := post_embeddings (committed w3)\<rparr>"
    and e3: "filter (\<lambda>x. \<not> embedding_for p m x) (post_embeddings (committed w3)) =
      filter (\<lambda>x. \<not> embedding_for p m x) (post_embeddings (committed w))"
    and val: "if interests (committed w) = [] then v = Finite 0 \<and> embed_calls w3 = embed_calls w
      else cached (p, m) model body vec (committed w3) \<and>
        is_relevance vec (i_embedding ` set (interests (committed w))) v"
  shows "scored E model event r w w'"
proof -
  have s3: "scores (committed w3) = scores (committed w)" using arg_cong [OF c3, of scores] by simp
  then have u3: "scores_unique (committed w3)" using u by (simp add: scores_unique_def)
  note U = upsert_value_effect [OF E o3 k key one u3 up]
  from U(3) show ?thesis
  proof (elim disjE exE conjE)
    assume "committed w' = committed w3" and "\<forall>sid. r \<noteq> Inr sid"
    then show ?thesis using scored_unchanged [OF ent u U(1)] c3 e3 by (cases r) auto
  next
    fix x assume x: "filter (score_for p m) (scores (committed w')) = [x]" "r_value x = v" "r_model x = model"
      "filter (\<lambda>x. \<not> score_for p m x) (scores (committed w')) = filter (\<lambda>x. \<not> score_for p m x) (scores (committed w3))"
      and c: "committed w' = (committed w3)\<lparr>scores := scores (committed w')\<rparr>" and u': "scores_unique (committed w')"
      and sid: "\<forall>sid. r = Inr sid \<longrightarrow> sid = uuid_string E (r_id x)"
    have pe: "post_embeddings (committed w') = post_embeddings (committed w3)"
      using arg_cong [OF c, of post_embeddings] by simp
    have "committed w' = (committed w)\<lparr>scores := scores (committed w'), post_embeddings := post_embeddings (committed w')\<rparr>"
      using c c3 pe by (metis database.update_convs(6,8) database.surjective)
    moreover have "cached (p, m) model body vec (committed w') = cached (p, m) model body vec (committed w3)"
      by (simp add: cached_def pe)
    ultimately show ?thesis using x u' sid U(1,2) ent body models val e3 s3 pe unfolding scored_def
      by (auto intro!: exI [of _ x] exI [of _ body] exI [of _ vec])
  qed
qed

text \<open>The steps after the interests are read and their models checked.\<close>

lemma scored_compared:
  assumes E: "ext_laws E" and ent: "event_entity E event = (p, m)" and u: "scores_unique (committed w)"
    and k: "key_ids E key = (p, m)" and key: "proper_key key" and one: "one_key p m"
    and body: "event_text E event (committed w) = Some body"
    and models: "\<forall>i \<in> set (interests (committed w)). i_model i = model"
    and f2: "open_tx w2 = None" "committed w2 = committed w" "embed_calls w2 = embed_calls w"
    and es: "es = map i_embedding (interests (committed w))"
    and run: "(if es = [] then upsert_value E model key (Finite 0) w2
      else case resolveVector E model key body w2 of
        (Inl e, w) \<Rightarrow> (Inl e, w)
      | (Inr vec, w) \<Rightarrow> (case Relevance vec es of Inl e \<Rightarrow> (Inl e, w) | Inr v \<Rightarrow> upsert_value E model key v w)) = (r, w')"
  shows "scored E model event r w w'"
proof (cases "es = []")
  case True
  then have "upsert_value E model key (Finite 0) w2 = (r, w')" using run by simp
  then show ?thesis
    by (rule scored_upserted [OF E ent u k key one body models]) (use f2 True es in simp_all)
next
  case False
  obtain q3 w3 where 3: "resolveVector E model key body w2 = (q3, w3)" by (cases "resolveVector E model key body w2")
  have V: "resolved (p, m) model body q3 w2 w3" using resolveVector_resolved [OF f2(1) 3 key] k by simp
  show ?thesis
  proof (cases "\<exists>vec v. q3 = Inr vec \<and> Relevance vec es = Inr v")
    case no: False
    then have "\<exists>e. r = Inl e \<and> w' = w3" using run False 3 by (cases q3) (auto split: sum.splits)
    then show ?thesis using V f2 scored_unchanged [OF ent u] by (auto simp: resolved_def)
  next
    case True
    then obtain vec v where q3: "q3 = Inr vec" and v: "Relevance vec es = Inr v" by blast
    have "upsert_value E model key v w3 = (r, w')" using run False 3 q3 v by simp
    then show ?thesis
      by (rule scored_upserted [OF E ent u k key one body models, where vec = vec])
        (use V f2 q3 False es Relevance_is_relevance [OF v] in \<open>simp_all add: resolved_def\<close>)
  qed
qed

text \<open>
  C7. Scoring an event outside a transaction, whatever statement fails, before or after it took
  effect, and whatever the provider answers: nothing but the score and the cached embedding of
  the event's entity changes, and every entity keeps at most one score. Either no score changed
  and an error is reported, or the entity has exactly one score, for the current model, and its
  value is the relevance (a number between 0 and 1) of the cached vector of the entity's text to
  the stored interests, all of which have that model; without interests it is 0 and no paid
  call was made. A success reports the identifier of that score.
\<close>

theorem ScorePost_scored:
  assumes E: "ext_laws E" and o: "open_tx w = None" and u: "scores_unique (committed w)"
    and run: "ScorePost E model event w = (r, w')"
  shows "scored E model event r w w'"
proof -
  obtain p m where ent: "event_entity E event = (p, m)" by (cases "event_entity E event")
  note failed = scored_unchanged [OF ent u]
  obtain q1 w1 where 1: "resolveScoreInput E event w = (q1, w1)" by (cases "resolveScoreInput E event w")
  note R = resolveScoreInput_reads [OF o 1]
  have f1: "open_tx w1 = None" "committed w1 = committed w" "embed_calls w1 = embed_calls w"
    using R(1) by (simp_all add: read_frame_def)
  show ?thesis
  proof (cases q1)
    case (Inl e)
    then have "r = Inl e" "w' = w1" using run 1 by (simp_all add: ScorePost_def)
    then show ?thesis using f1 failed by simp
  next
    case (Inr kb)
    then obtain key body where q1: "q1 = Inr (key, body)" by (cases kb) simp
    have body: "event_text E event (committed w) = Some body" using R(2) [OF q1] by blast
    have k: "key_ids E key = (p, m)" and key: "proper_key key" and one: "one_key p m"
      using R(2) [OF q1] ent by (auto simp: key_ids_def proper_key_def one_key_def split: option.splits)
    obtain q2 w2 where 2: "ListInterestVectors w1 = (q2, w2)" by (cases "ListInterestVectors w1")
    note L = ListInterestVectors_reads [OF f1(1) 2]
    have f2: "open_tx w2 = None" "committed w2 = committed w" "embed_calls w2 = embed_calls w"
      using L f1 by (simp_all add: read_frame_def)
    show ?thesis
    proof (cases "\<exists>vs es. q2 = Inr vs \<and> map_results (check_vector model) vs = Inr es")
      case False
      then have "\<exists>e. r = Inl e \<and> w' = w2" using run 1 q1 2
        by (cases q2) (auto simp: ScorePost_def split: sum.splits)
      then show ?thesis using f2 failed by auto
    next
      case True
      then obtain vs es where q2: "q2 = Inr vs" and es: "map_results (check_vector model) vs = Inr es" by blast
      have "vs = map (\<lambda>r. \<lparr>iv_Embedding = i_embedding r, iv_Model = i_model r\<rparr>) (interests (committed w))"
        using L q2 f1(2) by simp
      with es have "es = map i_embedding (interests (committed w))"
        and "\<forall>i \<in> set (interests (committed w)). i_model i = model"
        using map_results_check_vector by blast+
      then show ?thesis
        using scored_compared [OF E ent u k key one body _ f2] run 1 q1 2 q2 es by (simp add: ScorePost_def)
    qed
  qed
qed

text \<open>A post with a summary and one interest; the provider answers with one vector.\<close>

definition score_world :: world where
  "score_world = (quiet_world (empty_db\<lparr>sources := [sample_source 9 SourceTypeRSS], posts := [listed_post 1 10],
     summaries := [\<lparr>m_id = 3, m_post_id = Some 1, m_source_id = 9, m_text = ''short'', m_word_count = 1, m_created_at = 5\<rparr>],
     interests := [\<lparr>i_id = 4, i_topic = ''go'', i_embedding = [Finite 1], i_model = ''m'', i_created_at = 1, i_updated_at = 1\<rparr>]\<rparr>))
     \<lparr>embed_replies := (\<lambda>_. Inr [Finite 1])\<rparr>"

definition score_event_of :: "string option \<Rightarrow> ScoreEvent" where
  "score_event_of postID =
     \<lparr>sc_ID = ''8'', sc_PostID = postID, sc_SummaryID = None, sc_Status = Processing, sc_Error = None,
      sc_AttemptCount = 1, sc_CreatedAt = 0, sc_ProcessedAt = None\<rparr>"

theorem ScorePost_scored_witness:
  "let (r, w') = ScorePost decimal_ext ''m'' (score_event_of (Some ''1'')) score_world
   in scored decimal_ext ''m'' (score_event_of (Some ''1'')) r score_world w'"
proof -
  obtain r w' where run: "ScorePost decimal_ext ''m'' (score_event_of (Some ''1'')) score_world = (r, w')"
    by (cases "ScorePost decimal_ext ''m'' (score_event_of (Some ''1'')) score_world")
  have "scored decimal_ext ''m'' (score_event_of (Some ''1'')) r score_world w'"
    by (rule ScorePost_scored [OF _ _ _ run]) (simp_all add: score_world_def scores_unique_def empty_db_def)
  then show ?thesis using run by simp
qed

lemma resolveVector_cached_example:
  "let (r, w1) = resolveVector decimal_ext ''m'' \<lparr>sk_PostID = Some ''1'', sk_SummaryID = None\<rparr> ''short'' score_world
   in r = Inr [Finite 1] \<and> embed_calls w1 = [''short''] \<and>
     (let w2 = quiet_world (committed w1) in
      resolveVector decimal_ext ''m'' \<lparr>sk_PostID = Some ''1'', sk_SummaryID = None\<rparr> ''short'' w2 = (Inr [Finite 1], after_read w2))"
proof -
  let ?key = "\<lparr>sk_PostID = Some ''1'', sk_SummaryID = None\<rparr>"
  have one_id: "parse_uuid decimal_ext ''1'' = Some 1" by code_simp
  define w1 where "w1 = snd (resolveVector decimal_ext ''m'' ?key ''short'' score_world)"
  have "fst (resolveVector decimal_ext ''m'' ?key ''short'' score_world) = Inr [Finite 1]" "embed_calls w1 = [''short'']"
    unfolding w1_def
    by (simp_all add: resolveVector_def embedding_repo_Get_def embeddingKeyColumn_def one_id parse_id_def exec_tx_def
        take_fault_def autocommit_def time_now_def select_def score_world_def quiet_world_def empty_db_def query_row_def
        scorer_Embed_def embedding_repo_Upsert_def encode_vector_def upsert_embedding_stmt_def new_uuid_def advance_def
        post_ids_def opt_in_def listed_post_def sample_post_def Let_def)
  then have run: "resolveVector decimal_ext ''m'' ?key ''short'' score_world = (Inr [Finite 1], w1)"
    by (metis w1_def prod.collapse)
  have "resolveVector decimal_ext ''m'' ?key ''short'' (quiet_world (committed w1)) =
      (Inr [Finite 1], after_read (quiet_world (committed w1)))"
    by (rule resolveVector_cached [OF _ run, THEN conjunct1]) (simp_all add: score_world_def proper_key_def fault_free_def)
  then show ?thesis using run \<open>embed_calls w1 = _\<close> by (simp add: Let_def)
qed

end
