(* ===== verification/Calm.thy ===== *)
theory Calm
  imports Score_Processing
begin

text \<open>
  What the handlers of the worker pools leave alone. A world is calm with respect to a view of
  the database (the queue, say) when no transaction is open, the view has a given value and the
  faults, clock readings and row locks still to come are of given sets; a calm program keeps
  the world calm, whatever the view and the sets.
\<close>

definition calm :: "(database \<Rightarrow> 'v) \<Rightarrow> fault set \<Rightarrow> time set \<Rightarrow> uuid list set \<Rightarrow> 'v \<Rightarrow> world \<Rightarrow> bool" where
  "calm view F C L V w \<longleftrightarrow>
     open_tx w = None \<and> view (committed w) = V \<and>
     range (faults w) \<subseteq> F \<and> range (clock w) \<subseteq> C \<and> range (row_locks w) \<subseteq> L"

definition calmly :: "(database \<Rightarrow> 'v) \<Rightarrow> (world \<Rightarrow> 'a \<times> world) \<Rightarrow> bool" where
  "calmly view f \<longleftrightarrow> (\<forall>F C L V w. calm view F C L V w \<longrightarrow> calm view F C L V (snd (f w)))"

definition leaves :: "(database \<Rightarrow> 'v) \<Rightarrow> 'a stmt \<Rightarrow> bool" where
  "leaves view s \<longleftrightarrow> (\<forall>now d x d'. s now d = Inr (x, d') \<longrightarrow> view d' = view d)"

named_theorems calm_intros

lemma range_advance: "range xs \<subseteq> A \<Longrightarrow> range (advance xs) \<subseteq> A"
  by (auto simp: advance_def)

lemma calmlyI: "(\<And>F C L V w. calm view F C L V w \<Longrightarrow> calm view F C L V (snd (f w))) \<Longrightarrow> calmly view f"
  by (simp add: calmly_def)

lemma calmlyD: "calmly view f \<Longrightarrow> calm view F C L V w \<Longrightarrow> f w = (r, w') \<Longrightarrow> calm view F C L V w'"
  by (metis calmly_def snd_conv)

lemma leaves_select [calm_intros]: "leaves view (select q)"
  by (simp add: leaves_def select_def)

lemma calmly_exec_tx [calm_intros]:
  assumes "leaves view s" shows "calmly view (exec_tx s)"
proof (rule calmlyI)
  fix F C L V and w :: world assume c: "calm view F C L V w"
  obtain r w' where x: "exec_tx s w = (r, w')" by (cases "exec_tx s w")
  have o: "open_tx w = None" using c by (simp add: calm_def)
  have "faults w' = advance (faults w)" "row_locks w' = row_locks w"
    using x o by (auto simp: exec_tx_def take_fault_def autocommit_def time_now_def Let_def split: fault.splits sum.splits)
  moreover have "clock w' = clock w \<or> clock w' = advance (clock w)" "open_tx w' = None"
    using exec_tx_outside(1,4) [OF o x] by auto
  moreover have "view (committed w') = view (committed w)"
    using exec_tx_outside(2) [OF o x] assms unfolding leaves_def by metis
  ultimately show "calm view F C L V (snd (exec_tx s w))"
    using c range_advance by (auto simp: calm_def x)
qed

lemma calmly_exec_direct [calm_intros]: "leaves view s \<Longrightarrow> calmly view (exec_direct s)"
  using calmly_exec_tx [of view s] exec_direct_outside unfolding calmly_def by (metis calm_def)

lemma calmly_time_now [calm_intros]: "calmly view time_now"
  by (rule calmlyI) (auto simp: calm_def time_now_def dest: range_advance)

lemma calmly_new_uuid [calm_intros]: "calmly view new_uuid"
  by (rule calmlyI) (simp add: calm_def new_uuid_def)

lemma calmly_call_llm [calm_intros]: "calmly view (call_llm sys body)"
  by (rule calmlyI) (simp add: calm_def call_llm_def)

lemma calmly_take_ctx_done [calm_intros]: "calmly view take_ctx_done"
  by (rule calmlyI) (simp add: calm_def take_ctx_done_def)

lemma calmly_Embed [calm_intros]: "calmly view (scorer_Embed body)"
  by (rule calmlyI) (simp add: calm_def scorer_Embed_def)

lemma calmly_return [calm_intros]: "calmly view (\<lambda>w. (x, w))"
  by (rule calmlyI) simp

lemma calmly_bind:
  assumes "calmly view f" and "\<And>x. calmly view (g x)"
  shows "calmly view (\<lambda>w. case f w of (x, w1) \<Rightarrow> g x w1)"
proof (rule calmlyI)
  fix F C L V and w :: world assume c: "calm view F C L V w"
  obtain x w1 where f: "f w = (x, w1)" by (cases "f w")
  from calmlyD [OF assms(1) c f] show "calm view F C L V (snd (case f w of (x, w1) \<Rightarrow> g x w1))"
    using assms(2) [of x] by (simp add: f calmly_def)
qed

lemma calmly_case_sum [calm_intros]:
  "(\<And>e. calmly view (g e)) \<Longrightarrow> (\<And>x. calmly view (h x)) \<Longrightarrow>
   calmly view (\<lambda>w. case s of Inl e \<Rightarrow> g e w | Inr x \<Rightarrow> h x w)"
  by (cases s) simp_all

lemma calmly_case_option [calm_intros]:
  "calmly view g \<Longrightarrow> (\<And>x. calmly view (h x)) \<Longrightarrow> calmly view (\<lambda>w. case s of None \<Rightarrow> g w | Some x \<Rightarrow> h x w)"
  by (cases s) simp_all

lemma calmly_case_list [calm_intros]:
  "calmly view g \<Longrightarrow> (\<And>x xs. calmly view (h x xs)) \<Longrightarrow> calmly view (\<lambda>w. case s of [] \<Rightarrow> g w | x # xs \<Rightarrow> h x xs w)"
  by (cases s) simp_all

lemma calmly_case_prod [calm_intros]:
  "(\<And>x y. calmly view (h x y)) \<Longrightarrow> calmly view (\<lambda>w. case s of (x, y) \<Rightarrow> h x y w)"
  by (cases s) simp

lemma calmly_if [calm_intros]:
  "calmly view f \<Longrightarrow> calmly view g \<Longrightarrow> calmly view (\<lambda>w. if c then f w else g w)"
  by (cases c) simp_all

lemma calmly_result [calm_intros]:
  assumes "calmly view f" and "\<And>e. calmly view (g e)" and "\<And>x. calmly view (h x)"
  shows "calmly view (\<lambda>w. case f w of (Inl e, w1) \<Rightarrow> g e w1 | (Inr x, w1) \<Rightarrow> h x w1)"
  by (rule calmly_bind [OF assms(1)]) (rule calmly_case_sum [OF assms(2,3)])

lemma calmly_list_result [calm_intros]:
  assumes "calmly view f" and "\<And>e. calmly view (g e)" and "calmly view k" and "\<And>x xs. calmly view (h x xs)"
  shows "calmly view (\<lambda>w. case f w of (Inl e, w1) \<Rightarrow> g e w1 | (Inr [], w1) \<Rightarrow> k w1 | (Inr (x # xs), w1) \<Rightarrow> h x xs w1)"
  by (rule calmly_bind [OF assms(1)]) (rule calmly_case_sum [OF assms(2)], rule calmly_case_list [OF assms(3,4)])

lemma calmly_option_first [calm_intros]:
  assumes "calmly view f" and "calmly view g" and "\<And>x. calmly view (h x)"
  shows "calmly view (\<lambda>w. case f w of (None, w1) \<Rightarrow> g w1 | (Some x, w1) \<Rightarrow> h x w1)"
  by (rule calmly_bind [OF assms(1)]) (rule calmly_case_option [OF assms(2,3)])

lemma calmly_some_first [calm_intros]:
  assumes "calmly view f" and "calmly view g" and "\<And>x. calmly view (h x)"
  shows "calmly view (\<lambda>w. case f w of (Some x, w1) \<Rightarrow> h x w1 | (None, w1) \<Rightarrow> g w1)"
  by (rule calmly_bind [OF assms(1)]) (rule calmly_case_option [OF assms(2,3)])

lemma calmly_pair_result [calm_intros]:
  assumes "calmly view f" and "\<And>e. calmly view (g e)" and "\<And>x y. calmly view (h x y)"
  shows "calmly view (\<lambda>w. case f w of (Inl e, w1) \<Rightarrow> g e w1 | (Inr (x, y), w1) \<Rightarrow> h x y w1)"
  by (rule calmly_bind [OF assms(1)]) (rule calmly_case_sum [OF assms(2)], rule calmly_case_prod [OF assms(3)])

section \<open>The handler of scoring events\<close>

lemma leaves_upsert_score [calm_intros]: "leaves score_events (upsert_score_stmt i p m v model)"
  by (auto simp: leaves_def upsert_score_stmt_def Let_def split: list.splits if_splits)

lemma leaves_upsert_embedding [calm_intros]: "leaves score_events (upsert_embedding_stmt i p m v model h)"
  by (auto simp: leaves_def upsert_embedding_stmt_def Let_def split: list.splits if_splits)

lemma resolveScoreInput_calm [calm_intros]: "calmly view (resolveScoreInput E event)"
  unfolding resolveScoreInput_def summary_repo_Get_def summary_repo_ListByPost_def
  by (intro calm_intros)

lemma ListInterestVectors_calm [calm_intros]: "calmly view ListInterestVectors"
  unfolding ListInterestVectors_def by (intro calm_intros)

lemma upsert_value_calm [calm_intros]: "calmly score_events (upsert_value E model key v)"
  unfolding upsert_value_def score_repo_Upsert_def Let_def
  by (intro calm_intros calmly_bind)

lemma embedding_Get_calm [calm_intros]: "calmly view (embedding_repo_Get E key)"
  unfolding embedding_repo_Get_def Let_def by (intro calm_intros calmly_bind)

lemma embedding_Upsert_calm [calm_intros]: "calmly score_events (embedding_repo_Upsert E pe)"
  unfolding embedding_repo_Upsert_def Let_def by (intro calm_intros calmly_bind)

lemma resolveVector_calm [calm_intros]: "calmly score_events (resolveVector E model key body)"
  unfolding resolveVector_def Let_def by (intro calm_intros calmly_bind)

lemma ScorePost_calm: "calmly score_events (ScorePost E model event)"
  unfolding ScorePost_def by (intro calm_intros)

section \<open>The handlers of summarization events\<close>

text \<open>What the two handlers leave alone: the queue, the posts and the sources.\<close>

definition summary_view :: "database \<Rightarrow> summary_event_row list \<times> post_row list \<times> source_row list" where
  "summary_view d = (summary_events d, posts d, sources d)"

lemma leaves_insert_summary [calm_intros]: "leaves summary_view (write_stmt (insert_summary row))"
  by (auto simp: leaves_def write_stmt_def insert_summary_def summary_view_def split: sum.splits if_splits)

lemma ensureNotExpired_calm [calm_intros]: "calmly view (ensureNotExpired cfg event)"
  unfolding ensureNotExpired_def Let_def by (intro calm_intros calmly_bind)

lemma only_post_calm [calm_intros]: "calmly view (only_post_with_source direct P)"
  unfolding only_post_with_source_def exec_def by (cases direct) (simp_all, (intro calm_intros)+)

lemma post_repo_Get_calm [calm_intros]: "calmly view (post_repo_Get E ident)"
  unfolding post_repo_Get_def by (intro calm_intros)

lemma llm_attempts_calm [calm_intros]: "calmly view (llm_attempts sys body n k e)"
proof (induction k arbitrary: e)
  case 0
  show ?case by (rule calmlyI) simp
next
  case (Suc k)
  show ?case unfolding llm_attempts.simps by (intro calm_intros Suc)
qed

lemma summarize_calm [calm_intros]: "calmly view (summarizeWithLLMRetry prompts llms n mode body)"
  unfolding summarizeWithLLMRetry_def Let_def by (intro calm_intros)

lemma save_summary_calm [calm_intros]: "calmly summary_view (save_summary E postID sourceID body)"
  unfolding save_summary_def summary_repo_Save_def Let_def by (intro calm_intros calmly_bind)

lemma ListByPost_calm [calm_intros]: "calmly view (summary_repo_ListByPost E postID)"
  unfolding summary_repo_ListByPost_def by (intro calm_intros)

lemma ProcessPostEvent_calm: "calmly summary_view (ProcessPostEvent D event)"
  unfolding ProcessPostEvent_def by (intro calm_intros)

lemma GetLastBySource_calm [calm_intros]: "calmly view (summary_repo_GetLastBySource E sourceID)"
  unfolding summary_repo_GetLastBySource_def by (intro calm_intros)

lemma build_items_calm [calm_intros]: "calmly view (build_items E srcs rows)"
proof (induction rows)
  case Nil
  show ?case by (rule calmlyI) simp
next
  case (Cons p ps)
  show ?case unfolding build_items.simps Let_def
    by (rule calmly_bind; intro calm_intros Cons)
qed

lemma post_repo_List_calm [calm_intros]: "calmly view (post_repo_List E f)"
  unfolding post_repo_List_def fetchPosts_def batchLoadSources_def buildResult_def Let_def
  by (intro calm_intros)

lemma collect_pages_calm:
  "collect_pages E sourceID a b m fuel t acc tot w = Some (r, w') \<Longrightarrow> calm view F C L V w \<Longrightarrow> calm view F C L V w'"
proof (induction fuel arbitrary: t acc tot w)
  case (Suc fuel)
  obtain q w1 where l: "post_repo_List E (window_filter sourceID a b t) w = (q, w1)"
    by (cases "post_repo_List E (window_filter sourceID a b t) w")
  note c = calmlyD [OF post_repo_List_calm Suc.prems(2) l]
  show ?case using Suc.prems(1) l c Suc.IH by (auto split: sum.splits prod.splits if_splits)
qed simp

lemma ProcessSourceEvent_calm:
  assumes "ProcessSourceEvent D fuel event w = Some (r, w')" and "calm summary_view F C L V w"
  shows "calm summary_view F C L V w'"
proof -
  let ?E = "dep_ext D"
  obtain q1 w1 where 1: "ensureNotExpired (dep_cfg D) event w = (q1, w1)" by (cases "ensureNotExpired (dep_cfg D) event w")
  note c1 = calmlyD [OF ensureNotExpired_calm assms(2) 1]
  obtain q2 w2 where 2: "summary_repo_GetLastBySource ?E (se_SourceID event) w1 = (q2, w2)"
    by (cases "summary_repo_GetLastBySource ?E (se_SourceID event) w1")
  note c2 = calmlyD [OF GetLastBySource_calm c1 2]
  obtain now w3 where 3: "time_now w2 = (now, w3)" by (cases "time_now w2")
  note c3 = calmlyD [OF calmly_time_now c2 3]
  consider "w' = w1" | "w' = w2" | lastSummary q4 w4 where "q1 = None" "q2 = Inr lastSummary"
      "collectWindowPosts ?E (se_SourceID event) (window_start (dep_cfg D) lastSummary now) now
             (max_input_chars (dep_cfg D)) fuel w3 = Some (q4, w4)"
    using assms(1) 1 2 3 by (auto simp: ProcessSourceEvent_def split: option.splits sum.splits)
  then show ?thesis
  proof cases
    case (3 lastSummary q4 w4)
    then have c4: "calm summary_view F C L V w4"
      using collect_pages_calm c3 by (auto simp: collectWindowPosts_def)
    define rest where "rest body = (\<lambda>w. case summarizeWithLLMRetry (dep_prompts D) (dep_llms D) (sf_LlmMaxRetries (dep_cfg D))
                       ProcessingModeCumulative body w of
             (Inl e, w) \<Rightarrow> (Inl (errorf_ctx ''summarize'' e), w)
           | (Inr digest, w) \<Rightarrow> save_summary ?E None (se_SourceID event) digest w)" for body
    have cr: "calmly summary_view (rest body)" for body unfolding rest_def by (intro calm_intros)
    have "w' = w4 \<or> (\<exists>body. q4 = Inr body \<and> rest body w4 = (r, w'))"
    proof (cases q4)
      case (Inr body)
      define X where "X = summarizeWithLLMRetry (dep_prompts D) (dep_llms D) (sf_LlmMaxRetries (dep_cfg D))
        ProcessingModeCumulative body w4"
      have run: "ProcessSourceEvent D fuel event w = (if body = [] then Some (Inl (Sentinel ErrSummarySourceNoPosts), w4)
          else case X of (Inl e, w) \<Rightarrow> Some (Inl (errorf_ctx ''summarize'' e), w)
            | (Inr digest, w) \<Rightarrow> Some (save_summary ?E None (se_SourceID event) digest w))"
        using 1 2 \<open>time_now w2 = (now, w3)\<close> 3 Inr by (simp add: ProcessSourceEvent_def X_def)
      have rest: "rest body w4 = (case X of (Inl e, w) \<Rightarrow> (Inl (errorf_ctx ''summarize'' e), w)
            | (Inr digest, w) \<Rightarrow> save_summary ?E None (se_SourceID event) digest w)"
        by (simp add: rest_def X_def)
      obtain s v where "X = (s, v)" by (cases X)
      then have "w' = w4 \<or> rest body w4 = (r, w')"
        using assms(1) unfolding run rest by (cases s) (auto split: if_splits)
      then show ?thesis using Inr by blast
    qed (use assms(1) 1 2 \<open>time_now w2 = (now, w3)\<close> 3 in \<open>simp add: ProcessSourceEvent_def\<close>)
    then show ?thesis using calmlyD [OF cr c4] c4 by blast
  qed (use c1 c2 in simp_all)
qed

end
