(* ===== verification/Worker_Loop.thy ===== *)
theory Worker_Loop
  imports Calm
begin

text \<open>
  The loop both worker pools of \<open>internal/task\<close> run (\<open>score_event_worker_pool.go\<close> is a
  structural copy of \<open>event_worker_pool.go\<close>), generic in the queue, and the contract under
  which a worker drains its queue.
\<close>

section \<open>The loop\<close>

text \<open>
  One turn of \<open>runWorker\<close>: claim, then process. The flag tells whether an event was claimed;
  otherwise the worker sleeps. \<open>None\<close> is a handler that does not return.
\<close>

definition worker_turn ::
  "(world \<Rightarrow> 'e result \<times> world) \<Rightarrow> ('e \<Rightarrow> world \<Rightarrow> world option) \<Rightarrow> world \<Rightarrow> (bool \<times> world) option" where
  "worker_turn claim process w =
     (case claim w of
        (Inl claimErr, w) \<Rightarrow> Some (False, w)
      | (Inr event, w) \<Rightarrow> (case process event w of None \<Rightarrow> None | Some w \<Rightarrow> Some (True, w)))"

text \<open>
  The stream holds what \<open>isRunning\<close> and \<open>sleep\<close> find: whether the context and the stop
  channel are still open. The result tells whether the worker has stopped within the turns.
\<close>

fun worker_loop ::
  "(world \<Rightarrow> (bool \<times> world) option) \<Rightarrow> bool stream \<Rightarrow> nat \<Rightarrow> world \<Rightarrow> (bool \<times> world) option" where
  "worker_loop turn running 0 w = Some (False, w)"
| "worker_loop turn running (Suc k) w =
     (if \<not> running 0 then Some (True, w)
      else case turn w of
        None \<Rightarrow> None
      | Some (True, w) \<Rightarrow> worker_loop turn (advance running) k w
      | Some (False, w) \<Rightarrow>
          (if \<not> running 1 then Some (True, w) else worker_loop turn (advance (advance running)) k w))"

section \<open>The work in a queue\<close>

text \<open>How many turns an event can still take: one for each attempt the policy allows.\<close>

definition turns_left :: "int \<Rightarrow> 'r lease_row_scheme \<Rightarrow> nat" where
  "turns_left maxAttempts r = (if l_status r = Pending then nat (max 1 (maxAttempts - l_attempt_count r)) else 0)"

definition work :: "int \<Rightarrow> 'r lease_row_scheme list \<Rightarrow> nat" where
  "work maxAttempts rs = sum_list (map (turns_left maxAttempts) rs)"

text \<open>What a worker writes when it is done with an event of the given attempt.\<close>

definition worker_write :: "int \<Rightarrow> int \<Rightarrow> ('r lease_row_scheme \<Rightarrow> 'r lease_row_scheme) \<Rightarrow> bool" where
  "worker_write maxAttempts attempt f \<longleftrightarrow>
     (\<forall>r. l_id (f r) = l_id r \<and> l_attempt_count (f r) = l_attempt_count r \<and> l_locked_by (f r) = None) \<and>
     ((\<forall>r. terminal_status (l_status (f r))) \<or> (\<forall>r. l_status (f r) = Pending) \<and> attempt < maxAttempts)"

definition pool_write ::
  "int \<Rightarrow> int \<Rightarrow> uuid \<Rightarrow> string \<Rightarrow> 'r lease_row_scheme list \<Rightarrow> 'r lease_row_scheme list \<Rightarrow> bool" where
  "pool_write maxAttempts attempt eid workerID rs rs' \<longleftrightarrow>
     rs' = rs \<or> (\<exists>t f. worker_write maxAttempts attempt f \<and> rs' = update_where (owns_lease eid workerID t) f rs)"

lemma calm_exec:
  assumes "calm view F C L V w" and "exec_tx s w = (r, w')"
  shows "\<exists>V'. calm view F C L V' w' \<and> (V' = V \<or> (\<exists>x d'. s (clock w 0) (committed w) = Inr (x, d') \<and> V' = view d'))"
proof -
  have o: "open_tx w = None" using assms(1) by (simp add: calm_def)
  have "faults w' = advance (faults w)" "row_locks w' = row_locks w"
    using assms(2) o by (auto simp: exec_tx_def take_fault_def autocommit_def time_now_def Let_def split: fault.splits sum.splits)
  moreover have "clock w' = clock w \<or> clock w' = advance (clock w)" "open_tx w' = None"
    using exec_tx_outside(1,4) [OF o assms(2)] by auto
  ultimately have "calm view F C L (view (committed w')) w'"
    using assms(1) range_advance by (auto simp: calm_def)
  moreover have "view (committed w') = V \<or> (\<exists>x d'. s (clock w 0) (committed w) = Inr (x, d') \<and> view (committed w') = view d')"
    using exec_tx_outside(2) [OF o assms(2)] assms(1) by (auto simp: calm_def)
  ultimately show ?thesis by blast
qed

text \<open>A write guarded by the lease is a pool write, whatever fails.\<close>

lemma calm_pool_write:
  assumes c: "calm (\<lambda>d. (queue d, rest d)) F C L (rs, s) w"
    and st: "\<And>now d x d'. stm now d = Inr (x, d') \<Longrightarrow>
      rest d' = rest d \<and> queue d' = update_where (owns_lease eid v now) (f now) (queue d)"
    and f: "\<And>t. worker_write n a (f t)"
  shows "\<exists>rs'. calm (\<lambda>d. (queue d, rest d)) F C L (rs', s) (snd (exec_tx stm w)) \<and> pool_write n a eid v rs rs'"
proof -
  obtain r w' where x: "exec_tx stm w = (r, w')" by (cases "exec_tx stm w")
  from calm_exec [OF c x] obtain V' where V': "calm (\<lambda>d. (queue d, rest d)) F C L V' w'"
    and or: "V' = (rs, s) \<or> (\<exists>x d'. stm (clock w 0) (committed w) = Inr (x, d') \<and> V' = (queue d', rest d'))" by blast
  have base: "queue (committed w) = rs" "rest (committed w) = s" using c by (auto simp: calm_def)
  show ?thesis
  proof (cases "V' = (rs, s)")
    case True
    then show ?thesis using V' x by (auto simp: pool_write_def)
  next
    case False
    with or st base have "V' = (update_where (owns_lease eid v (clock w 0)) (f (clock w 0)) rs, s)" by auto
    then show ?thesis using V' x f by (auto simp: pool_write_def)
  qed
qed

text \<open>No lease of the queue ends before the given instant.\<close>

definition leased_until :: "time \<Rightarrow> 'r lease_row_scheme list \<Rightarrow> bool" where
  "leased_until t rs \<longleftrightarrow> (\<forall>r \<in> set rs. l_status r = Processing \<longrightarrow> (\<exists>u. l_locked_until r = Some u \<and> t \<le> u))"

lemma work_update_le:
  "(\<And>x. x \<in> set rs \<Longrightarrow> P x \<Longrightarrow> turns_left n (f x) \<le> turns_left n x) \<Longrightarrow> work n (update_where P f rs) \<le> work n rs"
  unfolding work_def by (induction rs) (auto intro: add_mono)

lemma work_update_less:
  assumes "\<And>x. x \<in> set rs \<Longrightarrow> P x \<Longrightarrow> turns_left n (f x) \<le> turns_left n x"
    and "q \<in> set rs" "P q" "turns_left n (f q) < turns_left n q"
  shows "work n (update_where P f rs) < work n rs"
  using assms
proof (induction rs)
  case (Cons x rs)
  have le: "work n (update_where P f rs) \<le> work n rs" using Cons.prems(1) by (intro work_update_le) simp
  show ?case
  proof (cases "x = q")
    case True
    then show ?thesis using le Cons.prems(3,4) by (simp add: work_def)
  next
    case False
    then have "q \<in> set rs" using Cons.prems(2) by simp
    then have "work n (update_where P f rs) < work n rs" using Cons.IH Cons.prems by simp
    moreover have "P x \<longrightarrow> turns_left n (f x) \<le> turns_left n x" using Cons.prems(1) by simp
    ultimately show ?thesis by (auto simp: work_def)
  qed
qed simp

text \<open>A claim and what follows it take one turn off the work.\<close>

lemma turn_takes_work:
  assumes claim: "claim_rows [] v ttl now rs = Some (r, rs1)" and d: "distinct (map l_id rs)"
    and lease: "leased_until t1 rs" and now: "now \<le> t1" "t1 \<le> now + sql_interval ttl"
    and fin: "pool_write n (l_attempt_count r) (l_id r) v rs1 rs2"
  shows "work n rs2 < work n rs" "distinct (map l_id rs2)" "leased_until t1 rs2"
proof -
  obtain q where q: "q \<in> set rs" "claimable now q" "r = claim_row v ttl now q"
    "rs1 = update_where (\<lambda>x. l_id x = l_id q) (claim_row v ttl now) rs"
    by (rule claim_rows_Some [OF claim])
  have pend: "l_status q = Pending"
    using q(1,2) lease now(1) by (force simp: claimable_def leased_until_def split: option.splits)
  have only: "x = q" if "x \<in> set rs" "l_id x = l_id q" for x
    using distinct_key_unique [OF d] that q(1) by blast
  have w1: "work n rs1 < work n rs"
    unfolding q(4)
  proof (rule work_update_less)
    show "q \<in> set rs" "l_id q = l_id q" using q(1) by simp_all
    show "turns_left n (claim_row v ttl now q) < turns_left n q" using pend by (simp add: turns_left_def claim_row_def)
  qed (simp add: turns_left_def claim_row_def)
  have d1: "distinct (map l_id rs1)" using d by (simp add: q(4) map_update_where)
  have l1: "leased_until t1 rs1"
    using lease now(2) by (auto simp: q(4) leased_until_def set_update_where claim_row_def)
  have "work n rs2 < work n rs \<and> distinct (map l_id rs2) \<and> leased_until t1 rs2"
  proof (cases "rs2 = rs1")
    case False
    with fin obtain t f where f: "worker_write n (l_attempt_count r) f" and rs2: "rs2 = update_where (owns_lease (l_id r) v t) f rs1"
      unfolding pool_write_def by blast
    have row: "x = r" if "x \<in> set rs1" "owns_lease (l_id r) v t x" for x
      using that only by (auto simp: q(3,4) set_update_where owns_lease_def)
    have "r \<in> set rs1" using q(1) by (auto simp: q(3,4) set_update_where image_iff intro: bexI [of _ q])
    have fa: "l_id (f x) = l_id x" "l_attempt_count (f x) = l_attempt_count x" for x using f by (auto simp: worker_write_def)
    have "distinct (map l_id rs2)" using d1 by (simp add: rs2 map_update_where fa)
    moreover have "l_status (f x) \<noteq> Processing" for x
      using f unfolding worker_write_def terminal_status_def by (metis EventStatus.distinct)
    then have "leased_until t1 rs2" using l1 by (auto simp: rs2 leased_until_def set_update_where)
    moreover have "work n rs2 < work n rs"
    proof -
      define g where "g x = (if l_id x = l_id q then (if owns_lease (l_id r) v t r then f r else r) else x)" for x
      have "rs2 = update_where (\<lambda>x. l_id x = l_id q) g rs"
      proof -
        have "(if owns_lease (l_id r) v t y then f y else y) = (if l_id x = l_id q then g x else x)"
          if "x \<in> set rs" "y = (if l_id x = l_id q then claim_row v ttl now x else x)" for x y
          using only [OF that(1)] that(2) by (auto simp: g_def q(3) owns_lease_def)
        then show ?thesis by (auto simp: rs2 q(4) update_where_def)
      qed
      moreover have "turns_left n (g q) < turns_left n q"
      proof -
        have a: "l_attempt_count r = l_attempt_count q + 1" by (simp add: q(3) claim_row_def)
        have "terminal_status (l_status (f r)) \<or> l_status (f r) = Pending \<and> l_attempt_count r < n"
          using f by (auto simp: worker_write_def)
        then have "turns_left n (f r) < turns_left n q"
          using pend by (auto simp: turns_left_def fa a terminal_status_def)
        then show ?thesis using pend by (auto simp: g_def turns_left_def q(3) claim_row_def)
      qed
      ultimately show ?thesis using work_update_less [of rs "\<lambda>x. l_id x = l_id q" n g q] only q(1) by fastforce
    qed
    ultimately show ?thesis by simp
  qed (use w1 d1 l1 in simp)
  then show "work n rs2 < work n rs" "distinct (map l_id rs2)" "leased_until t1 rs2" by blast+
qed

section \<open>The contract of a pool\<close>

text \<open>
  In a calm world without faults and locked rows: a claim takes a row or reports that there is
  none; processing the event of a row returns, and changes the queue at most by a worker's
  write on the row, when it still owns it. \<open>rest\<close> is the part of the database on which the
  handler's return depends.
\<close>

locale worker_pool =
  fixes queue :: "database \<Rightarrow> 'r lease_row_scheme list"
    and rest :: "database \<Rightarrow> 's"
    and good :: "'s \<Rightarrow> bool"
    and claim :: "string \<Rightarrow> duration \<Rightarrow> world \<Rightarrow> 'e result \<times> world"
    and event :: "'r lease_row_scheme \<Rightarrow> 'e"
    and process :: "string \<Rightarrow> 'e \<Rightarrow> world \<Rightarrow> world option"
    and none :: error and maxAttempts :: int
  assumes claim_none: "calm (\<lambda>d. (queue d, rest d)) {Healthy} C {[]} (rs, s) w \<Longrightarrow>
      claim_rows [] v ttl (clock w 0) rs = None \<Longrightarrow> fst (claim v ttl w) = Inl none"
    and claim_some: "calm (\<lambda>d. (queue d, rest d)) {Healthy} C {[]} (rs, s) w \<Longrightarrow>
      claim_rows [] v ttl (clock w 0) rs = Some (r, rs') \<Longrightarrow>
      \<exists>w'. claim v ttl w = (Inr (event r), w') \<and> calm (\<lambda>d. (queue d, rest d)) {Healthy} C {[]} (rs', s) w'"
    and processed: "good s \<Longrightarrow> calm (\<lambda>d. (queue d, rest d)) {Healthy} C {[]} (rs, s) w \<Longrightarrow>
      \<exists>w' rs'. process v (event r) w = Some w' \<and> calm (\<lambda>d. (queue d, rest d)) {Healthy} C {[]} (rs', s) w' \<and>
        pool_write maxAttempts (l_attempt_count r) (l_id r) v rs rs'"
begin

lemma drains:
  assumes "good s" and "calm (\<lambda>d. (queue d, rest d)) {Healthy} {t0..t1} {[]} (rs, s) w"
    and "distinct (map l_id rs)" and "leased_until t1 rs" and "t1 \<le> t0 + sql_interval ttl"
  shows "\<exists>k \<le> work maxAttempts rs. \<exists>w'.
    worker_loop (worker_turn (claim v ttl) (process v)) (\<lambda>_. True) k w = Some (False, w') \<and>
    fst (claim v ttl w') = Inl none"
  using assms(2-4)
proof (induction "work maxAttempts rs" arbitrary: rs w rule: less_induct)
  case less
  have now: "t0 \<le> clock w 0" "clock w 0 \<le> t1" using less.prems(1) by (auto simp: calm_def dest!: range_subsetD [of _ _ 0])
  show ?case
  proof (cases "claim_rows [] v ttl (clock w 0) rs")
    case None
    from claim_none [OF less.prems(1) this] show ?thesis by (intro exI [of _ 0]) simp
  next
    case (Some p)
    obtain r rs1 where p: "p = (r, rs1)" by (cases p)
    note cl = Some [unfolded p]
    from claim_some [OF less.prems(1) cl] obtain w1 where c: "claim v ttl w = (Inr (event r), w1)"
      and w1: "calm (\<lambda>d. (queue d, rest d)) {Healthy} {t0..t1} {[]} (rs1, s) w1" by blast
    from processed [OF assms(1) w1, of v r] obtain w2 rs2 where pr: "process v (event r) w1 = Some w2"
      and w2: "calm (\<lambda>d. (queue d, rest d)) {Healthy} {t0..t1} {[]} (rs2, s) w2"
      and fin: "pool_write maxAttempts (l_attempt_count r) (l_id r) v rs1 rs2" by blast
    have t1: "t1 \<le> clock w 0 + sql_interval ttl" using assms(5) now(1) by simp
    note T = turn_takes_work [OF cl less.prems(2,3) now(2) t1 fin]
    from less.hyps [OF T(1) w2 T(2,3)] obtain k w' where k: "k \<le> work maxAttempts rs2"
      "worker_loop (worker_turn (claim v ttl) (process v)) (\<lambda>_. True) k w2 = Some (False, w')"
      "fst (claim v ttl w') = Inl none" by blast
    have "worker_turn (claim v ttl) (process v) w = Some (True, w2)" by (simp add: worker_turn_def c pr)
    then have "worker_loop (worker_turn (claim v ttl) (process v)) (\<lambda>_. True) (Suc k) w = Some (False, w')"
      using k(2) by (simp add: advance_def)
    then show ?thesis using k(1,3) T(1) by (intro exI [of _ "Suc k"]) auto
  qed
qed

end

end
