(* ===== verification/Worker_Pool.thy ===== *)
theory Worker_Pool
  imports Worker_Loop
begin

text \<open>
  \<open>internal/task/event_worker_pool.go\<close>: dispatch, finalization under the lease, heartbeat and
  worker loop of the summarization pool. Logging and the duration it reports are left out; the
  context of a statement is part of the faults of the world, and the context of the handler is
  in the answers and \<open>ctx_done\<close> readings of the world.
\<close>

definition lease_ttl :: "SummaryConf \<Rightarrow> duration" where
  "lease_ttl cfg = or_default (sf_LeaseTtl cfg) 300"

text \<open>
  The type of an event has the two values the table admits, so the branch for an unknown type
  has no counterpart. \<open>None\<close>: the collection of a digest needs more pages than \<open>fuel\<close>.
\<close>

definition dispatch :: "SummaryDeps \<Rightarrow> nat \<Rightarrow> SummaryEvent \<Rightarrow> world \<Rightarrow> (string result \<times> world) option" where
  "dispatch D fuel event w =
     (case se_EventType event of
        SummarizePost \<Rightarrow> Some (ProcessPostEvent D event w)
      | SummarizeSource \<Rightarrow> ProcessSourceEvent D fuel event w)"

text \<open>A failed write is only logged: the lease runs out and the event is claimed again.\<close>

definition writeTerminal ::
  "ext \<Rightarrow> string \<Rightarrow> string \<Rightarrow> EventStatus \<Rightarrow> string option \<Rightarrow> string option \<Rightarrow> world \<Rightarrow> world" where
  "writeTerminal E workerID eventID status summaryID errText w =
     snd (summary_outbox_FinalizeWithLease E eventID workerID status summaryID errText w)"

definition finalize ::
  "ext \<Rightarrow> RetryPolicy \<Rightarrow> string \<Rightarrow> SummaryEvent \<Rightarrow> string result \<Rightarrow> world \<Rightarrow> world" where
  "finalize E policy workerID event handled w =
     (case handled of
        Inr summaryID \<Rightarrow>
          writeTerminal E workerID (se_ID event) Completed (if summaryID \<noteq> [] then Some summaryID else None) None w
      | Inl handlerErr \<Rightarrow>
          (if errors_is handlerErr ErrLeaseLost then w
           else if errors_is handlerErr ContextCanceled \<or> errors_is handlerErr ContextDeadlineExceeded then w
           else if errors_is handlerErr ErrSummaryEventExpired
           then writeTerminal E workerID (se_ID event) Expired None None w
           else if errors_is handlerErr ErrSummarySourceNoPosts
           then writeTerminal E workerID (se_ID event) Completed None None w
           else if ShouldRetry policy (Some handlerErr) (se_AttemptCount event)
           then let backoff = CalculateBackoff policy (se_AttemptCount event); (now, w) = time_now w
                in snd (summary_outbox_MarkForRetry E (se_ID event) workerID (time_add now backoff)
                          (error_text handlerErr) w)
           else writeTerminal E workerID (se_ID event) Failed None (Some (error_text handlerErr)) w))"

text \<open>
  One tick of the heartbeat, which runs beside the handler. The flag tells that the lease is
  lost: the heartbeat cancels the handler's context and ends.
\<close>

definition heartbeat :: "ext \<Rightarrow> duration \<Rightarrow> string \<Rightarrow> string \<Rightarrow> world \<Rightarrow> bool \<times> world" where
  "heartbeat E leaseTTL workerID eventID w =
     (case summary_outbox_ExtendLease E eventID workerID leaseTTL w of
        (Inl err, w) \<Rightarrow> (errors_is err ErrLeaseLost, w)
      | (Inr _, w) \<Rightarrow> (False, w))"

definition processEvent :: "SummaryDeps \<Rightarrow> nat \<Rightarrow> string \<Rightarrow> SummaryEvent \<Rightarrow> world \<Rightarrow> world option" where
  "processEvent D fuel workerID event w =
     (let (start, w) = time_now w in
      case dispatch D fuel event w of
        None \<Rightarrow> None
      | Some (handled, w) \<Rightarrow>
          Some (finalize (dep_ext D) (SummaryUsecase_RetryPolicy (dep_cfg D)) workerID event handled w))"

definition runWorker :: "SummaryDeps \<Rightarrow> nat \<Rightarrow> string \<Rightarrow> bool stream \<Rightarrow> nat \<Rightarrow> world \<Rightarrow> (bool \<times> world) option" where
  "runWorker D fuel workerID =
     worker_loop (worker_turn (summary_outbox_ClaimOne (dep_ext D) workerID (lease_ttl (dep_cfg D)))
                              (processEvent D fuel workerID))"

section \<open>What finalization writes\<close>

definition summary_rest :: "database \<Rightarrow> post_row list \<times> source_row list" where
  "summary_rest d = (posts d, sources d)"

abbreviation summary_pool_view :: "database \<Rightarrow> summary_event_row list \<times> post_row list \<times> source_row list" where
  "summary_pool_view \<equiv> \<lambda>d. (summary_events d, summary_rest d)"

lemma summary_view_eq: "summary_view = summary_pool_view"
  by (simp add: fun_eq_iff summary_view_def summary_rest_def)

lemma worker_write_rows:
  "terminal_status st \<Longrightarrow> worker_write n a (finalize_summary_row st m x t)"
  "a < n \<Longrightarrow> worker_write n a (retry_row t y)"
  by (simp_all add: worker_write_def finalize_summary_row_def finalize_row_def retry_row_def)

lemma finalize_writes:
  assumes c: "calm summary_pool_view F C L (rs, s) w" and key: "parse_uuid E (se_ID event) = Some eid"
  shows "\<exists>rs'. calm summary_pool_view F C L (rs', s) (finalize E policy v event handled w) \<and>
    pool_write (MaxAttempts policy) (se_AttemptCount event) eid v rs rs'"
proof -
  let ?done = "\<lambda>w'. \<exists>rs'. calm summary_pool_view F C L (rs', s) w' \<and>
    pool_write (MaxAttempts policy) (se_AttemptCount event) eid v rs rs'"
  have same: "?done w" using c by (auto simp: pool_write_def)
  have wr: "?done (writeTerminal E v (se_ID event) st m x w)" if st: "terminal_status st" for st m x
  proof (cases "parse_opt_id E ''invalid summary id'' m")
    case (Inl e)
    then show ?thesis using same key
      by (simp add: writeTerminal_def summary_outbox_FinalizeWithLease_def parse_id_def)
  next
    case (Inr arg)
    have "?done (snd (exec_tx (finalize_summary_stmt eid v st arg x) w))"
      by (rule calm_pool_write [OF c, where f = "finalize_summary_row st arg x"])
        (auto simp: finalize_summary_stmt_def update_summary_events_Inr summary_rest_def worker_write_rows st split: if_splits)
    moreover have "writeTerminal E v (se_ID event) st m x w = snd (exec_tx (finalize_summary_stmt eid v st arg x) w)"
      using Inr key by (simp add: writeTerminal_def summary_outbox_FinalizeWithLease_def parse_id_def affected_or_lost_world)
    ultimately show ?thesis by simp
  qed
  show ?thesis
  proof (cases handled)
    case (Inr sid)
    then show ?thesis using wr [of Completed] by (simp add: finalize_def terminal_status_def)
  next
    case (Inl e)
    have terminal: "terminal_status Completed" "terminal_status Expired" "terminal_status Failed"
      by (simp_all add: terminal_status_def)
    show ?thesis
    proof (cases "ShouldRetry policy (Some e) (se_AttemptCount event)")
      case False
      then show ?thesis using Inl wr same terminal by (simp add: finalize_def)
    next
      case True
      then have lt: "se_AttemptCount event < MaxAttempts policy" by (simp add: ShouldRetry_def split: if_splits)
      define rt where "rt = time_add (clock w 0) (CalculateBackoff policy (se_AttemptCount event))"
      define w1 where "w1 = w\<lparr>clock := advance (clock w)\<rparr>"
      have c1: "calm summary_pool_view F C L (rs, s) w1" using calmlyD [OF calmly_time_now c] by (simp add: time_now_def w1_def)
      have "?done (snd (exec_tx (update_summary_events (owns_lease eid v) (\<lambda>_. retry_row rt (error_text e))) w1))"
        by (rule calm_pool_write [OF c1, where f = "\<lambda>_. retry_row rt (error_text e)"])
          (auto simp: update_summary_events_Inr summary_rest_def worker_write_rows lt)
      moreover have "snd (summary_outbox_MarkForRetry E (se_ID event) v rt (error_text e) w1) =
          snd (exec_tx (update_summary_events (owns_lease eid v) (\<lambda>_. retry_row rt (error_text e))) w1)"
        using key by (simp add: summary_outbox_MarkForRetry_def parse_id_def affected_or_lost_world)
      ultimately have retried: "?done (snd (summary_outbox_MarkForRetry E (se_ID event) v rt (error_text e) w1))" by simp
      have "finalize E policy v event handled w =
         (if errors_is e ErrLeaseLost \<or> errors_is e ContextCanceled \<or> errors_is e ContextDeadlineExceeded then w
          else if errors_is e ErrSummaryEventExpired then writeTerminal E v (se_ID event) Expired None None w
          else if errors_is e ErrSummarySourceNoPosts then writeTerminal E v (se_ID event) Completed None None w
          else snd (summary_outbox_MarkForRetry E (se_ID event) v rt (error_text e) w1))"
        using Inl True by (simp add: finalize_def time_now_def rt_def w1_def)
      then show ?thesis using retried same wr [OF terminal(1)] wr [OF terminal(2)] by (simp split: if_split)
    qed
  qed
qed

section \<open>A worker drains its queue\<close>

lemma ProcessSourceEvent_returns:
  assumes "ext_laws (dep_ext D)" and "fault_free w" and "parse_uuid (dep_ext D) (se_SourceID event) = Some sid"
    and "se_SourceID event \<noteq> []" and "distinct (map p_id (posts (committed w)))"
    and "posts_have_sources (committed w)" and "length (posts (committed w)) < fuel"
  shows "\<exists>r w'. ProcessSourceEvent D fuel event w = Some (r, w')"
proof -
  let ?E = "dep_ext D"
  define w1 where "w1 = w\<lparr>clock := advance (clock w)\<rparr>"
  define w3 where "w3 = (after_read w1)\<lparr>clock := advance (clock (after_read w1))\<rparr>"
  have ff: "fault_free w1" "fault_free w3" and c: "committed w1 = committed w" "committed w3 = committed w"
    using assms(2) by (simp_all add: fault_free_def w1_def w3_def)
  obtain now where now: "time_now (after_read w1) = (now, w3)" by (simp add: time_now_def w3_def)
  have l: "summary_repo_GetLastBySource ?E (se_SourceID event) w1 =
      (Inr (map_option (summary_to_domain ?E) (last_summary sid (committed w1))), after_read w1)"
    using GetLastBySource_fault_free [OF ff(1) assms(3)] by simp
  have "\<exists>body w4. collectWindowPosts ?E (se_SourceID event) start now (max_input_chars (dep_cfg D)) fuel w3 =
      Some (Inr body, w4)" for start
    using collectWindowPosts_fault_free [OF assms(1) ff(2) assms(3,4), of fuel start now "max_input_chars (dep_cfg D)"]
      assms(5-7) c by auto
  then obtain body w4 where col: "collectWindowPosts ?E (se_SourceID event)
      (window_start (dep_cfg D) (map_option (summary_to_domain ?E) (last_summary sid (committed w1))) now) now
      (max_input_chars (dep_cfg D)) fuel w3 = Some (Inr body, w4)" by blast
  obtain s v where "summarizeWithLLMRetry (dep_prompts D) (dep_llms D) (sf_LlmMaxRetries (dep_cfg D))
      ProcessingModeCumulative body w4 = (s, v)"
    by (cases "summarizeWithLLMRetry (dep_prompts D) (dep_llms D) (sf_LlmMaxRetries (dep_cfg D)) ProcessingModeCumulative body w4")
  moreover obtain x where "ensureNotExpired (dep_cfg D) event w = (x, w1)"
    using ensureNotExpired_result(1) w1_def by (metis surj_pair)
  ultimately show ?thesis
    by (cases x; cases s) (simp_all add: ProcessSourceEvent_def l now col)
qed

text \<open>The digest collection ends: the posts have their sources, and the fuel covers them.\<close>

definition summary_good :: "nat \<Rightarrow> post_row list \<times> source_row list \<Rightarrow> bool" where
  "summary_good fuel s \<longleftrightarrow> distinct (map p_id (fst s)) \<and> (\<forall>p \<in> set (fst s). p_source_id p \<in> s_id ` set (snd s)) \<and>
     length (fst s) < fuel"

lemma processEvent_returns:
  assumes E: "ext_laws (dep_ext D)" and good: "summary_good fuel s"
    and c: "calm summary_pool_view {Healthy} C L (rs, s) w"
  shows "\<exists>w' rs'. processEvent D fuel v (scanSummaryEvent (dep_ext D) r) w = Some w' \<and>
    calm summary_pool_view {Healthy} C L (rs', s) w' \<and>
    pool_write (max_attempts_of (sf_MaxAttempts (dep_cfg D))) (l_attempt_count r) (l_id r) v rs rs'"
proof -
  let ?e = "scanSummaryEvent (dep_ext D) r"
  have e: "se_ID ?e = uuid_string (dep_ext D) (l_id r)" "se_SourceID ?e = uuid_string (dep_ext D) (e_source_id r)"
    "se_AttemptCount ?e = l_attempt_count r"
    by (simp_all add: scanSummaryEvent_eq summary_event_to_domain_def)
  define w1 where "w1 = w\<lparr>clock := advance (clock w)\<rparr>"
  have c1: "calm summary_view {Healthy} C L (rs, s) w1"
    using calmlyD [OF calmly_time_now c] by (simp add: time_now_def w1_def summary_view_eq)
  have ff: "fault_free w1" using c1 by (auto simp: calm_def fault_free_def)
  have db: "posts (committed w1) = fst s" "sources (committed w1) = snd s"
    using c1 by (auto simp: calm_def summary_view_def)
  have "\<exists>h w2. dispatch D fuel ?e w1 = Some (h, w2)"
  proof (cases "se_EventType ?e")
    case SummarizeSource
    then show ?thesis
      using ProcessSourceEvent_returns [OF E ff, of ?e "e_source_id r" fuel] good db ext_lawsD [OF E]
      by (simp add: dispatch_def e posts_have_sources_def source_ids_def summary_good_def)
  qed (simp add: dispatch_def)
  then obtain h w2 where d: "dispatch D fuel ?e w1 = Some (h, w2)" by blast
  have "calm summary_view {Healthy} C L (rs, s) w2"
    using d c1 calmlyD [OF ProcessPostEvent_calm c1] ProcessSourceEvent_calm
    by (auto simp: dispatch_def split: SummaryEventType.splits)
  then have c2: "calm summary_pool_view {Healthy} C L (rs, s) w2" by (simp add: summary_view_eq)
  have key: "parse_uuid (dep_ext D) (se_ID ?e) = Some (l_id r)" by (simp add: e ext_lawsD [OF E])
  have "processEvent D fuel v ?e w = Some (finalize (dep_ext D) (SummaryUsecase_RetryPolicy (dep_cfg D)) v ?e h w2)"
    using d by (simp add: processEvent_def time_now_def w1_def)
  then show ?thesis
    using finalize_writes [OF c2 key, of "SummaryUsecase_RetryPolicy (dep_cfg D)" v h]
    by (auto simp: e SummaryUsecase_RetryPolicy_def)
qed

lemma calm_take_locks:
  assumes "calm view F C {[]} V w" shows "\<exists>w'. take_locks w = ([], w') \<and> calm view F C {[]} V w' \<and> clock w' = clock w"
proof -
  have "row_locks w 0 \<in> {[]}" using assms by (intro range_subsetD) (simp add: calm_def)
  then have "row_locks w 0 = []" by simp
  then show ?thesis using assms range_advance by (auto simp: take_locks_def calm_def)
qed

lemma calm_exec_healthy:
  assumes c: "calm view {Healthy} C L V w" and s: "s (clock w 0) (committed w) = Inr (x, d)"
  shows "\<exists>w'. exec_tx s w = (Inr x, w') \<and> calm view {Healthy} C L (view d) w'"
proof -
  have o: "open_tx w = None" and f: "faults w 0 = Healthy" using c by (auto simp: calm_def)
  from exec_tx_outside_fault_free [OF o f, of s] s
  have "exec_tx s w = (Inr x, w\<lparr>faults := advance (faults w), clock := advance (clock w), committed := d\<rparr>)" by simp
  then show ?thesis using c range_advance [of "faults w"] range_advance [of "clock w"] by (auto simp: calm_def)
qed

lemma summary_claim_none:
  assumes c: "calm summary_pool_view {Healthy} C {[]} (rs, s) w" and n: "claim_rows [] v ttl (clock w 0) rs = None"
  shows "fst (summary_outbox_ClaimOne E v ttl w) = Inl (Sentinel ErrNoEventAvailable)"
proof -
  obtain w1 where l: "take_locks w = ([], w1)" and c1: "calm summary_pool_view {Healthy} C {[]} (rs, s) w1"
    and k: "clock w1 = clock w" using calm_take_locks [OF c] by blast
  have "claim_summary_stmt [] v ttl (clock w1 0) (committed w1) = Inr (None, committed w1)"
    using c1 n k by (auto simp: claim_summary_stmt_def calm_def)
  from calm_exec_healthy [OF c1, where s = "claim_summary_stmt [] v ttl", OF this] l show ?thesis
    by (auto simp: summary_outbox_ClaimOne_def query_row_def)
qed

lemma summary_claim_some:
  assumes c: "calm summary_pool_view {Healthy} C {[]} (rs, s) w" and n: "claim_rows [] v ttl (clock w 0) rs = Some (r, rs')"
  shows "\<exists>w'. summary_outbox_ClaimOne E v ttl w = (Inr (scanSummaryEvent E r), w') \<and>
    calm summary_pool_view {Healthy} C {[]} (rs', s) w'"
proof -
  obtain w1 where l: "take_locks w = ([], w1)" and c1: "calm summary_pool_view {Healthy} C {[]} (rs, s) w1"
    and k: "clock w1 = clock w" using calm_take_locks [OF c] by blast
  have st: "claim_summary_stmt [] v ttl (clock w1 0) (committed w1) = Inr (Some r, (committed w1)\<lparr>summary_events := rs'\<rparr>)"
    using c1 n k by (auto simp: claim_summary_stmt_def calm_def)
  have "summary_rest (committed w1) = s" using c1 by (simp add: calm_def)
  then show ?thesis using calm_exec_healthy [OF c1, where s = "claim_summary_stmt [] v ttl", OF st] l
    by (auto simp: summary_outbox_ClaimOne_def query_row_def summary_rest_def)
qed

text \<open>The pool of a configuration, when the external functions obey their laws.\<close>

interpretation summary_pool:
  worker_pool summary_events summary_rest "\<lambda>s. ext_laws (dep_ext D) \<and> summary_good fuel s"
    "summary_outbox_ClaimOne (dep_ext D)" "scanSummaryEvent (dep_ext D)" "processEvent D fuel"
    "Sentinel ErrNoEventAvailable" "max_attempts_of (sf_MaxAttempts (dep_cfg D))" for D fuel
proof (unfold_locales, goal_cases)
  case 1
  then show ?case by (rule summary_claim_none)
next
  case 2
  then show ?case by (rule summary_claim_some)
next
  case 3
  then show ?case by (elim conjE) (rule processEvent_returns)
qed


section \<open>The verdict on an event\<close>

text \<open>What becomes of an event, by the outcome of its handler; \<open>None\<close> leaves it to the lease.\<close>

definition verdict :: "RetryPolicy \<Rightarrow> int \<Rightarrow> string result \<Rightarrow> EventStatus option" where
  "verdict policy attempt handled =
     (case handled of
        Inr _ \<Rightarrow> Some Completed
      | Inl e \<Rightarrow>
          (if errors_is e ErrLeaseLost \<or> errors_is e ContextCanceled \<or> errors_is e ContextDeadlineExceeded then None
           else if errors_is e ErrSummaryEventExpired then Some Expired
           else if errors_is e ErrSummarySourceNoPosts then Some Completed
           else if IsTransientError (Some e) \<and> attempt < MaxAttempts policy then Some Pending
           else Some Failed))"

text \<open>The row of an event whose lease the worker holds, after the worker is done with it.\<close>

definition settled ::
  "ext \<Rightarrow> RetryPolicy \<Rightarrow> string result \<Rightarrow> time \<Rightarrow> EventStatus \<Rightarrow> summary_event_row \<Rightarrow> summary_event_row \<Rightarrow> bool" where
  "settled E policy handled now st r r' \<longleftrightarrow>
     l_id r' = l_id r \<and> l_attempt_count r' = l_attempt_count r \<and> l_status r' = st \<and>
     l_locked_by r' = None \<and> l_locked_until r' = None \<and>
     (terminal_status st \<longrightarrow> l_processed_at r' = Some now) \<and>
     (st = Pending \<longrightarrow> l_next_attempt_at r' = Some (time_add now (CalculateBackoff policy (l_attempt_count r)))) \<and>
     (st = Pending \<or> st = Failed \<longrightarrow> (\<exists>e. handled = Inl e \<and> l_error r' = Some (error_text e))) \<and>
     (\<forall>sid. handled = Inr sid \<and> sid \<noteq> [] \<longrightarrow> e_summary_id r' = parse_uuid E sid)"

text \<open>The event is in the queue under a lease of the worker that is alive for the next two readings.\<close>

definition held :: "string \<Rightarrow> summary_event_row \<Rightarrow> world \<Rightarrow> bool" where
  "held v r w \<longleftrightarrow> r \<in> set (summary_events (committed w)) \<and> distinct (map l_id (summary_events (committed w))) \<and>
     owns_lease (l_id r) v (clock w 0) r \<and> owns_lease (l_id r) v (clock w 1) r"

lemma owner_only:
  assumes "held v r w" and "owns_lease (l_id r) v t r"
  shows "update_where (owns_lease (l_id r) v t) f (summary_events (committed w)) =
    update_where (\<lambda>x. l_id x = l_id r) (\<lambda>_. f r) (summary_events (committed w))"
proof -
  have "(if owns_lease (l_id r) v t x then f x else x) = (if l_id x = l_id r then f r else x)"
    if "x \<in> set (summary_events (committed w))" for x
    using that assms distinct_key_unique [of l_id "summary_events (committed w)" x r]
    by (auto simp: held_def owns_lease_def)
  then show ?thesis by (simp add: update_where_def)
qed

lemma writeTerminal_healthy:
  assumes ff: "fault_free w" and h: "held v r w" and key: "parse_uuid E i = Some (l_id r)"
    and arg: "parse_opt_id E ''invalid summary id'' m = Inr arg" "opt_in arg (summary_ids (committed w))"
  shows "committed (writeTerminal E v i st m x w) = (committed w)\<lparr>summary_events :=
    update_where (\<lambda>q. l_id q = l_id r) (\<lambda>_. finalize_summary_row st arg x (clock w 0) r) (summary_events (committed w))\<rparr>"
proof -
  have o: "owns_lease (l_id r) v (clock w 0) r" using h by (simp add: held_def)
  have "finalize_summary_stmt (l_id r) v st arg x (clock w 0) (committed w) =
    Inr (count_where (owns_lease (l_id r) v (clock w 0)) (summary_events (committed w)),
      (committed w)\<lparr>summary_events := update_where (\<lambda>q. l_id q = l_id r) (\<lambda>_. finalize_summary_row st arg x (clock w 0) r)
        (summary_events (committed w))\<rparr>)"
    using arg(2) owner_only [OF h o] by (simp add: finalize_summary_stmt_def update_summary_events_Inr)
  moreover have "open_tx w = None" "faults w 0 = Healthy" using ff by (simp_all add: fault_free_def)
  ultimately have "committed (snd (exec_tx (finalize_summary_stmt (l_id r) v st arg x) w)) = (committed w)\<lparr>summary_events :=
    update_where (\<lambda>q. l_id q = l_id r) (\<lambda>_. finalize_summary_row st arg x (clock w 0) r) (summary_events (committed w))\<rparr>"
    by (simp add: exec_tx_outside_fault_free)
  then show ?thesis
    using key arg(1) by (simp add: writeTerminal_def summary_outbox_FinalizeWithLease_def parse_id_def affected_or_lost_world)
qed

definition abandons :: "error \<Rightarrow> bool" where
  "abandons e \<longleftrightarrow> errors_is e ErrLeaseLost \<or> errors_is e ContextCanceled \<or> errors_is e ContextDeadlineExceeded"

text \<open>An event with attempts left is put back.\<close>

lemma finalize_again:
  assumes ff: "fault_free w" and h: "held v r w" and key: "parse_uuid E (se_ID event) = Some (l_id r)"
    and a: "se_AttemptCount event = l_attempt_count r"
    and e: "\<not> abandons e" "\<not> errors_is e ErrSummaryEventExpired" "\<not> errors_is e ErrSummarySourceNoPosts"
      "IsTransientError (Some e) \<and> l_attempt_count r < MaxAttempts policy"
  shows "\<exists>r'. settled E policy (Inl e) (clock w 0) Pending r r' \<and>
    committed (finalize E policy v event (Inl e) w) = (committed w)\<lparr>summary_events :=
      update_where (\<lambda>q. l_id q = l_id r) (\<lambda>_. r') (summary_events (committed w))\<rparr>"
proof -
  define rt where "rt = time_add (clock w 0) (CalculateBackoff policy (l_attempt_count r))"
  define w1 where "w1 = w\<lparr>clock := advance (clock w)\<rparr>"
  have w1: "open_tx w1 = None" "faults w1 0 = Healthy" "committed w1 = committed w" "clock w1 0 = clock w 1"
    using ff by (simp_all add: w1_def fault_free_def)
  have o: "owns_lease (l_id r) v (clock w 1) r" using h by (simp add: held_def)
  have "exec_tx (update_summary_events (owns_lease (l_id r) v) (\<lambda>_. retry_row rt (error_text e))) w1 = (Inr
      (count_where (owns_lease (l_id r) v (clock w 1)) (summary_events (committed w))),
      w1\<lparr>faults := advance (faults w1), clock := advance (clock w1), committed := (committed w)\<lparr>summary_events :=
        update_where (\<lambda>q. l_id q = l_id r) (\<lambda>_. retry_row rt (error_text e) r) (summary_events (committed w))\<rparr>\<rparr>)"
    by (simp add: exec_tx_outside_fault_free [OF w1(1,2)] update_summary_events_def guarded_update_def w1(3,4)
        owner_only [OF h o] del: One_nat_def)
  then have "committed (snd (summary_outbox_MarkForRetry E (se_ID event) v rt (error_text e) w1)) = (committed w)\<lparr>summary_events :=
      update_where (\<lambda>q. l_id q = l_id r) (\<lambda>_. retry_row rt (error_text e) r) (summary_events (committed w))\<rparr>"
    using key by (simp add: summary_outbox_MarkForRetry_def parse_id_def affected_or_lost_world)
  moreover have "settled E policy (Inl e) (clock w 0) Pending r (retry_row rt (error_text e) r)"
    by (simp add: settled_def retry_row_def rt_def terminal_status_def)
  moreover have "finalize E policy v event (Inl e) w = snd (summary_outbox_MarkForRetry E (se_ID event) v rt (error_text e) w1)"
    using e a by (simp add: abandons_def finalize_def ShouldRetry_def time_now_def rt_def w1_def del: IsTransientError.simps)
  ultimately show ?thesis by auto
qed

text \<open>A handled event is completed with the summary of the handler, if it names one.\<close>

lemma finalize_done:
  assumes "fault_free w" and "held v r w" and "parse_uuid E (se_ID event) = Some (l_id r)"
    and sid: "s = [] \<or> (\<exists>m \<in> summary_ids (committed w). parse_uuid E s = Some m)"
  shows "\<exists>r'. settled E policy (Inr s) (clock w 0) Completed r r' \<and>
    committed (finalize E policy v event (Inr s) w) = (committed w)\<lparr>summary_events :=
      update_where (\<lambda>q. l_id q = l_id r) (\<lambda>_. r') (summary_events (committed w))\<rparr>"
proof -
  define m where "m = (if s \<noteq> [] then Some s else None)"
  define arg where "arg = (if s \<noteq> [] then parse_uuid E s else None)"
  have arg: "parse_opt_id E ''invalid summary id'' m = Inr arg" "opt_in arg (summary_ids (committed w))"
    "s \<noteq> [] \<longrightarrow> arg = parse_uuid E s"
    using sid by (auto simp: arg_def m_def parse_opt_id_def parse_id_def opt_in_def)
  have "settled E policy (Inr s) (clock w 0) Completed r (finalize_summary_row Completed arg None (clock w 0) r)"
    using arg(3) sid by (auto simp: settled_def finalize_summary_row_def finalize_row_def terminal_status_def)
  then show ?thesis
    using writeTerminal_healthy [OF assms(1-3) arg(1,2)] by (auto simp: finalize_def m_def)
qed

lemma settled_without_summary:
  "st = Expired \<and> x = None \<or> st = Completed \<and> x = None \<or> st = Failed \<and> x = Some (error_text e) \<Longrightarrow>
     settled E policy (Inl e) now st r (finalize_summary_row st None x now r)"
  by (auto simp: settled_def finalize_summary_row_def finalize_row_def terminal_status_def)

text \<open>
  C9. The verdict of a worker. Without faults and while it holds the lease, a worker that is done
  with an event changes nothing but the row of the event, and that as the verdict says: completed
  with the summary of the handler, expired, completed without posts, put back with the next
  attempt after the backoff while attempts are left, or failed with the error's text; the
  lease is released and the number of attempts is kept. A cancelled handler and a lost lease
  leave the event as it is.
\<close>

theorem finalize_verdict:
  assumes "fault_free w" and "held v r w" and key: "parse_uuid E (se_ID event) = Some (l_id r)"
    and a: "se_AttemptCount event = l_attempt_count r"
    and sid: "\<And>sid. handled = Inr sid \<Longrightarrow> sid = [] \<or> (\<exists>m \<in> summary_ids (committed w). parse_uuid E sid = Some m)"
  shows "case verdict policy (l_attempt_count r) handled of
      None \<Rightarrow> finalize E policy v event handled w = w
    | Some st \<Rightarrow> \<exists>r'. settled E policy handled (clock w 0) st r r' \<and>
        committed (finalize E policy v event handled w) = (committed w)\<lparr>summary_events :=
          update_where (\<lambda>q. l_id q = l_id r) (\<lambda>_. r') (summary_events (committed w))\<rparr>"
proof (cases handled)
  case (Inr s)
  then show ?thesis using finalize_done [OF assms(1-3) sid] by (simp add: verdict_def)
next
  case (Inl e)
  have none: "parse_opt_id E ''invalid summary id'' None = Inr None" by (simp add: parse_opt_id_def)
  note written = writeTerminal_healthy [OF assms(1-2) key none] 
    and settle = settled_without_summary [where e = e and E = E and policy = policy and now = "clock w 0" and r = r]
  consider (abandon) "abandons e"
    | (expired) "\<not> abandons e" "errors_is e ErrSummaryEventExpired"
    | (empty) "\<not> abandons e" "\<not> errors_is e ErrSummaryEventExpired" "errors_is e ErrSummarySourceNoPosts"
    | (again) "\<not> abandons e" "\<not> errors_is e ErrSummaryEventExpired" "\<not> errors_is e ErrSummarySourceNoPosts"
        "IsTransientError (Some e) \<and> l_attempt_count r < MaxAttempts policy"
    | (failed) "\<not> abandons e" "\<not> errors_is e ErrSummaryEventExpired" "\<not> errors_is e ErrSummarySourceNoPosts"
        "\<not> (IsTransientError (Some e) \<and> l_attempt_count r < MaxAttempts policy)"
    by blast
  then show ?thesis
  proof cases
    case abandon
    then show ?thesis using Inl by (auto simp: abandons_def verdict_def finalize_def)
  next
    case expired
    then show ?thesis using Inl written [of Expired None] settle [of Expired None]
      by (auto simp: abandons_def verdict_def finalize_def opt_in_def)
  next
    case empty
    then show ?thesis using Inl written [of Completed None] settle [of Completed None]
      by (auto simp: abandons_def verdict_def finalize_def opt_in_def)
  next
    case failed
    then show ?thesis using Inl written [of Failed "Some (error_text e)"] settle [of Failed "Some (error_text e)"]
      by (auto simp: abandons_def verdict_def finalize_def opt_in_def ShouldRetry_def a)
  next
    case again
    then have "verdict policy (l_attempt_count r) handled = Some Pending"
      using Inl by (simp add: abandons_def verdict_def del: IsTransientError.simps)
    then show ?thesis using finalize_again [OF assms(1-2) key a again] Inl by simp
  qed
qed

definition busy_world :: "summary_event_row \<Rightarrow> world" where
  "busy_world r = (quiet_world (empty_db\<lparr>sources := [sample_source 9 SourceTypeRSS], posts := [listed_post 1 10],
     summary_events := [r]\<rparr>))\<lparr>clock := (\<lambda>_. 100)\<rparr>"

theorem finalize_verdict_witness:
  "let r = sample_summary_row Processing (Some ''a'') (Some 1000); w = busy_world r;
       event = scanSummaryEvent decimal_ext r; e = Inl (Text ''timeout'')
   in \<exists>r'. settled decimal_ext (SummaryUsecase_RetryPolicy sample_summary_conf) e 100 Pending r r' \<and>
        summary_events (committed (finalize decimal_ext (SummaryUsecase_RetryPolicy sample_summary_conf) ''a'' event e w)) = [r']"
proof -
  let ?r = "sample_summary_row Processing (Some ''a'') (Some 1000)"
  let ?p = "SummaryUsecase_RetryPolicy sample_summary_conf" and ?e = "Inl (Text ''timeout'') :: string result"
  have h: "held ''a'' ?r (busy_world ?r)"
    by (simp add: held_def busy_world_def sample_summary_row_def owns_lease_def)
  have key: "parse_uuid decimal_ext (se_ID (scanSummaryEvent decimal_ext ?r)) = Some (l_id ?r)" by code_simp
  have a: "se_AttemptCount (scanSummaryEvent decimal_ext ?r) = l_attempt_count ?r" by code_simp
  have v: "verdict ?p (l_attempt_count ?r) ?e = Some Pending" by code_simp
  have "fault_free (busy_world ?r)" "clock (busy_world ?r) 0 = 100" "summary_events (committed (busy_world ?r)) = [?r]"
    by (simp_all add: busy_world_def fault_free_def)
  then show ?thesis
    using finalize_verdict [OF _ h key a, of ?e ?p] v by (auto simp: Let_def)
qed


end
