(* ===== verification/Pool_Steps.thy ===== *)
theory Pool_Steps
  imports Worker_Pool
begin

text \<open>
  The workers of the summarization pool side by side, with the reaper, the enqueuers and the rest
  of the program, as a step relation: any interleaving of claims, heartbeats, handlers,
  finalizations and crashes. A handler is any program that leaves the queue alone
  (\<open>Calm\<close> shows that both are) and returns any result, in any number of steps.
\<close>

datatype phase = Idle | Handling SummaryEvent | Finishing SummaryEvent "string result"

record pool =
  pl_world :: world
  pl_phase :: "string \<Rightarrow> phase"

definition set_phase :: "string \<Rightarrow> phase \<Rightarrow> world \<Rightarrow> pool \<Rightarrow> pool" where
  "set_phase v p w s = \<lparr>pl_world = w, pl_phase = (pl_phase s)(v := p)\<rparr>"

definition elsewhere :: "world \<Rightarrow> world \<Rightarrow> bool" where
  "elsewhere w w' \<longleftrightarrow> open_tx w' = None \<and> summary_events (committed w') = summary_events (committed w)"

inductive pool_step :: "ext \<Rightarrow> RetryPolicy \<Rightarrow> duration \<Rightarrow> pool \<Rightarrow> pool \<Rightarrow> bool"
  for E :: ext and policy :: RetryPolicy and ttl :: duration
where
  claims: "pl_phase s v = Idle \<Longrightarrow> summary_outbox_ClaimOne E v ttl (pl_world s) = (Inr ev, w) \<Longrightarrow>
    pool_step E policy ttl s (set_phase v (Handling ev) w s)"
| claims_nothing: "pl_phase s v = Idle \<Longrightarrow> summary_outbox_ClaimOne E v ttl (pl_world s) = (Inl e, w) \<Longrightarrow>
    pool_step E policy ttl s (s\<lparr>pl_world := w\<rparr>)"
| beats: "pl_phase s v = Handling ev \<Longrightarrow> heartbeat E ttl v (se_ID ev) (pl_world s) = (lost, w) \<Longrightarrow>
    pool_step E policy ttl s (s\<lparr>pl_world := w\<rparr>)"
| handled: "pl_phase s v = Handling ev \<Longrightarrow> elsewhere (pl_world s) w \<Longrightarrow>
    pool_step E policy ttl s (set_phase v (Finishing ev result) w s)"
| finishes: "pl_phase s v = Finishing ev result \<Longrightarrow>
    pool_step E policy ttl s (set_phase v Idle (finalize E policy v ev result (pl_world s)) s)"
| crashes: "pool_step E policy ttl s (set_phase v Idle (pl_world s) s)"
| reaps: "pool_step E policy ttl s (s\<lparr>pl_world := snd (summary_outbox_FailExpired E i n g x (pl_world s))\<rparr>)"
| enqueues: "se_Status ev = Pending \<Longrightarrow>
    pool_step E policy ttl s (s\<lparr>pl_world := snd (summary_outbox_Save E ev (pl_world s))\<rparr>)"
| proceeds: "elsewhere (pl_world s) w \<Longrightarrow> pool_step E policy ttl s (s\<lparr>pl_world := w\<rparr>)"

text \<open>The event a worker has in hand.\<close>

fun in_hand :: "phase \<Rightarrow> SummaryEvent option" where
  "in_hand Idle = None"
| "in_hand (Handling ev) = Some ev"
| "in_hand (Finishing ev _) = Some ev"

definition budget_ok :: "int \<Rightarrow> 'r lease_row_scheme \<Rightarrow> bool" where
  "budget_ok maxAttempts r \<longleftrightarrow> l_status r = Pending \<longrightarrow> l_attempt_count r \<le> 0 \<or> l_attempt_count r < maxAttempts"

definition in_step :: "ext \<Rightarrow> string \<Rightarrow> SummaryEvent \<Rightarrow> summary_event_row list \<Rightarrow> bool" where
  "in_step E v ev rs \<longleftrightarrow> (\<exists>eid. parse_uuid E (se_ID ev) = Some eid \<and>
     (\<forall>r \<in> set rs. l_id r = eid \<longrightarrow> l_locked_by r = Some v \<longrightarrow> l_attempt_count r = se_AttemptCount ev))"

definition table_ok :: "ext \<Rightarrow> int \<Rightarrow> (string \<Rightarrow> SummaryEvent option) \<Rightarrow> summary_event_row list \<Rightarrow> bool" where
  "table_ok E maxAttempts hand rs \<longleftrightarrow>
     distinct (map l_id rs) \<and> (\<forall>r \<in> set rs. budget_ok maxAttempts r) \<and>
     (\<forall>v ev. hand v = Some ev \<longrightarrow> in_step E v ev rs)"

definition pool_ok :: "ext \<Rightarrow> int \<Rightarrow> pool \<Rightarrow> bool" where
  "pool_ok E maxAttempts s \<longleftrightarrow>
     open_tx (pl_world s) = None \<and>
     table_ok E maxAttempts (\<lambda>v. in_hand (pl_phase s v)) (summary_events (committed (pl_world s)))"

section \<open>Every step keeps the budget\<close>

text \<open>A change of the queue that the events in hand survive.\<close>

definition harmless :: "int \<Rightarrow> summary_event_row list \<Rightarrow> summary_event_row list \<Rightarrow> bool" where
  "harmless n rs rs' \<longleftrightarrow> distinct (map l_id rs') \<and> (\<forall>r' \<in> set rs'. budget_ok n r') \<and>
     (\<forall>r' \<in> set rs'. l_locked_by r' \<noteq> None \<longrightarrow>
        (\<exists>r \<in> set rs. l_id r = l_id r' \<and> l_locked_by r = l_locked_by r' \<and> l_attempt_count r = l_attempt_count r'))"

lemma harmless_table:
  assumes "table_ok E n hand rs" and "harmless n rs rs'" and "\<And>v ev. hand' v = Some ev \<Longrightarrow> hand v = Some ev"
  shows "table_ok E n hand' rs'"
proof -
  have "in_step E v ev rs'" if "hand' v = Some ev" for v ev
  proof -
    have "in_step E v ev rs" using assms(1) assms(3) [OF that] by (simp add: table_ok_def)
    then obtain eid where eid: "parse_uuid E (se_ID ev) = Some eid"
      "\<forall>r \<in> set rs. l_id r = eid \<longrightarrow> l_locked_by r = Some v \<longrightarrow> l_attempt_count r = se_AttemptCount ev"
      unfolding in_step_def by blast
    have "l_attempt_count r' = se_AttemptCount ev"
      if r': "r' \<in> set rs'" "l_id r' = eid" "l_locked_by r' = Some v" for r'
    proof -
      from assms(2) r' obtain r where "r \<in> set rs" "l_id r = eid" "l_locked_by r = Some v" "l_attempt_count r = l_attempt_count r'"
        by (auto simp: harmless_def)
      then show ?thesis using eid(2) by auto
    qed
    then show ?thesis using eid(1) by (auto simp: in_step_def)
  qed
  then show ?thesis using assms(2) by (simp add: table_ok_def harmless_def)
qed

lemma harmless_refl: "table_ok E n hand rs \<Longrightarrow> harmless n rs rs"
  by (auto simp: harmless_def table_ok_def)

lemma harmless_update:
  assumes t: "table_ok E n hand rs" and id: "\<And>r. l_id (f r) = l_id r"
    and f: "\<And>r. r \<in> set rs \<Longrightarrow> P r \<Longrightarrow> budget_ok n (f r) \<and>
      (l_locked_by (f r) = None \<or> l_locked_by (f r) = l_locked_by r \<and> l_attempt_count (f r) = l_attempt_count r)"
  shows "harmless n rs (update_where P f rs)"
proof -
  have "distinct (map l_id (update_where P f rs))" using t by (simp add: table_ok_def map_update_where id)
  moreover have "budget_ok n r'" if "r' \<in> set (update_where P f rs)" for r'
    using that t f by (auto simp: table_ok_def set_update_where)
  moreover have "\<exists>r \<in> set rs. l_id r = l_id r' \<and> l_locked_by r = l_locked_by r' \<and> l_attempt_count r = l_attempt_count r'"
    if "r' \<in> set (update_where P f rs)" "l_locked_by r' \<noteq> None" for r'
  proof -
    from that(1) obtain r where r: "r \<in> set rs" "r' = (if P r then f r else r)" by (auto simp: set_update_where)
    then show ?thesis using f [OF r(1)] that(2) id by (intro bexI [OF _ r(1)]) (auto split: if_splits)
  qed
  ultimately show ?thesis by (simp add: harmless_def)
qed

lemma claim_outside:
  assumes o: "open_tx w = None" and run: "summary_outbox_ClaimOne E v ttl w = (q, w')"
  shows "open_tx w' = None \<and>
    (summary_events (committed w') = summary_events (committed w) \<and> (\<forall>ev. q \<noteq> Inr ev) \<or>
     (\<exists>locks r. claim_rows locks v ttl (clock w 0) (summary_events (committed w)) = Some (r, summary_events (committed w')) \<and>
        (\<forall>ev. q = Inr ev \<longrightarrow> ev = scanSummaryEvent E r)))"
proof -
  obtain locks w1 where l: "take_locks w = (locks, w1)" by (cases "take_locks w")
  have w1: "open_tx w1 = None" "committed w1 = committed w" "clock w1 = clock w" using l o by (auto simp: take_locks_def)
  obtain r v2 where x: "exec_tx (claim_summary_stmt locks v ttl) w1 = (r, v2)"
    by (cases "exec_tx (claim_summary_stmt locks v ttl) w1")
  note eff = exec_tx_outside [OF w1(1) x]
  have w': "w' = v2" and q: "\<And>ev. q = Inr ev \<Longrightarrow> \<exists>row. r = Inr (Some row) \<and> ev = scanSummaryEvent E row"
    using run l x by (auto simp: summary_outbox_ClaimOne_def query_row_def split: sum.splits option.splits if_splits)
  have st: "claim_summary_stmt locks v ttl (clock w 0) (committed w) = Inr (y, d) \<Longrightarrow>
      y = None \<and> d = committed w \<or> (\<exists>row. y = Some row \<and>
        claim_rows locks v ttl (clock w 0) (summary_events (committed w)) = Some (row, summary_events d))" for y d
    by (auto simp: claim_summary_stmt_def split: option.splits)
  show ?thesis
  proof (cases "\<exists>ev. q = Inr ev")
    case True
    then obtain row where row: "r = Inr (Some row)" "q = Inr (scanSummaryEvent E row)" using q by blast
    from st [OF eff(3) [OF row(1), unfolded w1]] show ?thesis using eff(1) w' row(2) by auto
  next
    case False
    then show ?thesis using eff(1,2) st w' w1 by (metis)
  qed
qed

lemma claim_table:
  assumes t: "table_ok E n hand rs" and idle: "hand v = None" and E: "ext_laws E"
    and c: "claim_rows locks v ttl now rs = Some (r, rs')"
  shows "table_ok E n hand rs'" "table_ok E n (hand(v := Some (scanSummaryEvent E r))) rs'"
proof -
  obtain q where q: "q \<in> set rs" "r = claim_row v ttl now q"
    "rs' = update_where (\<lambda>x. l_id x = l_id q) (claim_row v ttl now) rs"
    by (rule claim_rows_Some [OF c])
  have d: "distinct (map l_id rs)" using t by (simp add: table_ok_def)
  have d': "distinct (map l_id rs')" using d by (simp add: q(3) map_update_where)
  have b: "\<forall>x \<in> set rs'. budget_ok n x"
    using t by (auto simp: q(3) set_update_where table_ok_def budget_ok_def claim_row_def)
  have others: "in_step E u ev rs'" if "hand u = Some ev" for u ev
  proof -
    have u: "u \<noteq> v" using that idle by auto
    from t that obtain eid where "parse_uuid E (se_ID ev) = Some eid"
      "\<forall>r \<in> set rs. l_id r = eid \<longrightarrow> l_locked_by r = Some u \<longrightarrow> l_attempt_count r = se_AttemptCount ev"
      unfolding table_ok_def in_step_def by blast
    then show ?thesis using u
      by (auto simp: in_step_def q(3) set_update_where claim_row_def)
  qed
  have own: "in_step E v (scanSummaryEvent E r) rs'"
  proof -
    have "x = r" if "x \<in> set rs'" "l_id x = l_id r" for x
      using that distinct_key_unique [OF d _ q(1)] by (auto simp: q(2,3) set_update_where)
    then show ?thesis
      by (auto simp: in_step_def scanSummaryEvent_eq summary_event_to_domain_def ext_lawsD [OF E])
  qed
  show "table_ok E n hand rs'" using d' b others by (simp add: table_ok_def)
  show "table_ok E n (hand(v := Some (scanSummaryEvent E r))) rs'" using d' b others own by (simp add: table_ok_def)
qed

lemma heartbeat_outside:
  assumes o: "open_tx w = None" and run: "heartbeat E ttl v i w = (lost, w')"
    and t: "table_ok E n hand (summary_events (committed w))"
  shows "open_tx w' = None \<and> table_ok E n hand (summary_events (committed w'))"
proof (cases "parse_uuid E i")
  case None
  then have "w' = w" using run by (auto simp: heartbeat_def summary_outbox_ExtendLease_def parse_id_def)
  then show ?thesis using o t by simp
next
  case (Some eid)
  obtain r u where x: "exec_tx (update_summary_events (owns_lease eid v) (extend_row ttl)) w = (r, u)"
    by (cases "exec_tx (update_summary_events (owns_lease eid v) (extend_row ttl)) w")
  have w': "w' = u" using run x Some
    by (auto simp: heartbeat_def summary_outbox_ExtendLease_def parse_id_def affected_or_lost_def split: sum.splits if_splits)
  note eff = exec_tx_outside(1,2) [OF o x]
  have "harmless n (summary_events (committed w)) (update_where (owns_lease eid v now) (extend_row ttl now) (summary_events (committed w)))" for now
    using t by (rule harmless_update) (auto simp: extend_row_def budget_ok_def owns_lease_def)
  then have "harmless n (summary_events (committed w)) (summary_events (committed u))"
    using eff(2) harmless_refl [OF t] by (auto simp: update_summary_events_Inr)
  then show ?thesis using w' eff(1) harmless_table [OF t] by blast
qed

lemma finalize_outside:
  assumes o: "open_tx w = None" and t: "table_ok E (MaxAttempts policy) hand (summary_events (committed w))"
    and h: "hand v = Some ev"
  shows "open_tx (finalize E policy v ev result w) = None \<and>
    table_ok E (MaxAttempts policy) (hand(v := None)) (summary_events (committed (finalize E policy v ev result w)))"
proof -
  let ?rs = "summary_events (committed w)"
  from t h obtain eid where eid: "parse_uuid E (se_ID ev) = Some eid"
    "\<forall>r \<in> set ?rs. l_id r = eid \<longrightarrow> l_locked_by r = Some v \<longrightarrow> l_attempt_count r = se_AttemptCount ev"
    unfolding table_ok_def in_step_def by blast
  have "calm summary_pool_view UNIV UNIV UNIV (?rs, summary_rest (committed w)) w" using o by (simp add: calm_def)
  from finalize_writes [OF this eid(1), of policy v result] obtain rs' where
    c: "calm summary_pool_view UNIV UNIV UNIV (rs', summary_rest (committed w)) (finalize E policy v ev result w)"
    and p: "pool_write (MaxAttempts policy) (se_AttemptCount ev) eid v ?rs rs'" by blast
  have "harmless (MaxAttempts policy) ?rs rs'"
  proof (cases "rs' = ?rs")
    case False
    with p obtain u f where f: "worker_write (MaxAttempts policy) (se_AttemptCount ev) f"
      and rs': "rs' = update_where (owns_lease eid v u) f ?rs" unfolding pool_write_def by blast
    have "budget_ok (MaxAttempts policy) (f r)" if "r \<in> set ?rs" "owns_lease eid v u r" for r
    proof -
      have "l_attempt_count (f r) = se_AttemptCount ev" using that eid(2) f by (auto simp: owns_lease_def worker_write_def)
      moreover have "terminal_status (l_status (f r)) \<or> se_AttemptCount ev < MaxAttempts policy"
        using f by (auto simp: worker_write_def)
      ultimately show ?thesis by (auto simp: budget_ok_def terminal_status_def)
    qed
    then show ?thesis unfolding rs' using f by (intro harmless_update [OF t]) (auto simp: worker_write_def)
  qed (use harmless_refl [OF t] in simp)
  then have "table_ok E (MaxAttempts policy) (hand(v := None)) rs'"
    by (rule harmless_table [OF t]) (simp split: if_splits)
  then show ?thesis using c by (simp add: calm_def)
qed

lemma FailExpired_outside:
  assumes o: "open_tx w = None" and t: "table_ok E n hand (summary_events (committed w))"
    and w': "w' = snd (summary_outbox_FailExpired F i m g x w)"
  shows "open_tx w' = None \<and> table_ok E n hand (summary_events (committed w'))"
proof (cases "parse_uuid F i")
  case None
  then show ?thesis using o t w' by (simp add: summary_outbox_FailExpired_def parse_id_def)
next
  case (Some eid)
  obtain r u where e: "exec_tx (update_summary_events (fail_guard eid m g) (fail_row x)) w = (r, u)"
    by (cases "exec_tx (update_summary_events (fail_guard eid m g) (fail_row x)) w")
  have u: "w' = u" using w' e Some by (auto simp: summary_outbox_FailExpired_def parse_id_def split: sum.split)
  note eff = exec_tx_outside(1,2) [OF o e]
  have "harmless n (summary_events (committed w)) (update_where (fail_guard eid m g now) (fail_row x now) (summary_events (committed w)))" for now
    using t by (rule harmless_update) (auto simp: fail_row_def budget_ok_def)
  then have "harmless n (summary_events (committed w)) (summary_events (committed u))"
    using eff(2) harmless_refl [OF t] by (auto simp: update_summary_events_Inr)
  then show ?thesis using u eff(1) harmless_table [OF t] by blast
qed

lemma Save_outside:
  assumes o: "open_tx w = None" and t: "table_ok E n hand (summary_events (committed w))" and p: "se_Status ev = Pending"
    and w': "w' = snd (summary_outbox_Save F ev w)"
  shows "open_tx w' = None \<and> table_ok E n hand (summary_events (committed w'))"
proof -
  have one: "open_tx u = None \<and> table_ok E n hand (summary_events (committed u))"
    if u: "u = snd (exec_tx (write_stmt (insert_summary_event (new_summary_event_row i s q ev))) w)" for i s q u
  proof -
    obtain r where e: "exec_tx (write_stmt (insert_summary_event (new_summary_event_row i s q ev))) w = (r, u)"
      using u by (metis prod.collapse)
    note eff = exec_tx_outside(1,2) [OF o e]
    have "harmless n (summary_events (committed w)) (summary_events (committed w) @ [new_summary_event_row i s q ev])"
      if "l_id (new_summary_event_row i s q ev) \<notin> l_id ` set (summary_events (committed w))"
      using t that by (auto simp: harmless_def table_ok_def new_summary_event_row_def budget_ok_def)
    then have "harmless n (summary_events (committed w)) (summary_events (committed u))"
      using eff(2) harmless_refl [OF t] insert_summary_event_rows
      by (auto simp: write_stmt_def split: sum.splits)
    then show ?thesis using eff(1) harmless_table [OF t] by blast
  qed
  have "w' = w \<or> (\<exists>i s q. w' = snd (exec_tx (write_stmt (insert_summary_event (new_summary_event_row i s q ev))) w))"
    unfolding w' by (cases "parse_id F ''invalid event id'' (se_ID ev)"; cases "parse_id F ''invalid source id'' (se_SourceID ev)";
        cases "parse_opt_id F ''invalid post id'' (se_PostID ev)") (auto simp: summary_outbox_Save_def Let_def world_simps)
  then show ?thesis using one o t by metis
qed

lemma pool_step_ok:
  assumes "pool_step E policy ttl s s'" and E: "ext_laws E" and "pool_ok E (MaxAttempts policy) s"
  shows "pool_ok E (MaxAttempts policy) s'"
  using assms(1,3)
proof (induction rule: pool_step.induct)
  case (claims s v ev w)
  have hand: "in_hand (pl_phase s v) = None" using claims.hyps(1) by simp
  have o: "open_tx (pl_world s) = None" and t: "table_ok E (MaxAttempts policy) (\<lambda>v. in_hand (pl_phase s v))
    (summary_events (committed (pl_world s)))" using claims.prems by (simp_all add: pool_ok_def)
  from claim_outside [OF o claims.hyps(2)] obtain locks r where "open_tx w = None"
    "claim_rows locks v ttl (clock (pl_world s) 0) (summary_events (committed (pl_world s))) = Some (r, summary_events (committed w))"
    "ev = scanSummaryEvent E r" by auto
  moreover have "(\<lambda>u. in_hand (((pl_phase s)(v := Handling ev)) u)) = (\<lambda>u. in_hand (pl_phase s u))(v := Some ev)" by auto
  ultimately show ?case using claim_table(2) [where hand = "\<lambda>v. in_hand (pl_phase s v)", OF t hand E]
    by (simp add: pool_ok_def set_phase_def)
next
  case (claims_nothing s v e w)
  have hand: "in_hand (pl_phase s v) = None" using claims_nothing.hyps(1) by simp
  have o: "open_tx (pl_world s) = None" and t: "table_ok E (MaxAttempts policy) (\<lambda>v. in_hand (pl_phase s v))
    (summary_events (committed (pl_world s)))" using claims_nothing.prems by (simp_all add: pool_ok_def)
  note T = claim_table(1) [where hand = "\<lambda>v. in_hand (pl_phase s v)", OF t hand E]
  from claim_outside [OF o claims_nothing.hyps(2)] show ?case using t T by (auto simp: pool_ok_def)
next
  case (beats s v ev lost w)
  have o: "open_tx (pl_world s) = None" and t: "table_ok E (MaxAttempts policy) (\<lambda>v. in_hand (pl_phase s v))
    (summary_events (committed (pl_world s)))" using beats.prems by (simp_all add: pool_ok_def)
  show ?case using heartbeat_outside [OF o beats.hyps(2) t] by (simp add: pool_ok_def)
next
  case (handled s v ev w result)
  have "(\<lambda>u. in_hand (((pl_phase s)(v := Finishing ev result)) u)) = (\<lambda>u. in_hand (pl_phase s u))"
    using handled.hyps(1) by auto
  then show ?case using handled by (simp add: pool_ok_def set_phase_def elsewhere_def)
next
  case (finishes s v ev result)
  have "(\<lambda>u. in_hand (((pl_phase s)(v := Idle)) u)) = (\<lambda>u. in_hand (pl_phase s u))(v := None)" by auto
  then show ?case using finishes finalize_outside [where hand = "\<lambda>u. in_hand (pl_phase s u)" and v = v and ev = ev]
    by (simp add: pool_ok_def set_phase_def)
next
  case (crashes s v)
  then have t: "table_ok E (MaxAttempts policy) (\<lambda>v. in_hand (pl_phase s v)) (summary_events (committed (pl_world s)))"
    by (simp add: pool_ok_def)
  have "table_ok E (MaxAttempts policy) (\<lambda>u. in_hand (((pl_phase s)(v := Idle)) u)) (summary_events (committed (pl_world s)))"
    by (rule harmless_table [OF t harmless_refl [OF t]]) (simp split: if_splits)
  then show ?case using crashes by (simp add: pool_ok_def set_phase_def)
next
  case (reaps s i n g x)
  have o: "open_tx (pl_world s) = None" and t: "table_ok E (MaxAttempts policy) (\<lambda>v. in_hand (pl_phase s v))
    (summary_events (committed (pl_world s)))" using reaps.prems by (simp_all add: pool_ok_def)
  show ?case using FailExpired_outside [OF o t refl] by (simp add: pool_ok_def)
next
  case (enqueues ev s)
  have o: "open_tx (pl_world s) = None" and t: "table_ok E (MaxAttempts policy) (\<lambda>v. in_hand (pl_phase s v))
    (summary_events (committed (pl_world s)))" using enqueues.prems by (simp_all add: pool_ok_def)
  show ?case using Save_outside [OF o t enqueues.hyps refl] by (simp add: pool_ok_def)
next
  case (proceeds s w)
  then show ?case by (simp add: pool_ok_def elsewhere_def)
qed

section \<open>No retry beyond the budget\<close>

abbreviation pool_steps :: "ext \<Rightarrow> RetryPolicy \<Rightarrow> duration \<Rightarrow> pool \<Rightarrow> pool \<Rightarrow> bool" where
  "pool_steps E policy ttl \<equiv> (pool_step E policy ttl)\<^sup>*\<^sup>*"

lemma pool_steps_ok:
  assumes "pool_steps E policy ttl s s'" and "ext_laws E" and "pool_ok E (MaxAttempts policy) s"
  shows "pool_ok E (MaxAttempts policy) s'"
  using assms(1,3) by (induction rule: rtranclp_induct) (auto intro: pool_step_ok [OF _ assms(2)])

definition fresh_pool :: "int \<Rightarrow> pool \<Rightarrow> bool" where
  "fresh_pool maxAttempts s \<longleftrightarrow> open_tx (pl_world s) = None \<and> (\<forall>v. pl_phase s v = Idle) \<and>
     distinct (map l_id (summary_events (committed (pl_world s)))) \<and>
     (\<forall>r \<in> set (summary_events (committed (pl_world s))). budget_ok maxAttempts r)"

text \<open>
  C2. However the workers, their heartbeats, the reaper, the enqueuers and crashes interleave,
  and whatever fails: no event is waiting for another attempt once it has used the attempts of
  the policy, identifiers stay unique, and the attempt number a worker acts on is the one of
  the row as long as the row is its own, whoever claimed the row in between.
\<close>

theorem pool_retry_budget:
  assumes "ext_laws E" and "fresh_pool (MaxAttempts policy) s" and "pool_steps E policy ttl s s'"
  shows "(\<forall>r \<in> set (summary_events (committed (pl_world s'))).
      l_status r = Pending \<longrightarrow> l_attempt_count r \<le> 0 \<or> l_attempt_count r < MaxAttempts policy) \<and>
    distinct (map l_id (summary_events (committed (pl_world s')))) \<and>
    (\<forall>v ev. in_hand (pl_phase s' v) = Some ev \<longrightarrow> in_step E v ev (summary_events (committed (pl_world s'))))"
proof -
  have "pool_ok E (MaxAttempts policy) s" using assms(2) by (simp add: fresh_pool_def pool_ok_def table_ok_def)
  from pool_steps_ok [OF assms(3,1) this] show ?thesis by (auto simp: pool_ok_def table_ok_def budget_ok_def)
qed

text \<open>A worker claims the event of a post.\<close>

definition idle_pool :: pool where
  "idle_pool = \<lparr>pl_world = busy_world (sample_summary_row Pending None None), pl_phase = (\<lambda>_. Idle)\<rparr>"

theorem pool_retry_budget_witness:
  "\<exists>s' ev. pool_steps decimal_ext (SummaryUsecase_RetryPolicy sample_summary_conf) 1000 idle_pool s' \<and>
     in_hand (pl_phase s' ''a'') = Some ev \<and> in_step decimal_ext ''a'' ev (summary_events (committed (pl_world s')))"
proof -
  let ?p = "SummaryUsecase_RetryPolicy sample_summary_conf"
  have max: "MaxAttempts ?p = 5" by code_simp
  have "claim_rows [] ''a'' 1000 100 [sample_summary_row Pending None None] \<noteq> None"
    unfolding claim_rows_None by (simp add: claimable_def sample_summary_row_def)
  then obtain r rs where cr: "claim_rows [] ''a'' 1000 (clock (pl_world idle_pool) 0)
      [sample_summary_row Pending None None] = Some (r, rs)"
    by (auto simp: idle_pool_def busy_world_def)
  have calm0: "calm summary_pool_view {Healthy} UNIV {[]} ([sample_summary_row Pending None None],
      summary_rest (committed (pl_world idle_pool))) (pl_world idle_pool)"
    by (auto simp: calm_def idle_pool_def busy_world_def)
  obtain w where c: "summary_outbox_ClaimOne decimal_ext ''a'' 1000 (pl_world idle_pool) = (Inr (scanSummaryEvent decimal_ext r), w)"
    using summary_claim_some [OF calm0 cr] by blast
  have idle: "pl_phase idle_pool ''a'' = Idle" by (simp add: idle_pool_def)
  have run: "pool_steps decimal_ext ?p 1000 idle_pool (set_phase ''a'' (Handling (scanSummaryEvent decimal_ext r)) w idle_pool)"
    by (rule r_into_rtranclp) (rule pool_step.claims [OF idle c])
  have fresh: "fresh_pool (MaxAttempts ?p) idle_pool"
    by (simp add: fresh_pool_def idle_pool_def busy_world_def sample_summary_row_def budget_ok_def max)
  have "in_hand (pl_phase (set_phase ''a'' (Handling (scanSummaryEvent decimal_ext r)) w idle_pool) ''a'') =
      Some (scanSummaryEvent decimal_ext r)" by (simp add: set_phase_def)
  then show ?thesis using run pool_retry_budget [OF _ fresh run] by auto
qed

end
