(* ===== verification/Score_Worker_Pool.thy ===== *)
theory Score_Worker_Pool
  imports Worker_Pool
begin

text \<open>
  \<open>internal/task/score_event_worker_pool.go\<close>: the scoring pool, the second instance of the
  worker contract. A scoring error is transient or permanent by \<open>IsTransientScoreError\<close>.
\<close>

record ScoreDeps =
  sd_ext :: ext
  sd_model :: string
  sd_cfg :: ScoringConf

definition score_lease_ttl :: "ScoringConf \<Rightarrow> duration" where
  "score_lease_ttl cfg = or_default (scf_LeaseTtl cfg) 300"

definition score_writeTerminal ::
  "ext \<Rightarrow> string \<Rightarrow> string \<Rightarrow> EventStatus \<Rightarrow> string option \<Rightarrow> world \<Rightarrow> world" where
  "score_writeTerminal E workerID eventID status errText w =
     snd (score_outbox_FinalizeWithLease E eventID workerID status errText w)"

definition score_finalize ::
  "ext \<Rightarrow> RetryPolicy \<Rightarrow> string \<Rightarrow> ScoreEvent \<Rightarrow> error option \<Rightarrow> world \<Rightarrow> world" where
  "score_finalize E policy workerID event handlerErr w =
     (case handlerErr of
        None \<Rightarrow> score_writeTerminal E workerID (sc_ID event) Completed None w
      | Some e \<Rightarrow>
          (if errors_is e ErrLeaseLost then w
           else if errors_is e ContextCanceled \<or> errors_is e ContextDeadlineExceeded then w
           else if IsTransientScoreError (Some e) \<and> sc_AttemptCount event < MaxAttempts policy
           then let backoff = CalculateBackoff policy (sc_AttemptCount event); (now, w) = time_now w
                in snd (score_outbox_MarkForRetry E (sc_ID event) workerID (time_add now backoff) (error_text e) w)
           else score_writeTerminal E workerID (sc_ID event) Failed (Some (error_text e)) w))"

definition score_heartbeat :: "ext \<Rightarrow> duration \<Rightarrow> string \<Rightarrow> string \<Rightarrow> world \<Rightarrow> bool \<times> world" where
  "score_heartbeat E leaseTTL workerID eventID w =
     (case score_outbox_ExtendLease E eventID workerID leaseTTL w of
        (Inl err, w) \<Rightarrow> (errors_is err ErrLeaseLost, w)
      | (Inr _, w) \<Rightarrow> (False, w))"

text \<open>The scoring handler always returns, so every event is processed.\<close>

definition score_processEvent :: "ScoreDeps \<Rightarrow> string \<Rightarrow> ScoreEvent \<Rightarrow> world \<Rightarrow> world option" where
  "score_processEvent D workerID event w =
     (let (start, w) = time_now w; (r, w) = ScorePost (sd_ext D) (sd_model D) event w
      in Some (score_finalize (sd_ext D) (ScoreUsecase_RetryPolicy (sd_cfg D)) workerID event
                 (case r of Inl e \<Rightarrow> Some e | Inr _ \<Rightarrow> None) w))"

definition score_runWorker :: "ScoreDeps \<Rightarrow> string \<Rightarrow> bool stream \<Rightarrow> nat \<Rightarrow> world \<Rightarrow> (bool \<times> world) option" where
  "score_runWorker D workerID =
     worker_loop (worker_turn (score_outbox_ClaimOne (sd_ext D) workerID (score_lease_ttl (sd_cfg D)))
                              (score_processEvent D workerID))"

section \<open>The instance of the contract\<close>

abbreviation score_pool_view :: "database \<Rightarrow> score_event_row list \<times> unit" where
  "score_pool_view \<equiv> \<lambda>d. (score_events d, ())"

lemma worker_write_score_rows:
  "terminal_status st \<Longrightarrow> worker_write n a (finalize_row st x t)"
  "a < n \<Longrightarrow> worker_write n a (retry_row t y)"
  by (simp_all add: worker_write_def finalize_row_def retry_row_def)

lemma score_finalize_writes:
  assumes c: "calm score_pool_view F C L (rs, ()) w" and key: "parse_uuid E (sc_ID event) = Some eid"
  shows "\<exists>rs'. calm score_pool_view F C L (rs', ()) (score_finalize E policy v event err w) \<and>
    pool_write (MaxAttempts policy) (sc_AttemptCount event) eid v rs rs'"
proof -
  let ?done = "\<lambda>w'. \<exists>rs'. calm score_pool_view F C L (rs', ()) w' \<and>
    pool_write (MaxAttempts policy) (sc_AttemptCount event) eid v rs rs'"
  have same: "?done w" using c by (auto simp: pool_write_def)
  have wr: "?done (score_writeTerminal E v (sc_ID event) st x w)" if st: "terminal_status st" for st x
  proof -
    have "?done (snd (exec_tx (update_score_events (owns_lease eid v) (finalize_row st x)) w))"
      by (rule calm_pool_write [OF c, where f = "finalize_row st x"])
        (simp_all add: update_score_events_Inr worker_write_score_rows st)
    then show ?thesis using key
      by (simp add: score_writeTerminal_def score_outbox_FinalizeWithLease_def parse_id_def affected_or_lost_world)
  qed
  have terminal: "terminal_status Completed" "terminal_status Failed" by (simp_all add: terminal_status_def)
  show ?thesis
  proof (cases err)
    case None
    then show ?thesis using wr [OF terminal(1)] by (simp add: score_finalize_def)
  next
    case (Some e)
    show ?thesis
    proof (cases "IsTransientScoreError (Some e) \<and> sc_AttemptCount event < MaxAttempts policy")
      case False
      show ?thesis using Some same wr [OF terminal(2)]
        by (simp add: score_finalize_def False del: IsTransientScoreError.simps)
    next
      case True
      define rt where "rt = time_add (clock w 0) (CalculateBackoff policy (sc_AttemptCount event))"
      define w1 where "w1 = w\<lparr>clock := advance (clock w)\<rparr>"
      have c1: "calm score_pool_view F C L (rs, ()) w1" using calmlyD [OF calmly_time_now c] by (simp add: time_now_def w1_def)
      have "?done (snd (exec_tx (update_score_events (owns_lease eid v) (\<lambda>_. retry_row rt (error_text e))) w1))"
        by (rule calm_pool_write [OF c1, where f = "\<lambda>_. retry_row rt (error_text e)"])
          (use True in \<open>simp_all add: update_score_events_Inr worker_write_score_rows\<close>)
      then have "?done (snd (score_outbox_MarkForRetry E (sc_ID event) v rt (error_text e) w1))"
        using key by (simp add: score_outbox_MarkForRetry_def parse_id_def affected_or_lost_world)
      moreover have "score_finalize E policy v event err w = (if errors_is e ErrLeaseLost \<or> errors_is e ContextCanceled \<or>
          errors_is e ContextDeadlineExceeded then w else snd (score_outbox_MarkForRetry E (sc_ID event) v rt (error_text e) w1))"
        using Some True by (simp add: score_finalize_def time_now_def rt_def w1_def del: IsTransientScoreError.simps)
      ultimately show ?thesis using same by (simp split: if_split)
    qed
  qed
qed

lemma calm_unit: "calm (\<lambda>d. (queue d, ())) F C L (rs, ()) w = calm queue F C L rs w"
  by (simp add: calm_def)

lemma score_claim_none:
  assumes c: "calm score_pool_view {Healthy} C {[]} (rs, s) w" and n: "claim_rows [] v ttl (clock w 0) rs = None"
  shows "fst (score_outbox_ClaimOne E v ttl w) = Inl (Sentinel ErrNoScoreEventAvailable)"
proof -
  obtain w1 where l: "take_locks w = ([], w1)" and c1: "calm score_pool_view {Healthy} C {[]} (rs, s) w1"
    and k: "clock w1 = clock w" using calm_take_locks [OF c] by blast
  have "claim_score_stmt [] v ttl (clock w1 0) (committed w1) = Inr (None, committed w1)"
    using c1 n k by (auto simp: claim_score_stmt_def calm_def)
  from calm_exec_healthy [OF c1, where s = "claim_score_stmt [] v ttl", OF this] l show ?thesis
    by (auto simp: score_outbox_ClaimOne_def query_row_def)
qed

lemma score_claim_some:
  assumes c: "calm score_pool_view {Healthy} C {[]} (rs, s) w" and n: "claim_rows [] v ttl (clock w 0) rs = Some (r, rs')"
  shows "\<exists>w'. score_outbox_ClaimOne E v ttl w = (Inr (scanScoreEvent E r), w') \<and>
    calm score_pool_view {Healthy} C {[]} (rs', s) w'"
proof -
  obtain w1 where l: "take_locks w = ([], w1)" and c1: "calm score_pool_view {Healthy} C {[]} (rs, s) w1"
    and k: "clock w1 = clock w" using calm_take_locks [OF c] by blast
  have st: "claim_score_stmt [] v ttl (clock w1 0) (committed w1) = Inr (Some r, (committed w1)\<lparr>score_events := rs'\<rparr>)"
    using c1 n k by (auto simp: claim_score_stmt_def calm_def)
  then show ?thesis using calm_exec_healthy [OF c1, where s = "claim_score_stmt [] v ttl", OF st] l
    by (auto simp: score_outbox_ClaimOne_def query_row_def)
qed

lemma score_processEvent_returns:
  assumes E: "ext_laws (sd_ext D)" and c: "calm score_pool_view F C L (rs, s) w"
  shows "\<exists>w' rs'. score_processEvent D v (scanScoreEvent (sd_ext D) r) w = Some w' \<and>
    calm score_pool_view F C L (rs', s) w' \<and>
    pool_write (max_attempts_of (scf_MaxAttempts (sd_cfg D))) (l_attempt_count r) (l_id r) v rs rs'"
proof -
  let ?e = "scanScoreEvent (sd_ext D) r"
  have e: "parse_uuid (sd_ext D) (sc_ID ?e) = Some (l_id r)" "sc_AttemptCount ?e = l_attempt_count r"
    by (simp_all add: scanScoreEvent_def Let_def ext_lawsD [OF E] split: option.split)
  define w1 where "w1 = w\<lparr>clock := advance (clock w)\<rparr>"
  have c1: "calm score_events F C L rs w1"
    using calmlyD [OF calmly_time_now c] by (simp add: time_now_def w1_def calm_unit)
  obtain q w2 where q: "ScorePost (sd_ext D) (sd_model D) ?e w1 = (q, w2)"
    by (cases "ScorePost (sd_ext D) (sd_model D) ?e w1")
  have c2: "calm score_pool_view F C L (rs, ()) w2" using calmlyD [OF ScorePost_calm c1 q] by (simp add: calm_unit)
  have "score_processEvent D v ?e w = Some (score_finalize (sd_ext D) (ScoreUsecase_RetryPolicy (sd_cfg D)) v ?e
      (case q of Inl e \<Rightarrow> Some e | Inr _ \<Rightarrow> None) w2)"
    using q by (simp add: score_processEvent_def time_now_def w1_def)
  then show ?thesis
    using score_finalize_writes [OF c2 e(1), of "ScoreUsecase_RetryPolicy (sd_cfg D)" v
        "case q of Inl e \<Rightarrow> Some e | Inr _ \<Rightarrow> None"]
    by (auto simp: e(2) ScoreUsecase_RetryPolicy_def)
qed

interpretation score_pool:
  worker_pool score_events "\<lambda>_. ()" "\<lambda>_. ext_laws (sd_ext D)"
    "score_outbox_ClaimOne (sd_ext D)" "scanScoreEvent (sd_ext D)" "score_processEvent D"
    "Sentinel ErrNoScoreEventAvailable" "max_attempts_of (scf_MaxAttempts (sd_cfg D))" for D
proof (unfold_locales, goal_cases)
  case 1
  then show ?case by (rule score_claim_none)
next
  case 2
  then show ?case by (rule score_claim_some)
next
  case 3
  then show ?case by (rule score_processEvent_returns)
qed

text \<open>
  A scoring worker drains its queue. Without faults and rows locked by others, with the
  clock staying within one lease, and whatever the embeddings provider answers, a running
  worker reaches a state without a claimable event after at most as many turns as the pending
  events have attempts left.
\<close>

lemma score_runWorker_drains:
  assumes "ext_laws (sd_ext D)" and "fault_free w" and "\<forall>n. row_locks w n = []"
    and "\<forall>n. t0 \<le> clock w n \<and> clock w n \<le> t1" and ttl: "t1 \<le> t0 + sql_interval (score_lease_ttl (sd_cfg D))"
    and "distinct (map l_id (score_events (committed w)))" and "leased_until t1 (score_events (committed w))"
  shows "\<exists>k \<le> work (max_attempts_of (scf_MaxAttempts (sd_cfg D))) (score_events (committed w)). \<exists>w'.
    score_runWorker D v (\<lambda>_. True) k w = Some (False, w') \<and>
    fst (score_outbox_ClaimOne (sd_ext D) v (score_lease_ttl (sd_cfg D)) w') = Inl (Sentinel ErrNoScoreEventAvailable)"
proof -
  have c: "calm score_pool_view {Healthy} {t0..t1} {[]} (score_events (committed w), ()) w"
    using assms(2-4) by (auto simp: calm_def fault_free_def)
  show ?thesis unfolding score_runWorker_def
    by (rule score_pool.drains [OF assms(1) c assms(6,7) ttl])
qed

definition sample_score_deps :: ScoreDeps where
  "sample_score_deps = \<lparr>sd_ext = decimal_ext, sd_model = ''m'',
     sd_cfg = \<lparr>scf_ReaperGrace = 0, scf_MaxAttempts = 0, scf_BackoffBase = 0, scf_BackoffMax = 0, scf_LeaseTtl = 0\<rparr>\<rparr>"

definition queued_score_event :: score_event_row where
  "queued_score_event = \<lparr>l_id = 8, l_status = Pending, l_error = None, l_attempt_count = 0, l_locked_by = None,
     l_locked_until = None, l_next_attempt_at = None, l_created_at = 0, l_processed_at = None,
     c_post_id = Some 1, c_summary_id = None\<rparr>"

lemma score_runWorker_drains_example:
  "let w = score_world\<lparr>clock := (\<lambda>_. 100), committed := (committed score_world)\<lparr>score_events := [queued_score_event]\<rparr>\<rparr> in
   \<exists>k \<le> work 5 [queued_score_event]. \<exists>w'.
     score_runWorker sample_score_deps ''a'' (\<lambda>_. True) k w = Some (False, w') \<and>
     fst (score_outbox_ClaimOne decimal_ext ''a'' (score_lease_ttl (sd_cfg sample_score_deps)) w') =
       Inl (Sentinel ErrNoScoreEventAvailable)"
proof -
  let ?w = "score_world\<lparr>clock := (\<lambda>_. 100), committed := (committed score_world)\<lparr>score_events := [queued_score_event]\<rparr>\<rparr>"
  have E: "sd_ext sample_score_deps = decimal_ext" by (simp add: sample_score_deps_def)
  have n: "max_attempts_of (scf_MaxAttempts (sd_cfg sample_score_deps)) = 5"
    by (simp add: sample_score_deps_def max_attempts_of_def defaultReaperMaxAttempts_def)
  have ttl: "100 \<le> 100 + sql_interval (score_lease_ttl (sd_cfg sample_score_deps))" by code_simp
  have w: "score_events (committed ?w) = [queued_score_event]" by simp
  show ?thesis
    unfolding Let_def
    by (rule score_runWorker_drains [where D = sample_score_deps and v = "''a''" and w = ?w, unfolded n E w, OF _ _ _ _ ttl])
      (simp_all add: score_world_def fault_free_def queued_score_event_def leased_until_def)
qed

end
