(* ===== verification/Invariants.thy ===== *)
theory Invariants
  imports Schema Api Collector_Runs Pool_Steps Score_Worker_Pool
begin

text \<open>
  What every statement keeps, every operation keeps: the use cases, the handlers of the API,
  the turns of the workers, the schedulers, the reapers and the collectors, whatever fails
  while they run. The proofs follow the control structure of the code.
\<close>

section \<open>Operations with other results\<close>

text \<open>
  Operations differ in their result: a value and the world, the world alone, or either of
  them unless the fuel runs out. \<open>ends\<close> tells the worlds of a result.
\<close>

definition preserves :: "('r \<Rightarrow> world set) \<Rightarrow> (database \<Rightarrow> bool) \<Rightarrow> (world \<Rightarrow> 'r) \<Rightarrow> bool" where
  "preserves ends P f \<longleftrightarrow> (\<forall>w. world_inv P w \<longrightarrow> (\<forall>w' \<in> ends (f w). world_inv P w'))"

definition fuel_ends :: "('a \<times> world) option \<Rightarrow> world set" where
  "fuel_ends r = snd ` set_option r"

definition run_ends :: "world \<Rightarrow> world set" where
  "run_ends w = {w}"

lemma fuel_ends_simps [simp]: "fuel_ends None = {}" "fuel_ends (Some r) = {snd r}"
  by (simp_all add: fuel_ends_def)

named_theorems preserves_intros

lemma preserves_bind [preserves_intros]:
  "keeps P f \<Longrightarrow> (\<And>x. preserves ends P (g x)) \<Longrightarrow> preserves ends P (\<lambda>w. case f w of (x, w1) \<Rightarrow> g x w1)"
  by (auto simp: preserves_def keeps_def split: prod.split)

lemma preserves_if [preserves_intros]:
  "preserves ends P f \<Longrightarrow> preserves ends P g \<Longrightarrow> preserves ends P (\<lambda>w. if c then f w else g w)"
  "preserves ends P f \<Longrightarrow> preserves ends P g \<Longrightarrow> preserves ends P (\<lambda>w. case c of True \<Rightarrow> f w | False \<Rightarrow> g w)"
  by (cases c; simp)+

lemma preserves_case_prod [preserves_intros]:
  "(\<And>x y. preserves ends P (h x y)) \<Longrightarrow> preserves ends P (\<lambda>w. case s of (x, y) \<Rightarrow> h x y w)"
  by (cases s) simp

lemma preserves_case_sum [preserves_intros]:
  "(\<And>e. preserves ends P (g e)) \<Longrightarrow> (\<And>x. preserves ends P (h x)) \<Longrightarrow>
   preserves ends P (\<lambda>w. case s of Inl e \<Rightarrow> g e w | Inr x \<Rightarrow> h x w)"
  by (cases s) auto

lemma preserves_case_option [preserves_intros]:
  "preserves ends P g \<Longrightarrow> (\<And>x. preserves ends P (h x)) \<Longrightarrow>
   preserves ends P (\<lambda>w. case s of None \<Rightarrow> g w | Some x \<Rightarrow> h x w)"
  by (cases s) auto

lemma preserves_None [preserves_intros]: "preserves fuel_ends P (\<lambda>w. None)" "preserves set_option P (\<lambda>w. None)"
  by (simp_all add: preserves_def)

lemma preserves_return [preserves_intros]:
  "preserves fuel_ends P (\<lambda>w. Some (x, w))" "preserves set_option P (\<lambda>w. Some w)" "preserves run_ends P (\<lambda>w. w)"
  by (simp_all add: preserves_def run_ends_def)

lemma preserves_lift:
  "keeps P f \<Longrightarrow> preserves fuel_ends P (\<lambda>w. Some (f w))" "keeps P f \<Longrightarrow> preserves run_ends P (\<lambda>w. snd (f w))"
  "preserves run_ends P g \<Longrightarrow> preserves set_option P (\<lambda>w. Some (g w))"
  "preserves run_ends P g \<Longrightarrow> preserves fuel_ends P (\<lambda>w. Some (x, g w))"
  by (simp_all add: preserves_def keeps_def run_ends_def)

lemma preserves_call [preserves_intros]:
  assumes f: "preserves fuel_ends P f" and g: "\<And>x. preserves ends P (g x)" and none: "ends None = {}"
  shows "preserves ends P (\<lambda>w. case f w of None \<Rightarrow> None | Some (x, w1) \<Rightarrow> g x w1)"
  unfolding preserves_def
proof (intro allI impI ballI)
  fix w w' assume w: "world_inv P w" and r: "w' \<in> ends (case f w of None \<Rightarrow> None | Some (x, w1) \<Rightarrow> g x w1)"
  then obtain x w1 where fw: "f w = Some (x, w1)" using none by (cases "f w") auto
  then have "world_inv P w1" using f w by (fastforce simp: preserves_def)
  then show "world_inv P w'" using g r fw by (simp add: preserves_def)
qed

lemma preserves_run [preserves_intros]:
  assumes f: "preserves set_option P f" and g: "preserves ends P g" and none: "ends None = {}"
  shows "preserves ends P (\<lambda>w. case f w of None \<Rightarrow> None | Some w1 \<Rightarrow> g w1)"
  unfolding preserves_def
proof (intro allI impI ballI)
  fix w w' assume w: "world_inv P w" and r: "w' \<in> ends (case f w of None \<Rightarrow> None | Some w1 \<Rightarrow> g w1)"
  then obtain w1 where fw: "f w = Some w1" using none by (cases "f w") auto
  then have "world_inv P w1" using f w by (simp add: preserves_def)
  then show "world_inv P w'" using g r fw by (simp add: preserves_def)
qed

lemma preserves_map_fuel:
  assumes "preserves fuel_ends P f"
  shows "preserves fuel_ends P (\<lambda>w. map_option (\<lambda>(x, w). (h x, w)) (f w))"
  unfolding preserves_def
proof (intro allI impI ballI)
  fix w w' assume w: "world_inv P w" and e: "w' \<in> fuel_ends (map_option (\<lambda>(x, w). (h x, w)) (f w))"
  from e obtain x where "f w = Some (x, w')" by (cases "f w") auto
  then show "world_inv P w'" using assms w by (fastforce simp: preserves_def)
qed

lemma keeps_case_config [keeps_intros]:
  "(\<And>t u. keeps P (a t u)) \<Longrightarrow> (\<And>t u. keeps P (b t u)) \<Longrightarrow> (\<And>u. keeps P (c u)) \<Longrightarrow> (\<And>u. keeps P (d u)) \<Longrightarrow>
   keeps P (\<lambda>w. case s of TelegramChannelConfig t u \<Rightarrow> a t u w | TelegramGroupConfig t u \<Rightarrow> b t u w
     | RSSConfig u \<Rightarrow> c u w | HTMLConfig u \<Rightarrow> d u w)"
  by (cases s) simp_all

lemma keeps_apply: "keeps P f \<Longrightarrow> world_inv P w \<Longrightarrow> world_inv P (snd (f w))"
  by (simp add: keeps_def)

lemma keeps_case_outcome [keeps_intros]:
  "(\<And>x. keeps P (f x)) \<Longrightarrow> (\<And>m. keeps P (g m)) \<Longrightarrow>
   keeps P (\<lambda>w. case s of Returns x \<Rightarrow> f x w | Panics m \<Rightarrow> g m w)"
  by (cases s) auto

lemma keeps_case_list [keeps_intros]:
  "keeps P f \<Longrightarrow> (\<And>x xs. keeps P (g x xs)) \<Longrightarrow> keeps P (\<lambda>w. case s of [] \<Rightarrow> f w | x # xs \<Rightarrow> g x xs w)"
  by (cases s) auto

text \<open>The branches of a case may use which branch they are.\<close>

lemma keeps_case_sum_eq:
  "(\<And>e. s = Inl e \<Longrightarrow> keeps P (g e)) \<Longrightarrow> (\<And>x. s = Inr x \<Longrightarrow> keeps P (h x)) \<Longrightarrow>
   keeps P (\<lambda>w. case s of Inl e \<Rightarrow> g e w | Inr x \<Rightarrow> h x w)"
  by (cases s) auto

lemma keeps_case_prod_eq:
  "(\<And>x y. s = (x, y) \<Longrightarrow> keeps P (h x y)) \<Longrightarrow> keeps P (\<lambda>w. case s of (x, y) \<Rightarrow> h x y w)"
  by (cases s) auto

text \<open>Taking an answer of a provider or of the context does not touch the database.\<close>

lemma keeps_take_ctx_done [keeps_intros]: "keeps P take_ctx_done"
  by (simp add: keeps_def take_ctx_done_def world_inv_def)

lemma keeps_call_llm [keeps_intros]: "keeps P (call_llm s t)"
  by (simp add: keeps_def call_llm_def world_inv_def)

lemma keeps_scorer_Embed [keeps_intros]: "keeps P (scorer_Embed t)"
  by (simp add: keeps_def scorer_Embed_def world_inv_def)

lemma keeps_exec [keeps_intros]: "stmt_keeps P s \<Longrightarrow> keeps P (exec b s)"
  by (cases b) (simp_all add: exec_def [abs_def] keeps_exec_tx keeps_exec_direct)

lemma keeps_llm_attempts [keeps_intros]: "keeps P (llm_attempts s t n k e)"
proof (induction k arbitrary: e)
  case 0
  show ?case by (simp add: keeps_def)
next
  case (Suc k)
  show ?case unfolding llm_attempts.simps by (intro keeps_intros keeps_bind Suc)
qed

lemma keeps_summarizeWithLLMRetry [keeps_intros]: "keeps P (summarizeWithLLMRetry b r n m t)"
  unfolding summarizeWithLLMRetry_def Let_def by (intro keeps_intros)

lemma keeps_reply: "keeps P f \<Longrightarrow> keeps P (\<lambda>w. reply a b (f w))"
  unfolding reply_def by (intro keeps_intros keeps_bind)

lemma keeps_answer: "keeps P f \<Longrightarrow> keeps P (\<lambda>w. answer c (f w))"
  unfolding answer_def by (intro keeps_intros keeps_bind)

lemma keeps_answer_outcome: "keeps P f \<Longrightarrow> keeps P (\<lambda>w. answer_outcome c (f w))"
  unfolding answer_outcome_def by (intro keeps_intros keeps_bind)

lemma keeps_source_reply: "keeps P f \<Longrightarrow> keeps P (\<lambda>w. source_reply B (f w))"
  unfolding source_reply_def by (intro keeps_intros keeps_bind)

section \<open>Reads\<close>

lemma stmt_keeps_read: "(\<And>now d x d'. s now d = Inr (x, d') \<Longrightarrow> d' = d) \<Longrightarrow> stmt_keeps P s"
  by (auto simp: stmt_keeps_def)

lemma keeps_source_repo_Get [keeps_intros]: "keeps P (source_repo_Get E i)"
  unfolding source_repo_Get_def source_to_domain_def by (intro keeps_intros keeps_bind)

lemma keeps_source_repo_List [keeps_intros]: "keeps P (source_repo_List E f)"
  unfolding source_repo_List_def Let_def by (intro keeps_intros keeps_bind)

lemma keeps_ClaimDueCumulative [keeps_intros]: "keeps P (ClaimDueCumulative E)"
  unfolding ClaimDueCumulative_def Let_def by (intro keeps_intros keeps_bind)

lemma keeps_only_post [keeps_intros]: "keeps P (only_post_with_source b Q)"
  unfolding only_post_with_source_def by (intro keeps_intros keeps_bind)

lemma keeps_post_reads [keeps_intros]: "keeps P (getBySourceAndExternalID E s x)" "keeps P (post_repo_Get E i)"
  unfolding getBySourceAndExternalID_def post_repo_Get_def by (intro keeps_intros keeps_bind)+

lemma keeps_summary_reads [keeps_intros]:
  "keeps P (summary_repo_Get E i)" "keeps P (summary_repo_ListByPost E i)" "keeps P (summary_repo_GetLastBySource E i)"
  unfolding summary_repo_Get_def summary_repo_ListByPost_def summary_repo_GetLastBySource_def Let_def
  by (intro keeps_intros keeps_bind)+

lemma keeps_summary_repo_ListBySource [keeps_intros]: "keeps P (summary_repo_ListBySource E s n t)"
  unfolding summary_repo_ListBySource_def Let_def
  by (intro keeps_intros keeps_bind stmt_keeps_read) (auto simp: map_sum_def split: sum.splits)

lemma keeps_summary_outbox_reads [keeps_intros]:
  "keeps P (summary_outbox_Get E i)" "keeps P (summary_outbox_HasActiveEvent E i t)"
  "keeps P (summary_outbox_ListLeaseExpired E g n)"
  unfolding summary_outbox_Get_def summary_outbox_HasActiveEvent_def summary_outbox_ListLeaseExpired_def Let_def
  by (intro keeps_intros keeps_bind)+

lemma keeps_score_outbox_reads [keeps_intros]:
  "keeps P dueCandidatePostIDs" "keeps P scoredCandidatePostIDs" "keeps P dueCandidateSummaryIDs"
  "keeps P scoredCandidateSummaryIDs" "keeps P (score_outbox_ListLeaseExpired E g n)"
  unfolding dueCandidatePostIDs_def scoredCandidatePostIDs_def dueCandidateSummaryIDs_def
    scoredCandidateSummaryIDs_def score_outbox_ListLeaseExpired_def Let_def
  by (intro keeps_intros keeps_bind)+

lemma keeps_interest_reads [keeps_intros]:
  "keeps P (interest_repo_Get E i)" "keeps P (interest_repo_List E f)" "keeps P ListInterestVectors"
  unfolding interest_repo_Get_def interest_repo_List_def ListInterestVectors_def Let_def
  by (intro keeps_intros keeps_bind)+

lemma keeps_embedding_repo_Get [keeps_intros]: "keeps P (embedding_repo_Get E k)"
  unfolding embedding_repo_Get_def Let_def by (intro keeps_intros keeps_bind)

lemma keeps_ListRanked [keeps_intros]: "keeps P (ListRanked E F q)"
  unfolding ListRanked_def Let_def
  by (intro keeps_intros keeps_bind stmt_keeps_read) (auto simp: ranked_query_def map_sum_def split: sum.splits if_splits)

section \<open>Writes\<close>

context kept_by_statements
begin

lemmas kept = insert_source_kept update_source_kept delete_source_kept bump_kept insert_post_kept update_post_kept
  delete_post_kept insert_summary_kept insert_summary_event_kept claim_summary_kept finalize_summary_kept
  update_status_kept insert_score_event_kept insert_digest_event_kept claim_score_kept insert_interest_kept
  update_interest_kept delete_interest_kept upsert_score_kept upsert_embedding_kept upsert_reaction_kept

lemma source_repo_keeps:
  "keeps P (source_repo_Save E s)" "keeps P (source_repo_Update E s)" "keeps P (source_repo_Delete E i)"
  "keeps P (BumpNextSummaryAt E i t)"
  unfolding source_repo_Save_def source_repo_Update_def source_repo_Delete_def BumpNextSummaryAt_def
    source_to_domain_def Let_def
  by (intro keeps_intros keeps_bind kept; simp)+

lemma post_repo_keeps:
  "keeps P (post_repo_Save E p)" "keeps P (post_repo_Update E p)" "keeps P (post_repo_Delete E i)"
  unfolding post_repo_Save_def post_repo_Update_def post_repo_Delete_def Let_def
  by (intro keeps_intros keeps_bind kept)+

lemma summary_repo_Save_keeps: "keeps P (summary_repo_Save E v)"
  unfolding summary_repo_Save_def Let_def by (intro keeps_intros keeps_bind kept)

lemma lease_rows_keep_keys:
  "e_summary_id (extend_row ttl now r) = e_summary_id r" "e_summary_id (retry_row t x r) = e_summary_id r"
  "e_summary_id (fail_row x now r) = e_summary_id r"
  by (simp_all add: extend_row_def retry_row_def fail_row_def)

lemma fail_guard_processing: "fail_guard eid n g now r \<Longrightarrow> l_status r = Processing"
  by (simp add: fail_guard_def stuck_def)

lemma keeps_affected_or_lost: "keeps P f \<Longrightarrow> keeps P (\<lambda>w. affected_or_lost c (f w))"
  unfolding affected_or_lost_def by (intro keeps_intros keeps_bind)

lemma summary_outbox_keeps:
  "keeps P (summary_outbox_Save E ev)" "keeps P (summary_outbox_ClaimOne E v ttl)"
  "keeps P (summary_outbox_ExtendLease E i v ttl)" "keeps P (summary_outbox_FinalizeWithLease E i v st m x)"
  "keeps P (summary_outbox_MarkForRetry E i v t y)" "keeps P (summary_outbox_FailExpired E i n g y)"
  "keeps P (summary_outbox_UpdateStatus E i st m x)"
  unfolding summary_outbox_Save_def summary_outbox_ClaimOne_def summary_outbox_ExtendLease_def
    summary_outbox_FinalizeWithLease_def summary_outbox_MarkForRetry_def summary_outbox_FailExpired_def
    summary_outbox_UpdateStatus_def Let_def
  by (intro keeps_intros keeps_bind keeps_affected_or_lost kept update_summary_events_kept;
      auto simp: lease_rows_keep_keys dest: owns_lease_processing fail_guard_processing)+

lemma score_outbox_keeps:
  "keeps P (score_outbox_ClaimOne E v ttl)"
  "keeps P (score_outbox_ExtendLease E i v ttl)" "keeps P (score_outbox_FinalizeWithLease E i v st x)"
  "keeps P (score_outbox_MarkForRetry E i v t y)" "keeps P (score_outbox_FailExpired E i n g y)"
  unfolding score_outbox_ClaimOne_def score_outbox_ExtendLease_def
    score_outbox_FinalizeWithLease_def score_outbox_MarkForRetry_def score_outbox_FailExpired_def Let_def
  by (intro keeps_intros keeps_bind keeps_affected_or_lost kept update_score_events_kept;
      auto dest: owns_lease_processing fail_guard_processing)+

lemma insert_loop_keeps:
  assumes "\<And>i k. stmt_keeps P (q i k)" shows "keeps P (insert_loop c q ks n)"
proof (induction ks arbitrary: n)
  case Nil
  show ?case by (simp add: keeps_def)
next
  case (Cons k ks)
  show ?case unfolding insert_loop.simps Let_def by (intro keeps_intros keeps_bind assms Cons)
qed

lemma enqueue_keeps:
  "keeps P EnqueueDuePosts" "keeps P EnqueueScoredPosts" "keeps P EnqueueDueDigests" "keeps P EnqueueScoredDigests"
  unfolding EnqueueDuePosts_def EnqueueScoredPosts_def EnqueueDueDigests_def EnqueueScoredDigests_def insertDigestEvents_def
  by (intro keeps_intros keeps_bind insert_loop_keeps kept)+

lemma interest_repo_keeps:
  "keeps P (interest_repo_Save E v)" "keeps P (interest_repo_Update E v)" "keeps P (interest_repo_Delete E i)"
  unfolding interest_repo_Save_def interest_repo_Update_def interest_repo_Delete_def Let_def
  by (intro keeps_intros keeps_bind kept; simp)+

lemma score_repo_keeps: "keeps P (score_repo_Upsert E s)"
  unfolding score_repo_Upsert_def
  by (intro keeps_case_sum_eq keeps_case_prod_eq keeps_case keeps_exec_tx keeps_return upsert_score_kept)
    (auto simp: one_key_def map_sum_def split: option.splits sum.splits)

lemma embedding_repo_keeps: "keeps P (embedding_repo_Upsert E pe)"
  unfolding embedding_repo_Upsert_def Let_def
  by (intro keeps_case_sum_eq keeps_case_prod_eq keeps_case keeps_bind keeps_new_uuid keeps_exec_tx keeps_return
      upsert_embedding_kept)
    (auto simp: one_key_def split: if_splits)

lemma reaction_repo_keeps: "keeps P (reaction_repo_Upsert E p x)"
  unfolding reaction_repo_Upsert_def Let_def by (intro keeps_intros keeps_bind kept)

section \<open>Use cases\<close>

lemma keeps_NewSummaryEvent [keeps_intros]: "keeps Q (NewSummaryEvent E t s p)"
  unfolding NewSummaryEvent_def Let_def by (intro keeps_intros keeps_bind)

lemma source_usecase_keeps:
  "keeps P (SourceUsecase_Create E t c)" "keeps P (SourceUsecase_Update E i t c)" "keeps P (SourceUsecase_Delete E i)"
  "keeps P (SourceUsecase_Get E i)" "keeps P (SourceUsecase_List E f)"
  unfolding SourceUsecase_Create_def SourceUsecase_Update_def SourceUsecase_Delete_def SourceUsecase_Get_def
    SourceUsecase_List_def Let_def
  by (intro keeps_intros keeps_bind source_repo_keeps)+

lemma PostUsecase_Create_keeps: "keeps P (PostUsecase_Create E s x t pub a m)"
proof -
  have "keeps P (create_post_body E mode s post)" for mode post
    unfolding create_post_body_def Let_def
    by (intro keeps_intros keeps_bind post_repo_keeps summary_outbox_keeps)
  then show ?thesis unfolding PostUsecase_Create_def Let_def by (intro keeps_intros keeps_bind keeps_InTx)
qed

lemma post_usecase_keeps:
  "keeps P (PostUsecase_Update E i x t pub a m)" "keeps P (PostUsecase_Delete E i)" "keeps P (PostUsecase_Get E i)"
  "keeps P (PostUsecase_List E f)"
  unfolding PostUsecase_Update_def PostUsecase_Delete_def PostUsecase_Get_def PostUsecase_List_def Let_def
  by (intro keeps_intros keeps_bind post_repo_keeps)+

lemma CollectItems_keeps: "keeps P (CollectItems E src its)"
proof -
  have "keeps P (collect_loop E i items)" for i items
  proof (induction items)
    case Nil
    show ?case by (simp add: keeps_def)
  next
    case (Cons x xs)
    show ?case unfolding collect_loop.simps create_item_def by (intro keeps_intros keeps_bind PostUsecase_Create_keeps Cons)
  qed
  then show ?thesis unfolding CollectItems_def .
qed

lemma save_summary_keeps: "keeps P (save_summary E p s b)"
  unfolding save_summary_def Let_def by (intro keeps_intros keeps_bind summary_repo_Save_keeps)

lemma keeps_ensureNotExpired [keeps_intros]: "keeps Q (ensureNotExpired c ev)"
  unfolding ensureNotExpired_def Let_def by (intro keeps_intros keeps_bind)

lemma ProcessPostEvent_keeps: "keeps P (ProcessPostEvent D ev)"
  unfolding ProcessPostEvent_def by (intro keeps_intros keeps_bind save_summary_keeps)

lemma maybeEnqueue_keeps: "keeps P (maybeEnqueueSourceEvent E s)"
  unfolding maybeEnqueueSourceEvent_def Let_def by (intro keeps_intros keeps_bind summary_outbox_keeps)

lemma scheduling_keeps: "keeps P (ScheduleNextCumulative D)" "keeps P (TriggerSourceSummarize D s)"
proof -
  have body: "keeps P (schedule_body E n)" "keeps P (trigger_body E s' t)" for E n s' t
    unfolding schedule_body_def trigger_body_def Let_def
    by (intro keeps_intros keeps_bind source_repo_keeps maybeEnqueue_keeps summary_outbox_keeps)+
  show "keeps P (ScheduleNextCumulative D)" "keeps P (TriggerSourceSummarize D s)"
    unfolding ScheduleNextCumulative_def TriggerSourceSummarize_def Let_def
    by (intro keeps_intros keeps_bind keeps_InTx body)+
qed

lemma reap_loop_keeps:
  assumes "\<And>ev. keeps P (fail ev)" shows "keeps P (reap_loop a fail n evs k)"
proof (induction evs arbitrary: k)
  case Nil
  show ?case by (simp add: keeps_def)
next
  case (Cons x xs)
  show ?case unfolding reap_loop.simps by (intro keeps_intros keeps_bind assms Cons)
qed

lemma reaping_keeps: "keeps P (ReapStuckEvents D)" "keeps P (ReapStuckScoreEvents E c)"
  unfolding ReapStuckEvents_def ReapStuckScoreEvents_def Let_def
  by (intro keeps_intros keeps_bind reap_loop_keeps summary_outbox_keeps score_outbox_keeps)+

lemma summary_usecase_reads_keep:
  "keeps P (SummaryUsecase_GetSummaryEvent D i)" "keeps P (SummaryUsecase_GetSummary D i)"
  "keeps P (SummaryUsecase_ListPostSummaries D p)" "keeps P (SummaryUsecase_ListSourceSummaries D s n t)"
  unfolding SummaryUsecase_GetSummaryEvent_def SummaryUsecase_GetSummary_def SummaryUsecase_ListPostSummaries_def
    SummaryUsecase_ListSourceSummaries_def
  by (intro keeps_intros)+

lemma interest_usecase_keeps:
  "keeps P (InterestUsecase_Create E m t)" "keeps P (InterestUsecase_Update E m i t)" "keeps P (InterestUsecase_Delete E i)"
  "keeps P (InterestUsecase_Get E i)" "keeps P (InterestUsecase_List E f)"
proof -
  have body: "keeps P f \<Longrightarrow> keeps P (interest_body f)" for f :: "world \<Rightarrow> 'a result \<times> world"
    unfolding interest_body_def enqueue_rescore_def by (intro keeps_intros keeps_bind enqueue_keeps)
  show "keeps P (InterestUsecase_Create E m t)" "keeps P (InterestUsecase_Update E m i t)"
    "keeps P (InterestUsecase_Get E i)" "keeps P (InterestUsecase_List E f)"
    unfolding InterestUsecase_Create_def InterestUsecase_Update_def InterestUsecase_Get_def InterestUsecase_List_def Let_def
    by (intro keeps_intros keeps_bind keeps_InTx body interest_repo_keeps)+
  have "keeps P (interest_body (interest_repo_Delete E i))"
    unfolding interest_body_def enqueue_rescore_def by (intro keeps_intros keeps_bind enqueue_keeps interest_repo_keeps)
  then show "keeps P (InterestUsecase_Delete E i)" unfolding InterestUsecase_Delete_def by (rule keeps_InTx)
qed

lemma EnqueueDue_keeps: "keeps P EnqueueDue"
  unfolding EnqueueDue_def by (intro keeps_intros keeps_bind enqueue_keeps)

lemma ScorePost_keeps: "keeps P (ScorePost E m ev)"
proof -
  have "keeps P (resolveScoreInput E ev)" "keeps P (resolveVector E m k t)" "keeps P (upsert_value E m k v)" for k t v
    unfolding resolveScoreInput_def resolveVector_def upsert_value_def Let_def
    by (intro keeps_intros keeps_bind embedding_repo_keeps score_repo_keeps)+
  then show ?thesis unfolding ScorePost_def by (intro keeps_intros keeps_bind)
qed

lemma feed_keeps: "keeps P (RankedFeed E F q)" "keeps P (React E p x)"
  unfolding RankedFeed_def React_def by (intro keeps_intros reaction_repo_keeps)+

section \<open>The handlers of the API\<close>

lemma source_handlers_keep:
  "keeps P (V1CreateSource B E t c)" "keeps P (V1UpdateSource B E i t c)" "keeps P (V1DeleteSource E i)"
  "keeps P (V1GetSource B E i)" "keeps P (V1ListSources B E r)"
  unfolding V1CreateSource_def V1UpdateSource_def V1DeleteSource_def V1GetSource_def V1ListSources_def Let_def
  by (intro keeps_source_reply keeps_reply keeps_intros keeps_bind source_usecase_keeps)+

lemma post_handlers_keep:
  "keeps P (V1CreatePost B E s q)" "keeps P (V1UpdatePost B E i q)" "keeps P (V1DeletePost E i)"
  "keeps P (V1GetPost B E i)" "keeps P (V1ListPosts B E r)"
  unfolding V1CreatePost_def V1UpdatePost_def V1DeletePost_def V1GetPost_def V1ListPosts_def Let_def
  by (intro keeps_reply keeps_intros keeps_bind PostUsecase_Create_keeps post_usecase_keeps)+

lemma summary_handlers_keep:
  "keeps P (V1SummarizeSource D s)" "keeps P (V1GetSummaryEvent B D i)" "keeps P (V1ListPostSummaries B D p)"
  "keeps P (V1ListSourceSummaries B D s n t)" "keeps P (V1GetSummary B D i)"
  unfolding V1SummarizeSource_def V1GetSummaryEvent_def V1ListPostSummaries_def V1ListSourceSummaries_def
    V1GetSummary_def Let_def
  by (intro keeps_reply keeps_intros keeps_bind scheduling_keeps summary_usecase_reads_keep)+

lemma interest_handlers_keep:
  "keeps P (V1CreateInterest B E m t)" "keeps P (V1UpdateInterest B E m i t)" "keeps P (V1DeleteInterest E i)"
  "keeps P (V1GetInterest B E i)" "keeps P (V1ListInterests B E n t)"
  unfolding V1CreateInterest_def V1UpdateInterest_def V1DeleteInterest_def V1GetInterest_def V1ListInterests_def Let_def
  by (intro keeps_reply keeps_intros keeps_bind interest_usecase_keeps)+

lemma feed_handlers_keep: "keeps P (V1ListFeed B E F r)" "keeps P (V1ReactToPost E p x)"
  unfolding V1ListFeed_def V1ReactToPost_def Let_def
  by (intro keeps_reply keeps_intros keeps_bind feed_keeps)+

lemma serve_keeps: "keeps P (serve S q)"
  by (cases q)
    (simp_all only: serve.simps [abs_def], (intro keeps_answer keeps_answer_outcome source_handlers_keep post_handlers_keep
      summary_handlers_keep interest_handlers_keep feed_handlers_keep)+)

section \<open>Workers, schedulers and collectors\<close>

lemma collect_pages_keeps: "preserves fuel_ends P (collect_pages E s a b n fuel tok acc tot)"
proof (induction fuel arbitrary: tok acc tot)
  case 0
  show ?case by (simp add: preserves_def)
next
  case (Suc fuel)
  show ?case unfolding collect_pages.simps Let_def by (intro preserves_intros keeps_intros Suc)
qed

lemma ProcessSourceEvent_keeps: "preserves fuel_ends P (ProcessSourceEvent D fuel ev)"
proof -
  have "preserves fuel_ends P (collectWindowPosts E s a b n fuel)" for E s a b n
    unfolding collectWindowPosts_def by (intro preserves_map_fuel collect_pages_keeps)
  then show ?thesis
    unfolding ProcessSourceEvent_def Let_def
    by (intro preserves_intros keeps_intros preserves_lift(1) save_summary_keeps) simp_all
qed

lemma dispatch_keeps: "preserves fuel_ends P (dispatch D fuel ev)"
  using preserves_lift(1) [OF ProcessPostEvent_keeps] ProcessSourceEvent_keeps
  unfolding dispatch_def by (cases "se_EventType ev") simp_all

lemma finalize_keeps: "preserves run_ends P (finalize E pol v ev h)"
  unfolding finalize_def writeTerminal_def Let_def
  by (intro preserves_intros preserves_lift(2) keeps_intros summary_outbox_keeps)

lemma score_finalize_keeps: "preserves run_ends P (score_finalize E pol v ev h)"
  unfolding score_finalize_def score_writeTerminal_def Let_def
  by (intro preserves_intros preserves_lift(2) keeps_intros score_outbox_keeps)

lemma processing_keeps:
  "preserves set_option P (processEvent D fuel v ev)" "preserves set_option P (score_processEvent S v sev)"
  unfolding processEvent_def score_processEvent_def Let_def
  by (intro preserves_intros preserves_lift(3) keeps_intros dispatch_keeps finalize_keeps ScorePost_keeps
      score_finalize_keeps; simp)+

lemma worker_loop_keeps:
  assumes "keeps P claim" and "\<And>ev. preserves set_option P (process ev)"
  shows "preserves fuel_ends P (worker_loop (worker_turn claim process) running k)"
proof (induction k arbitrary: running)
  case 0
  show ?case by (simp add: preserves_def)
next
  case (Suc k)
  have turn: "preserves fuel_ends P (worker_turn claim process)"
    unfolding worker_turn_def by (intro preserves_intros assms) simp_all
  show ?case
    unfolding worker_loop.simps by (intro preserves_intros turn Suc) simp_all
qed

lemma workers_keep:
  "preserves fuel_ends P (runWorker D fuel v running k)" "preserves fuel_ends P (score_runWorker S v running k)"
  unfolding runWorker_def score_runWorker_def
  by (intro worker_loop_keeps summary_outbox_keeps score_outbox_keeps processing_keeps)+

lemma heartbeats_keep: "keeps P (heartbeat E ttl v i)" "keeps P (score_heartbeat E ttl v i)"
  unfolding heartbeat_def score_heartbeat_def by (intro keeps_intros summary_outbox_keeps score_outbox_keeps)+

lemma periodic_keeps: "preserves run_ends P job \<Longrightarrow> keeps P (periodic job running k)"
proof (induction k arbitrary: running)
  case 0
  show ?case by (simp add: keeps_def)
next
  case (Suc k)
  then show ?case by (auto simp: keeps_def preserves_def run_ends_def Let_def)
qed

lemma ticking_keeps: "preserves run_ends P job \<Longrightarrow> keeps P (ticking job running k)"
proof (induction k arbitrary: running)
  case 0
  show ?case by (simp add: keeps_def)
next
  case (Suc k)
  then show ?case by (auto simp: keeps_def preserves_def run_ends_def Let_def)
qed

lemma runs_keep:
  "keeps P (ScoreDueScheduler_run running k)" "keeps P (StuckEventReaper_run D running k)"
  "keeps P (StuckScoreEventReaper_run E c running k)"
  unfolding ScoreDueScheduler_run_def StuckEventReaper_run_def StuckScoreEventReaper_run_def
  by (intro periodic_keeps ticking_keeps preserves_lift(2) EnqueueDue_keeps reaping_keeps)+

text \<open>The tick of the source scheduler returns what is left of the stream of stop signals.\<close>

lemma tick_keeps: "world_inv P w \<Longrightarrow> tick D running k w = Some (w', running') \<Longrightarrow> world_inv P w'"
proof (induction k arbitrary: running w)
  case (Suc k)
  obtain r w1 where s: "ScheduleNextCumulative D w = (r, w1)" by (cases "ScheduleNextCumulative D w")
  have "world_inv P w1" using keepsD [OF scheduling_keeps(1) s Suc.prems(1)] .
  then show ?case using Suc s by (auto split: if_splits sum.splits)
qed simp

lemma SourceDueScheduler_keeps: "preserves fuel_ends P (SourceDueScheduler_run D fuel running k)"
proof (induction k arbitrary: running)
  case 0
  show ?case by (simp add: preserves_def)
next
  case (Suc k)
  show ?case unfolding preserves_def
  proof (intro allI impI ballI)
    fix w w' assume w: "world_inv P w" and e: "w' \<in> fuel_ends (SourceDueScheduler_run D fuel running (Suc k) w)"
    show "world_inv P w'"
    proof (cases "running 0 \<and> tick D (advance running) fuel w \<noteq> None")
      case True
      then obtain w1 run1 where t: "tick D (advance running) fuel w = Some (w1, run1)" by auto
      have "world_inv P w1" using tick_keeps [OF w t] .
      then show ?thesis using e t True Suc by (auto simp: preserves_def split: if_splits)
    qed (use e w in \<open>auto split: if_splits option.splits\<close>)
  qed
qed

lemma keeps_parseFeedTime [keeps_intros]: "keeps Q (parseFeedTime X s)"
  unfolding parseFeedTime_def by (intro keeps_intros)

lemma keeps_map_feed [keeps_intros]: "keeps Q (mapRSSItems X its)" "keeps Q (mapAtomEntries X es)"
proof -
  show "keeps Q (mapRSSItems X its)"
  proof (induction its)
    case Nil
    show ?case by (simp add: keeps_def)
  next
    case (Cons x xs)
    show ?case unfolding mapRSSItems.simps Let_def by (intro keeps_intros keeps_bind Cons)
  qed
  show "keeps Q (mapAtomEntries X es)"
  proof (induction es)
    case Nil
    show ?case by (simp add: keeps_def)
  next
    case (Cons e es)
    show ?case unfolding mapAtomEntries.simps Let_def by (intro keeps_intros keeps_bind Cons)
  qed
qed

lemma keeps_fetch: "keeps Q (rss_Fetch X s)" "keeps Q (web_Fetch X s)"
proof -
  have req: "keeps Q (request X a b u)" for a b u
    unfolding request_def Let_def by (intro keeps_intros keeps_bind)
  have feed: "keeps Q (parseFeed X b)" for b
    unfolding parseFeed_def Let_def by (intro keeps_intros keeps_bind)
  have art: "keeps Q (extractArticle X d)" for d
    unfolding extractArticle_def Let_def by (intro keeps_intros keeps_bind)
  show "keeps Q (rss_Fetch X s)" "keeps Q (web_Fetch X s)"
    unfolding rss_Fetch_def web_Fetch_def Let_def
    by (intro keeps_intros keeps_bind req feed art)+
qed

lemma CollectSource_keeps: "(\<And>s. keeps P (fetch s)) \<Longrightarrow> keeps P (CollectSource E fetch src)"
  unfolding CollectSource_def by (intro keeps_intros keeps_bind CollectItems_keeps)

lemma collect_all_keeps:
  assumes "\<And>s. keeps P (one s)" shows "preserves set_option P (collect_all_pages E t one fuel tok)"
proof (induction fuel arbitrary: tok)
  case 0
  show ?case by (simp add: preserves_def)
next
  case (Suc fuel)
  have each: "world_inv P w \<Longrightarrow> world_inv P (collect_each one srcs w)" for srcs w
  proof (induction srcs arbitrary: w)
    case (Cons s srcs)
    show ?case using Cons.IH [OF keeps_apply [OF assms Cons.prems]] by (simp add: case_prod_beta)
  qed simp
  show ?case unfolding preserves_def
  proof (intro allI impI ballI)
    fix w w' assume w: "world_inv P w" and e: "w' \<in> set_option (collect_all_pages E t one (Suc fuel) tok w)"
    obtain r w1 where l: "SourceUsecase_List E (of_type t tok) w = (r, w1)" by (cases "SourceUsecase_List E (of_type t tok) w")
    have w1: "world_inv P w1" using keepsD [OF source_usecase_keeps(5) l w] .
    show "world_inv P w'"
    proof (cases r)
      case (Inl err)
      then show ?thesis using e l w1 by simp
    next
      case (Inr res)
      have "world_inv P (collect_each one (Items res) w1)" using each [OF w1] .
      then show ?thesis using e l Inr Suc by (auto simp: preserves_def Let_def split: if_splits)
    qed
  qed
qed

lemma ticks_keep: "preserves set_option P (RSSCollector_tick E X fuel)" "preserves set_option P (WebCollector_tick E X fuel)"
proof -
  have "keeps P (collectWithRetry E X s)" for s
    unfolding collectWithRetry_def by (intro keeps_intros keeps_bind CollectSource_keeps keeps_fetch)
  then show "preserves set_option P (RSSCollector_tick E X fuel)" "preserves set_option P (WebCollector_tick E X fuel)"
    unfolding RSSCollector_tick_def WebCollector_tick_def collectAllOfType_def
    by (intro collect_all_keeps CollectSource_keeps keeps_fetch, intro collect_all_keeps)
qed

lemma runCollectLoop_keeps:
  "preserves set_option P job \<Longrightarrow> preserves fuel_ends P (runCollectLoop job running k)"
proof (induction k arbitrary: running)
  case 0
  show ?case by (simp add: preserves_def)
next
  case (Suc k)
  show ?case unfolding runCollectLoop.simps by (intro preserves_intros Suc) simp_all
qed

lemma resolve_keeps: "preserves fuel_ends P (resolve E tg fuel)"
proof -
  have pages: "preserves fuel_ends P (resolve_pages E t tg fuel tok)" for t fuel tok
  proof (induction fuel arbitrary: tok)
    case 0
    show ?case by (simp add: preserves_def)
  next
    case (Suc fuel)
    show ?case unfolding resolve_pages.simps by (intro preserves_intros source_usecase_keeps Suc)
  qed
  have "preserves fuel_ends P (resolve_types E ts tg fuel)" for ts
  proof (induction ts)
    case Nil
    show ?case by (simp add: preserves_def)
  next
    case (Cons t ts)
    show ?case unfolding resolve_types.simps by (intro preserves_intros pages Cons) simp_all
  qed
  then show ?thesis unfolding resolve_def .
qed

lemma handle_keeps: "preserves fuel_ends P (handle E fuel msg)" "preserves fuel_ends P (on_update E fuel ents u)"
proof -
  show h: "preserves fuel_ends P (handle E fuel msg)" for msg
    unfolding handle_def by (intro preserves_intros resolve_keeps CollectItems_keeps) simp_all
  show "preserves fuel_ends P (on_update E fuel ents u)"
    unfolding on_update_def by (intro preserves_intros h)
qed

end

end
