(* ===== verification/System.thy ===== *)
theory System
  imports Invariants
begin

text \<open>
  The program as a whole: a step of the system is one call of the API, a run of one of the
  background tasks of \<open>cmd/feedium\<close>, an update of Telegram, or a change of the surroundings.
  What the statements keep holds in every reachable state.
\<close>

section \<open>Steps\<close>

text \<open>
  Between two steps the surroundings are free: the clock moves, providers answer, statements
  will fail or not, a process dies and starts again. A process that dies within an operation
  is one whose remaining statements are all refused.
\<close>

inductive system_step :: "server \<Rightarrow> ScoreDeps \<Rightarrow> internet \<Rightarrow> world \<Rightarrow> world \<Rightarrow> bool"
  for S :: server and C :: ScoreDeps and X :: internet where
  surroundings: "committed w' = committed w \<Longrightarrow> open_tx w' = None \<Longrightarrow> system_step S C X w w'"
| api_call: "serve S q w = (a, w') \<Longrightarrow> system_step S C X w w'"
| summary_worker: "runWorker (srv_deps S) fuel v running k w = Some (b, w') \<Longrightarrow> system_step S C X w w'"
| summary_heartbeat: "heartbeat (dep_ext (srv_deps S)) ttl v i w = (b, w') \<Longrightarrow> system_step S C X w w'"
| score_worker: "score_runWorker C v running k w = Some (b, w') \<Longrightarrow> system_step S C X w w'"
| scoring_heartbeat: "score_heartbeat (sd_ext C) ttl v i w = (b, w') \<Longrightarrow> system_step S C X w w'"
| source_scheduler: "SourceDueScheduler_run (srv_deps S) fuel running k w = Some (b, w') \<Longrightarrow> system_step S C X w w'"
| score_scheduler: "ScoreDueScheduler_run running k w = (b, w') \<Longrightarrow> system_step S C X w w'"
| summary_reaper: "StuckEventReaper_run (srv_deps S) running k w = (b, w') \<Longrightarrow> system_step S C X w w'"
| score_reaper: "StuckScoreEventReaper_run (sd_ext C) (sd_cfg C) running k w = (b, w') \<Longrightarrow> system_step S C X w w'"
| feed_collector: "runCollectLoop (RSSCollector_tick (dep_ext (srv_deps S)) X fuel) running k w = Some (b, w') \<Longrightarrow>
    system_step S C X w w'"
| page_collector: "runCollectLoop (WebCollector_tick (dep_ext (srv_deps S)) X fuel) running k w = Some (b, w') \<Longrightarrow>
    system_step S C X w w'"
| telegram_update: "on_update (dep_ext (srv_deps S)) fuel ents u w = Some (r, w') \<Longrightarrow> system_step S C X w w'"

inductive reachable :: "server \<Rightarrow> ScoreDeps \<Rightarrow> internet \<Rightarrow> world \<Rightarrow> bool"
  for S :: server and C :: ScoreDeps and X :: internet where
  initial: "committed w = empty_db \<Longrightarrow> open_tx w = None \<Longrightarrow> reachable S C X w"
| after_step: "reachable S C X w \<Longrightarrow> system_step S C X w w' \<Longrightarrow> reachable S C X w'"

section \<open>Invariants of the reachable states\<close>

lemma preserves_fuelD: "preserves fuel_ends P f \<Longrightarrow> f w = Some (x, w') \<Longrightarrow> world_inv P w \<Longrightarrow> world_inv P w'"
  by (fastforce simp: preserves_def)

context kept_by_statements
begin

lemma system_step_keeps: "system_step S C X w w' \<Longrightarrow> world_inv P w \<Longrightarrow> world_inv P w'"
proof (induction rule: system_step.induct)
  case surroundings
  then show ?case by (simp add: world_inv_def)
next
  case api_call
  then show ?case using keepsD [OF serve_keeps] by blast
next
  case summary_worker
  then show ?case using preserves_fuelD [OF workers_keep(1)] by blast
next
  case summary_heartbeat
  then show ?case using keepsD [OF heartbeats_keep(1)] by blast
next
  case score_worker
  then show ?case using preserves_fuelD [OF workers_keep(2)] by blast
next
  case scoring_heartbeat
  then show ?case using keepsD [OF heartbeats_keep(2)] by blast
next
  case source_scheduler
  then show ?case using preserves_fuelD [OF SourceDueScheduler_keeps] by blast
next
  case score_scheduler
  then show ?case using keepsD [OF runs_keep(1)] by blast
next
  case summary_reaper
  then show ?case using keepsD [OF runs_keep(2)] by blast
next
  case score_reaper
  then show ?case using keepsD [OF runs_keep(3)] by blast
next
  case feed_collector
  then show ?case using preserves_fuelD [OF runCollectLoop_keeps [OF ticks_keep(1)]] by blast
next
  case page_collector
  then show ?case using preserves_fuelD [OF runCollectLoop_keeps [OF ticks_keep(2)]] by blast
next
  case telegram_update
  then show ?case using preserves_fuelD [OF handle_keeps(2)] by blast
qed

lemma reachable_inv: "reachable S C X w \<Longrightarrow> P empty_db \<Longrightarrow> world_inv P w"
  by (induction rule: reachable.induct) (auto simp: world_inv_def dest: system_step_keeps)

end


lemma reachable_schema: "reachable S C X w \<Longrightarrow> schema_ok (committed w)"
  using schema.reachable_inv [OF _ schema_ok_empty] by (simp add: world_inv_def)

section \<open>A created post is listed\<close>

abbreviation srv_ext :: "server \<Rightarrow> ext" where
  "srv_ext S \<equiv> dep_ext (srv_deps S)"

text \<open>The walk through the listing of a source's posts, from the first page to the last.\<close>

definition listed_posts :: "server \<Rightarrow> ListPostsRequest \<Rightarrow> world \<Rightarrow> PbPost list" where
  "listed_posts S req w =
     walk_pages (\<lambda>t. api_page (fst (V1ListPosts (srv_pb S) (srv_ext S) (req\<lparr>lpr_PageToken := t\<rparr>) w)))
       (Suc (length (posts (committed w)))) []"

lemma ordered_mem: "x \<in> set ys \<Longrightarrow> f x \<in> set (map f ((if c then rev else id) (sort_key k ys)))"
  by simp

text \<open>A creation succeeds when nothing fails, and what it leaves is a reachable state.\<close>

lemma V1CreatePost_succeeds:
  assumes reach: "reachable S C X w" and E: "ext_laws (srv_ext S)" and w: "fault_free w"
    and v: "ValidateCreatePost (srv_ext S) sourceID (pr_ExternalId req) (pr_Text req) (AsTime (srv_pb S) (pr_PublishedAt req)) = None"
    and src: "parse_uuid (srv_ext S) sourceID = Some (s_id src)" "src \<in> set (sources (committed w))" "source_row_ok src"
    and fresh: "fresh_ids w 0 \<notin> post_ids (committed w)" "fresh_ids w 1 \<notin> l_id ` set (summary_events (committed w))"
      "\<forall>e \<in> set (summary_events (committed w)). e_post_id e \<noteq> Some (fresh_ids w 0)"
  obtains saved w' row where
    "V1CreatePost (srv_pb S) (srv_ext S) sourceID req w = (Inr (post_mapDomainToProto (srv_pb S) saved), w')"
    "fault_free w'" "schema_ok (committed w')"
    "create_effect (srv_ext S) (ProcessingModeForType (s_type src)) (s_id src) (pr_ExternalId req) (pr_Text req)
       (committed w) saved (committed w')"
    "row \<in> set (posts (committed w'))" "post_key (s_id src) (pr_ExternalId req) row"
    "saved = post_value (srv_ext S) (sources (committed w')) row"
proof -
  have d: "schema_ok (committed w)" using reach by (rule reachable_schema)
  have one: "filter (\<lambda>r. s_id r = s_id src) (sources (committed w)) = [src]"
    using filter_key_one [OF schema_okD(1) [OF d] src(2)] .
  have keys: "distinct (map (\<lambda>p. (p_source_id p, p_external_id p)) (posts (committed w)))"
    using d by (simp add: schema_ok_def posts_ok_def)
  obtain saved w' where c: "PostUsecase_Create (srv_ext S) sourceID (pr_ExternalId req) (pr_Text req)
        (AsTime (srv_pb S) (pr_PublishedAt req)) (pr_Author req) (default_metadata (pr_Metadata req)) w = (Inr saved, w')"
      "fault_free w'"
    and eff: "create_effect (srv_ext S) (ProcessingModeForType (s_type src)) (s_id src) (pr_ExternalId req) (pr_Text req)
        (committed w) saved (committed w')"
    using PostUsecase_Create_succeeds [OF E w v src(1) one src(3) keys fresh] by blast
  have create: "V1CreatePost (srv_pb S) (srv_ext S) sourceID req w = (Inr (post_mapDomainToProto (srv_pb S) saved), w')"
    using c(1) by (simp add: V1CreatePost_def reply_def)
  have "serve S (CreatePost sourceID req) w = (Returns (Inr (PostMsg (post_mapDomainToProto (srv_pb S) saved))), w')"
    using create by (simp add: answer_def)
  then have "reachable S C X w'" using reach by (blast intro: after_step api_call)
  then have d': "schema_ok (committed w')" by (rule reachable_schema)
  from eff obtain row where "filter (post_key (s_id src) (pr_ExternalId req)) (posts (committed w')) = [row]"
    and saved: "saved = post_value (srv_ext S) (sources (committed w')) row"
    unfolding create_effect_def by blast
  from that [OF create c(2) d' eff _ _ saved] filter_one [OF this(1)] show ?thesis by blast
qed


text \<open>The source and the post of an example, created through the interface.\<close>

definition sample_server :: server where
  "sample_server = \<lparr>srv_pb = seconds_nanos, srv_floats = fraction_text, srv_deps = sample_summary_deps, srv_model = ''m''\<rparr>"

definition channel_row :: source_row where
  "channel_row = \<lparr>s_id = 0, s_type = SourceTypeTelegramChannel,
     s_config = serializeConfig (Some (TelegramChannelConfig 4242 ''golang'')), s_created_at = 0, s_updated_at = 1,
     s_next_summary_at = None\<rparr>"

lemma channel_config: "deserializeConfig SourceTypeTelegramChannel (s_config channel_row) = Inr (TelegramChannelConfig 4242 ''golang'')"
  unfolding channel_row_def source_row.simps by (rule config_roundtrip) (simp_all add: ValidateSourceConfig_def)

lemma channel_row_ok: "source_row_ok channel_row"
  unfolding source_row_ok_def channel_config using channel_config by (simp add: channel_row_def ValidateSourceType_def)

lemma channel_row_reachable: "reachable sample_server C X (quiet_world (empty_db\<lparr>sources := [channel_row]\<rparr>))"
proof -
  let ?c = "TelegramChannelConfig 4242 ''golang''"
  let ?q = "CreateSource SOURCE_TYPE_TELEGRAM_CHANNEL (Some (Some (SourceConfig_TelegramChannel (Some (4242, ''golang'')))))"
  define w1 where "w1 = (quiet_world empty_db)\<lparr>clock := advance (advance int), fresh_ids := advance of_nat\<rparr>"
  have w1: "fault_free w1" "committed w1 = empty_db" by (simp_all add: fault_free_def w1_def)
  have ins: "write_stmt (insert_source channel_row) now (committed w1) = Inr ((), empty_db\<lparr>sources := [channel_row]\<rparr>)" for now
    by (simp add: w1 write_stmt_def insert_source_def source_ids_def empty_db_def)
  have exec: "\<exists>w2. exec_direct (write_stmt (insert_source channel_row)) w1 = (Inr (), w2) \<and>
      committed w2 = empty_db\<lparr>sources := [channel_row]\<rparr>"
    by (simp add: fault_free_write [OF w1(1)] ins)
  then obtain w2 where w2: "exec_direct (write_stmt (insert_source channel_row)) w1 = (Inr (), w2)"
    "committed w2 = empty_db\<lparr>sources := [channel_row]\<rparr>" by blast
  obtain s where s: "source_to_domain decimal_ext channel_row = Inr s"
    using channel_row_ok source_row_ok_to_domain [of channel_row decimal_ext] by blast
  have "SourceUsecase_Create decimal_ext SourceTypeTelegramChannel (Some ?c) (quiet_world empty_db) = (Inr s, w2)"
    using w2(1) s
    by (simp add: SourceUsecase_Create_def ValidateSourceType_def ValidateSourceConfig_def time_now_def source_repo_Save_def new_uuid_def
        w1_def channel_row_def Let_def)
  then have "committed (snd (serve sample_server ?q (quiet_world empty_db))) = empty_db\<lparr>sources := [channel_row]\<rparr>"
    using w2(2)
    by (simp add: sample_server_def sample_summary_deps_def V1CreateSource_def source_mapProtoConfigToDomain_def tg_parts_def
        source_reply_def answer_def split: sum.split)
  moreover have "reachable sample_server C X (quiet_world empty_db)" by (rule initial) simp_all
  ultimately show ?thesis
    by (metis after_step api_call surroundings prod.collapse quiet_world_simps(1,2))
qed



end
