(* ===== verification/Post_Lifecycle.thy ===== *)
theory Post_Lifecycle
  imports System
begin

text \<open>
  The way of a post from its creation to its summary: the call of the API stores the post with
  its event, a worker of the summarization pool claims the event, asks the provider, stores the
  summary and settles the event, and the API lists the summary.
\<close>

section \<open>The claim\<close>

text \<open>An event that is the only one to be claimed is claimed.\<close>

lemma claim_rows_only:
  assumes "q \<in> set rs" and "claimable now q" and "\<forall>x \<in> set rs. claimable now x \<longrightarrow> x = q"
  shows "claim_rows [] v ttl now rs =
    Some (claim_row v ttl now q, update_where (\<lambda>x. l_id x = l_id q) (claim_row v ttl now) rs)"
proof (cases "claim_rows [] v ttl now rs")
  case None
  then have "\<not> claimable now q" using assms(1) unfolding claim_rows_None by auto
  then show ?thesis using assms(2) by blast
next
  case (Some p)
  obtain r rs' where p: "p = (r, rs')" by (cases p)
  obtain x where "x \<in> set rs" "claimable now x" "r = claim_row v ttl now x"
    "rs' = update_where (\<lambda>y. l_id y = l_id x) (claim_row v ttl now) rs"
    by (rule claim_rows_Some [OF Some [unfolded p]])
  then show ?thesis using assms(3) Some p by auto
qed

lemma summary_claim_taken:
  assumes "fault_free w" and "row_locks w 0 = []"
    and "claim_rows [] v ttl (clock w 0) (summary_events (committed w)) = Some (r, rs)"
  shows "summary_outbox_ClaimOne E v ttl w = (Inr (scanSummaryEvent E r),
    (after_read w)\<lparr>row_locks := advance (row_locks w), committed := (committed w)\<lparr>summary_events := rs\<rparr>\<rparr>)"
  using assms
  by (simp add: summary_outbox_ClaimOne_def take_locks_def exec_tx_outside_fault_free fault_free_def claim_summary_stmt_def
      query_row_def after_read_def)

section \<open>The handler succeeds\<close>

text \<open>The provider gives a usable answer within the attempts, and the context stays open.\<close>

definition provider_answers :: "SummaryDeps \<Rightarrow> ProcessingMode \<Rightarrow> string \<Rightarrow> world \<Rightarrow> bool" where
  "provider_answers D mode ans w \<longleftrightarrow>
     mode \<in> fst ` set (dep_prompts D) \<and> mode \<in> fst ` set (dep_llms D) \<and> ctx_done w = (\<lambda>_. None) \<and>
     (let n = sf_LlmMaxRetries (dep_cfg D) in \<exists>k < nat (if n \<le> 0 then defaultLLMMaxRetries else n).
        (\<forall>j < k. \<not> usable (llm_replies w j)) \<and> usable (llm_replies w k) \<and> llm_replies w k = Inr ans)"

lemma map_of_key: "k \<in> fst ` set xs \<Longrightarrow> \<exists>v. map_of xs k = Some v"
  by (metis map_of_eq_None_iff not_None_eq)

lemma summarize_answers:
  assumes "provider_answers D mode ans w"
  shows "\<exists>w'. summarizeWithLLMRetry (dep_prompts D) (dep_llms D) (sf_LlmMaxRetries (dep_cfg D)) mode txt w = (Inr ans, w') \<and>
    same_store w w'"
proof -
  define n where "n = nat (if sf_LlmMaxRetries (dep_cfg D) \<le> 0 then defaultLLMMaxRetries else sf_LlmMaxRetries (dep_cfg D))"
  obtain sys c where keys: "map_of (dep_prompts D) mode = Some sys" "map_of (dep_llms D) mode = Some c"
    using assms map_of_key unfolding provider_answers_def by metis
  obtain r w' where run: "llm_attempts sys txt n n (Text []) w = (r, w')" by fastforce
  then have llm: "summarizeWithLLMRetry (dep_prompts D) (dep_llms D) (sf_LlmMaxRetries (dep_cfg D)) mode txt w = (r, w')"
    using keys by (simp add: summarizeWithLLMRetry_def prompt_For_def router_For_def n_def Let_def)
  obtain k where k: "k < n" "\<forall>j < k. \<not> usable (llm_replies w j)" "usable (llm_replies w k)" "llm_replies w k = Inr ans"
    and open_ctx: "ctx_done w = (\<lambda>_. None)" using assms by (auto simp: provider_answers_def Let_def n_def)
  from llm_attempts_first_usable [OF open_ctx run] have "r = Inr ans"
    using k by (metis linorder_neqE_nat)
  then show ?thesis using llm llm_attempts_frame [OF run] by blast
qed

lemma post_repo_Get_fault_free:
  assumes "fault_free w" and "parse_uuid E ident = Some (p_id p)" and "p \<in> set (posts (committed w))"
    and "distinct (map p_id (posts (committed w)))"
  shows "\<exists>post. post_repo_Get E ident w = (Inr post, after_read (after_read w)) \<and> post_Text post = p_text p"
  using assms filter_key_one [OF assms(4,3)]
  by (simp add: post_repo_Get_def parse_id_def only_post_with_source_def exec_def fault_free_read ent_only_def
      post_to_domain_with_source_def split: option.split)

text \<open>The summary that \<open>save_summary\<close> stores for a post.\<close>

definition post_summary :: "post_row \<Rightarrow> uuid \<Rightarrow> string \<Rightarrow> time \<Rightarrow> summary_row" where
  "post_summary p i body t =
     \<lparr>m_id = i, m_post_id = Some (p_id p), m_source_id = p_source_id p, m_text = body,
      m_word_count = int (length (Go_Base.fields body)), m_created_at = t\<rparr>"

lemma save_summary_fault_free:
  assumes E: "ext_laws E" and "fault_free w" and "fresh_ids w 0 \<notin> summary_ids (committed w)"
    and "p \<in> set (posts (committed w))" and "p_source_id p \<in> source_ids (committed w)"
  shows "\<exists>w'. save_summary E (Some (uuid_string E (p_id p))) (uuid_string E (p_source_id p)) body w =
      (Inr (uuid_string E (fresh_ids w 0)), w') \<and> fault_free w' \<and> clock_suffix w w' \<and>
    committed w' = (committed w)\<lparr>summaries := summaries (committed w) @ [post_summary p (fresh_ids w 0) body (clock w 0)]\<rparr>"
proof -
  define m where "m = post_summary p (fresh_ids w 0) body (clock w 0)"
  define w1 where "w1 = w\<lparr>fresh_ids := advance (fresh_ids w), clock := advance (clock w)\<rparr>"
  define w2 where "w2 = (after_read w1)\<lparr>committed := (committed w)\<lparr>summaries := summaries (committed w) @ [m]\<rparr>\<rparr>"
  have w1: "open_tx w1 = None" "faults w1 0 = Healthy" "committed w1 = committed w"
    using assms(2) by (simp_all add: w1_def fault_free_def)
  have "p_id p \<in> post_ids (committed w)" using assms(4) by (simp add: post_ids_def)
  then have "write_stmt (insert_summary m) now (committed w) =
      Inr ((), (committed w)\<lparr>summaries := summaries (committed w) @ [m]\<rparr>)" for now
    using assms(3,5) by (simp add: write_stmt_def insert_summary_def m_def post_summary_def opt_in_def)
  then have "exec_tx (write_stmt (insert_summary m)) w1 = (Inr (), w2)"
    by (simp add: exec_tx_outside_fault_free [OF w1(1,2)] w1(3) w2_def after_read_def)
  then have "save_summary E (Some (uuid_string E (p_id p))) (uuid_string E (p_source_id p)) body w =
      (Inr (uuid_string E (fresh_ids w 0)), w2)"
    by (simp add: save_summary_def new_uuid_def time_now_def w1_def [symmetric] summary_repo_Save_def parse_id_def
        parse_opt_id_def ext_lawsD [OF E] summary_row_of_def m_def post_summary_def summary_to_domain_def)
  moreover have "clock w2 = (\<lambda>n. clock w (n + 2))" by (simp add: w2_def w1_def advance_def)
  then have "clock_suffix w w2" unfolding clock_suffix_def by blast
  moreover have "fault_free w2" using assms(2) by (simp add: w2_def w1_def fault_free_def)
  ultimately show ?thesis by (auto simp: w2_def m_def)
qed

lemma ProcessPostEvent_succeeds:
  assumes E: "ext_laws (dep_ext D)" and w: "fault_free w" and d: "distinct (map p_id (posts (committed w)))"
    and src: "p_source_id p \<in> source_ids (committed w)" and event: "se_PostID event = Some (uuid_string (dep_ext D) (p_id p))" "se_SourceID event = uuid_string (dep_ext D) (p_source_id p)"
    and live: "time_sub (clock w 0) (se_CreatedAt event) \<le> sint (or_default (sf_EventTtl (dep_cfg D)) 86400)"
    and p: "p \<in> set (posts (committed w))" and none: "\<forall>m \<in> set (summaries (committed w)). m_post_id m \<noteq> Some (p_id p)"
    and llm: "provider_answers D ProcessingModeSelfContained ans w" and fresh: "fresh_ids w 0 \<notin> summary_ids (committed w)"
  shows "\<exists>t w'. ProcessPostEvent D event w = (Inr (uuid_string (dep_ext D) (fresh_ids w 0)), w') \<and> fault_free w' \<and>
    clock_suffix w w' \<and> committed w' = (committed w)\<lparr>summaries := summaries (committed w) @ [post_summary p (fresh_ids w 0) ans t]\<rparr>"
proof -
  let ?E = "dep_ext D" and ?id = "uuid_string (dep_ext D) (p_id p)"
  define w1 where "w1 = w\<lparr>clock := advance (clock w)\<rparr>"
  define w4 where "w4 = after_read (after_read (after_read w1))"
  have w1: "fault_free w1" "committed w1 = committed w" using w by (simp_all add: w1_def fault_free_def)
  have 1: "ensureNotExpired (dep_cfg D) event w = (None, w1)" using live by (simp add: ensureNotExpired_def time_now_def w1_def)
  have 2: "summary_repo_ListByPost ?E ?id w1 = (Inr [], after_read w1)"
    using none by (simp add: summary_repo_ListByPost_def parse_id_def ext_lawsD [OF E] fault_free_read [OF w1(1)] w1(2)
        newest_first_def)
  obtain post where 3: "post_repo_Get ?E ?id (after_read w1) = (Inr post, w4)"
    using post_repo_Get_fault_free [of "after_read w1" ?E ?id p] w1 p d ext_lawsD [OF E]
    by (auto simp: w4_def)
  have w4: "fault_free w4" "committed w4 = committed w" "fresh_ids w4 = fresh_ids w" "provider_answers D ProcessingModeSelfContained ans w4"
    using w1 llm by (simp_all add: w4_def w1_def provider_answers_def)
  obtain w5 where 4: "summarizeWithLLMRetry (dep_prompts D) (dep_llms D) (sf_LlmMaxRetries (dep_cfg D))
      ProcessingModeSelfContained (post_Text post) w4 = (Inr ans, w5)" "same_store w4 w5"
    using summarize_answers [OF w4(4)] by blast
  have w5: "fault_free w5" "committed w5 = committed w" "fresh_ids w5 = fresh_ids w" "clock w5 = clock w4"
    using 4(2) w4 by (simp_all add: same_store_def fault_free_def)
  obtain w6 where 5: "save_summary ?E (Some ?id) (uuid_string ?E (p_source_id p)) ans w5 = (Inr (uuid_string ?E (fresh_ids w 0)), w6)"
    "fault_free w6" "clock_suffix w5 w6" "committed w6 = (committed w)\<lparr>summaries := summaries (committed w) @
      [post_summary p (fresh_ids w 0) ans (clock w5 0)]\<rparr>"
    using save_summary_fault_free [OF E w5(1), of p ans] fresh p src w5 by auto
  have "ProcessPostEvent D event w = (Inr (uuid_string ?E (fresh_ids w 0)), w6)"
    by (simp add: ProcessPostEvent_def 1 2 3 4(1) 5(1) event)
  moreover have "clock w5 = (\<lambda>n. clock w (n + 4))" by (simp add: w5(4) w4_def w1_def advance_def numeral_eq_Suc)
  then have "clock_suffix w w5" unfolding clock_suffix_def by blast
  then have "clock_suffix w w6" using 5(3) by (rule clock_suffix_trans)
  ultimately show ?thesis using 5(2,4) by blast
qed

section \<open>One turn of a worker\<close>

text \<open>An event of a post that a worker can claim, and no other.\<close>

definition next_event :: "time \<Rightarrow> post_row \<Rightarrow> summary_event_row \<Rightarrow> database \<Rightarrow> bool" where
  "next_event now p q d \<longleftrightarrow> q \<in> set (summary_events d) \<and> e_event_type q = SummarizePost \<and>
     e_post_id q = Some (p_id p) \<and> e_source_id q = p_source_id p \<and>
     claimable now q \<and> (\<forall>x \<in> set (summary_events d). claimable now x \<longrightarrow> x = q)"

text \<open>The lease of a turn that starts now and the life of the event last beyond every later reading.\<close>

definition in_time :: "SummaryConf \<Rightarrow> summary_event_row \<Rightarrow> world \<Rightarrow> bool" where
  "in_time cfg q w \<longleftrightarrow> (\<forall>n. clock w n < clock w 0 + sql_interval (lease_ttl cfg) \<and>
     time_sub (clock w n) (l_created_at q) \<le> sint (or_default (sf_EventTtl cfg) 86400))"

lemma update_where_claimed:
  "update_where (\<lambda>x. l_id x = l_id q) (\<lambda>_. r) (update_where (\<lambda>x. l_id x = l_id q) (claim_row v ttl now) rs) =
   update_where (\<lambda>x. l_id x = l_id q) (\<lambda>_. r) rs"
  by (simp add: update_where_def claim_row_def)

lemma runWorker_summarizes:
  assumes E: "ext_laws (dep_ext D)" and w: "fault_free w" and lk: "row_locks w 0 = []" and d: "schema_ok (committed w)"
    and p: "p \<in> set (posts (committed w))" and none: "\<forall>m \<in> set (summaries (committed w)). m_post_id m \<noteq> Some (p_id p)"
    and q: "next_event (clock w 0) p q (committed w)" and time: "in_time (dep_cfg D) q w"
    and llm: "provider_answers D ProcessingModeSelfContained ans w" and fresh: "fresh_ids w 0 \<notin> summary_ids (committed w)"
  shows "\<exists>t q' w'. runWorker D fuel v (\<lambda>_. True) 1 w = Some (False, w') \<and> fault_free w' \<and>
    l_id q' = l_id q \<and> l_status q' = Completed \<and> e_summary_id q' = Some (fresh_ids w 0) \<and>
    committed w' = (committed w)\<lparr>summaries := summaries (committed w) @ [post_summary p (fresh_ids w 0) ans t],
      summary_events := update_where (\<lambda>x. l_id x = l_id q) (\<lambda>_. q') (summary_events (committed w))\<rparr>"
proof -
  let ?E = "dep_ext D" and ?ttl = "lease_ttl (dep_cfg D)" and ?sid = "uuid_string (dep_ext D) (fresh_ids w 0)"
  let ?pol = "SummaryUsecase_RetryPolicy (dep_cfg D)"
  define r where "r = claim_row v ?ttl (clock w 0) q"
  define rs where "rs = update_where (\<lambda>x. l_id x = l_id q) (claim_row v ?ttl (clock w 0)) (summary_events (committed w))"
  define w1 where "w1 = (after_read w)\<lparr>row_locks := advance (row_locks w), committed := (committed w)\<lparr>summary_events := rs\<rparr>\<rparr>"
  define w2 where "w2 = w1\<lparr>clock := advance (clock w1)\<rparr>"
  have "claim_rows [] v ?ttl (clock w 0) (summary_events (committed w)) = Some (r, rs)"
    using q unfolding next_event_def r_def rs_def by (intro claim_rows_only) auto
  from summary_claim_taken [OF w lk this]
  have 1: "summary_outbox_ClaimOne ?E v ?ttl w = (Inr (scanSummaryEvent ?E r), w1)" by (simp add: w1_def)
  have w2: "fault_free w2" "committed w2 = (committed w)\<lparr>summary_events := rs\<rparr>" "fresh_ids w2 = fresh_ids w"
    "provider_answers D ProcessingModeSelfContained ans w2"
    using w llm by (simp_all add: w2_def w1_def fault_free_def provider_answers_def after_read_def)
  have "clock w2 = (\<lambda>n. clock w (n + 2))" by (simp add: w2_def w1_def advance_def)
  then have c2: "clock_suffix w w2" unfolding clock_suffix_def by blast
  let ?e = "scanSummaryEvent ?E r"
  have e: "se_PostID ?e = Some (uuid_string ?E (p_id p))" "se_SourceID ?e = uuid_string ?E (p_source_id p)"
    "se_EventType ?e = SummarizePost" "parse_uuid ?E (se_ID ?e) = Some (l_id r)" "se_CreatedAt ?e = l_created_at q"
    using q by (simp_all add: scanSummaryEvent_eq summary_event_to_domain_def r_def claim_row_def next_event_def ext_lawsD [OF E])
  have live: "time_sub (clock w2 0) (se_CreatedAt ?e) \<le> sint (or_default (sf_EventTtl (dep_cfg D)) 86400)"
    using time c2 by (auto simp: in_time_def clock_suffix_def e(5))
  have src: "p_source_id p \<in> source_ids (committed w2)" using d p by (simp add: schema_ok_def posts_ok_def w2(2) source_ids_def)
  obtain t w3 where 2: "ProcessPostEvent D ?e w2 = (Inr ?sid, w3)" "fault_free w3" "clock_suffix w2 w3"
    "committed w3 = (committed w)\<lparr>summary_events := rs, summaries := summaries (committed w) @ [post_summary p (fresh_ids w 0) ans t]\<rparr>"
    using ProcessPostEvent_succeeds [OF E w2(1) _ src e(1,2) live _ _ w2(4)] schema_okD(2) [OF d] p none fresh w2(2,3)
    by (auto simp: summary_ids_def)
  define w4 where "w4 = finalize ?E ?pol v ?e (Inr ?sid) w3"
  have "worker_turn (summary_outbox_ClaimOne ?E v ?ttl) (processEvent D fuel v) w = Some (True, w4)"
    by (simp add: worker_turn_def 1 processEvent_def time_now_def dispatch_def e(3) w2_def [symmetric] 2(1) w4_def)
  then have run: "runWorker D fuel v (\<lambda>_. True) 1 w = Some (False, w4)" by (simp add: runWorker_def)
  have h: "held v r w3"
  proof -
    obtain k where k: "clock w3 = (\<lambda>n. clock w (n + k))" using clock_suffix_trans [OF c2 2(3)] by (auto simp: clock_suffix_def)
    have "r \<in> set rs" using q by (auto simp: r_def rs_def next_event_def set_update_where)
    moreover have "distinct (map l_id rs)" using schema_okD(4) [OF d]
      by (simp add: rs_def map_update_where claim_row_def summary_events_unique_def)
    moreover have "owns_lease (l_id r) v (clock w3 n) r" for n
      using time by (simp add: owns_lease_def r_def claim_row_def in_time_def k)
    ultimately show ?thesis by (simp add: held_def 2(4))
  qed
  obtain q' where q': "settled ?E ?pol (Inr ?sid) (clock w3 0) Completed r q'"
    "committed w4 = (committed w3)\<lparr>summary_events := update_where (\<lambda>x. l_id x = l_id r) (\<lambda>_. q') (summary_events (committed w3))\<rparr>"
    using finalize_done [OF 2(2) h e(4), of ?sid ?pol] by (auto simp: w4_def 2(4) summary_ids_def post_summary_def ext_lawsD [OF E])
  have "calm summary_pool_view {Healthy} UNIV UNIV (summary_pool_view (committed w3)) w3"
    using 2(2) by (auto simp: calm_def fault_free_def)
  from finalize_writes [OF this e(4), where handled = "Inr ?sid" and policy = ?pol and v = v]
  have "open_tx w4 = None" "range (faults w4) \<subseteq> {Healthy}" by (auto simp: w4_def calm_def)
  then have "fault_free w4" by (auto simp: fault_free_def dest: range_subsetD)
  moreover have "l_id r = l_id q" by (simp add: r_def claim_row_def)
  ultimately show ?thesis using run q' 2(4)
    by (intro exI [of _ t] exI [of _ q'] exI [of _ w4]) (simp add: settled_def rs_def update_where_claimed ext_lawsD [OF E])
qed

section \<open>From the call to the summary\<close>

text \<open>
  The surroundings let a worker do its turn: nothing fails, no row is locked, the provider
  answers, the events that wait are in time, and the next identifier is a new one.
\<close>

definition turn_possible :: "server \<Rightarrow> string \<Rightarrow> database \<Rightarrow> world \<Rightarrow> bool" where
  "turn_possible S ans d w \<longleftrightarrow> committed w = d \<and> fault_free w \<and> row_locks w 0 = [] \<and>
     provider_answers (srv_deps S) ProcessingModeSelfContained ans w \<and> fresh_ids w 0 \<notin> summary_ids d \<and>
     (\<forall>e \<in> set (summary_events d). l_status e = Pending \<longrightarrow> in_time (dep_cfg (srv_deps S)) e w)"

text \<open>What the API and the queue show of a summarized post.\<close>

definition summarized :: "server \<Rightarrow> PbPost \<Rightarrow> string \<Rightarrow> world \<Rightarrow> bool" where
  "summarized S p ans w \<longleftrightarrow> (\<exists>m sid. fst (V1ListPostSummaries (srv_pb S) (srv_deps S) (pbp_Id p) w) = Inr [m] \<and>
     pbm_PostId m = Some (pbp_Id p) \<and> pbm_Text m = ans \<and> pbm_Id m = uuid_string (srv_ext S) sid \<and>
     (\<exists>e \<in> set (summary_events (committed w)). l_status e = Completed \<and> e_summary_id e = Some sid) \<and>
     (\<forall>e \<in> set (summary_events (committed w)). terminal_status (l_status e)))"

lemma ListPostSummaries_one:
  assumes E: "ext_laws (srv_ext S)" and w: "fault_free w" and none: "\<forall>x \<in> set ms. m_post_id x \<noteq> Some u"
    and ms: "summaries (committed w) = ms @ [m]" "m_post_id m = Some u"
  shows "fst (V1ListPostSummaries (srv_pb S) (srv_deps S) (uuid_string (srv_ext S) u) w) =
    Inr [mapSummaryToProto (srv_pb S) (summary_to_domain (srv_ext S) m)]"
proof -
  have "filter (\<lambda>x. m_post_id x = Some u) ms = []" using none by (simp add: filter_empty_conv)
  then show ?thesis
    by (simp add: V1ListPostSummaries_def SummaryUsecase_ListPostSummaries_def reply_def summary_repo_ListByPost_def parse_id_def
        ext_lawsD [OF E] fault_free_read [OF w] ms newest_first_def)
qed

text \<open>A worker's turn on a database whose only open event is the one of a post without a summary.\<close>

lemma turn_summarizes:
  assumes E: "ext_laws (srv_ext S)" and d: "schema_ok (committed w)"
    and p: "p \<in> set (posts (committed w))" and none: "\<forall>m \<in> set (summaries (committed w)). m_post_id m \<noteq> Some (p_id p)"
    and ev: "summary_events (committed w) = done @ [q]" "\<forall>e \<in> set done. terminal_status (l_status e)"
      "e_event_type q = SummarizePost" "e_post_id q = Some (p_id p)" "e_source_id q = p_source_id p"
      "l_status q = Pending" "l_next_attempt_at q = None"
    and turn: "turn_possible S ans (committed w) w" and id: "pbp_Id msg = uuid_string (srv_ext S) (p_id p)"
  shows "\<exists>w'. runWorker (srv_deps S) fuel v (\<lambda>_. True) 1 w = Some (False, w') \<and> summarized S msg ans w'"
proof -
  have q: "next_event (clock w 0) p q (committed w)"
    using ev by (auto simp: next_event_def claimable_def terminal_status_def)
  have one: "update_where (\<lambda>x. l_id x = l_id q) (\<lambda>_. q') (done @ [q]) = done @ [q']" for q'
    using schema_okD(4) [OF d] ev(1) by (auto simp: summary_events_unique_def update_where_def image_iff intro!: map_idI)
  have t: "fault_free w" "row_locks w 0 = []" "in_time (dep_cfg (srv_deps S)) q w"
    "provider_answers (srv_deps S) ProcessingModeSelfContained ans w" "fresh_ids w 0 \<notin> summary_ids (committed w)"
    using turn ev(1,6) by (simp_all add: turn_possible_def)
  obtain t q' w' where run: "runWorker (srv_deps S) fuel v (\<lambda>_. True) 1 w = Some (False, w')" "fault_free w'"
    and q': "l_status q' = Completed" "e_summary_id q' = Some (fresh_ids w 0)"
    and db: "committed w' = (committed w)\<lparr>summaries := summaries (committed w) @ [post_summary p (fresh_ids w 0) ans t],
      summary_events := done @ [q']\<rparr>"
    using runWorker_summarizes [OF E t(1,2) d p none q t(3-5), of fuel v] unfolding ev(1) one by blast
  have "summarized S msg ans w'"
    unfolding summarized_def id
    using ListPostSummaries_one [OF E run(2) none, of "post_summary p (fresh_ids w 0) ans t"] q' ev(2)
    by (auto simp: db post_summary_def mapSummaryToProto_def summary_to_domain_def terminal_status_def)
  with run(1) show ?thesis by blast
qed

text \<open>The creation of a new post of a self-contained source left the post and its event.\<close>

lemma created_with_event:
  assumes eff: "create_effect E ProcessingModeSelfContained sid x text d saved d'"
    and new: "\<forall>q \<in> set (posts d). \<not> post_key sid x q" and row: "row \<in> set (posts d')" "post_key sid x row"
  obtains q where "e_post_id q = Some (p_id row)" "e_source_id q = sid" "e_event_type q = SummarizePost" "l_status q = Pending"
    "l_next_attempt_at q = None" "d' = d\<lparr>posts := posts d @ [row], summary_events := summary_events d @ [q]\<rparr>"
proof -
  obtain r where r: "filter (post_key sid x) (posts d') = [r]"
    and alt: "r \<in> set (posts d) \<or> (\<exists>q. e_post_id q = Some (p_id r) \<and> e_source_id q = sid \<and>
      e_event_type q = SummarizePost \<and> l_status q = Pending \<and> l_next_attempt_at q = None \<and>
      d' = d\<lparr>posts := posts d @ [r], summary_events := summary_events d @ [q]\<rparr>)"
    using eff unfolding create_effect_def by auto
  have "row \<in> set (filter (post_key sid x) (posts d'))" using row by simp
  then have "row = r" using r by simp
  with alt new row(2) that show ?thesis by blast
qed

text \<open>
  C4. From every reachable state whose queue of summarization events is settled: when nothing
  fails, the creation of a valid new post of a self-contained source succeeds, and one turn of
  a worker on the resulting database, in any surroundings in which the provider gives a usable
  answer within the attempts and the leases, summarizes it: the API lists exactly one summary
  of the post, with the text of the answer, the event of the post is completed with it, and
  no event is left open.
\<close>

theorem created_post_summarized:
  assumes reach: "reachable S C X w" and E: "ext_laws (srv_ext S)" and w: "fault_free w"
    and v: "ValidateCreatePost (srv_ext S) sourceID (pr_ExternalId req) (pr_Text req) (AsTime (srv_pb S) (pr_PublishedAt req)) = None"
    and src: "parse_uuid (srv_ext S) sourceID = Some (s_id src)" "src \<in> set (sources (committed w))" "source_row_ok src"
      "ProcessingModeForType (s_type src) = ProcessingModeSelfContained"
    and new: "\<forall>q \<in> set (posts (committed w)). \<not> post_key (s_id src) (pr_ExternalId req) q"
    and idle: "\<forall>e \<in> set (summary_events (committed w)). terminal_status (l_status e)"
    and fresh: "fresh_ids w 0 \<notin> post_ids (committed w)" "fresh_ids w 1 \<notin> l_id ` set (summary_events (committed w))"
      "\<forall>e \<in> set (summary_events (committed w)). e_post_id e \<noteq> Some (fresh_ids w 0)"
  shows "\<exists>p w1. V1CreatePost (srv_pb S) (srv_ext S) sourceID req w = (Inr p, w1) \<and>
    (\<forall>w2 ans fuel v. turn_possible S ans (committed w1) w2 \<longrightarrow>
      (\<exists>w3. runWorker (srv_deps S) fuel v (\<lambda>_. True) 1 w2 = Some (False, w3) \<and> summarized S p ans w3))"
proof -
  obtain saved w1 row where create: "V1CreatePost (srv_pb S) (srv_ext S) sourceID req w = (Inr (post_mapDomainToProto (srv_pb S) saved), w1)"
    and "fault_free w1" and d1: "schema_ok (committed w1)"
    and eff: "create_effect (srv_ext S) (ProcessingModeForType (s_type src)) (s_id src) (pr_ExternalId req) (pr_Text req)
        (committed w) saved (committed w1)"
    and row: "row \<in> set (posts (committed w1))" "post_key (s_id src) (pr_ExternalId req) row"
      "saved = post_value (srv_ext S) (sources (committed w1)) row"
    using V1CreatePost_succeeds [OF reach E w v src(1-3) fresh] .
  let ?msg = "post_mapDomainToProto (srv_pb S) saved"
  obtain q where q: "e_post_id q = Some (p_id row)" "e_source_id q = s_id src" "e_event_type q = SummarizePost" "l_status q = Pending"
      "l_next_attempt_at q = None"
    and db: "committed w1 = (committed w)\<lparr>posts := posts (committed w) @ [row], summary_events := summary_events (committed w) @ [q]\<rparr>"
    using created_with_event [OF eff [unfolded src(4)] new row(1,2)] .
  have id: "pbp_Id ?msg = uuid_string (srv_ext S) (p_id row)" by (simp add: row(3) post_mapDomainToProto_def)
  have "p_id row \<notin> post_ids (committed w)" using schema_okD(2) [OF d1] by (simp add: db post_ids_def)
  then have none: "\<forall>m \<in> set (summaries (committed w)). m_post_id m \<noteq> Some (p_id row)"
    using reachable_schema [OF reach] by (auto simp: schema_ok_def summaries_ok_def opt_in_def)
  have "\<forall>w2 ans fuel v. turn_possible S ans (committed w1) w2 \<longrightarrow>
      (\<exists>w3. runWorker (srv_deps S) fuel v (\<lambda>_. True) 1 w2 = Some (False, w3) \<and> summarized S ?msg ans w3)"
  proof (intro allI impI)
    fix w2 ans fuel v assume t: "turn_possible S ans (committed w1) w2"
    then have w2: "committed w2 = committed w1" by (simp add: turn_possible_def)
    have ev: "summary_events (committed w2) = summary_events (committed w) @ [q]"
      and p: "row \<in> set (posts (committed w2))" "\<forall>m \<in> set (summaries (committed w2)). m_post_id m \<noteq> Some (p_id row)"
      using none by (simp_all add: w2 db)
    from turn_summarizes [OF E _ p ev idle q(3,1) _ q(4,5) _ id] d1 t q(2) row(2) [unfolded post_key_def]
    show "\<exists>w3. runWorker (srv_deps S) fuel v (\<lambda>_. True) 1 w2 = Some (False, w3) \<and> summarized S ?msg ans w3"
      by (simp add: w2)
  qed
  then show ?thesis using create by blast
qed

text \<open>A post created for the channel of the example, and a worker at the instant its event was created.\<close>

theorem created_post_summarized_witness:
  "\<exists>p w1. V1CreatePost (srv_pb sample_server) (srv_ext sample_server) ''0''
       \<lparr>pr_ExternalId = ''a'', pr_Text = ''b'', pr_PublishedAt = Some \<lparr>ts_Seconds = 5, ts_Nanos = 0\<rparr>, pr_Author = None, pr_Metadata = None\<rparr>
       (quiet_world (empty_db\<lparr>sources := [channel_row]\<rparr>)) = (Inr p, w1) \<and>
     (\<exists>w3. runWorker (srv_deps sample_server) 0 ''v'' (\<lambda>_. True) 1
         ((quiet_world (committed w1))\<lparr>clock := \<lambda>_. l_created_at (last (summary_events (committed w1)))\<rparr>) = Some (False, w3) \<and>
       summarized sample_server p ''summary'' w3)"
proof -
  let ?w = "quiet_world (empty_db\<lparr>sources := [channel_row]\<rparr>)"
  let ?req = "\<lparr>pr_ExternalId = ''a'', pr_Text = ''b'', pr_PublishedAt = Some \<lparr>ts_Seconds = 5, ts_Nanos = 0\<rparr>, pr_Author = None, pr_Metadata = None\<rparr>"
  have zero: "parse_uuid decimal_ext ''0'' = Some 0" by code_simp
  have valid: "ValidateCreatePost decimal_ext ''0'' ''a'' ''b'' (AsTime seconds_nanos (Some \<lparr>ts_Seconds = 5, ts_Nanos = 0\<rparr>)) = None"
    by code_simp
  have x: "srv_ext sample_server = decimal_ext" "srv_pb sample_server = seconds_nanos"
    by (simp_all add: sample_server_def sample_summary_deps_def)
  have row: "s_id channel_row = 0" "s_type channel_row = SourceTypeTelegramChannel" by (simp_all add: channel_row_def)
  obtain p w1 where c: "V1CreatePost seconds_nanos decimal_ext ''0'' ?req ?w = (Inr p, w1)"
    and turn: "turn_possible sample_server ans (committed w1) w2 \<Longrightarrow>
      \<exists>w3. runWorker (srv_deps sample_server) fuel v (\<lambda>_. True) 1 w2 = Some (False, w3) \<and> summarized sample_server p ans w3" for w2 ans fuel v
    using created_post_summarized [OF channel_row_reachable, where src = channel_row and sourceID = "''0''" and req = ?req, unfolded x]
    by (auto simp: fault_free_def zero valid row channel_row_ok empty_db_def post_ids_def ProcessingModeForType_def)
  have times: "0 < sql_interval (lease_ttl (dep_cfg sample_summary_deps))"
    "time_sub t t \<le> sint (or_default (sf_EventTtl (dep_cfg sample_summary_deps)) 86400)" for t
    by (simp_all add: time_sub_def) code_simp+
  have "trim_space ''summary'' \<noteq> []" by code_simp
  then have ans: "provider_answers sample_summary_deps ProcessingModeSelfContained ''summary'' ((quiet_world d)\<lparr>clock := t\<rparr>)" for d t
    by (auto simp: provider_answers_def sample_summary_deps_def sample_summary_conf_def defaultLLMMaxRetries_def usable_def
        AllProcessingModes_def quiet_world_def intro!: exI [of _ 0])
  obtain saved where create: "PostUsecase_Create decimal_ext ''0'' ''a'' ''b'' (AsTime seconds_nanos (pr_PublishedAt ?req)) None
      (default_metadata None) ?w = (Inr saved, w1)"
    using c by (auto simp: V1CreatePost_def reply_def split: prod.splits sum.splits)
  have "summaries (committed w1) = [] \<and> (\<forall>e \<in> set (summary_events (committed w1)). e = last (summary_events (committed w1)))"
    using PostUsecase_Create_effect [OF decimal_ext_laws _ create] by (auto simp: create_effect_def empty_db_def split: if_splits)
  then have "turn_possible sample_server ''summary'' (committed w1)
      ((quiet_world (committed w1))\<lparr>clock := \<lambda>_. l_created_at (last (summary_events (committed w1)))\<rparr>)"
    using times ans by (auto simp: turn_possible_def in_time_def fault_free_def summary_ids_def sample_server_def)
  then show ?thesis using c turn unfolding x by blast
qed

end
