(* ===== verification/Ctl_Settings.thy ===== *)
theory Ctl_Settings
  imports Api
begin

text \<open>
  The command line client \<open>feediumctl\<close>, first part: its errors (\<open>app/errors.go\<close>), its
  configuration file (\<open>config/config.go\<close>) and the resolution of its settings
  (\<open>resolve/resolve.go\<close>, \<open>resolve/output.go\<close>, \<open>app/pipeline.go\<close>,
  \<open>transport/grpc.go\<close>), all under \<open>cmd/feediumctl/internal\<close>. The command line library, the
  file system, the YAML reader and \<open>time.ParseDuration\<close> are fields of an environment.
\<close>

section \<open>Errors\<close>

text \<open>An error made by the client, a status error of a call, and the wrapper \<open>rpcError\<close>.\<close>

datatype cli_error = LocalError string | StatusError status | RpcError cli_error

type_synonym 'a cli_result = "cli_error + 'a"

fun code_name :: "code \<Rightarrow> string" where
  "code_name OK = ''OK''"
| "code_name Canceled = ''Canceled''"
| "code_name Unknown = ''Unknown''"
| "code_name InvalidArgument = ''InvalidArgument''"
| "code_name DeadlineExceeded = ''DeadlineExceeded''"
| "code_name NotFound = ''NotFound''"
| "code_name AlreadyExists = ''AlreadyExists''"
| "code_name PermissionDenied = ''PermissionDenied''"
| "code_name ResourceExhausted = ''ResourceExhausted''"
| "code_name FailedPrecondition = ''FailedPrecondition''"
| "code_name Aborted = ''Aborted''"
| "code_name OutOfRange = ''OutOfRange''"
| "code_name Unimplemented = ''Unimplemented''"
| "code_name Internal = ''Internal''"
| "code_name Unavailable = ''Unavailable''"
| "code_name DataLoss = ''DataLoss''"
| "code_name Unauthenticated = ''Unauthenticated''"

text \<open>\<open>status.FromError\<close>: the status itself, or one found below with the text of the whole error.\<close>

definition format_status :: "code \<Rightarrow> string \<Rightarrow> string" where
  "format_status c m = ''code='' @ code_name c @ '' message='' @ m"

fun root_code :: "cli_error \<Rightarrow> code" where
  "root_code (LocalError _) = Unknown"
| "root_code (StatusError s) = status_code s"
| "root_code (RpcError e) = root_code e"

fun FormatRPCError :: "cli_error \<Rightarrow> string" where
  "FormatRPCError (LocalError t) = format_status Unknown t"
| "FormatRPCError (StatusError s) = format_status (status_code s) (status_message s)"
| "FormatRPCError (RpcError e) = format_status (root_code e) (FormatRPCError e)"

fun cli_error_text :: "cli_error \<Rightarrow> string" where
  "cli_error_text (LocalError t) = t"
| "cli_error_text (StatusError s) = ''rpc error: code = '' @ code_name (status_code s) @ '' desc = '' @ status_message s"
| "cli_error_text (RpcError e) = FormatRPCError e"

fun WrapRPCError :: "cli_error \<Rightarrow> cli_error" where
  "WrapRPCError (RpcError e) = RpcError e"
| "WrapRPCError (LocalError t) = RpcError (LocalError t)"
| "WrapRPCError (StatusError s) = RpcError (StatusError s)"

definition has_prefix :: "string \<Rightarrow> string \<Rightarrow> bool" where
  "has_prefix s p \<longleftrightarrow> take (length p) s = p"

definition trim_chars :: "char list" where
  "trim_chars = [CHR 0x0D, CHR 0x0A, CHR 0x09, CHR 0x20]"

definition trim_right :: "string \<Rightarrow> string" where
  "trim_right s = rev (dropWhile (\<lambda>c. c \<in> set trim_chars) (rev s))"

definition allowedLocalPrefixes :: "string list" where
  "allowedLocalPrefixes = [''config: '', ''flag: '', ''output: '', ''endpoint: '']"

definition FormatError :: "cli_error \<Rightarrow> string" where
  "FormatError e =
     (let s = trim_right (cli_error_text e) in
      if has_prefix s ''code='' then s
      else if list_ex (has_prefix s) allowedLocalPrefixes then s
      else ''flag: '' @ s)"

text \<open>What \<open>main\<close> leaves behind: the exit code and the line on the standard error output.\<close>

definition exit_of :: "'a cli_result \<Rightarrow> nat \<times> string" where
  "exit_of r = (case r of Inl e \<Rightarrow> (1, FormatError e @ [CHR 0x0A]) | Inr _ \<Rightarrow> (0, []))"

section \<open>Configuration file\<close>

text \<open>\<open>time.ParseDuration\<close>, \<open>yaml.UnmarshalStrict\<close> and the reading of a file may fail with a text.\<close>

record rawFile =
  raw_Endpoint :: "string option"
  raw_Output :: "string option"
  raw_Timeout :: "string option"
  raw_PageSize :: "int option"

datatype file_error = ErrNotExist | ReadError string

record environment =
  getenv :: "string \<Rightarrow> string"
  userHomeDir :: "string + string"
  filepath_join :: "string \<Rightarrow> string \<Rightarrow> string"
  read_file :: "string \<Rightarrow> file_error + string"
  unmarshal_strict :: "string \<Rightarrow> string + rawFile"
  parse_duration :: "string \<Rightarrow> string + duration"

record config_file =
  cf_Endpoint :: "string option"
  cf_Output :: "string option"
  cf_Timeout :: "duration option"
  cf_PageSize :: "int option"

definition empty_file :: config_file where
  "empty_file = \<lparr>cf_Endpoint = None, cf_Output = None, cf_Timeout = None, cf_PageSize = None\<rparr>"

record config_path =
  path_Value :: string
  path_Explicit :: bool

definition ResolvePath :: "environment \<Rightarrow> string \<Rightarrow> config_path option" where
  "ResolvePath V flagValue =
     (if flagValue \<noteq> [] then Some \<lparr>path_Value = flagValue, path_Explicit = True\<rparr>
      else if getenv V ''FEEDIUMCTL_CONFIG'' \<noteq> [] then
        Some \<lparr>path_Value = getenv V ''FEEDIUMCTL_CONFIG'', path_Explicit = True\<rparr>
      else case userHomeDir V of
             Inl _ \<Rightarrow> None
           | Inr home \<Rightarrow>
               (if home = [] then None
                else Some \<lparr>path_Value = filepath_join V home ''.feediumctl.yaml'', path_Explicit = False\<rparr>))"

definition config_error :: "string \<Rightarrow> string \<Rightarrow> cli_error" where
  "config_error path reason = LocalError (''config: '' @ path @ '': '' @ reason)"

definition parse_config :: "environment \<Rightarrow> string \<Rightarrow> string \<Rightarrow> config_file cli_result" where
  "parse_config V path data =
     (case unmarshal_strict V data of
        Inl err \<Rightarrow> Inl (config_error path err)
      | Inr raw \<Rightarrow>
          (let out = \<lparr>cf_Endpoint = raw_Endpoint raw, cf_Output = raw_Output raw, cf_Timeout = None,
                      cf_PageSize = raw_PageSize raw\<rparr> in
           case raw_Timeout raw of
             None \<Rightarrow> Inr out
           | Some t \<Rightarrow>
               (case parse_duration V t of
                  Inl err \<Rightarrow> Inl (config_error path (''invalid timeout '' @ quote t @ '': '' @ err))
                | Inr d \<Rightarrow> Inr (out\<lparr>cf_Timeout := Some d\<rparr>))))"

definition Load :: "environment \<Rightarrow> config_path \<Rightarrow> config_file cli_result" where
  "Load V p =
     (case read_file V (path_Value p) of
        Inl ErrNotExist \<Rightarrow>
          (if path_Explicit p then Inl (config_error (path_Value p) ''not found'') else Inr empty_file)
      | Inl (ReadError err) \<Rightarrow> Inl (config_error (path_Value p) err)
      | Inr data \<Rightarrow> parse_config V (path_Value p) data)"

definition loadConfig :: "environment \<Rightarrow> string \<Rightarrow> config_file cli_result" where
  "loadConfig V flagValue =
     (case ResolvePath V flagValue of None \<Rightarrow> Inr empty_file | Some p \<Rightarrow> Load V p)"

section \<open>Numbers\<close>

text \<open>
  \<open>strconv.Atoi\<close> for a 64-bit \<open>int\<close>: an optional sign, then digits. Reading stops at the first
  byte that is no digit or makes the value overflow 64 bits, whichever comes first.
\<close>

datatype num_error = ErrSyntax | ErrRange

fun read_digits :: "nat \<Rightarrow> string \<Rightarrow> num_error + nat" where
  "read_digits n [] = Inr n"
| "read_digits n (c # cs) =
     (if \<not> is_digit c then Inl ErrSyntax
      else if 2 ^ 64 \<le> 10 * n + digit_value c then Inl ErrRange
      else read_digits (10 * n + digit_value c) cs)"

definition num_error_text :: "string \<Rightarrow> num_error \<Rightarrow> string" where
  "num_error_text s e =
     ''strconv.Atoi: parsing '' @ quote s @ '': '' @
     (case e of ErrSyntax \<Rightarrow> ''invalid syntax'' | ErrRange \<Rightarrow> ''value out of range'')"

definition parse_int :: "string \<Rightarrow> num_error + int" where
  "parse_int s =
     (let neg = (s \<noteq> [] \<and> hd s = CHR ''-''); ds = (if s \<noteq> [] \<and> hd s \<in> {CHR ''-'', CHR ''+''} then tl s else s) in
      if ds = [] then Inl ErrSyntax
      else case read_digits 0 ds of
             Inl e \<Rightarrow> Inl e
           | Inr n \<Rightarrow>
               (if \<not> neg \<and> 2 ^ 63 \<le> n \<or> neg \<and> 2 ^ 63 < n then Inl ErrRange
                else Inr (if neg then - int n else int n)))"

definition strconv_Atoi :: "string \<Rightarrow> string + int" where
  "strconv_Atoi s = (case parse_int s of Inl e \<Rightarrow> Inl (num_error_text s e) | Inr n \<Rightarrow> Inr n)"

section \<open>Settings\<close>

record FlagSource =
  flag_Endpoint :: string
  flag_EndpointSet :: bool
  flag_Output :: string
  flag_OutputSet :: bool
  flag_Timeout :: string
  flag_TimeoutSet :: bool
  flag_PageSize :: string
  flag_PageSizeSet :: bool

record Settings =
  set_Endpoint :: string
  set_Output :: string
  set_Timeout :: duration
  set_PageSize :: int

abbreviation DefaultEndpoint :: string where "DefaultEndpoint \<equiv> ''localhost:9000''"
abbreviation DefaultOutput :: string where "DefaultOutput \<equiv> ''table''"
abbreviation DefaultTimeout :: duration where "DefaultTimeout \<equiv> 60000000000"
abbreviation DefaultPageSize :: int where "DefaultPageSize \<equiv> 50"
abbreviation MaxInt32 :: int where "MaxInt32 \<equiv> 2147483647"

definition pickString :: "string \<Rightarrow> bool \<Rightarrow> string \<Rightarrow> string option \<Rightarrow> string \<Rightarrow> string" where
  "pickString flagValue flagSet envValue cfgValue dflt =
     (if flagSet then flagValue
      else if envValue \<noteq> [] then envValue
      else case cfgValue of Some v \<Rightarrow> v | None \<Rightarrow> dflt)"

definition flag_error :: "string \<Rightarrow> string \<Rightarrow> string \<Rightarrow> cli_error" where
  "flag_error what raw reason = LocalError (''flag: invalid '' @ what @ '' '' @ quote raw @ '': '' @ reason)"

definition flag_duration :: "environment \<Rightarrow> string \<Rightarrow> duration cli_result" where
  "flag_duration V raw =
     (case parse_duration V raw of Inl err \<Rightarrow> Inl (flag_error ''timeout'' raw err) | Inr d \<Rightarrow> Inr d)"

definition pickTimeout :: "environment \<Rightarrow> string \<Rightarrow> bool \<Rightarrow> string \<Rightarrow> duration option \<Rightarrow> duration cli_result" where
  "pickTimeout V flagValue flagSet envValue cfgValue =
     (if flagSet then flag_duration V flagValue
      else if envValue \<noteq> [] then flag_duration V envValue
      else case cfgValue of Some d \<Rightarrow> Inr d | None \<Rightarrow> Inr DefaultTimeout)"

definition checkPageSizeRange :: "int \<Rightarrow> string \<Rightarrow> cli_error option" where
  "checkPageSizeRange n raw =
     (if n < 0 then Some (flag_error ''page size'' raw ''must be non-negative'')
      else if MaxInt32 < n then Some (flag_error ''page size'' raw ''out of range'')
      else None)"

definition parsePageSize :: "string \<Rightarrow> int cli_result" where
  "parsePageSize raw =
     (case strconv_Atoi raw of
        Inl err \<Rightarrow> Inl (flag_error ''page size'' raw err)
      | Inr n \<Rightarrow> (case checkPageSizeRange n raw of Some err \<Rightarrow> Inl err | None \<Rightarrow> Inr n))"

definition pickPageSize :: "string \<Rightarrow> bool \<Rightarrow> string \<Rightarrow> int option \<Rightarrow> int cli_result" where
  "pickPageSize flagValue flagSet envValue cfgValue =
     (if flagSet then parsePageSize flagValue
      else if envValue \<noteq> [] then parsePageSize envValue
      else case cfgValue of
             Some n \<Rightarrow> (case checkPageSizeRange n (itoa n) of Some err \<Rightarrow> Inl err | None \<Rightarrow> Inr n)
           | None \<Rightarrow> Inr DefaultPageSize)"

definition Resolve :: "environment \<Rightarrow> FlagSource \<Rightarrow> config_file \<Rightarrow> Settings cli_result" where
  "Resolve V flags cfg =
     (let endpoint = pickString (flag_Endpoint flags) (flag_EndpointSet flags) (getenv V ''FEEDIUMCTL_ENDPOINT'')
            (cf_Endpoint cfg) DefaultEndpoint;
          out = pickString (flag_Output flags) (flag_OutputSet flags) (getenv V ''FEEDIUMCTL_OUTPUT'')
            (cf_Output cfg) DefaultOutput in
      case pickTimeout V (flag_Timeout flags) (flag_TimeoutSet flags) (getenv V ''FEEDIUMCTL_TIMEOUT'') (cf_Timeout cfg) of
        Inl err \<Rightarrow> Inl err
      | Inr t \<Rightarrow>
     (case pickPageSize (flag_PageSize flags) (flag_PageSizeSet flags) (getenv V ''FEEDIUMCTL_PAGE_SIZE'') (cf_PageSize cfg) of
        Inl err \<Rightarrow> Inl err
      | Inr p \<Rightarrow> Inr \<lparr>set_Endpoint = endpoint, set_Output = out, set_Timeout = t, set_PageSize = p\<rparr>))"

definition ValidateOutput :: "string \<Rightarrow> cli_error option" where
  "ValidateOutput v =
     (if v = ''table'' \<or> v = ''json'' \<or> v = ''yaml'' then None
      else Some (LocalError (''output: invalid value '' @ quote v @ '' (allowed: table,json,yaml)'')))"

text \<open>The global flags of a command line: the path of the configuration and the four settings.\<close>

record globalFlags =
  gf_config :: string
  gf_flags :: FlagSource

definition resolveSettings :: "environment \<Rightarrow> globalFlags \<Rightarrow> Settings cli_result" where
  "resolveSettings V g =
     (case loadConfig V (gf_config g) of Inl err \<Rightarrow> Inl err | Inr cfg \<Rightarrow> Resolve V (gf_flags g) cfg)"

definition resolveAndValidate :: "environment \<Rightarrow> globalFlags \<Rightarrow> Settings cli_result" where
  "resolveAndValidate V g =
     (case resolveSettings V g of
        Inl err \<Rightarrow> Inl err
      | Inr s \<Rightarrow> (case ValidateOutput (set_Output s) of Some err \<Rightarrow> Inl err | None \<Rightarrow> Inr s))"

definition validateEndpoint :: "string \<Rightarrow> cli_error option" where
  "validateEndpoint endpoint =
     (let trimmed = trim_space endpoint in
      if trimmed = [] then Some (LocalError ''endpoint: empty'')
      else if list_ex (\<lambda>c. c \<in> set trim_chars) trimmed then
        Some (LocalError (''endpoint: whitespace not allowed in '' @ quote endpoint))
      else None)"

section \<open>What the settings are\<close>

text \<open>The rule of the documentation: flag before environment before configuration before default.\<close>

fun first_given :: "'a option list \<Rightarrow> 'a \<Rightarrow> 'a" where
  "first_given [] d = d"
| "first_given (Some x # xs) d = x"
| "first_given (None # xs) d = first_given xs d"

definition given_if :: "bool \<Rightarrow> 'a \<Rightarrow> 'a option" where
  "given_if b x = (if b then Some x else None)"

lemma pickString_layers:
  "pickString f fs e c d = first_given [given_if fs f, given_if (e \<noteq> []) e, c] d"
  by (simp add: pickString_def given_if_def split: option.split)

lemma pickTimeout_layers:
  "pickTimeout V f fs e c = first_given
     [given_if fs (flag_duration V f), given_if (e \<noteq> []) (flag_duration V e), map_option Inr c] (Inr DefaultTimeout)"
  by (simp add: pickTimeout_def given_if_def split: option.split)

definition page_size_text :: "string \<Rightarrow> int option" where
  "page_size_text raw = (case parse_int raw of Inr n \<Rightarrow> given_if (0 \<le> n \<and> n \<le> MaxInt32) n | Inl _ \<Rightarrow> None)"

lemma checkPageSizeRange_None: "checkPageSizeRange n raw = None \<longleftrightarrow> 0 \<le> n \<and> n \<le> MaxInt32"
  by (auto simp: checkPageSizeRange_def)

lemma parsePageSize_accepts: "parsePageSize raw = Inr n \<longleftrightarrow> page_size_text raw = Some n"
  by (auto simp: parsePageSize_def page_size_text_def strconv_Atoi_def given_if_def checkPageSizeRange_def split: sum.splits)

lemma pickPageSize_layers:
  "pickPageSize f fs e c = Inr n \<longleftrightarrow> first_given
     [given_if fs (page_size_text f), given_if (e \<noteq> []) (page_size_text e),
      map_option (\<lambda>n. given_if (0 \<le> n \<and> n \<le> MaxInt32) n) c] (Some DefaultPageSize) = Some n"
  by (auto simp: pickPageSize_def given_if_def parsePageSize_accepts checkPageSizeRange_def split: option.splits)

lemma pickPageSize_bounds: "pickPageSize f fs e c = Inr n \<Longrightarrow> 0 \<le> n \<and> n \<le> MaxInt32"
  by (cases c) (auto simp: pickPageSize_layers given_if_def page_size_text_def split: if_splits option.splits sum.splits)

lemma page_size_on_the_wire: "0 \<le> n \<Longrightarrow> n \<le> MaxInt32 \<Longrightarrow> sint (word_of_int n :: 32 word) = n"
  by (simp add: sint_sbintrunc' signed_take_bit_int_eq_self)

lemma Resolve_Inr:
  assumes "Resolve V flags cfg = Inr s"
  shows "pickTimeout V (flag_Timeout flags) (flag_TimeoutSet flags) (getenv V ''FEEDIUMCTL_TIMEOUT'') (cf_Timeout cfg) = Inr (set_Timeout s)"
    and "pickPageSize (flag_PageSize flags) (flag_PageSizeSet flags) (getenv V ''FEEDIUMCTL_PAGE_SIZE'') (cf_PageSize cfg) = Inr (set_PageSize s)"
    and "set_Endpoint s = pickString (flag_Endpoint flags) (flag_EndpointSet flags) (getenv V ''FEEDIUMCTL_ENDPOINT'') (cf_Endpoint cfg) DefaultEndpoint"
    and "set_Output s = pickString (flag_Output flags) (flag_OutputSet flags) (getenv V ''FEEDIUMCTL_OUTPUT'') (cf_Output cfg) DefaultOutput"
  using assms by (auto simp: Resolve_def Let_def split: sum.splits)

text \<open>
  C38. The settings of a command are those of the highest source that gives them: the flag, the
  environment variable, the configuration, the default; a lower source is not even read. The page
  size that results is between 0 and the largest 32-bit number, so the message that carries it
  to the server carries the same number.
\<close>

theorem Resolve_layers:
  assumes "Resolve V flags cfg = Inr s"
  shows "set_Endpoint s = first_given [given_if (flag_EndpointSet flags) (flag_Endpoint flags),
      given_if (getenv V ''FEEDIUMCTL_ENDPOINT'' \<noteq> []) (getenv V ''FEEDIUMCTL_ENDPOINT''), cf_Endpoint cfg] DefaultEndpoint \<and>
    set_Output s = first_given [given_if (flag_OutputSet flags) (flag_Output flags),
      given_if (getenv V ''FEEDIUMCTL_OUTPUT'' \<noteq> []) (getenv V ''FEEDIUMCTL_OUTPUT''), cf_Output cfg] DefaultOutput \<and>
    Inr (set_Timeout s) = first_given [given_if (flag_TimeoutSet flags) (flag_duration V (flag_Timeout flags)),
      given_if (getenv V ''FEEDIUMCTL_TIMEOUT'' \<noteq> []) (flag_duration V (getenv V ''FEEDIUMCTL_TIMEOUT'')),
      map_option Inr (cf_Timeout cfg)] (Inr DefaultTimeout) \<and>
    Some (set_PageSize s) = first_given [given_if (flag_PageSizeSet flags) (page_size_text (flag_PageSize flags)),
      given_if (getenv V ''FEEDIUMCTL_PAGE_SIZE'' \<noteq> []) (page_size_text (getenv V ''FEEDIUMCTL_PAGE_SIZE'')),
      map_option (\<lambda>n. given_if (0 \<le> n \<and> n \<le> MaxInt32) n) (cf_PageSize cfg)] (Some DefaultPageSize) \<and>
    0 \<le> set_PageSize s \<and> sint (word_of_int (set_PageSize s) :: 32 word) = set_PageSize s"
proof -
  note s = Resolve_Inr [OF assms]
  have "0 \<le> set_PageSize s" "set_PageSize s \<le> MaxInt32" using pickPageSize_bounds [OF s(2)] by auto
  then have "0 \<le> set_PageSize s \<and> sint (word_of_int (set_PageSize s) :: 32 word) = set_PageSize s"
    using page_size_on_the_wire by blast
  moreover note s(2) [unfolded pickPageSize_layers, symmetric]
  ultimately show ?thesis
    using s(1) [symmetric] s(3,4) unfolding pickString_layers pickTimeout_layers by blast
qed

text \<open>An environment for examples: no variables, no files, durations of whole seconds.\<close>

definition bare_environment :: environment where
  "bare_environment = \<lparr>getenv = (\<lambda>_. []), userHomeDir = Inl ''no home'', filepath_join = (\<lambda>a b. a @ ''/'' @ b),
     read_file = (\<lambda>_. Inl ErrNotExist), unmarshal_strict = (\<lambda>_. Inl ''no reader''),
     parse_duration = (\<lambda>s. case parse_int s of Inr n \<Rightarrow> Inr (word_of_int (n * second)) | Inl _ \<Rightarrow> Inl ''no duration'')\<rparr>"

definition no_flags :: FlagSource where
  "no_flags = \<lparr>flag_Endpoint = [], flag_EndpointSet = False, flag_Output = [], flag_OutputSet = False,
     flag_Timeout = [], flag_TimeoutSet = False, flag_PageSize = [], flag_PageSizeSet = False\<rparr>"

theorem Resolve_layers_witness:
  "\<exists>s. Resolve (bare_environment\<lparr>getenv := (\<lambda>v. if v = ''FEEDIUMCTL_PAGE_SIZE'' then ''7'' else [])\<rparr>)
       (no_flags\<lparr>flag_Endpoint := ''h:1'', flag_EndpointSet := True\<rparr>)
       (empty_file\<lparr>cf_Output := Some ''json'', cf_PageSize := Some 9\<rparr>) = Inr s \<and>
     set_Endpoint s = ''h:1'' \<and> set_Output s = ''json'' \<and> set_PageSize s = 7 \<and> sint (word_of_int (set_PageSize s) :: 32 word) = 7"
proof -
  let ?V = "bare_environment\<lparr>getenv := (\<lambda>v. if v = ''FEEDIUMCTL_PAGE_SIZE'' then ''7'' else [])\<rparr>"
  let ?s = "\<lparr>set_Endpoint = ''h:1'', set_Output = ''json'', set_Timeout = DefaultTimeout, set_PageSize = 7\<rparr>"
  have seven: "parse_int ''7'' = Inr 7" by (simp add: parse_int_def is_digit_def digit_value_def)
  have "Resolve ?V (no_flags\<lparr>flag_Endpoint := ''h:1'', flag_EndpointSet := True\<rparr>)
      (empty_file\<lparr>cf_Output := Some ''json'', cf_PageSize := Some 9\<rparr>) = Inr ?s"
    by (simp add: Resolve_def pickString_def pickTimeout_def pickPageSize_def parsePageSize_def strconv_Atoi_def seven
        checkPageSizeRange_def empty_file_def no_flags_def)
  with Resolve_layers [OF this] show ?thesis
    by (intro exI [of _ ?s]) (simp add: no_flags_def empty_file_def given_if_def)
qed

section \<open>The client's own errors\<close>

definition prefixed :: "cli_error \<Rightarrow> bool" where
  "prefixed e \<longleftrightarrow> (\<exists>t. e = LocalError t \<and> list_ex (has_prefix t) allowedLocalPrefixes)"

lemma prefixed_local [simp]:
  "prefixed (LocalError (''config: '' @ t))" "prefixed (LocalError (''flag: '' @ t))"
  "prefixed (LocalError (''output: '' @ t))" "prefixed (LocalError (''endpoint: '' @ t))"
  by (simp_all add: prefixed_def allowedLocalPrefixes_def has_prefix_def)

lemma ValidateOutput_prefixed: "ValidateOutput v = Some e \<Longrightarrow> prefixed e"
  by (auto simp: ValidateOutput_def prefixed_def allowedLocalPrefixes_def has_prefix_def split: if_splits)

lemma validateEndpoint_prefixed: "validateEndpoint v = Some e \<Longrightarrow> prefixed e"
  by (auto simp: validateEndpoint_def prefixed_def allowedLocalPrefixes_def has_prefix_def Let_def split: if_splits)

lemma flag_error_prefixed [simp]: "prefixed (flag_error what raw reason)"
  by (simp add: flag_error_def prefixed_def allowedLocalPrefixes_def has_prefix_def)

lemma config_error_prefixed [simp]: "prefixed (config_error path reason)"
  by (simp add: config_error_def prefixed_def allowedLocalPrefixes_def has_prefix_def)

lemma loadConfig_prefixed: "loadConfig V f = Inl e \<Longrightarrow> prefixed e"
  by (auto simp: loadConfig_def Load_def parse_config_def Let_def split: option.splits sum.splits file_error.splits if_splits)

lemma Resolve_prefixed: "Resolve V flags cfg = Inl e \<Longrightarrow> prefixed e"
proof -
  have t: "pickTimeout V f fs x c = Inl e \<Longrightarrow> prefixed e" for f fs x c e
    by (auto simp: pickTimeout_def flag_duration_def split: if_splits option.splits sum.splits)
  have r: "checkPageSizeRange n raw = Some e \<Longrightarrow> prefixed e" for n raw e
    by (auto simp: checkPageSizeRange_def split: if_splits)
  then have "parsePageSize raw = Inl e \<Longrightarrow> prefixed e" for raw e
    by (auto simp: parsePageSize_def split: sum.splits option.splits)
  with r have p: "pickPageSize f fs x c = Inl e \<Longrightarrow> prefixed e" for f fs x c e
    by (auto simp: pickPageSize_def split: if_splits option.splits)
  assume "Resolve V flags cfg = Inl e"
  then show ?thesis using t p by (auto simp: Resolve_def Let_def split: sum.splits)
qed

lemma resolveAndValidate_prefixed: "resolveAndValidate V g = Inl e \<Longrightarrow> prefixed e"
  by (auto simp: resolveAndValidate_def resolveSettings_def Resolve_prefixed loadConfig_prefixed ValidateOutput_prefixed
      split: sum.splits option.splits)

lemma resolveAndValidate_Inr:
  assumes "resolveAndValidate V g = Inr s"
  shows "ValidateOutput (set_Output s) = None" and "0 \<le> set_PageSize s \<and> set_PageSize s \<le> MaxInt32"
  using assms Resolve_Inr(2) pickPageSize_bounds
  by (auto simp: resolveAndValidate_def resolveSettings_def split: sum.splits option.splits) blast+

section \<open>The line on the standard error output\<close>

text \<open>
  It begins with one of the documented prefixes, whatever the error; an error that begins
  with one is printed as it is, up to white space at its end; and printing again changes
  nothing. A newline inside an error is kept, though.
\<close>

lemma FormatError_closed: "list_ex (has_prefix (FormatError e)) (''code='' # allowedLocalPrefixes)"
  by (auto simp: FormatError_def Let_def allowedLocalPrefixes_def has_prefix_def)

lemma FormatError_rpc: "\<exists>m. FormatError (RpcError (StatusError s)) = trim_right (''code='' @ m)"
  by (intro exI [of _ "code_name (status_code s) @ '' message='' @ status_message s"])
    (simp add: FormatError_def format_status_def Let_def trim_right_def has_prefix_def dropWhile_append trim_chars_def)

lemma trim_right_idem [simp]: "trim_right (trim_right s) = trim_right s"
  by (simp add: trim_right_def)

lemma trim_right_append: "trim_right s \<noteq> [] \<Longrightarrow> trim_right (a @ s) = a @ trim_right s"
  by (auto simp: trim_right_def dropWhile_append dropWhile_eq_Nil_conv)

lemma FormatError_again:
  assumes "trim_right (cli_error_text e) \<noteq> []"
  shows "FormatError (LocalError (FormatError e)) = FormatError e"
proof -
  have "trim_right (''flag: '' @ trim_right (cli_error_text e)) = ''flag: '' @ trim_right (cli_error_text e)"
    using trim_right_append [of "trim_right (cli_error_text e)" "''flag: ''", unfolded trim_right_idem, OF assms] .
  then have t: "trim_right (FormatError e) = FormatError e" by (simp add: FormatError_def Let_def)
  with FormatError_closed [of e] show ?thesis by (auto simp: FormatError_def [of "LocalError _"] Let_def)
qed

lemma FormatError_two_lines:
  "FormatError (config_error (''a'' @ [CHR 0x0A] @ ''b'') ''not found'') = ''config: a'' @ [CHR 0x0A] @ ''b: not found''"
  by (simp add: FormatError_def config_error_def Let_def trim_right_def trim_chars_def has_prefix_def allowedLocalPrefixes_def)

end
