(* ===== verification/Ctl_Render.thy ===== *)
theory Ctl_Render
  imports Ctl_Settings
begin

text \<open>
  The command line client, second part: the answers on the terminal
  (\<open>cmd/feediumctl/internal/render\<close>), as tables, JSON and YAML. What is written is the result;
  the JSON text of a message, the conversion of JSON to YAML and the text of a date or of a
  floating-point number are the libraries'.
\<close>

section \<open>Messages\<close>

text \<open>What the client may ask a server and what it is answered.\<close>

datatype ctl_request = HealthCheck | ApiRequest api_request

datatype ctl_response = HealthMsg string | ApiMsg api_response

datatype list_item =
    SourceItem PbSource | PostItem PbPost | SummaryItem PbSummary | InterestItem PbInterest | FeedItemMsg PbFeedItem

text \<open>
  \<open>protojson\<close> with the options of \<open>jsonMarshaler\<close> (several lines) and of \<open>listItemMarshaler\<close>
  (one line), \<open>yaml.JSONToYAML\<close>, and the texts of instants and numbers.
\<close>

record renderer =
  marshal_multiline :: "ctl_response \<Rightarrow> string + string"
  marshal_compact :: "ctl_response \<Rightarrow> string + string"
  marshal_item :: "list_item \<Rightarrow> string + string"
  JSONToYAML :: "string \<Rightarrow> string + string"
  rfc3339 :: "time \<Rightarrow> string"
  format_f :: "float64 \<Rightarrow> string"
  as_time :: "timestamp option \<Rightarrow> time"

abbreviation newline :: string where "newline \<equiv> [CHR 0x0A]"
abbreviation bar :: string where "bar \<equiv> '' | ''"

type_synonym written = "string cli_result outcome"

section \<open>Columns\<close>

fun sourceTypeShort :: "PbSourceType \<Rightarrow> string" where
  "sourceTypeShort SOURCE_TYPE_UNSPECIFIED = ''UNSPECIFIED''"
| "sourceTypeShort SOURCE_TYPE_TELEGRAM_CHANNEL = ''TELEGRAM_CHANNEL''"
| "sourceTypeShort SOURCE_TYPE_TELEGRAM_GROUP = ''TELEGRAM_GROUP''"
| "sourceTypeShort SOURCE_TYPE_RSS = ''RSS''"
| "sourceTypeShort SOURCE_TYPE_HTML = ''HTML''"
| "sourceTypeShort (SOURCE_TYPE_OTHER _) = ''UNSPECIFIED''"

fun processingModeShort :: "PbProcessingMode \<Rightarrow> string" where
  "processingModeShort PROCESSING_MODE_UNSPECIFIED = ''UNSPECIFIED''"
| "processingModeShort PROCESSING_MODE_SELF_CONTAINED = ''SELF_CONTAINED''"
| "processingModeShort PROCESSING_MODE_CUMULATIVE = ''CUMULATIVE''"

definition formatTimestamp :: "renderer \<Rightarrow> timestamp option \<Rightarrow> string" where
  "formatTimestamp R ts = (case ts of None \<Rightarrow> [] | Some t \<Rightarrow> rfc3339 R (as_time R (Some t)))"

definition telegram_text :: "(64 word \<times> string) option \<Rightarrow> string" where
  "telegram_text m = ''tg_id='' @ itoa (sint (fst (tg_parts m))) @ '',username='' @ snd (tg_parts m)"

text \<open>The first option is the nil message, the second the unset \<open>oneof\<close>.\<close>

definition formatSourceConfig :: "PbConfig option option \<Rightarrow> string" where
  "formatSourceConfig cfg =
     (case cfg of
        Some (Some (SourceConfig_TelegramChannel m)) \<Rightarrow> telegram_text m
      | Some (Some (SourceConfig_TelegramGroup m)) \<Rightarrow> telegram_text m
      | Some (Some (SourceConfig_Rss u)) \<Rightarrow> ''feed_url='' @ or_empty u
      | Some (Some (SourceConfig_Html u)) \<Rightarrow> ''url='' @ or_empty u
      | Some None \<Rightarrow> []
      | None \<Rightarrow> [])"

definition or_dash :: "string \<Rightarrow> string" where
  "or_dash s = (if s = [] then ''-'' else s)"

definition table_row :: "string list \<Rightarrow> string" where
  "table_row cells = join bar cells @ newline"

definition source_row_text :: "renderer \<Rightarrow> PbSource \<Rightarrow> string" where
  "source_row_text R s = table_row
     [pbs_Id s, sourceTypeShort (pbs_Type s), processingModeShort (pbs_ProcessingMode s),
      formatSourceConfig (Some (pbs_Config s)), formatTimestamp R (Some (pbs_CreatedAt s))]"

definition post_row_text :: "renderer \<Rightarrow> PbPost \<Rightarrow> string" where
  "post_row_text R p = table_row
     [pbp_Id p, pbp_SourceId p, sourceTypeShort (pbp_SourceType p), pbp_ExternalId p,
      formatTimestamp R (Some (pbp_PublishedAt p)), or_dash (or_empty (pbp_Author p)),
      formatTimestamp R (Some (pbp_CreatedAt p))]"

definition summary_row_text :: "renderer \<Rightarrow> PbSummary \<Rightarrow> string" where
  "summary_row_text R m = table_row
     [pbm_Id m, or_dash (or_empty (pbm_PostId m)), pbm_SourceId m, itoa (sint (pbm_WordCount m)),
      formatTimestamp R (Some (pbm_CreatedAt m))]"

definition interest_row_text :: "renderer \<Rightarrow> PbInterest \<Rightarrow> string" where
  "interest_row_text R v = table_row
     [pbi_Id v, pbi_Topic v, pbi_Model v, formatTimestamp R (Some (pbi_CreatedAt v)),
      formatTimestamp R (Some (pbi_UpdatedAt v))]"

definition feed_row_text :: "renderer \<Rightarrow> PbFeedItem \<Rightarrow> string" where
  "feed_row_text R x = table_row
     [pbf_PostId x, pbf_SourceId x, format_f R (pbf_Score x), formatTimestamp R (Some (pbf_PublishedAt x)),
      or_dash (pbf_Author x)]"

section \<open>Tables\<close>

abbreviation sourceTableHeader :: string where "sourceTableHeader \<equiv> ''ID | TYPE | MODE | CONFIG | CREATED_AT''"
abbreviation postTableHeader :: string where
  "postTableHeader \<equiv> ''ID | SOURCE_ID | SOURCE_TYPE | EXTERNAL_ID | PUBLISHED_AT | AUTHOR | CREATED_AT''"
abbreviation summaryTableHeader :: string where
  "summaryTableHeader \<equiv> ''ID | POST_ID | SOURCE_ID | WORD_COUNT | CREATED_AT''"
abbreviation interestTableHeader :: string where
  "interestTableHeader \<equiv> ''ID | TOPIC | MODEL | CREATED_AT | UPDATED_AT''"
abbreviation feedTableHeader :: string where
  "feedTableHeader \<equiv> ''POST_ID | SOURCE_ID | SCORE | PUBLISHED_AT | AUTHOR''"

definition list_table :: "string \<Rightarrow> ('a \<Rightarrow> string) \<Rightarrow> 'a list \<Rightarrow> string" where
  "list_table header row xs = header @ newline @ concat (map row xs)"

text \<open>A single message; the answer of a server that leaves it out makes the client panic.\<close>

definition single_table :: "string \<Rightarrow> ('a \<Rightarrow> string) \<Rightarrow> string \<Rightarrow> 'a option \<Rightarrow> written" where
  "single_table header row what m =
     (case m of
        None \<Rightarrow> Panics (''render: unreachable nil '' @ what @ '' in response'')
      | Some x \<Rightarrow> Returns (Inr (list_table header row [x])))"

definition writeHealthTable :: "string \<Rightarrow> string" where
  "writeHealthTable st = ''FIELD | VALUE'' @ newline @ ''status | '' @ st @ newline"

text \<open>The text of the last panic names the Go type of the message, left out here.\<close>

definition writeTable :: "renderer \<Rightarrow> ctl_response \<Rightarrow> written" where
  "writeTable R msg =
     (case msg of
        HealthMsg st \<Rightarrow> Returns (Inr (writeHealthTable st))
      | ApiMsg (SourcesMsg p) \<Rightarrow> Returns (Inr (list_table sourceTableHeader (source_row_text R) (Items p)))
      | ApiMsg (SourceMsg s) \<Rightarrow> single_table sourceTableHeader (source_row_text R) ''Source'' (Some s)
      | ApiMsg (PostsMsg p) \<Rightarrow> Returns (Inr (list_table postTableHeader (post_row_text R) (Items p)))
      | ApiMsg (PostMsg s) \<Rightarrow> single_table postTableHeader (post_row_text R) ''Post'' (Some s)
      | ApiMsg (SummaryListMsg l) \<Rightarrow> Returns (Inr (list_table summaryTableHeader (summary_row_text R) l))
      | ApiMsg (SummariesMsg p) \<Rightarrow> Returns (Inr (list_table summaryTableHeader (summary_row_text R) (Items p)))
      | ApiMsg (SummaryMsg s) \<Rightarrow> single_table summaryTableHeader (summary_row_text R) ''Summary'' (Some s)
      | ApiMsg (InterestsMsg p) \<Rightarrow> Returns (Inr (list_table interestTableHeader (interest_row_text R) (Items p)))
      | ApiMsg (InterestMsg s) \<Rightarrow> single_table interestTableHeader (interest_row_text R) ''Interest'' (Some s)
      | ApiMsg (FeedMsg p) \<Rightarrow> Returns (Inr (list_table feedTableHeader (feed_row_text R) (Items p)))
      | ApiMsg (TaskMsg _) \<Rightarrow> Panics ''render: unreachable message type''
      | ApiMsg (EventMsg _) \<Rightarrow> Panics ''render: unreachable message type''
      | ApiMsg Done \<Rightarrow> Panics ''render: unreachable message type'')"

section \<open>JSON and YAML\<close>

text \<open>The loop that strips trailing newlines keeps at least one byte.\<close>

function strip_newlines :: "string \<Rightarrow> string" where
  "strip_newlines data =
     (if 1 < length data \<and> last data = CHR 0x0A \<and> last (butlast data) = CHR 0x0A
      then strip_newlines (butlast data) else data)"
  by pat_completeness auto
termination
  by (relation "measure length") auto

declare strip_newlines.simps [simp del]

definition writeExactlyOneTrailingNewline :: "string \<Rightarrow> string" where
  "writeExactlyOneTrailingNewline data =
     (let d = strip_newlines data in if d = [] \<or> last d \<noteq> CHR 0x0A then d @ newline else d)"

fun marshal_all :: "renderer \<Rightarrow> list_item list \<Rightarrow> string + string list" where
  "marshal_all R [] = Inr []"
| "marshal_all R (x # xs) =
     (case marshal_item R x of
        Inl err \<Rightarrow> Inl err
      | Inr t \<Rightarrow> (case marshal_all R xs of Inl err \<Rightarrow> Inl err | Inr ts \<Rightarrow> Inr (t # ts)))"

definition json_array :: "string list \<Rightarrow> string" where
  "json_array ts = ''['' @ join '','' ts @ '']''"

text \<open>The functions \<open>write*ListJSON\<close> have one body, and so have \<open>write*ListYAML\<close> and \<open>writeItemsAsYAML\<close>.\<close>

definition write_items_json :: "renderer \<Rightarrow> list_item list \<Rightarrow> string cli_result" where
  "write_items_json R its =
     (if its = [] then Inr (''[]'' @ newline)
      else case marshal_all R its of
             Inl err \<Rightarrow> Inl (LocalError err)
           | Inr ts \<Rightarrow> Inr (json_array ts @ newline))"

definition writeItemsAsYAML :: "renderer \<Rightarrow> list_item list \<Rightarrow> string cli_result" where
  "writeItemsAsYAML R its =
     (if its = [] then Inr (''[]'' @ newline)
      else case marshal_all R its of
             Inl err \<Rightarrow> Inl (LocalError err)
           | Inr ts \<Rightarrow>
               (case JSONToYAML R (json_array ts) of
                  Inl err \<Rightarrow> Inl (LocalError err)
                | Inr y \<Rightarrow> Inr (writeExactlyOneTrailingNewline y)))"

text \<open>The messages that are written as their list of items.\<close>

fun list_items :: "ctl_response \<Rightarrow> list_item list option" where
  "list_items (ApiMsg (SourcesMsg p)) = Some (map SourceItem (Items p))"
| "list_items (ApiMsg (PostsMsg p)) = Some (map PostItem (Items p))"
| "list_items (ApiMsg (SummaryListMsg l)) = Some (map SummaryItem l)"
| "list_items (ApiMsg (SummariesMsg p)) = Some (map SummaryItem (Items p))"
| "list_items (ApiMsg (InterestsMsg p)) = Some (map InterestItem (Items p))"
| "list_items (ApiMsg (FeedMsg p)) = Some (map FeedItemMsg (Items p))"
| "list_items (ApiMsg (SourceMsg _)) = None"
| "list_items (ApiMsg (PostMsg _)) = None"
| "list_items (ApiMsg (SummaryMsg _)) = None"
| "list_items (ApiMsg (InterestMsg _)) = None"
| "list_items (ApiMsg (TaskMsg _)) = None"
| "list_items (ApiMsg (EventMsg _)) = None"
| "list_items (ApiMsg Done) = None"
| "list_items (HealthMsg _) = None"

definition writeJSON :: "renderer \<Rightarrow> ctl_response \<Rightarrow> string cli_result" where
  "writeJSON R msg =
     (case list_items msg of
        Some its \<Rightarrow> write_items_json R its
      | None \<Rightarrow>
          (case marshal_multiline R msg of
             Inl err \<Rightarrow> Inl (LocalError err)
           | Inr data \<Rightarrow> Inr (writeExactlyOneTrailingNewline data)))"

definition writeYAML :: "renderer \<Rightarrow> ctl_response \<Rightarrow> string cli_result" where
  "writeYAML R msg =
     (case list_items msg of
        Some its \<Rightarrow> writeItemsAsYAML R its
      | None \<Rightarrow>
          (case marshal_compact R msg of
             Inl err \<Rightarrow> Inl (LocalError err)
           | Inr data \<Rightarrow>
               (case JSONToYAML R data of
                  Inl err \<Rightarrow> Inl (LocalError err)
                | Inr y \<Rightarrow> Inr (writeExactlyOneTrailingNewline y))))"

definition unreachable_format :: "string \<Rightarrow> written" where
  "unreachable_format f = Panics (''render: unreachable format '' @ quote f)"

definition Write :: "renderer \<Rightarrow> string \<Rightarrow> ctl_response \<Rightarrow> written" where
  "Write R f msg =
     (if f = ''json'' then Returns (writeJSON R msg)
      else if f = ''yaml'' then Returns (writeYAML R msg)
      else if f = ''table'' then writeTable R msg
      else unreachable_format f)"

definition WriteDelete :: "string \<Rightarrow> string \<Rightarrow> written" where
  "WriteDelete f ident =
     (if f = ''table'' then Returns (Inr (''deleted: '' @ ident @ newline))
      else if f = ''json'' then
        Returns (Inr ([CHR 0x7B] @ quote ''deleted'' @ '':true,'' @ quote ''id'' @ '':'' @ [CHR 0x22] @ ident @ [CHR 0x22, CHR 0x7D] @ newline))
      else if f = ''yaml'' then Returns (Inr (''deleted: true'' @ newline @ ''id: '' @ ident @ newline))
      else unreachable_format f)"

section \<open>One newline at the end\<close>

definition ends_once :: "string \<Rightarrow> bool" where
  "ends_once s \<longleftrightarrow> (\<exists>b. s = b @ newline \<and> (b = [] \<or> last b \<noteq> CHR 0x0A))"

lemma ends_onceI: "b = [] \<or> last b \<noteq> CHR 0x0A \<Longrightarrow> ends_once (b @ newline)"
  by (auto simp: ends_once_def)

text \<open>What the loop and the last step amount to: every newline at the end goes, one comes.\<close>

lemma one_trailing_newline_rev:
  "writeExactlyOneTrailingNewline (rev xs) = rev (dropWhile (\<lambda>c. c = CHR 0x0A) xs) @ newline"
proof (induction xs)
  case Nil
  show ?case by (simp add: writeExactlyOneTrailingNewline_def strip_newlines.simps [of "[]"])
next
  case (Cons x xs)
  show ?case
  proof (cases "x = CHR 0x0A \<and> xs \<noteq> [] \<and> hd xs = CHR 0x0A")
    case True
    then have "strip_newlines (rev (x # xs)) = strip_newlines (rev xs)"
      by (subst strip_newlines.simps) (auto simp: butlast_append last_rev)
    with Cons True show ?thesis by (simp add: writeExactlyOneTrailingNewline_def)
  next
    case False
    then have "strip_newlines (rev (x # xs)) = rev (x # xs)"
      by (subst strip_newlines.simps) (auto simp: butlast_append last_rev)
    with False show ?thesis
      by (cases xs) (auto simp: writeExactlyOneTrailingNewline_def)
  qed
qed

lemma one_trailing_newline:
  "writeExactlyOneTrailingNewline data = rev (dropWhile (\<lambda>c. c = CHR 0x0A) (rev data)) @ newline"
  using one_trailing_newline_rev [of "rev data"] by simp

lemma last_rev_dropWhile: "rev (dropWhile P xs) = [] \<or> \<not> P (last (rev (dropWhile P xs)))"
  using hd_dropWhile [of P xs] by (auto simp: last_rev)

lemma ends_once_one_trailing_newline: "ends_once (writeExactlyOneTrailingNewline data)"
  unfolding one_trailing_newline by (rule ends_onceI) (rule last_rev_dropWhile)

section \<open>The end of what is written\<close>

text \<open>
  What the tables rely on: the text of a date does not end with a newline (the layout RFC 3339
  ends with the zone). The status of a health answer and the author of an item of the feed are
  in the last column, as the server sends them.
\<close>

definition no_final_newline :: "string \<Rightarrow> bool" where
  "no_final_newline s \<longleftrightarrow> s = [] \<or> last s \<noteq> CHR 0x0A"

definition dates_tame :: "renderer \<Rightarrow> bool" where
  "dates_tame R \<longleftrightarrow> (\<forall>t. no_final_newline (rfc3339 R t))"

fun last_columns_tame :: "ctl_response \<Rightarrow> bool" where
  "last_columns_tame (HealthMsg st) = no_final_newline st"
| "last_columns_tame (ApiMsg (FeedMsg p)) = list_all (\<lambda>x. no_final_newline (pbf_Author x)) (Items p)"
| "last_columns_tame (ApiMsg m) = True"

text \<open>The messages the commands are answered with.\<close>

fun printable :: "ctl_response \<Rightarrow> bool" where
  "printable (ApiMsg Done) = False"
| "printable (ApiMsg (TaskMsg _)) = False"
| "printable (ApiMsg (EventMsg _)) = False"
| "printable m = True"

lemma join_tail: "join sep (x # xs) = (if xs = [] then x else x @ sep @ join sep xs)"
  by (cases xs) simp_all

lemma ends_once_join:
  "no_final_newline x \<Longrightarrow> ends_once (join bar (xs @ [x]) @ newline)"
proof (rule ends_onceI)
  assume x: "no_final_newline x"
  show "join bar (xs @ [x]) = [] \<or> last (join bar (xs @ [x])) \<noteq> CHR 0x0A"
  proof (induction xs)
    case Nil
    then show ?case using x by (simp add: no_final_newline_def)
  next
    case (Cons y ys)
    have "last (bar @ join bar (ys @ [x])) \<noteq> CHR 0x0A" using Cons by (cases "join bar (ys @ [x]) = []") auto
    then show ?case by (simp add: join_tail)
  qed
qed

lemma ends_once_row: "no_final_newline x \<Longrightarrow> cells = xs @ [x] \<Longrightarrow> ends_once (table_row cells)"
  by (simp add: table_row_def ends_once_join del: append_assoc)

lemma ends_once_rows:
  assumes "\<And>x. x \<in> set xs \<Longrightarrow> ends_once (row x) \<and> row x \<noteq> newline" "no_final_newline header" "header \<noteq> []"
  shows "ends_once (list_table header row xs)"
proof -
  have "ends_once (header @ newline @ concat (map row xs))"
  proof (cases xs rule: rev_cases)
    case Nil
    with assms(2) show ?thesis by (auto intro: ends_onceI simp: no_final_newline_def)
  next
    case (snoc ys y)
    with assms(1) obtain b where b: "row y = b @ newline" "b \<noteq> []" "last b \<noteq> CHR 0x0A"
      by (fastforce simp: ends_once_def)
    have "ends_once ((header @ newline @ concat (map row ys) @ b) @ newline)"
      by (rule ends_onceI) (use b in simp)
    with snoc b(1) show ?thesis by simp
  qed
  then show ?thesis by (simp add: list_table_def)
qed

lemma row_not_blank: "table_row (a # b # cs) \<noteq> newline"
  by (simp add: table_row_def append_eq_Cons_conv)

lemma no_final_newline_dates: "dates_tame R \<Longrightarrow> no_final_newline (formatTimestamp R ts)"
  by (auto simp: dates_tame_def formatTimestamp_def no_final_newline_def split: option.split)

lemma rows_end_once:
  assumes "dates_tame R"
  shows "ends_once (source_row_text R s) \<and> source_row_text R s \<noteq> newline"
    and "ends_once (post_row_text R p) \<and> post_row_text R p \<noteq> newline"
    and "ends_once (summary_row_text R m) \<and> summary_row_text R m \<noteq> newline"
    and "ends_once (interest_row_text R v) \<and> interest_row_text R v \<noteq> newline"
    and "no_final_newline (pbf_Author x) \<Longrightarrow> ends_once (feed_row_text R x) \<and> feed_row_text R x \<noteq> newline"
proof -
  note d = no_final_newline_dates [OF assms]
  have dash: "no_final_newline (or_dash a)" if "no_final_newline a" for a
    using that by (auto simp: or_dash_def no_final_newline_def)
  have row: "ends_once (table_row (a # b # cs @ [x])) \<and> table_row (a # b # cs @ [x]) \<noteq> newline"
    if "no_final_newline x" for a b cs x
    using ends_once_row [OF that, of "a # b # cs @ [x]" "a # b # cs"] row_not_blank by simp
  note row3 = row [where cs = "[c, e]" for c e, simplified] and row2 = row [where cs = "[c, e, g, h]" for c e g h, simplified]
  show "ends_once (source_row_text R s) \<and> source_row_text R s \<noteq> newline"
    "ends_once (summary_row_text R m) \<and> summary_row_text R m \<noteq> newline"
    "ends_once (interest_row_text R v) \<and> interest_row_text R v \<noteq> newline"
    unfolding source_row_text_def summary_row_text_def interest_row_text_def by (rule row3, rule d)+
  show "ends_once (post_row_text R p) \<and> post_row_text R p \<noteq> newline"
    unfolding post_row_text_def by (rule row2, rule d)
  show "ends_once (feed_row_text R x) \<and> feed_row_text R x \<noteq> newline" if "no_final_newline (pbf_Author x)"
    unfolding feed_row_text_def by (rule row3, rule dash, rule that)
qed

lemma single_table_list: "single_table h row what (Some x) = Returns (Inr (list_table h row [x]))"
  by (simp add: single_table_def)

lemma headers_tame [simp]:
  "no_final_newline sourceTableHeader" "no_final_newline postTableHeader" "no_final_newline summaryTableHeader"
  "no_final_newline interestTableHeader" "no_final_newline feedTableHeader"
  by (simp_all add: no_final_newline_def)

lemma writeTable_ends_once:
  assumes "dates_tame R" "last_columns_tame msg" "printable msg"
  shows "\<exists>out. writeTable R msg = Returns (Inr out) \<and> ends_once out"
proof (cases msg)
  case (HealthMsg st)
  have "ends_once ((''FIELD | VALUE'' @ newline @ ''status | '' @ st) @ newline)"
    by (rule ends_onceI) (use assms(2) HealthMsg in \<open>auto simp: no_final_newline_def\<close>)
  then show ?thesis by (simp add: HealthMsg writeTable_def writeHealthTable_def)
next
  case (ApiMsg m)
  note rows = rows_end_once [OF assms(1)]
  from assms ApiMsg show ?thesis
    by (cases m) (auto simp: writeTable_def single_table_list list_all_iff intro!: ends_once_rows rows)
qed

lemma write_items_json_ends_once: "write_items_json R its = Inr out \<Longrightarrow> ends_once out"
proof -
  assume "write_items_json R its = Inr out"
  then consider "out = ''[]'' @ newline" | ts where "out = (''['' @ join '','' ts @ '']'') @ newline"
    by (auto simp: write_items_json_def json_array_def split: if_splits sum.splits)
  then show ?thesis
  proof cases
    case 1
    then show ?thesis by (simp only:) (rule ends_onceI, simp)
  next
    case 2
    then show ?thesis by (simp only:) (rule ends_onceI, simp)
  qed
qed

lemma writeItemsAsYAML_ends_once: "writeItemsAsYAML R its = Inr out \<Longrightarrow> ends_once out"
  using ends_onceI [of "''[]''"]
  by (auto simp: writeItemsAsYAML_def ends_once_one_trailing_newline split: if_splits sum.splits)

lemma writeJSON_ends_once: "writeJSON R msg = Inr out \<Longrightarrow> ends_once out"
  by (auto simp: writeJSON_def ends_once_one_trailing_newline write_items_json_ends_once split: option.splits sum.splits)

lemma writeYAML_ends_once: "writeYAML R msg = Inr out \<Longrightarrow> ends_once out"
  by (auto simp: writeYAML_def ends_once_one_trailing_newline writeItemsAsYAML_ends_once split: option.splits sum.splits)


text \<open>An author that ends with a newline is printed with it.\<close>

lemma Write_feed_author:
  "\<not> ends_once (list_table feedTableHeader (feed_row_text R) [x])" if "pbf_Author x = ''a'' @ newline"
proof -
  have "\<exists>b. list_table feedTableHeader (feed_row_text R) [x] = b @ newline @ newline"
    using that by (simp add: list_table_def feed_row_text_def table_row_def or_dash_def)
  then show ?thesis by (auto simp: ends_once_def)
qed

text \<open>A renderer for examples: the JSON text of a message is a fixed one.\<close>

definition sample_renderer :: renderer where
  "sample_renderer = \<lparr>marshal_multiline = (\<lambda>_. Inr ''message''), marshal_compact = (\<lambda>_. Inr ''message''),
     marshal_item = (\<lambda>_. Inr ''item''), JSONToYAML = (\<lambda>j. Inr (j @ newline @ newline)), rfc3339 = itoa,
     format_f = (\<lambda>_. ''0.5''), as_time = AsTime seconds_nanos\<rparr>"

lemma itoa_tame: "no_final_newline (itoa i)"
proof -
  have digits: "c \<in> set (nat_text n) \<Longrightarrow> is_digit c" for c n using nat_text_digits [of n] by (simp add: list_all_iff)
  have "\<not> is_digit (CHR 0x0A)" by (simp add: is_digit_def)
  moreover have "last (nat_text n) \<in> set (nat_text n)" for n using nat_text_digits [of n] by simp
  ultimately have "last (nat_text n) \<noteq> CHR 0x0A" for n using digits by metis
  then show ?thesis using nat_text_digits by (auto simp: no_final_newline_def itoa_def)
qed

lemma sample_renderer_tame: "dates_tame sample_renderer"
  by (simp add: dates_tame_def sample_renderer_def itoa_tame)


end
