(* ===== verification/Ctl.thy ===== *)
theory Ctl
  imports Ctl_Render
begin

text \<open>
  The command line client, third part: the source types (\<open>sourcetype/sourcetype.go\<close>) and the
  commands (\<open>app/source.go\<close>, \<open>app/post.go\<close>, \<open>app/summary.go\<close>, \<open>app/interest.go\<close>, \<open>app/feed.go\<close>,
  \<open>app/health.go\<close>), all under \<open>cmd/feediumctl/internal\<close>. A command is what the command line
  library calls after it has read the arguments; the connection to the server is a parameter.
\<close>

section \<open>Source types\<close>

record type_entry =
  protoType :: PbSourceType
  requiredFlags :: "string list"
  allowedFlags :: "string list"

definition registry :: "(string \<times> type_entry) list" where
  "registry =
     [(''telegram-channel'', \<lparr>protoType = SOURCE_TYPE_TELEGRAM_CHANNEL, requiredFlags = [''tg-id'', ''username''],
         allowedFlags = [''tg-id'', ''username'']\<rparr>),
      (''telegram-group'', \<lparr>protoType = SOURCE_TYPE_TELEGRAM_GROUP, requiredFlags = [''tg-id'', ''username''],
         allowedFlags = [''tg-id'', ''username'']\<rparr>),
      (''rss'', \<lparr>protoType = SOURCE_TYPE_RSS, requiredFlags = [''feed-url''], allowedFlags = [''feed-url'']\<rparr>),
      (''html'', \<lparr>protoType = SOURCE_TYPE_HTML, requiredFlags = [''url''], allowedFlags = [''url'']\<rparr>)]"

text \<open>The names of the registry, sorted.\<close>

abbreviation allTypeNames :: string where "allTypeNames \<equiv> ''html,rss,telegram-channel,telegram-group''"

abbreviation allSourceFlags :: "string list" where "allSourceFlags \<equiv> [''feed-url'', ''tg-id'', ''url'', ''username'']"

definition Lookup :: "string \<Rightarrow> PbSourceType cli_result" where
  "Lookup name =
     (case map_of registry name of
        None \<Rightarrow> Inl (LocalError (''flag: '' @ ''unknown source type '' @ quote name @ '' (allowed: '' @ allTypeNames @ '')''))
      | Some e \<Rightarrow> Inr (protoType e))"

definition unknown_type_flag :: "string \<Rightarrow> cli_error" where
  "unknown_type_flag name = LocalError (''flag: '' @ ''unknown --type '' @ quote name)"

definition LookupFlag :: "string \<Rightarrow> PbSourceType cli_result" where
  "LookupFlag name =
     (case map_of registry name of None \<Rightarrow> Inl (unknown_type_flag name) | Some e \<Rightarrow> Inr (protoType e))"

definition enumShortRegistry :: "(string \<times> PbSourceType) list" where
  "enumShortRegistry =
     [(''UNSPECIFIED'', SOURCE_TYPE_UNSPECIFIED), (''TELEGRAM_CHANNEL'', SOURCE_TYPE_TELEGRAM_CHANNEL),
      (''TELEGRAM_GROUP'', SOURCE_TYPE_TELEGRAM_GROUP), (''RSS'', SOURCE_TYPE_RSS), (''HTML'', SOURCE_TYPE_HTML)]"

definition LookupEnumFlag :: "string \<Rightarrow> PbSourceType cli_result" where
  "LookupEnumFlag name =
     (case map_of enumShortRegistry name of None \<Rightarrow> Inl (unknown_type_flag name) | Some t \<Rightarrow> Inr t)"

text \<open>The entry of a name that is not registered is the zero value: nothing required or allowed.\<close>

definition entry_of :: "string \<Rightarrow> type_entry" where
  "entry_of typeName = (case map_of registry typeName of Some e \<Rightarrow> e
     | None \<Rightarrow> \<lparr>protoType = SOURCE_TYPE_UNSPECIFIED, requiredFlags = [], allowedFlags = []\<rparr>)"

definition CheckFlags :: "string \<Rightarrow> (string \<Rightarrow> bool) \<Rightarrow> cli_error option" where
  "CheckFlags typeName setFlags =
     (let e = entry_of typeName in
      case find (\<lambda>name. setFlags name \<and> name \<notin> set (allowedFlags e)) allSourceFlags of
        Some name \<Rightarrow> Some (LocalError (''flag: '' @ ''--'' @ name @ '' is not allowed for type '' @ quote typeName))
      | None \<Rightarrow>
     (case find (\<lambda>name. \<not> setFlags name) (requiredFlags e) of
        Some name \<Rightarrow> Some (LocalError (''flag: '' @ ''--'' @ name @ '' is required for type '' @ quote typeName))
      | None \<Rightarrow> None))"

record SourceFlags =
  sf_TgID :: "64 word"
  sf_Username :: string
  sf_FeedURL :: string
  sf_URL :: string

definition BuildConfig :: "string \<Rightarrow> SourceFlags \<Rightarrow> PbConfig option option" where
  "BuildConfig typeName f =
     (if typeName = ''telegram-channel'' then
        Some (Some (SourceConfig_TelegramChannel (Some (sf_TgID f, sf_Username f))))
      else if typeName = ''telegram-group'' then
        Some (Some (SourceConfig_TelegramGroup (Some (sf_TgID f, sf_Username f))))
      else if typeName = ''rss'' then Some (Some (SourceConfig_Rss (Some (sf_FeedURL f))))
      else if typeName = ''html'' then Some (Some (SourceConfig_Html (Some (sf_URL f))))
      else None)"

section \<open>Calls\<close>

text \<open>
  The server as the client sees it: from an endpoint, a timeout and a request to a status or a
  message, and what has become of the surroundings. \<open>grpc.NewClient\<close> may refuse an endpoint.
\<close>

type_synonym 'w remote = "string \<Rightarrow> duration \<Rightarrow> ctl_request \<Rightarrow> 'w \<Rightarrow> (status + ctl_response) \<times> 'w"

record cli =
  cli_env :: environment
  cli_renderer :: renderer
  grpc_NewClient :: "string \<Rightarrow> string option"
  parse_rfc3339 :: "string \<Rightarrow> string + time"
  timestamppb_New :: "time \<Rightarrow> timestamp"

definition Dial :: "cli \<Rightarrow> string \<Rightarrow> cli_error option" where
  "Dial L endpoint =
     (case validateEndpoint endpoint of
        Some err \<Rightarrow> Some err
      | None \<Rightarrow> map_option (\<lambda>err. LocalError (''endpoint: '' @ err)) (grpc_NewClient L endpoint))"

text \<open>The end of every command: open the connection, call with the timeout, print or report.\<close>

definition call_and_print ::
  "cli \<Rightarrow> 'w remote \<Rightarrow> Settings \<Rightarrow> ctl_request \<Rightarrow> (ctl_response \<Rightarrow> written) \<Rightarrow> 'w \<Rightarrow> written \<times> 'w" where
  "call_and_print L R settings q show_it w =
     (case Dial L (set_Endpoint settings) of
        Some err \<Rightarrow> (Returns (Inl err), w)
      | None \<Rightarrow>
          (case R (set_Endpoint settings) (set_Timeout settings) q w of
             (Inl st, w) \<Rightarrow> (Returns (Inl (WrapRPCError (StatusError st))), w)
           | (Inr resp, w) \<Rightarrow> (show_it resp, w)))"

definition with_settings :: "cli \<Rightarrow> globalFlags \<Rightarrow> (Settings \<Rightarrow> 'w \<Rightarrow> written \<times> 'w) \<Rightarrow> 'w \<Rightarrow> written \<times> 'w" where
  "with_settings L g body w =
     (case resolveAndValidate (cli_env L) g of
        Inl err \<Rightarrow> (Returns (Inl err), w)
      | Inr settings \<Rightarrow> body settings w)"

abbreviation written_by :: "cli \<Rightarrow> Settings \<Rightarrow> ctl_response \<Rightarrow> written" where
  "written_by L settings \<equiv> Write (cli_renderer L) (set_Output settings)"

definition wire_page_size :: "Settings \<Rightarrow> 32 word" where
  "wire_page_size settings = word_of_int (set_PageSize settings)"

section \<open>Commands\<close>

definition runHealth :: "cli \<Rightarrow> 'w remote \<Rightarrow> globalFlags \<Rightarrow> 'w \<Rightarrow> written \<times> 'w" where
  "runHealth L R g =
     with_settings L g (\<lambda>settings. call_and_print L R settings HealthCheck (written_by L settings))"

text \<open>A flag that was not set is \<open>None\<close>; the message then carries no filter.\<close>

definition runSourceList :: "cli \<Rightarrow> 'w remote \<Rightarrow> globalFlags \<Rightarrow> string option \<Rightarrow> 'w \<Rightarrow> written \<times> 'w" where
  "runSourceList L R g typeFlag =
     with_settings L g (\<lambda>settings w.
       case (case typeFlag of None \<Rightarrow> Inr SOURCE_TYPE_UNSPECIFIED | Some t \<Rightarrow> LookupEnumFlag t) of
         Inl err \<Rightarrow> (Returns (Inl err), w)
       | Inr t \<Rightarrow>
           call_and_print L R settings
             (ApiRequest (ListSources \<lparr>lsr_PageSize = wire_page_size settings, lsr_PageToken = [], lsr_Type = t\<rparr>))
             (written_by L settings) w)"

definition runSourceGet :: "cli \<Rightarrow> 'w remote \<Rightarrow> globalFlags \<Rightarrow> string \<Rightarrow> 'w \<Rightarrow> written \<times> 'w" where
  "runSourceGet L R g ident =
     with_settings L g (\<lambda>settings. call_and_print L R settings (ApiRequest (GetSource ident)) (written_by L settings))"

definition runSourceCreate ::
  "cli \<Rightarrow> 'w remote \<Rightarrow> globalFlags \<Rightarrow> string \<Rightarrow> (string \<Rightarrow> bool) \<Rightarrow> SourceFlags \<Rightarrow> 'w \<Rightarrow> written \<times> 'w" where
  "runSourceCreate L R g typeName setFlags f w =
     (case Lookup typeName of
        Inl err \<Rightarrow> (Returns (Inl err), w)
      | Inr t \<Rightarrow>
     (case CheckFlags typeName setFlags of
        Some err \<Rightarrow> (Returns (Inl err), w)
      | None \<Rightarrow>
          with_settings L g (\<lambda>settings.
            call_and_print L R settings (ApiRequest (CreateSource t (BuildConfig typeName f))) (written_by L settings)) w))"

definition runSourceUpdate ::
  "cli \<Rightarrow> 'w remote \<Rightarrow> globalFlags \<Rightarrow> string \<Rightarrow> string \<Rightarrow> (string \<Rightarrow> bool) \<Rightarrow> SourceFlags \<Rightarrow> 'w \<Rightarrow> written \<times> 'w" where
  "runSourceUpdate L R g ident typeFlag setFlags f w =
     (case LookupFlag typeFlag of
        Inl err \<Rightarrow> (Returns (Inl err), w)
      | Inr t \<Rightarrow>
     (case CheckFlags typeFlag setFlags of
        Some err \<Rightarrow> (Returns (Inl err), w)
      | None \<Rightarrow>
          with_settings L g (\<lambda>settings.
            call_and_print L R settings (ApiRequest (UpdateSource ident t (BuildConfig typeFlag f))) (written_by L settings)) w))"

definition runSourceDelete :: "cli \<Rightarrow> 'w remote \<Rightarrow> globalFlags \<Rightarrow> string \<Rightarrow> 'w \<Rightarrow> written \<times> 'w" where
  "runSourceDelete L R g ident =
     with_settings L g (\<lambda>settings.
       call_and_print L R settings (ApiRequest (DeleteSource ident)) (\<lambda>_. WriteDelete (set_Output settings) ident))"

definition runPostList :: "cli \<Rightarrow> 'w remote \<Rightarrow> globalFlags \<Rightarrow> string option \<Rightarrow> 'w \<Rightarrow> written \<times> 'w" where
  "runPostList L R g sourceID =
     with_settings L g (\<lambda>settings.
       call_and_print L R settings
         (ApiRequest (ListPosts \<lparr>lpr_SourceId = or_empty sourceID, lpr_PageSize = wire_page_size settings, lpr_PageToken = [],
            lpr_OrderBy = POST_SORT_FIELD_UNSPECIFIED, lpr_OrderDir = SORT_DIRECTION_UNSPECIFIED\<rparr>))
         (written_by L settings))"

definition runPostGet :: "cli \<Rightarrow> 'w remote \<Rightarrow> globalFlags \<Rightarrow> string \<Rightarrow> 'w \<Rightarrow> written \<times> 'w" where
  "runPostGet L R g ident =
     with_settings L g (\<lambda>settings. call_and_print L R settings (ApiRequest (GetPost ident)) (written_by L settings))"

definition one_parent :: cli_error where
  "one_parent = LocalError (''flag: '' @ ''summary list requires exactly one of --post-id or --source-id'')"

definition runSummaryList ::
  "cli \<Rightarrow> 'w remote \<Rightarrow> globalFlags \<Rightarrow> string option \<Rightarrow> string option \<Rightarrow> 'w \<Rightarrow> written \<times> 'w" where
  "runSummaryList L R g postID sourceID =
     with_settings L g (\<lambda>settings w.
       case (postID, sourceID) of
         (Some p, None) \<Rightarrow>
           call_and_print L R settings (ApiRequest (ListPostSummaries p)) (written_by L settings) w
       | (None, Some s) \<Rightarrow>
           call_and_print L R settings (ApiRequest (ListSourceSummaries s (wire_page_size settings) []))
             (written_by L settings) w
       | (None, None) \<Rightarrow> (Returns (Inl one_parent), w)
       | (Some _, Some _) \<Rightarrow> (Returns (Inl one_parent), w))"

definition runSummaryGet :: "cli \<Rightarrow> 'w remote \<Rightarrow> globalFlags \<Rightarrow> string \<Rightarrow> 'w \<Rightarrow> written \<times> 'w" where
  "runSummaryGet L R g ident =
     with_settings L g (\<lambda>settings. call_and_print L R settings (ApiRequest (GetSummary ident)) (written_by L settings))"

definition runInterestList :: "cli \<Rightarrow> 'w remote \<Rightarrow> globalFlags \<Rightarrow> 'w \<Rightarrow> written \<times> 'w" where
  "runInterestList L R g =
     with_settings L g (\<lambda>settings.
       call_and_print L R settings (ApiRequest (ListInterests (wire_page_size settings) [])) (written_by L settings))"

definition runInterestGet :: "cli \<Rightarrow> 'w remote \<Rightarrow> globalFlags \<Rightarrow> string \<Rightarrow> 'w \<Rightarrow> written \<times> 'w" where
  "runInterestGet L R g ident =
     with_settings L g (\<lambda>settings. call_and_print L R settings (ApiRequest (GetInterest ident)) (written_by L settings))"

definition runInterestCreate :: "cli \<Rightarrow> 'w remote \<Rightarrow> globalFlags \<Rightarrow> string \<Rightarrow> 'w \<Rightarrow> written \<times> 'w" where
  "runInterestCreate L R g topic =
     with_settings L g (\<lambda>settings. call_and_print L R settings (ApiRequest (CreateInterest topic)) (written_by L settings))"

definition runInterestUpdate :: "cli \<Rightarrow> 'w remote \<Rightarrow> globalFlags \<Rightarrow> string \<Rightarrow> string \<Rightarrow> 'w \<Rightarrow> written \<times> 'w" where
  "runInterestUpdate L R g ident topic =
     with_settings L g (\<lambda>settings.
       call_and_print L R settings (ApiRequest (UpdateInterest ident topic)) (written_by L settings))"

definition runInterestDelete :: "cli \<Rightarrow> 'w remote \<Rightarrow> globalFlags \<Rightarrow> string \<Rightarrow> 'w \<Rightarrow> written \<times> 'w" where
  "runInterestDelete L R g ident =
     with_settings L g (\<lambda>settings.
       call_and_print L R settings (ApiRequest (DeleteInterest ident)) (\<lambda>_. WriteDelete (set_Output settings) ident))"

record feedListFlags =
  ff_from :: string
  ff_to :: string
  ff_minScore :: float64

definition feed_bound :: "cli \<Rightarrow> string \<Rightarrow> string \<Rightarrow> timestamp option cli_result" where
  "feed_bound L name text =
     (if text = [] then Inr None
      else case parse_rfc3339 L text of
             Inl err \<Rightarrow> Inl (LocalError (''flag: '' @ ''invalid --'' @ name @ '' timestamp: '' @ err))
           | Inr t \<Rightarrow> Inr (Some (timestamppb_New L t)))"

definition runFeedList :: "cli \<Rightarrow> 'w remote \<Rightarrow> globalFlags \<Rightarrow> feedListFlags \<Rightarrow> 'w \<Rightarrow> written \<times> 'w" where
  "runFeedList L R g f =
     with_settings L g (\<lambda>settings w.
       case feed_bound L ''from'' (ff_from f) of
         Inl err \<Rightarrow> (Returns (Inl err), w)
       | Inr from_bound \<Rightarrow>
      (case feed_bound L ''to'' (ff_to f) of
         Inl err \<Rightarrow> (Returns (Inl err), w)
       | Inr to_bound \<Rightarrow>
           call_and_print L R settings
             (ApiRequest (ListFeed \<lparr>lfr_From = from_bound, lfr_To = to_bound, lfr_MinScore = ff_minScore f,
                lfr_PageSize = wire_page_size settings, lfr_PageToken = []\<rparr>))
             (written_by L settings) w))"

text \<open>What a command line comes to, once the library has read it.\<close>

datatype ctl_command =
    CmdHealth
  | CmdSourceList "string option" | CmdSourceGet string
  | CmdSourceCreate string "string \<Rightarrow> bool" SourceFlags
  | CmdSourceUpdate string string "string \<Rightarrow> bool" SourceFlags
  | CmdSourceDelete string
  | CmdPostList "string option" | CmdPostGet string
  | CmdSummaryList "string option" "string option" | CmdSummaryGet string
  | CmdInterestList | CmdInterestGet string | CmdInterestCreate string
  | CmdInterestUpdate string string | CmdInterestDelete string
  | CmdFeedList feedListFlags

fun run_command :: "cli \<Rightarrow> 'w remote \<Rightarrow> globalFlags \<Rightarrow> ctl_command \<Rightarrow> 'w \<Rightarrow> written \<times> 'w" where
  "run_command L R g CmdHealth = runHealth L R g"
| "run_command L R g (CmdSourceList t) = runSourceList L R g t"
| "run_command L R g (CmdSourceGet i) = runSourceGet L R g i"
| "run_command L R g (CmdSourceCreate t s f) = runSourceCreate L R g t s f"
| "run_command L R g (CmdSourceUpdate i t s f) = runSourceUpdate L R g i t s f"
| "run_command L R g (CmdSourceDelete i) = runSourceDelete L R g i"
| "run_command L R g (CmdPostList s) = runPostList L R g s"
| "run_command L R g (CmdPostGet i) = runPostGet L R g i"
| "run_command L R g (CmdSummaryList p s) = runSummaryList L R g p s"
| "run_command L R g (CmdSummaryGet i) = runSummaryGet L R g i"
| "run_command L R g CmdInterestList = runInterestList L R g"
| "run_command L R g (CmdInterestGet i) = runInterestGet L R g i"
| "run_command L R g (CmdInterestCreate t) = runInterestCreate L R g t"
| "run_command L R g (CmdInterestUpdate i t) = runInterestUpdate L R g i t"
| "run_command L R g (CmdInterestDelete i) = runInterestDelete L R g i"
| "run_command L R g (CmdFeedList f) = runFeedList L R g f"

section \<open>One command, at most one request\<close>

text \<open>
  The contract of the client: the flags a source type takes, and the request a command stands
  for when its arguments are right. The order in which the code looks at arguments, settings
  and connection does not appear here.
\<close>

fun documented_source :: "string \<Rightarrow> SourceFlags \<Rightarrow> (PbSourceType \<times> PbConfig \<times> string set) option" where
  "documented_source name f =
     (if name = ''telegram-channel'' then
        Some (SOURCE_TYPE_TELEGRAM_CHANNEL, SourceConfig_TelegramChannel (Some (sf_TgID f, sf_Username f)), {''tg-id'', ''username''})
      else if name = ''telegram-group'' then
        Some (SOURCE_TYPE_TELEGRAM_GROUP, SourceConfig_TelegramGroup (Some (sf_TgID f, sf_Username f)), {''tg-id'', ''username''})
      else if name = ''rss'' then Some (SOURCE_TYPE_RSS, SourceConfig_Rss (Some (sf_FeedURL f)), {''feed-url''})
      else if name = ''html'' then Some (SOURCE_TYPE_HTML, SourceConfig_Html (Some (sf_URL f)), {''url''})
      else None)"

declare documented_source.simps [simp del]

definition source_arguments :: "string \<Rightarrow> (string \<Rightarrow> bool) \<Rightarrow> SourceFlags \<Rightarrow> (PbSourceType \<times> PbConfig) option" where
  "source_arguments name setFlags f =
     (case documented_source name f of
        None \<Rightarrow> None
      | Some (t, c, fs) \<Rightarrow> given_if (\<forall>x \<in> set allSourceFlags. setFlags x \<longleftrightarrow> x \<in> fs) (t, c))"

definition feed_bounds :: "cli \<Rightarrow> feedListFlags \<Rightarrow> (timestamp option \<times> timestamp option) option" where
  "feed_bounds L f =
     (case (feed_bound L ''from'' (ff_from f), feed_bound L ''to'' (ff_to f)) of
        (Inr a, Inr b) \<Rightarrow> Some (a, b) | (Inl _, _) \<Rightarrow> None | (Inr _, Inl _) \<Rightarrow> None)"

fun documented_request :: "cli \<Rightarrow> 32 word \<Rightarrow> ctl_command \<Rightarrow> ctl_request option" where
  "documented_request L n CmdHealth = Some HealthCheck"
| "documented_request L n (CmdSourceList None) =
     Some (ApiRequest (ListSources \<lparr>lsr_PageSize = n, lsr_PageToken = [], lsr_Type = SOURCE_TYPE_UNSPECIFIED\<rparr>))"
| "documented_request L n (CmdSourceList (Some name)) =
     map_option (\<lambda>t. ApiRequest (ListSources \<lparr>lsr_PageSize = n, lsr_PageToken = [], lsr_Type = t\<rparr>)) (map_of enumShortRegistry name)"
| "documented_request L n (CmdSourceGet i) = Some (ApiRequest (GetSource i))"
| "documented_request L n (CmdSourceCreate name s f) =
     map_option (\<lambda>(t, c). ApiRequest (CreateSource t (Some (Some c)))) (source_arguments name s f)"
| "documented_request L n (CmdSourceUpdate i name s f) =
     map_option (\<lambda>(t, c). ApiRequest (UpdateSource i t (Some (Some c)))) (source_arguments name s f)"
| "documented_request L n (CmdSourceDelete i) = Some (ApiRequest (DeleteSource i))"
| "documented_request L n (CmdPostList s) =
     Some (ApiRequest (ListPosts \<lparr>lpr_SourceId = or_empty s, lpr_PageSize = n, lpr_PageToken = [],
       lpr_OrderBy = POST_SORT_FIELD_UNSPECIFIED, lpr_OrderDir = SORT_DIRECTION_UNSPECIFIED\<rparr>))"
| "documented_request L n (CmdPostGet i) = Some (ApiRequest (GetPost i))"
| "documented_request L n (CmdSummaryList (Some p) None) = Some (ApiRequest (ListPostSummaries p))"
| "documented_request L n (CmdSummaryList None (Some s)) = Some (ApiRequest (ListSourceSummaries s n []))"
| "documented_request L n (CmdSummaryList None None) = None"
| "documented_request L n (CmdSummaryList (Some p) (Some s)) = None"
| "documented_request L n (CmdSummaryGet i) = Some (ApiRequest (GetSummary i))"
| "documented_request L n CmdInterestList = Some (ApiRequest (ListInterests n []))"
| "documented_request L n (CmdInterestGet i) = Some (ApiRequest (GetInterest i))"
| "documented_request L n (CmdInterestCreate t) = Some (ApiRequest (CreateInterest t))"
| "documented_request L n (CmdInterestUpdate i t) = Some (ApiRequest (UpdateInterest i t))"
| "documented_request L n (CmdInterestDelete i) = Some (ApiRequest (DeleteInterest i))"
| "documented_request L n (CmdFeedList f) =
     map_option (\<lambda>(a, b). ApiRequest (ListFeed \<lparr>lfr_From = a, lfr_To = b, lfr_MinScore = ff_minScore f,
       lfr_PageSize = n, lfr_PageToken = []\<rparr>)) (feed_bounds L f)"

fun printed_answer :: "cli \<Rightarrow> Settings \<Rightarrow> ctl_command \<Rightarrow> ctl_response \<Rightarrow> written" where
  "printed_answer L s (CmdSourceDelete i) = (\<lambda>_. WriteDelete (set_Output s) i)"
| "printed_answer L s (CmdInterestDelete i) = (\<lambda>_. WriteDelete (set_Output s) i)"
| "printed_answer L s c = written_by L s"

text \<open>The settings and the request of a command that passes every check of the client.\<close>

definition accepted :: "cli \<Rightarrow> globalFlags \<Rightarrow> ctl_command \<Rightarrow> (Settings \<times> ctl_request) option" where
  "accepted L g c =
     (case resolveAndValidate (cli_env L) g of
        Inl _ \<Rightarrow> None
      | Inr s \<Rightarrow>
          (if Dial L (set_Endpoint s) = None
           then map_option (\<lambda>q. (s, q)) (documented_request L (wire_page_size s) c) else None))"

lemma map_of_registry:
  "map_of registry name = map_option (\<lambda>(t, c, fs). entry_of name) (documented_source name f)"
  by (simp add: registry_def documented_source.simps entry_of_def)

lemma known_types:
  assumes "documented_source name f = Some (t, c, fs)"
  shows "Lookup name = Inr t" "LookupFlag name = Inr t" "BuildConfig name f = Some (Some c)"
    "CheckFlags name s = None \<longleftrightarrow> (\<forall>x \<in> set allSourceFlags. s x \<longleftrightarrow> x \<in> fs)"
  using assms
  by (auto simp: documented_source.simps Lookup_def LookupFlag_def BuildConfig_def registry_def CheckFlags_def entry_of_def Let_def
      split: if_splits option.splits)

lemma unknown_types:
  assumes "documented_source name f = None"
  shows "\<exists>e. Lookup name = Inl e \<and> prefixed e" "\<exists>e. LookupFlag name = Inl e \<and> prefixed e"
  using assms map_of_registry [of name f]
  by (simp_all add: Lookup_def LookupFlag_def unknown_type_flag_def del: append.simps)

lemma CheckFlags_prefixed: "CheckFlags name s = Some e \<Longrightarrow> prefixed e"
  by (auto simp: CheckFlags_def Let_def simp del: append.simps split: option.splits)

lemma Dial_prefixed: "Dial L x = Some e \<Longrightarrow> prefixed e"
  by (auto simp: Dial_def validateEndpoint_prefixed simp del: append.simps split: option.splits)

lemma feed_bound_prefixed: "feed_bound L n t = Inl e \<Longrightarrow> prefixed e"
  by (auto simp: feed_bound_def simp del: append.simps split: if_splits sum.splits)

lemma LookupEnumFlag_prefixed: "LookupEnumFlag t = Inl e \<Longrightarrow> prefixed e"
  by (auto simp: LookupEnumFlag_def unknown_type_flag_def simp del: append.simps split: option.splits)

definition after_call :: "cli \<Rightarrow> Settings \<Rightarrow> ctl_command \<Rightarrow> (status + ctl_response) \<times> 'w \<Rightarrow> written \<times> 'w" where
  "after_call L s c r =
     (case r of
        (Inl st, w) \<Rightarrow> (Returns (Inl (RpcError (StatusError st))), w)
      | (Inr m, w) \<Rightarrow> (printed_answer L s c m, w))"

text \<open>What the contract says of the outcome of a command.\<close>

definition honours :: "cli \<Rightarrow> 'w remote \<Rightarrow> globalFlags \<Rightarrow> ctl_command \<Rightarrow> 'w \<Rightarrow> written \<times> 'w \<Rightarrow> bool" where
  "honours L R g c w out \<longleftrightarrow>
     (case accepted L g c of
        None \<Rightarrow> \<exists>e. prefixed e \<and> out = (Returns (Inl e), w)
      | Some (s, q) \<Rightarrow> out = after_call L s c (R (set_Endpoint s) (set_Timeout s) q w))"

lemma with_settings_honours:
  assumes "\<And>s. (\<exists>e. prefixed e \<and> body s w = (Returns (Inl e), w) \<and> documented_request L (wire_page_size s) c = None) \<or>
      (\<exists>q. documented_request L (wire_page_size s) c = Some q \<and> body s w = call_and_print L R s q (printed_answer L s c) w)"
  shows "honours L R g c w (with_settings L g body w)"
proof (cases "resolveAndValidate (cli_env L) g")
  case (Inl e)
  then show ?thesis by (simp add: honours_def accepted_def with_settings_def resolveAndValidate_prefixed)
next
  case (Inr s)
  from assms [of s] consider e where "prefixed e" "body s w = (Returns (Inl e), w)" "documented_request L (wire_page_size s) c = None"
    | q where "documented_request L (wire_page_size s) c = Some q" "body s w = call_and_print L R s q (printed_answer L s c) w"
    by blast
  then show ?thesis
    by cases (use Inr in \<open>auto simp: honours_def accepted_def with_settings_def call_and_print_def after_call_def Dial_prefixed
        split: option.split sum.split prod.split\<close>)
qed

lemma request_honours:
  assumes "\<And>s. documented_request L (wire_page_size s) c = Some (q s)" and "\<And>s. printed_answer L s c = pr s"
  shows "honours L R g c w (with_settings L g (\<lambda>s. call_and_print L R s (q s) (pr s)) w)"
  by (rule with_settings_honours) (use assms in auto)

lemma rejected_honours:
  assumes "prefixed e" "\<And>n. documented_request L n c = None"
  shows "honours L R g c w (Returns (Inl e), w)"
  using assms by (simp add: honours_def accepted_def split: sum.split)

lemma source_command_honours:
  assumes doc: "\<And>n. documented_request L n c = map_option (\<lambda>(t, p). ApiRequest (q t (Some (Some p)))) (source_arguments name s f)"
    and pr: "\<And>st. printed_answer L st c = written_by L st"
    and look: "\<And>t p fs. documented_source name f = Some (t, p, fs) \<Longrightarrow> look = Inr t"
      "documented_source name f = None \<Longrightarrow> \<exists>e. look = Inl e \<and> prefixed e"
  shows "honours L R g c w
    (case look of Inl err \<Rightarrow> (Returns (Inl err), w)
     | Inr t \<Rightarrow> (case CheckFlags name s of Some err \<Rightarrow> (Returns (Inl err), w)
        | None \<Rightarrow> with_settings L g (\<lambda>st. call_and_print L R st (ApiRequest (q t (BuildConfig name f))) (written_by L st)) w))"
proof (cases "documented_source name f")
  case None
  with look(2) obtain e where "look = Inl e" "prefixed e" by blast
  then show ?thesis using None doc by (simp add: source_arguments_def rejected_honours)
next
  case (Some d)
  obtain t p fs where d: "documented_source name f = Some (t, p, fs)" using Some by (cases d) auto
  note k = known_types [OF d]
  show ?thesis
  proof (cases "CheckFlags name s")
    case None
    then have "\<forall>x \<in> set allSourceFlags. s x \<longleftrightarrow> x \<in> fs" by (simp only: k(4) [symmetric])
    then have "source_arguments name s f = Some (t, p)"
      unfolding source_arguments_def d option.case prod.case given_if_def by (rule if_P)
    then show ?thesis using None k(3) look(1) [OF d] doc pr by (simp add: request_honours)
  next
    case (Some e)
    then have "\<not> (\<forall>x \<in> set allSourceFlags. s x \<longleftrightarrow> x \<in> fs)" by (simp only: k(4) [symmetric]) simp
    then have "source_arguments name s f = None"
      unfolding source_arguments_def d option.case prod.case given_if_def by (rule if_not_P)
    then show ?thesis using Some look(1) [OF d] doc CheckFlags_prefixed [OF Some] by (simp add: rejected_honours)
  qed
qed

lemma run_command_honours: "honours L R g c w (run_command L R g c w)"
proof -
  have one: "prefixed one_parent" by (simp add: one_parent_def del: append.simps)
  show ?thesis
  proof (cases c)
    case (CmdSourceList t)
    show ?thesis unfolding CmdSourceList run_command.simps runSourceList_def
      by (rule with_settings_honours, cases t)
        (auto simp: LookupEnumFlag_def unknown_type_flag_def simp del: append.simps split: option.split)
  next
    case (CmdSourceCreate name s f)
    show ?thesis unfolding CmdSourceCreate run_command.simps runSourceCreate_def
      by (rule source_command_honours) (simp_all add: known_types unknown_types)
  next
    case (CmdSourceUpdate i name s f)
    show ?thesis unfolding CmdSourceUpdate run_command.simps runSourceUpdate_def
      by (rule source_command_honours [where q = "UpdateSource i"]) (simp_all add: known_types unknown_types)
  next
    case (CmdSummaryList p s)
    show ?thesis unfolding CmdSummaryList run_command.simps runSummaryList_def
      by (rule with_settings_honours, cases p; cases s) (simp_all add: one)
  next
    case (CmdFeedList f)
    show ?thesis unfolding CmdFeedList run_command.simps runFeedList_def
      by (rule with_settings_honours) (auto simp: feed_bounds_def feed_bound_prefixed split: sum.split)
  qed (simp_all add: runHealth_def runSourceGet_def runSourceDelete_def runPostList_def runPostGet_def runSummaryGet_def
      runInterestList_def runInterestGet_def runInterestCreate_def runInterestUpdate_def runInterestDelete_def request_honours)
qed

text \<open>
  C21. A command of the client sends the one request it stands for, or none: when the settings
  cannot be resolved, the endpoint cannot be dialled or an argument is wrong (a source type that
  is unknown, a flag that is missing or does not belong to the type, a bad date, not exactly one
  parent), it ends with an error of its own, one with a documented prefix, and leaves the server
  alone. Otherwise the server gets that request, with the page size of the settings, and its
  answer is printed, or its status reported.
\<close>

theorem run_command_contract:
  "case accepted L g c of
     None \<Rightarrow> \<exists>e. prefixed e \<and> run_command L R g c w = (Returns (Inl e), w)
   | Some (s, q) \<Rightarrow> run_command L R g c w = after_call L s c (R (set_Endpoint s) (set_Timeout s) q w)"
  using run_command_honours [of L R g c w] by (simp add: honours_def)

end
