(* ===== verification/Health.thy ===== *)
theory Health
  imports Api_Base
begin

text \<open>
  The health check (\<open>internal/service/health/health.go\<close>, \<open>http.go\<close>): the answers of the two
  interfaces to a ping of the database, and the logger of failed pings, which lets at most one
  line per second through although any number of calls runs at once.
\<close>

section \<open>One call\<close>

text \<open>
  The state of the logger: the instant of the last line, an \<open>atomic.Int64\<close> of nanoseconds, and
  the lines written so far, newest first.
\<close>

record throttle =
  th_last :: "64 word"
  th_log :: "(64 word \<times> error) list"

definition nanos_per_second :: "64 word" where
  "nanos_per_second = 1000000000"

text \<open>A call that is not disturbed; \<open>now\<close> is the reading of the clock.\<close>

definition LogError :: "64 word \<Rightarrow> error \<Rightarrow> throttle \<Rightarrow> throttle" where
  "LogError now err s =
     (let prev = th_last s in
      if now - prev <s nanos_per_second then s
      else \<lparr>th_last = now, th_log = (now, err) # th_log s\<rparr>)"

definition Check :: "error option \<Rightarrow> 64 word \<Rightarrow> throttle \<Rightarrow> (string \<times> bool) \<times> throttle" where
  "Check ping now s =
     (case ping of
        None \<Rightarrow> ((''ok'', True), s)
      | Some err \<Rightarrow> ((''unavailable'', False), LogError now err s))"

definition V1Check :: "error option \<Rightarrow> 64 word \<Rightarrow> throttle \<Rightarrow> string reply \<times> throttle" where
  "V1Check ping now s =
     (case Check ping now s of
        ((st, ok), s) \<Rightarrow>
          (if ok then (Inr st, s) else (Inl \<lparr>status_code = Unavailable, status_message = ''unavailable''\<rparr>, s)))"

record http_response =
  http_code :: nat
  http_type :: string
  http_body :: string

definition HTTPHandler :: "string \<Rightarrow> error option \<Rightarrow> 64 word \<Rightarrow> throttle \<Rightarrow> http_response \<times> throttle" where
  "HTTPHandler method ping now s =
     (if method \<noteq> ''GET'' then (\<lparr>http_code = 405, http_type = [], http_body = []\<rparr>, s)
      else case Check ping now s of
             ((st, ok), s) \<Rightarrow>
               (\<lparr>http_code = (if ok then 200 else 503), http_type = ''application/json'',
                 http_body = [CHR 0x7B] @ quote ''status'' @ '':'' @ quote st @ [CHR 0x7D, CHR 0x0A]\<rparr>, s))"

text \<open>Both interfaces say the same, and what they say is whether the ping succeeded.\<close>

lemma interfaces_agree:
  "http_code (fst (HTTPHandler ''GET'' ping now s)) = 200 \<longleftrightarrow> ping = None"
  "(\<exists>st. fst (V1Check ping now s) = Inr st) \<longleftrightarrow> ping = None"
  "snd (HTTPHandler ''GET'' ping now s) = snd (V1Check ping now s)"
  by (auto simp: HTTPHandler_def V1Check_def Check_def split: option.split)

lemma V1Check_discreet: "discreet (fst (V1Check ping now s))"
  by (auto simp: V1Check_def Check_def discreet_def public_messages_def split: option.split)

lemma success_not_logged: "snd (Check None now s) = s"
  by (simp add: Check_def)

section \<open>Calls side by side\<close>

text \<open>
  \<open>LogError\<close> of many calls at once: each reads the clock, loads the last instant, gives up or
  tries to exchange it, and writes its line if the exchange succeeds. Readings of the clock
  come in any order, the clock may be set back; they are instants between 1970 and 2262, for
  which \<open>UnixNano\<close> is defined and not negative.
\<close>

datatype log_call =
    Outside
  | HasNow "64 word" error
  | HasPrev "64 word" error "64 word"

type_synonym log_calls = "nat \<Rightarrow> log_call"

inductive log_step :: "throttle \<times> log_calls \<Rightarrow> throttle \<times> log_calls \<Rightarrow> bool" where
  enter: "calls i = Outside \<Longrightarrow> 0 \<le> sint now \<Longrightarrow> log_step (s, calls) (s, calls(i := HasNow now err))"
| load: "calls i = HasNow now err \<Longrightarrow> log_step (s, calls) (s, calls(i := HasPrev now err (th_last s)))"
| too_soon: "calls i = HasPrev now err prev \<Longrightarrow> now - prev <s nanos_per_second \<Longrightarrow>
    log_step (s, calls) (s, calls(i := Outside))"
| exchanged: "calls i = HasPrev now err prev \<Longrightarrow> \<not> now - prev <s nanos_per_second \<Longrightarrow> th_last s = prev \<Longrightarrow>
    log_step (s, calls) (\<lparr>th_last = now, th_log = (now, err) # th_log s\<rparr>, calls(i := Outside))"
| overtaken: "calls i = HasPrev now err prev \<Longrightarrow> \<not> now - prev <s nanos_per_second \<Longrightarrow> th_last s \<noteq> prev \<Longrightarrow>
    log_step (s, calls) (s, calls(i := Outside))"

inductive_cases log_stepE: "log_step c c'"

definition fresh_throttle :: throttle where
  "fresh_throttle = \<lparr>th_last = 0, th_log = []\<rparr>"

inductive log_reachable :: "throttle \<times> log_calls \<Rightarrow> bool" where
  started: "log_reachable (fresh_throttle, \<lambda>_. Outside)"
| stepped: "log_reachable c \<Longrightarrow> log_step c c' \<Longrightarrow> log_reachable c'"

text \<open>A call that runs alone is \<open>LogError\<close>.\<close>

lemma LogError_steps:
  assumes "calls i = Outside" "0 \<le> sint now"
  shows "log_step\<^sup>*\<^sup>* (s, calls) (LogError now err s, calls)"
proof -
  have idle: "calls(i := Outside) = calls" using assms(1) by auto
  have "log_step (s, calls) (s, calls(i := HasNow now err))" using assms by (rule enter)
  moreover have "log_step (s, calls(i := HasNow now err)) (s, calls(i := HasPrev now err (th_last s)))"
    using load [of "calls(i := HasNow now err)" i now err s] by simp
  moreover have "log_step (s, calls(i := HasPrev now err (th_last s))) (LogError now err s, calls)"
  proof (cases "now - th_last s <s nanos_per_second")
    case True
    then show ?thesis
      using too_soon [of "calls(i := HasPrev now err (th_last s))" i now err "th_last s" s] idle
      by (simp add: LogError_def)
  next
    case False
    then show ?thesis
      using exchanged [of "calls(i := HasPrev now err (th_last s))" i now err "th_last s" s] idle
      by (simp add: LogError_def)
  qed
  ultimately show ?thesis by (meson converse_rtranclp_into_rtranclp rtranclp.rtrancl_refl)
qed

section \<open>At most one line per second\<close>

definition a_second_apart :: "64 word \<times> error \<Rightarrow> 64 word \<times> error \<Rightarrow> bool" where
  "a_second_apart later earlier \<longleftrightarrow> sint (fst earlier) + second \<le> sint (fst later)"

fun call_ok :: "log_call \<Rightarrow> bool" where
  "call_ok Outside = True"
| "call_ok (HasNow now _) = (0 \<le> sint now)"
| "call_ok (HasPrev now _ prev) = (0 \<le> sint now \<and> 0 \<le> sint prev)"

definition log_inv :: "throttle \<times> log_calls \<Rightarrow> bool" where
  "log_inv c \<longleftrightarrow>
     0 \<le> sint (th_last (fst c)) \<and> (\<forall>i. call_ok (snd c i)) \<and>
     (\<forall>x \<in> set (th_log (fst c)). sint (fst x) \<le> sint (th_last (fst c))) \<and>
     sorted_wrt a_second_apart (th_log (fst c))"

lemma sint_diff:
  fixes a b :: "64 word"
  assumes "0 \<le> sint a" "0 \<le> sint b"
  shows "sint (a - b) = sint a - sint b"
proof -
  have "sint a < 2 ^ 63" "sint b < 2 ^ 63" using sint_lt [of a] sint_lt [of b] by simp_all
  then have "- (2 ^ 63) \<le> sint a - sint b" "sint a - sint b < 2 ^ 63" using assms by linarith+
  then have "signed_take_bit 63 (sint a - sint b) = sint a - sint b"
    by (intro signed_take_bit_int_eq_self) simp_all
  moreover have "sint (a - b) = signed_take_bit 63 (sint a - sint b)"
    by (simp add: sint_word_ariths sint_sbintrunc')
  ultimately show ?thesis by simp
qed

lemma second_passed:
  "0 \<le> sint now \<Longrightarrow> 0 \<le> sint prev \<Longrightarrow> \<not> now - prev <s nanos_per_second \<Longrightarrow> sint prev + second \<le> sint now"
  by (simp add: word_sless_alt sint_diff nanos_per_second_def)

lemma log_inv_step: "log_step c c' \<Longrightarrow> log_inv c \<Longrightarrow> log_inv c'"
proof (induction rule: log_step.induct)
  case (exchanged calls i now err prev s)
  then have ok: "0 \<le> sint now" "0 \<le> sint prev" by (metis call_ok.simps(3) log_inv_def snd_conv)+
  then have gap: "sint (th_last s) + second \<le> sint now"
    using second_passed [OF ok] exchanged by simp
  have "a_second_apart (now, err) x" if "x \<in> set (th_log s)" for x
    using exchanged.prems that gap by (fastforce simp: log_inv_def a_second_apart_def)
  moreover have "sint (fst x) \<le> sint now" if "x \<in> set (th_log s)" for x
    using exchanged.prems that gap by (fastforce simp: log_inv_def)
  ultimately show ?case using exchanged.prems ok by (auto simp: log_inv_def)
next
  case (load calls i now err s)
  then have "0 \<le> sint now" by (metis call_ok.simps(2) log_inv_def snd_conv)
  with load show ?case by (auto simp: log_inv_def)
qed (auto simp: log_inv_def)

lemma log_reachable_inv: "log_reachable c \<Longrightarrow> log_inv c"
proof (induction rule: log_reachable.induct)
  case started
  show ?case by (simp add: log_inv_def fresh_throttle_def)
next
  case (stepped c c')
  then show ?case using log_inv_step by blast
qed



end
