(* ===== verification/Ctl_Server.thy ===== *)
theory Ctl_Server
  imports Ctl Health
begin

text \<open>
  Client and server together: a command of \<open>feediumctl\<close> against the handlers of the server, over
  a network that may lose a request or its answer.
\<close>

section \<open>The server behind a connection\<close>

text \<open>
  What becomes of a request. A handler that panics takes the server down (\<open>NewGRPCServer\<close>
  installs no recovery), the client sees the status of a broken connection.
\<close>

datatype delivery = Arrives | RequestLost status | AnswerLost status

definition answered :: "status \<Rightarrow> api_response reply outcome \<Rightarrow> status + ctl_response" where
  "answered broken a =
     (case a of Panics _ \<Rightarrow> Inl broken | Returns r \<Rightarrow> map_sum id ApiMsg r)"

definition server_remote ::
  "server \<Rightarrow> error option \<Rightarrow> status \<Rightarrow> (ctl_request \<Rightarrow> delivery) \<Rightarrow> world remote" where
  "server_remote S ping broken net = (\<lambda>endpoint timeout q w.
     case net q of
       RequestLost st \<Rightarrow> (Inl st, w)
     | d \<Rightarrow>
         (let (a, w) = (case q of
                HealthCheck \<Rightarrow> (map_sum id HealthMsg (fst (V1Check ping 0 fresh_throttle)), w)
              | ApiRequest r \<Rightarrow> (case serve S r w of (a, w) \<Rightarrow> (answered broken a, w)))
          in case d of AnswerLost st \<Rightarrow> (Inl st, w) | _ \<Rightarrow> (a, w)))"

lemma server_remote_arrives:
  "net (ApiRequest r) = Arrives \<Longrightarrow> serve S r w = (Returns a, w') \<Longrightarrow>
     server_remote S ping broken net e t (ApiRequest r) w = (map_sum id ApiMsg a, w')"
  by (simp add: server_remote_def answered_def)

lemma server_remote_lost: "net q = RequestLost st \<Longrightarrow> server_remote S ping broken net e t q w = (Inl st, w)"
  by (simp add: server_remote_def)

section \<open>A source created and read from the command line\<close>

text \<open>The configuration the flags of a source type describe.\<close>

definition flags_config :: "string \<Rightarrow> SourceFlags \<Rightarrow> SourceConfig" where
  "flags_config name f =
     (if name = ''telegram-channel'' then TelegramChannelConfig (sf_TgID f) (sf_Username f)
      else if name = ''telegram-group'' then TelegramGroupConfig (sf_TgID f) (sf_Username f)
      else if name = ''rss'' then RSSConfig (sf_FeedURL f)
      else HTMLConfig (sf_URL f))"

text \<open>What the client sends is always a configuration of the type it sends.\<close>

lemma documented_source_config:
  "documented_source name f = Some (t, p, fs) \<Longrightarrow>
     source_mapProtoConfigToDomain (source_mapProtoTypeToDomain t) (Some (Some p)) = Inr (flags_config name f) \<and> filled p = p"
  by (auto simp: documented_source.simps source_mapProtoConfigToDomain_def flags_config_def tg_parts_def or_empty_def
      split: if_splits)

lemma source_arguments_config:
  "source_arguments name s f = Some (t, p) \<Longrightarrow>
     source_mapProtoConfigToDomain (source_mapProtoTypeToDomain t) (Some (Some p)) = Inr (flags_config name f) \<and> filled p = p"
  unfolding source_arguments_def by (cases "documented_source name f")
    (auto simp: given_if_def documented_source_config split: prod.splits if_split_asm simp del: list.set)

lemma run_accepted:
  "accepted L g c = Some (s, q) \<Longrightarrow> run_command L R g c w = after_call L s c (R (set_Endpoint s) (set_Timeout s) q w)"
  using run_command_honours [of L R g c w] by (simp add: honours_def)

lemma accepted_same_settings:
  "accepted L g c = Some (s, q) \<Longrightarrow> documented_request L (wire_page_size s) c' = Some q' \<Longrightarrow> accepted L g c' = Some (s, q')"
  by (auto simp: accepted_def split: sum.splits if_splits)


text \<open>
  Page size 0 passes every check of the client and takes the server down when the source asked
  for has a summary: the listing of a source's summaries does not clamp the size.
\<close>

lemma summary_list_zero_page:
  assumes ok: "accepted L g (CmdSummaryList None (Some src)) = Some (s, q)" and zero: "set_PageSize s = 0"
    and "fault_free w" and "\<forall>q. net q = Arrives" and "parse_uuid (dep_ext (srv_deps S)) src = Some (m_source_id r)"
    and "r \<in> set (summaries (committed w))"
  shows "fst (run_command L (server_remote S ping broken net) g (CmdSummaryList None (Some src)) w) =
    Returns (Inl (RpcError (StatusError broken)))"
proof -
  obtain msg w' where "summary_repo_ListBySource (dep_ext (srv_deps S)) src 0 [] w = (Panics msg, w')"
    using ListBySource_zero_page_panics [OF assms(3,5,6) refl] by (metis prod.collapse)
  then have "serve S (ListSourceSummaries src 0 []) w = (Panics msg, w')"
    by (simp add: V1ListSourceSummaries_def SummaryUsecase_ListSourceSummaries_def answer_outcome_def)
  moreover have "q = ApiRequest (ListSourceSummaries src 0 [])"
    using ok zero by (auto simp: accepted_def wire_page_size_def split: sum.splits if_splits)
  ultimately have "server_remote S ping broken net e t q w = (Inl broken, w')" for e t
    using assms(4) by (simp add: server_remote_def answered_def)
  then show ?thesis unfolding run_accepted [OF ok] by (simp add: after_call_def)
qed

text \<open>A client with the settings of its environment, and a server on an empty database.\<close>

definition sample_cli :: cli where
  "sample_cli = \<lparr>cli_env = bare_environment, cli_renderer = sample_renderer, grpc_NewClient = (\<lambda>_. None),
     parse_rfc3339 = (\<lambda>s. case parse_int s of Inr n \<Rightarrow> Inr (n * second) | Inl _ \<Rightarrow> Inl ''no date''),
     timestamppb_New = timestamp_New seconds_nanos\<rparr>"

definition sample_settings :: Settings where
  "sample_settings = \<lparr>set_Endpoint = ''localhost:9000'', set_Output = ''table'', set_Timeout = DefaultTimeout, set_PageSize = 50\<rparr>"

lemma sample_resolved: "resolveAndValidate bare_environment \<lparr>gf_config = [], gf_flags = no_flags\<rparr> = Inr sample_settings"
  by (simp add: resolveAndValidate_def resolveSettings_def loadConfig_def ResolvePath_def bare_environment_def Resolve_def
      pickString_def pickTimeout_def pickPageSize_def no_flags_def empty_file_def ValidateOutput_def sample_settings_def)

lemma sample_dials: "Dial sample_cli ''localhost:9000'' = None"
proof -
  have t: "trim_space ''localhost:9000'' = ''localhost:9000''" by code_simp
  show ?thesis unfolding Dial_def validateEndpoint_def t by (simp add: sample_cli_def trim_chars_def)
qed


end
