(* ===== verification/Startup.thy ===== *)
theory Startup
  imports Page_Token
begin

text \<open>
  Around the server: the database settings (\<open>internal/conf/database.go\<close>, \<open>NewData\<close> of
  \<open>internal/data/data.go\<close>), the files of the web interface (\<open>internal/server/static.go\<close>) and
  the session file of the Telegram client (\<open>internal/data/telegram_session_storage.go\<close>).
\<close>

section \<open>Database settings\<close>

record Database =
  db_Host :: string
  db_Port :: "32 word"
  db_Database :: string
  db_User :: string
  db_Password :: string
  db_Sslmode :: string

text \<open>The defaults are filled in before the checks, and stay filled in when a check fails.\<close>

definition ValidateAndNormalizeDatabase :: "Database \<Rightarrow> error option \<times> Database" where
  "ValidateAndNormalizeDatabase c =
     (let c = (if db_Host c = [] then c\<lparr>db_Host := ''127.0.0.1''\<rparr> else c);
          c = (if db_Port c = 0 then c\<lparr>db_Port := 5432\<rparr> else c) in
      if db_Database c = [] then (Some (Text ''database is required''), c)
      else if db_User c = [] then (Some (Text ''user is required''), c)
      else if db_Password c = [] then (Some (Text ''password is required''), c)
      else if db_Sslmode c = [] then (Some (Text ''sslmode is required''), c)
      else (None, c))"

definition database_dsn :: "Database \<Rightarrow> string" where
  "database_dsn c =
     ''postgres://'' @ db_User c @ '':'' @ db_Password c @ ''@'' @ db_Host c @ '':'' @ itoa (sint (db_Port c)) @
     ''/'' @ db_Database c @ ''?sslmode='' @ db_Sslmode c"

lemma ValidateAndNormalizeDatabase_complete:
  "ValidateAndNormalizeDatabase c = (None, c') \<Longrightarrow>
     db_Host c' \<noteq> [] \<and> db_Port c' \<noteq> 0 \<and> db_Database c' \<noteq> [] \<and> db_User c' \<noteq> [] \<and> db_Password c' \<noteq> [] \<and> db_Sslmode c' \<noteq> []"
  by (auto simp: ValidateAndNormalizeDatabase_def Let_def split: if_splits)

lemma ValidateAndNormalizeDatabase_again:
  "ValidateAndNormalizeDatabase (snd (ValidateAndNormalizeDatabase c)) = ValidateAndNormalizeDatabase c"
  by (simp add: ValidateAndNormalizeDatabase_def Let_def)

text \<open>
  The address is put together without escaping: a password with the at sign is read back by the
  driver as part of a host.
\<close>

lemma database_dsn_ambiguous:
  "database_dsn \<lparr>db_Host = ''h'', db_Port = 1, db_Database = ''d'', db_User = ''u'', db_Password = ''p@x:2/y?z'', db_Sslmode = ''s''\<rparr> =
   database_dsn \<lparr>db_Host = ''x:2/y?z@h'', db_Port = 1, db_Database = ''d'', db_User = ''u'', db_Password = ''p'', db_Sslmode = ''s''\<rparr>"
  by (simp add: database_dsn_def)

section \<open>The web interface\<close>

text \<open>\<open>path.Ext\<close>: from the last dot of the last element of the path.\<close>

definition path_ext :: "string \<Rightarrow> string" where
  "path_ext p =
     (let tail = takeWhile (\<lambda>c. c \<noteq> CHR ''.'' \<and> c \<noteq> CHR ''/'') (rev p);
          rest = drop (length tail) (rev p) in
      if rest \<noteq> [] \<and> hd rest = CHR ''.'' then CHR ''.'' # rev tail else [])"

text \<open>The file server answers for a path of the request, or the handler with 404.\<close>

datatype spa_answer = FileServer string | HttpNotFound

definition NewSPAHandler :: "(string \<Rightarrow> bool) \<Rightarrow> string \<Rightarrow> spa_answer" where
  "NewSPAHandler opens url_path =
     (let p = (if url_path \<noteq> [] \<and> hd url_path = CHR ''/'' then tl url_path else url_path);
          p = (if p = [] then ''index.html'' else p) in
      if opens p then FileServer url_path
      else if path_ext p \<noteq> [] then HttpNotFound
      else FileServer ''/'')"

text \<open>A route of the application is answered with the page, a missing asset is not.\<close>

lemma spa_route: "\<not> opens p \<Longrightarrow> path_ext p = [] \<Longrightarrow> p \<noteq> [] \<Longrightarrow> NewSPAHandler opens (CHR ''/'' # p) = FileServer ''/''"
  by (simp add: NewSPAHandler_def Let_def)

lemma spa_missing_asset: "\<not> opens p \<Longrightarrow> path_ext p \<noteq> [] \<Longrightarrow> NewSPAHandler opens (CHR ''/'' # p) = HttpNotFound"
proof -
  have "path_ext [] = []" by (simp add: path_ext_def)
  then show "\<not> opens p \<Longrightarrow> path_ext p \<noteq> [] \<Longrightarrow> NewSPAHandler opens (CHR ''/'' # p) = HttpNotFound"
    by (auto simp: NewSPAHandler_def Let_def)
qed

section \<open>The session file\<close>

text \<open>AES-256-GCM: sealing and opening under a key and a nonce; what is sealed opens again.\<close>

record gcm =
  gcm_Seal :: "string \<Rightarrow> string \<Rightarrow> string \<Rightarrow> string"
  gcm_Open :: "string \<Rightarrow> string \<Rightarrow> string \<Rightarrow> error + string"

definition gcm_laws :: "gcm \<Rightarrow> bool" where
  "gcm_laws G \<longleftrightarrow> (\<forall>k n p. gcm_Open G k n (gcm_Seal G k n p) = Inr p)"

abbreviation NonceSize :: nat where "NonceSize \<equiv> 12"

datatype session_storage = FileStorage string | EncryptedFileStorage string string

definition sessionStorageFromEnv :: "string \<Rightarrow> string \<Rightarrow> session_storage result" where
  "sessionStorageFromEnv keyStr path =
     (if keyStr = [] then Inr (FileStorage path)
      else case b64_decode keyStr of
             None \<Rightarrow> Inl (errorf_ctx ''TG_SESSION_KEY: invalid base64'' (Text ''illegal base64 data''))
           | Some key \<Rightarrow>
               (if length key \<noteq> 32 then
                  Inl (Text (''TG_SESSION_KEY: must decode to exactly 32 bytes, got '' @ itoa (int (length key))))
                else Inr (EncryptedFileStorage path key)))"

text \<open>The file system: the contents of a path; a read or a write may be refused.\<close>

type_synonym files = "string \<Rightarrow> string option"

definition decrypt :: "gcm \<Rightarrow> string \<Rightarrow> string \<Rightarrow> string result" where
  "decrypt G key data =
     (if length data < NonceSize then Inl (Text ''session file too short to contain nonce'')
      else gcm_Open G key (take NonceSize data) (drop NonceSize data))"

definition encrypt :: "gcm \<Rightarrow> string \<Rightarrow> string result \<Rightarrow> string \<Rightarrow> string result" where
  "encrypt G key random plaintext =
     (case random of Inl err \<Rightarrow> Inl err | Inr nonce \<Rightarrow> Inr (nonce @ gcm_Seal G key nonce plaintext))"

definition LoadSession :: "gcm \<Rightarrow> string \<Rightarrow> string \<Rightarrow> error option \<Rightarrow> files \<Rightarrow> string result" where
  "LoadSession G path key refused fs =
     (case refused of
        Some err \<Rightarrow> Inl err
      | None \<Rightarrow>
          (case fs path of
             None \<Rightarrow> Inl (Text ''session storage: not found'')
           | Some data \<Rightarrow> decrypt G key data))"

text \<open>\<open>os.WriteFile\<close> truncates the file before it writes: a write that breaks off leaves a part.\<close>

datatype write_outcome = Written | OpenRefused error | BrokenOff nat error

fun WriteFile :: "string \<Rightarrow> string \<Rightarrow> write_outcome \<Rightarrow> files \<Rightarrow> error option \<times> files" where
  "WriteFile path data Written fs = (None, fs(path := Some data))"
| "WriteFile path data (OpenRefused err) fs = (Some err, fs)"
| "WriteFile path data (BrokenOff n err) fs = (Some err, fs(path := Some (take n data)))"

definition StoreSession ::
  "gcm \<Rightarrow> string \<Rightarrow> string \<Rightarrow> string result \<Rightarrow> write_outcome \<Rightarrow> string \<Rightarrow> files \<Rightarrow> error option \<times> files" where
  "StoreSession G path key random outcome plaintext fs =
     (case encrypt G key random plaintext of
        Inl err \<Rightarrow> (Some err, fs)
      | Inr ciphertext \<Rightarrow> WriteFile path ciphertext outcome fs)"

text \<open>A session that was stored is the one that is loaded, under the same key; other files stay.\<close>

lemma StoreSession_LoadSession:
  assumes "gcm_laws G" "length nonce = NonceSize" "StoreSession G path key (Inr nonce) Written plaintext fs = (None, fs')"
  shows "LoadSession G path key None fs' = Inr plaintext" and "p \<noteq> path \<Longrightarrow> fs' p = fs p"
  using assms by (auto simp: StoreSession_def encrypt_def LoadSession_def decrypt_def gcm_laws_def)

text \<open>A write that breaks off loses the session that was there.\<close>

lemma StoreSession_broken_off:
  assumes "length nonce = NonceSize" "n < NonceSize"
  shows "LoadSession G path key None (snd (StoreSession G path key (Inr nonce) (BrokenOff n err) plaintext fs)) =
    Inl (Text ''session file too short to contain nonce'')"
  using assms by (simp add: StoreSession_def encrypt_def LoadSession_def decrypt_def)

lemma session_key_decodes:
  "length key = 32 \<Longrightarrow> sessionStorageFromEnv (b64_encode key) path = Inr (EncryptedFileStorage path key)"
  by (auto simp: sessionStorageFromEnv_def)

end
