(* ===== verification/Spec2Isabelle.thy ===== *)
theory Spec2Isabelle
  imports Post_Lifecycle Ctl_Server Startup
begin

text \<open>
  feedium: a verification development of the server, its background tasks and its client.

  THE PROGRAM. feedium collects posts from Telegram, feeds and web pages, has a language model
  summarize them, scores the summaries against the user's interests with embeddings, and
  serves a ranked feed. One PostgreSQL database holds everything. Posts enter through
  \<open>PostUsecase.Create\<close>, called by the API and by the collectors; for a self-contained source the
  creation puts an event into \<open>summary_events\<close> in the same transaction, for a cumulative one the
  source scheduler (or a manual trigger) does so when the source is due. Workers of the
  summarization pool claim events under a lease, ask a provider, store a summary and settle the
  event; a second pool of the same shape scores posts and digests from \<open>score_events\<close>. Reapers
  settle events whose worker died. The feed is a query over scores, summaries and reactions.
  \<open>feediumctl\<close> is the command line client of the API.

  HOW THE CODE IS MODELLED. A Go function is a HOL function with the name of the source, from its
  arguments and a \<open>world\<close> to its result and a world; an \<open>(x, error)\<close> pair is a sum, \<open>Inl\<close> the error,
  and errors are trees of wrapped sentinels that \<open>errors_is\<close> searches as \<open>errors.Is\<close> does. A \<open>world\<close>
  (\<open>Store\<close>) has the committed tables, the open transaction if there is one with its working
  copy, and streams of what comes from outside: readings of the clock, fresh identifiers, the
  fate of every statement (it runs, is refused, or runs and its answer is lost), the rows other
  transactions have locked, the state of the context, the answers of the providers. A SQL statement is a function on the
  tables at an instant (\<open>stmt\<close>), with its WHERE clause, locks and constraints written out; an
  error inside a transaction makes every later statement and the commit fail, as PostgreSQL
  does. \<open>InTx\<close> is \<open>txManager.InTx\<close>. A theorem for every world is one for every fault, clock and
  provider; \<open>fault_free\<close> is the assumption that no statement fails. Instants are integers of
  nanoseconds, durations 64-bit words, identifiers 128-bit words, message integers 32-bit words
  read with \<open>sint\<close>; strings are byte strings; \<open>float64\<close> is binary64 with its rounding (\<open>Float64\<close>), and
  the \<open>float32\<close> components of vectors are such values, their conversion being exact. Go's integer
  \<open>int\<close> of counts and page sizes, which stays far from 64 bits, is \<open>int\<close>. A panic is a value of
  \<open>outcome\<close>. What a server serves to the browser depends on the files it was built with.

  THEORIES, BY PART OF THE PROGRAM (paths below \<open>src/internal\<close> unless given in full).
  \<^item> Ground: \<open>Prelude\<close> (collections of rules, streams, lists), \<open>Go_Base\<close> (time, strings, decimal
    numbers, quoting), \<open>Errors\<close> (error trees, sentinels of \<open>biz\<close>), \<open>Float64\<close>, \<open>Sha256\<close>.
  \<^item> Domain: \<open>Domain\<close> (types, modes and validation of \<open>biz\<close>), \<open>Retry\<close> (\<open>biz/summary_retry.go\<close>).
  \<^item> Storage: \<open>Store\<close> (world, statements, \<open>data/tx_manager.go\<close>), \<open>Lease\<close> and \<open>Tables\<close> (guarded
    writes on the tables of \<open>src/migrations\<close>), \<open>Effects\<close>, \<open>Tx_Base\<close> and \<open>Repo_Base\<close> (reasoning about
    statements and transactions), \<open>Schema\<close> (the constraints as predicates, every write keeps them).
  \<^item> Listings: \<open>Page_Token\<close> (\<open>data/page_token.go\<close>, base64), \<open>Keyset\<close> (pages in general).
  \<^item> Outboxes: \<open>Summary_Outbox\<close>, \<open>Score_Outbox\<close> (\<open>data/summary_outbox_repo.go\<close>,
    \<open>data/score_outbox_repo.go\<close>), \<open>Summary_Outbox_Lease\<close>, \<open>Score_Outbox_Lease\<close> (their contracts).
  \<^item> Sources: \<open>Source_Repo\<close>, \<open>Source_Usecase\<close>. Posts: \<open>Post_Repo\<close>, \<open>Post_Paging\<close>, \<open>Post_Usecase\<close>.
  \<^item> Summaries: \<open>Summary_Repo\<close>, \<open>LLM\<close> (prompts, router, providers, retry), \<open>Summary_Window\<close> (text of a
    digest), \<open>Summary_Usecase\<close>, with what it does in \<open>Summary_Processing\<close>, \<open>Summary_Digest\<close>,
    \<open>Summary_Scheduling\<close>.
  \<^item> Scores: \<open>Interest\<close>, \<open>Relevance\<close>, \<open>Score_Repo\<close>, \<open>Score_Usecase\<close>, \<open>Score_Processing\<close>. Feed and
    reactions: \<open>Feed_Repo\<close>, \<open>Feed\<close>.
  \<^item> Tasks (\<open>task/*.go\<close>): \<open>Worker_Loop\<close>, \<open>Worker_Pool\<close>, \<open>Score_Worker_Pool\<close>, \<open>Calm\<close> and \<open>Pool_Steps\<close>
    (workers side by side), \<open>Reaping\<close>, \<open>Schedulers\<close>, \<open>Collect\<close> (\<open>biz/collect.go\<close>), \<open>Fetchers\<close>
    (\<open>data/rss_fetcher.go\<close>, \<open>data/web_fetcher.go\<close>, \<open>data/telegram_session.go\<close>), \<open>Collectors\<close>,
    \<open>Collector_Runs\<close>.
  \<^item> API: \<open>Api_Base\<close>, \<open>Source_Service\<close>, \<open>Services\<close> (\<open>service/*\<close>), \<open>Api\<close> (all requests), \<open>Health\<close>
    (\<open>service/health\<close>), \<open>Startup\<close> (database settings, static files, session file).
  \<^item> Whole program: \<open>Invariants\<close> (what statements keep, operations keep), \<open>System\<close> (steps, reachable
    states), \<open>Post_Lifecycle\<close> (a post from its creation to its summary).
  \<^item> Client (\<open>src/cmd/feediumctl\<close>): \<open>Ctl_Settings\<close>, \<open>Ctl_Render\<close>, \<open>Ctl\<close>, and \<open>Ctl_Server\<close> (client against
    server).

  INTERFACES. A contract several parts rely on is a locale, interpreted on the definitions of
  the code. \<open>lease_outbox\<close> (claim, extend, settle: who may change a row while a lease lives) on
  both outboxes; \<open>worker_pool\<close> (when a worker drains its queue) on both pools; \<open>reaper\<close> on both
  reapers; \<open>paged_listing\<close> (walking pages yields the listing, once and in order) on sources,
  posts and the feed; \<open>service_errors\<close> (errors are answered with fixed texts) on the five error
  mappings; \<open>fetcher\<close> and \<open>collecting\<close> on both polling collectors; \<open>kept_by_statements\<close> (a property
  of the tables that every statement keeps is kept by every use case, handler, worker and
  collector) on \<open>schema_ok\<close>.

  WHAT IS SHOWN. Every property is a theorem whose text begins with its number.
  \<^item> The queue: while a lease lives no other worker changes the row; leases stay well formed under
    any operations, faults and clocks; terminal rows are final; an entity has at most one active
    event; in any interleaving of workers, heartbeats, reaper, enqueuers and crashes no event gets
    beyond the budget of attempts; without faults a worker drains its queue; what a worker writes
    is what the result of the handler calls for.
  \<^item> The data: all constraints of the schema hold in every reachable state; a post is created
    with its event or not at all; a post has at most one summary, even when processing fails
    anywhere; a digest is asked for on exactly the window text; a score is the relevance of the
    entity's text; scheduling moves a date and enqueues together; what is created through the
    API or the command line is what is read and listed; a created post gets its summary in the
    next turn of a worker, when nothing fails.
  \<^item> Listings and the feed: walks through the pages are complete and without repetition; a page
    of the feed is ordered and filtered; a like can hide items (a finding).
  \<^item> Collectors: which posts a tick may add whatever fails, and that it adds all when nothing does;
    what feeds and pages are read as; to which source a message goes.
  \<^item> Edges: no error text leaves the server; failing health checks are logged at most once a
    second, in any interleaving; the client sends the request it should or none, its page size
    survives the 32-bit field, its output ends with one newline.

  BOUNDS AND FUEL. Loops of unknown length take fuel and yield \<open>None\<close> when it ends; each has a
  theorem with enough of it. Walking posts or collecting a digest takes one page more than there
  are posts; collectors one page more than there are sources; a tick of the source scheduler one
  turn more than there are due cumulative sources without an active event; a worker as many turns
  as the events have attempts left. The stop signals of the loops are streams of booleans.

  ASSUMPTIONS ON OTHER CODE are records of functions with named laws: \<open>ext\<close> and \<open>ext_laws\<close> (texts of
  UUIDs and instants parse back and contain no bar), \<open>pb\<close> and \<open>pb_laws\<close> (protobuf timestamps),
  \<open>float_text\<close> (text of a \<open>float64\<close>), \<open>internet\<close> (HTTP exchanges, XML and HTML tokenizers, dates of
  feeds), \<open>gcm\<close>, \<open>environment\<close>, \<open>renderer\<close> and \<open>cli\<close> for the client. Each has a concrete instance
  that satisfies the laws, used by the witnesses.

  SYSTEM STEPS. A step of \<open>system_step\<close> is a whole API call, run of a worker, scheduler, reaper or
  collector, or any change of clock, faults and answers. A process that dies in an operation is
  one whose remaining statements are refused. The interleaving of statements of different
  operations is treated where it matters most, in the queue (\<open>Pool_Steps\<close>: handlers of any
  number of steps; locks held by others are a stream) and in the health logger; elsewhere
  operations are one after the other.

  NOT MODELLED. The generated code: the \<open>ent\<close> client (the repositories' queries are modelled as
  the SQL they issue), the protobuf and HTTP bindings of \<open>src/api\<close> and \<open>conf.pb.go\<close> (messages are
  records, the wire format is left out). Starting and stopping goroutines and processes
  (\<open>Start\<close>, \<open>Stop\<close>, the wiring of \<open>src/cmd/feedium\<close>, \<open>src/cmd/migrate\<close>): calls of libraries, whose
  effect on the loops is the stream of stop signals. The login of \<open>src/cmd/tg-login\<close> and the
  connection of the Telegram session: a dialogue with the Telegram library. Reading of arguments by
  the command line library. Logging, except the throttled one. The TypeScript interface.
\<close>

end
